(* ===== verification/Core_Values.thy ===== *)
theory Core_Values
  imports Prelude
begin

text \<open>
  The domain values of \<open>crates/krometrail-core\<close> the storage layer exchanges: typed identifiers
  (\<open>ids.rs\<close>), the three clocks (\<open>time.rs\<close>), frame addresses (\<open>recording/address.rs\<close>) and
  captured frames (\<open>recording/frame.rs\<close>). Each validating constructor returns a sum whose error
  is the message the source reports, and the predicates \<open>wf_\<dots>\<close> are what these constructors
  establish. An \<open>f64\<close> is its IEEE-754 bit pattern, so that finiteness and sign are bit tests.
\<close>

datatype core_error =
    ObservedTimePrecedesOrigin
  | SessionRangeReversed
  | ZeroPixelDimension
  | DeviceScaleNotPositive
  | ZeroCaptureOrdinal
  | SessionTimeExceedsObserved
  | EmptyFramePayload

section \<open>Identifiers\<close>

text \<open>A UUID is its 128-bit value; its byte form is the big-endian one (\<open>Uuid::as_bytes\<close>).\<close>

type_synonym uuid = u128

datatype session_id = SessionId (session_uuid: uuid)
datatype target_id = TargetId (target_uuid: uuid)
datatype frame_id = FrameId (frame_uuid: uuid)
datatype segment_id = SegmentId (segment_uuid: uuid)

instantiation segment_id :: linorder
begin
definition less_eq_segment_id :: "segment_id \<Rightarrow> segment_id \<Rightarrow> bool" where
  "less_eq_segment_id a b \<longleftrightarrow> segment_uuid a \<le> segment_uuid b"
definition less_segment_id :: "segment_id \<Rightarrow> segment_id \<Rightarrow> bool" where
  "less_segment_id a b \<longleftrightarrow> segment_uuid a < segment_uuid b"
instance
  by standard (auto simp: less_eq_segment_id_def less_segment_id_def intro: segment_id.expand)
end

section \<open>Clocks\<close>

datatype observed_time = ObservedTime (observed_nanos: u64)
datatype session_time = SessionTime (session_nanos: u64)
datatype source_time = SourceTime (source_nanos: u128)

instantiation observed_time :: linorder
begin
definition less_eq_observed_time :: "observed_time \<Rightarrow> observed_time \<Rightarrow> bool" where
  "less_eq_observed_time a b \<longleftrightarrow> observed_nanos a \<le> observed_nanos b"
definition less_observed_time :: "observed_time \<Rightarrow> observed_time \<Rightarrow> bool" where
  "less_observed_time a b \<longleftrightarrow> observed_nanos a < observed_nanos b"
instance
  by standard (auto simp: less_eq_observed_time_def less_observed_time_def
      intro: observed_time.expand)
end

instantiation session_time :: linorder
begin
definition less_eq_session_time :: "session_time \<Rightarrow> session_time \<Rightarrow> bool" where
  "less_eq_session_time a b \<longleftrightarrow> session_nanos a \<le> session_nanos b"
definition less_session_time :: "session_time \<Rightarrow> session_time \<Rightarrow> bool" where
  "less_session_time a b \<longleftrightarrow> session_nanos a < session_nanos b"
instance
  by standard (auto simp: less_eq_session_time_def less_session_time_def
      intro: session_time.expand)
end

record session_origin =
  origin_observed :: observed_time

definition normalize_time :: "session_origin \<Rightarrow> observed_time \<Rightarrow> core_error + session_time" where
  "normalize_time origin t =
     ok_or ObservedTimePrecedesOrigin
       (map_option SessionTime
         (checked_sub (observed_nanos t) (observed_nanos (origin_observed origin))))"

record session_range =
  range_start :: session_time
  range_end :: session_time

definition session_range_new :: "session_time \<Rightarrow> session_time \<Rightarrow> core_error + session_range" where
  "session_range_new s e =
     (if s > e then Inl SessionRangeReversed
      else Inr \<lparr>range_start = s, range_end = e\<rparr>)"

definition range_contains :: "session_range \<Rightarrow> session_time \<Rightarrow> bool" where
  "range_contains r t \<longleftrightarrow>
     session_nanos t \<ge> session_nanos (range_start r) \<and>
     session_nanos t \<le> session_nanos (range_end r)"

lemma normalize_time_mono:
  "normalize_time o1 s = Inr s' \<Longrightarrow> normalize_time o1 t = Inr t' \<Longrightarrow> s \<le> t \<longleftrightarrow> s' \<le> t'"
  by (auto simp: normalize_time_def result_simps checked_sub_Some_iff less_eq_session_time_def
      less_eq_observed_time_def word_le_nat_alt)

lemma session_range_new_contains:
  "session_range_new s e = Inr r \<Longrightarrow> range_contains r t \<longleftrightarrow> s \<le> t \<and> t \<le> e"
  by (auto simp: session_range_new_def range_contains_def less_eq_session_time_def
      split: if_splits)

section \<open>Addresses\<close>

datatype byte_offset = ByteOffset (offset_value: u64)

instantiation byte_offset :: linorder
begin
definition less_eq_byte_offset :: "byte_offset \<Rightarrow> byte_offset \<Rightarrow> bool" where
  "less_eq_byte_offset a b \<longleftrightarrow> offset_value a \<le> offset_value b"
definition less_byte_offset :: "byte_offset \<Rightarrow> byte_offset \<Rightarrow> bool" where
  "less_byte_offset a b \<longleftrightarrow> offset_value a < offset_value b"
instance
  by standard (auto simp: less_eq_byte_offset_def less_byte_offset_def
      intro: byte_offset.expand)
end

record frame_address =
  addr_segment :: segment_id
  addr_offset :: byte_offset

section \<open>Captured frames\<close>

datatype image_format = Jpeg | Png

record pixel_dimensions =
  pixel_width :: u32
  pixel_height :: u32

definition pixel_dimensions_new :: "u32 \<Rightarrow> u32 \<Rightarrow> core_error + pixel_dimensions" where
  "pixel_dimensions_new w h =
     (if w \<noteq> 0 \<and> h \<noteq> 0 then Inr \<lparr>pixel_width = w, pixel_height = h\<rparr>
      else Inl ZeroPixelDimension)"

definition f64_is_finite :: "u64 \<Rightarrow> bool" where
  "f64_is_finite b \<longleftrightarrow> and b 0x7FF0000000000000 \<noteq> 0x7FF0000000000000"

text \<open>\<open>value > 0.0\<close> for a value that is not a NaN: sign bit clear and not zero.\<close>

definition f64_exceeds_zero :: "u64 \<Rightarrow> bool" where
  "f64_exceeds_zero b \<longleftrightarrow> and b 0x8000000000000000 = 0 \<and> b \<noteq> 0"

datatype device_scale_factor = DeviceScaleFactor (scale_bits: u64)

definition device_scale_factor_new :: "u64 \<Rightarrow> core_error + device_scale_factor" where
  "device_scale_factor_new b =
     (if f64_is_finite b \<and> f64_exceeds_zero b then Inr (DeviceScaleFactor b)
      else Inl DeviceScaleNotPositive)"

datatype capture_ordinal = CaptureOrdinal (ordinal_value: u64)

definition capture_ordinal_new :: "u64 \<Rightarrow> core_error + capture_ordinal" where
  "capture_ordinal_new v = (if v \<noteq> 0 then Inr (CaptureOrdinal v) else Inl ZeroCaptureOrdinal)"

datatype capture_warning = MissingSourceTime | SourceTimestampRounded | ViewportMetadataIncomplete

record captured_frame =
  cf_id :: frame_id
  cf_session_id :: session_id
  cf_target_id :: target_id
  cf_capture_ordinal :: capture_ordinal
  cf_source_time :: "source_time option"
  cf_observed_time :: observed_time
  cf_session_time :: session_time
  cf_format :: image_format
  cf_image :: pixel_dimensions
  cf_viewport :: pixel_dimensions
  cf_device_scale_factor :: device_scale_factor
  cf_warnings :: "capture_warning list"

definition captured_frame_validate :: "captured_frame \<Rightarrow> core_error + unit" where
  "captured_frame_validate f =
     (if session_nanos (cf_session_time f) > observed_nanos (cf_observed_time f)
      then Inl SessionTimeExceedsObserved else Inr ())"

definition captured_frame_new :: "captured_frame \<Rightarrow> core_error + captured_frame" where
  "captured_frame_new f = and_then (captured_frame_validate f) (\<lambda>_. Inr f)"

definition same_visual_epoch :: "captured_frame \<Rightarrow> captured_frame \<Rightarrow> bool" where
  "same_visual_epoch f g \<longleftrightarrow>
     cf_image f = cf_image g \<and> cf_viewport f = cf_viewport g \<and>
     scale_bits (cf_device_scale_factor f) = scale_bits (cf_device_scale_factor g)"

record encoded_frame =
  ef_metadata :: captured_frame
  ef_bytes :: byte_string

definition encoded_frame_new :: "captured_frame \<Rightarrow> byte_string \<Rightarrow> core_error + encoded_frame" where
  "encoded_frame_new m bs =
     and_then (captured_frame_validate m) (\<lambda>_.
       if bs = [] then Inl EmptyFramePayload
       else Inr \<lparr>ef_metadata = m, ef_bytes = bs\<rparr>)"

definition frame_byte_len :: "encoded_frame \<Rightarrow> u64" where
  "frame_byte_len f = word_of_nat (length (ef_bytes f))"

subsection \<open>What the constructors establish\<close>

definition wf_dimensions :: "pixel_dimensions \<Rightarrow> bool" where
  "wf_dimensions d \<longleftrightarrow> pixel_width d \<noteq> 0 \<and> pixel_height d \<noteq> 0"

definition wf_scale :: "device_scale_factor \<Rightarrow> bool" where
  "wf_scale s \<longleftrightarrow> f64_is_finite (scale_bits s) \<and> f64_exceeds_zero (scale_bits s)"

definition wf_captured_frame :: "captured_frame \<Rightarrow> bool" where
  "wf_captured_frame f \<longleftrightarrow>
     ordinal_value (cf_capture_ordinal f) \<noteq> 0 \<and>
     wf_dimensions (cf_image f) \<and> wf_dimensions (cf_viewport f) \<and>
     wf_scale (cf_device_scale_factor f) \<and>
     session_nanos (cf_session_time f) \<le> observed_nanos (cf_observed_time f)"

definition wf_encoded_frame :: "encoded_frame \<Rightarrow> bool" where
  "wf_encoded_frame f \<longleftrightarrow> wf_captured_frame (ef_metadata f) \<and> ef_bytes f \<noteq> []"

lemma pixel_dimensions_new_Inr [result_simps]:
  "pixel_dimensions_new w h = Inr d \<longleftrightarrow> wf_dimensions d \<and> pixel_width d = w \<and> pixel_height d = h"
  by (cases d) (auto simp: pixel_dimensions_new_def wf_dimensions_def)

lemma device_scale_factor_new_Inr [result_simps]:
  "device_scale_factor_new b = Inr s \<longleftrightarrow> wf_scale s \<and> scale_bits s = b"
  by (cases s) (auto simp: device_scale_factor_new_def wf_scale_def)

lemma capture_ordinal_new_Inr [result_simps]:
  "capture_ordinal_new v = Inr c \<longleftrightarrow> ordinal_value c = v \<and> v \<noteq> 0"
  by (cases c) (auto simp: capture_ordinal_new_def)

lemma captured_frame_new_Inr [result_simps]:
  "captured_frame_new f = Inr g \<longleftrightarrow>
     g = f \<and> session_nanos (cf_session_time f) \<le> observed_nanos (cf_observed_time f)"
  by (auto simp: captured_frame_new_def captured_frame_validate_def)

lemma encoded_frame_new_Inr [result_simps]:
  "encoded_frame_new m bs = Inr f \<longleftrightarrow>
     f = \<lparr>ef_metadata = m, ef_bytes = bs\<rparr> \<and> bs \<noteq> [] \<and>
     session_nanos (cf_session_time m) \<le> observed_nanos (cf_observed_time m)"
  by (auto simp: encoded_frame_new_def captured_frame_validate_def)

lemma same_visual_epoch_equivp: "equivp same_visual_epoch"
  by (auto intro!: equivpI reflpI sympI transpI simp: same_visual_epoch_def)

end
