(* ===== verification/Wire.thy ===== *)
theory Wire
  imports Core_Values
begin

text \<open>
  Big-endian integers and the bounds-checked cursor \<open>WireReader\<close> of
  \<open>crates/krometrail-store/src/segments/wire.rs\<close>. The locale \<open>fixed_width_codec\<close> is the
  contract between a field's encoder (\<open>to_be_bytes\<close>) and its decoder (\<open>from_be_bytes\<close>): both
  directions of the round trip at a fixed width. What a reader returns for a field is proved once
  inside it and instantiated at each width.
\<close>

datatype (plugins only: code) format_error =
    SegmentLengthOverflow
  | SegmentDataEnded
  | HeaderWrongLength nat
  | HeaderCrcMismatch
  | HeaderMagicInvalid
  | UnsupportedVersion u16
  | FooterWrongLength nat
  | FooterCrcMismatch
  | FooterMagicInvalid
  | FooterTimesReversed
  | TooManyWarnings
  | MetadataHeaderTooLarge
  | PayloadTooLarge
  | RecordKindNotFrame
  | RecordLengthOverflow
  | RecordEndedEarly
  | RecordCrcMismatch
  | InvalidStoredFrame core_error
  | InvalidPresenceCode u8
  | InvalidFormatCode u8
  | InvalidWarningCode u8
  | MetadataTrailingBytes
  | SegmentShorterThanHeader
  | ScanBaseInsideHeader
  | ScanBaseBeyondEnd
  | AddressInsideHeader
  | HeaderNotReadable
  | AddressSegmentMismatch
  | PrefixNotReadable
  | RecordNotReadable
  | UnreachablePanic
  | CapacityOverflowPanic

section \<open>Big-endian byte strings\<close>

fun be_encode :: "nat \<Rightarrow> nat \<Rightarrow> byte_string" where
  "be_encode 0 v = []"
| "be_encode (Suc n) v = be_encode n (v div 256) @ [word_of_nat (v mod 256)]"

definition be_decode :: "byte_string \<Rightarrow> nat" where
  "be_decode bs = foldl (\<lambda>acc b. 256 * acc + unat b) 0 bs"

lemma length_be_encode [simp]: "length (be_encode n v) = n"
  by (induction n arbitrary: v) auto

lemma be_decode_snoc: "be_decode (bs @ [b]) = 256 * be_decode bs + unat b"
  by (simp add: be_decode_def)

lemma unat_byte_mod: "unat (word_of_nat (v mod 256) :: u8) = v mod 256"
  by (simp add: unat_of_nat)

lemma be_decode_encode: "v < 256 ^ n \<Longrightarrow> be_decode (be_encode n v) = v"
proof (induction n arbitrary: v)
  case 0
  then show ?case by (simp add: be_decode_def)
next
  case (Suc n)
  then have "v div 256 < 256 ^ n"
    by (simp add: less_mult_imp_div_less mult.commute)
  then show ?case
    by (simp add: be_decode_snoc Suc.IH unat_byte_mod)
qed

lemma be_encode_decode: "be_encode (length bs) (be_decode bs) = bs"
proof (induction bs rule: rev_induct)
  case Nil
  then show ?case by simp
next
  case (snoc b bs)
  have "unat b < 256"
    using unsigned_less [of b] by simp
  then show ?case
    using snoc by (simp add: be_decode_snoc)
qed

lemma be_decode_bound: "be_decode bs < 256 ^ length bs"
proof (induction bs rule: rev_induct)
  case Nil
  then show ?case by (simp add: be_decode_def)
next
  case (snoc b bs)
  have "unat b < 256"
    using unsigned_less [of b] by simp
  with snoc show ?case
    by (simp add: be_decode_snoc)
qed

text \<open>\<open>to_be_bytes\<close> and \<open>from_be_bytes\<close> of an unsigned integer of \<open>n\<close> bytes.\<close>

definition to_be_bytes :: "nat \<Rightarrow> 'a::len word \<Rightarrow> byte_string" where
  "to_be_bytes n w = be_encode n (unat w)"

definition from_be_bytes :: "byte_string \<Rightarrow> 'a::len word" where
  "from_be_bytes bs = word_of_nat (be_decode bs)"

lemma length_to_be_bytes [simp]: "length (to_be_bytes n w) = n"
  by (simp add: to_be_bytes_def)

lemma from_to_be_bytes:
  assumes "256 ^ n = (2 :: nat) ^ LENGTH('a)"
  shows "from_be_bytes (to_be_bytes n w) = (w :: 'a::len word)"
proof -
  have "unat w < 256 ^ n"
    unfolding assms by simp
  then show ?thesis
    by (simp add: from_be_bytes_def to_be_bytes_def be_decode_encode)
qed

lemma to_from_be_bytes:
  assumes "256 ^ n = (2 :: nat) ^ LENGTH('a)" and "length bs = n"
  shows "to_be_bytes n (from_be_bytes bs :: 'a::len word) = bs"
proof -
  have "be_decode bs < 2 ^ LENGTH('a)"
    using be_decode_bound [of bs] assms by simp
  then have "unat (from_be_bytes bs :: 'a word) = be_decode bs"
    by (simp add: from_be_bytes_def unat_of_nat)
  then show ?thesis
    using be_encode_decode [of bs] assms(2) by (simp add: to_be_bytes_def)
qed

section \<open>The bounds-checked cursor\<close>

record wire_reader =
  reader_bytes :: byte_string
  reader_offset :: nat

definition reader_new :: "byte_string \<Rightarrow> wire_reader" where
  "reader_new bs = \<lparr>reader_bytes = bs, reader_offset = 0\<rparr>"

definition reader_remaining :: "wire_reader \<Rightarrow> nat" where
  "reader_remaining r = length (reader_bytes r) - reader_offset r"

definition read_bytes :: "wire_reader \<Rightarrow> nat \<Rightarrow> format_error + byte_string \<times> wire_reader" where
  "read_bytes r n =
     and_then (ok_or SegmentLengthOverflow (usize_checked_add (reader_offset r) n)) (\<lambda>e.
       if e \<le> length (reader_bytes r)
       then Inr (take n (drop (reader_offset r) (reader_bytes r)), r\<lparr>reader_offset := e\<rparr>)
       else Inl SegmentDataEnded)"

text \<open>\<open>read_array\<close> for a field of width \<open>n\<close> whose value is \<open>dec\<close> of its bytes.\<close>

definition read_array :: "nat \<Rightarrow> (byte_string \<Rightarrow> 'a) \<Rightarrow> wire_reader \<Rightarrow> format_error + 'a \<times> wire_reader" where
  "read_array n dec r = and_then (read_bytes r n) (\<lambda>(bs, r'). Inr (dec bs, r'))"

definition read_u8 :: "wire_reader \<Rightarrow> format_error + u8 \<times> wire_reader" where
  "read_u8 = read_array 1 from_be_bytes"

definition read_u16 :: "wire_reader \<Rightarrow> format_error + u16 \<times> wire_reader" where
  "read_u16 = read_array 2 from_be_bytes"

definition read_u32 :: "wire_reader \<Rightarrow> format_error + u32 \<times> wire_reader" where
  "read_u32 = read_array 4 from_be_bytes"

definition read_u64 :: "wire_reader \<Rightarrow> format_error + u64 \<times> wire_reader" where
  "read_u64 = read_array 8 from_be_bytes"

text \<open>An \<open>i128\<close>, an \<open>f64\<close> and a UUID are their bit patterns.\<close>

definition read_i128 :: "wire_reader \<Rightarrow> format_error + u128 \<times> wire_reader" where
  "read_i128 = read_array 16 from_be_bytes"

definition read_f64 :: "wire_reader \<Rightarrow> format_error + u64 \<times> wire_reader" where
  "read_f64 r = read_u64 r"

definition read_uuid :: "wire_reader \<Rightarrow> format_error + u128 \<times> wire_reader" where
  "read_uuid = read_array 16 from_be_bytes"

definition put_uuid :: "byte_string \<Rightarrow> u128 \<Rightarrow> byte_string" where
  "put_uuid out v = out @ to_be_bytes 16 v"

text \<open>On the supported 64-bit hosts every \<open>u64\<close> is a \<open>usize\<close>.\<close>

definition usize_from_u64 :: "u64 \<Rightarrow> format_error + nat" where
  "usize_from_u64 v = Inr (unat v)"

text \<open>A reader that has consumed \<open>pre\<close> and still holds \<open>post\<close>.\<close>

definition reader_at :: "byte_string \<Rightarrow> byte_string \<Rightarrow> wire_reader" where
  "reader_at pre post = \<lparr>reader_bytes = pre @ post, reader_offset = length pre\<rparr>"

lemma reader_new_at: "reader_new bs = reader_at [] bs"
  by (simp add: reader_new_def reader_at_def)

lemma reader_remaining_at [simp]: "reader_remaining (reader_at pre post) = length post"
  by (simp add: reader_remaining_def reader_at_def)

text \<open>What a successful read says about the bytes still held, whatever the reader.\<close>

definition reader_rest :: "wire_reader \<Rightarrow> byte_string" where
  "reader_rest r = drop (reader_offset r) (reader_bytes r)"

lemma reader_rest_new [simp]: "reader_rest (reader_new bs) = bs"
  by (simp add: reader_rest_def reader_new_def)

lemma reader_remaining_rest: "reader_remaining r = length (reader_rest r)"
  by (simp add: reader_remaining_def reader_rest_def)

lemma read_bytes_rest:
  "read_bytes r n = Inr (bs, r') \<Longrightarrow> length bs = n \<and> reader_rest r = bs @ reader_rest r'"
proof -
  have "take n (drop k xs) @ drop (k + n) xs = drop k xs" for k and xs :: byte_string
    by (metis add.commute append_take_drop_id drop_drop)
  then show "read_bytes r n = Inr (bs, r') \<Longrightarrow> ?thesis"
    by (auto simp: read_bytes_def result_simps reader_rest_def split: if_splits)
qed

lemma read_bytes_append [wire_simps]:
  "length pre + length bs < usize_limit \<Longrightarrow> n = length bs \<Longrightarrow>
   read_bytes (reader_at pre (bs @ rest)) n = Inr (bs, reader_at (pre @ bs) rest)"
  by (simp add: read_bytes_def reader_at_def)

section \<open>The contract of a fixed-width field\<close>

locale fixed_width_codec =
  fixes enc :: "'a \<Rightarrow> byte_string"
    and dec :: "byte_string \<Rightarrow> 'a"
    and width :: nat
  assumes enc_length: "length (enc x) = width"
    and dec_enc: "dec (enc x) = x"
    and enc_dec: "length bs = width \<Longrightarrow> enc (dec bs) = bs"
begin

lemma enc_inj: "enc x = enc y \<longleftrightarrow> x = y"
  by (metis dec_enc)

lemma read_rest: "read_array width dec r = Inr (x, r') \<Longrightarrow> reader_rest r = enc x @ reader_rest r'"
  by (auto simp: read_array_def result_simps enc_dec dest!: read_bytes_rest)

lemma read_append:
  assumes "length pre + width < usize_limit"
  shows "read_array width dec (reader_at pre (enc x @ rest)) =
    Inr (x, reader_at (pre @ enc x) rest)"
  using assms by (simp add: read_array_def read_bytes_append enc_length dec_enc)

lemma read_last:
  assumes "length pre + width < usize_limit"
  shows "read_array width dec (reader_at pre (enc x)) = Inr (x, reader_at (pre @ enc x) [])"
  using read_append [of pre x "[]"] assms by simp

lemma read_short:
  assumes "length post < width" and "length pre + width < usize_limit"
  shows "read_array width dec (reader_at pre post) = Inl SegmentDataEnded"
  using assms by (auto simp: read_array_def read_bytes_def reader_at_def)

end

interpretation u8c: fixed_width_codec "to_be_bytes 1" "from_be_bytes :: _ \<Rightarrow> u8" 1
  by unfold_locales (auto intro: from_to_be_bytes to_from_be_bytes)

interpretation u16c: fixed_width_codec "to_be_bytes 2" "from_be_bytes :: _ \<Rightarrow> u16" 2
  by unfold_locales (auto intro: from_to_be_bytes to_from_be_bytes)

interpretation u32c: fixed_width_codec "to_be_bytes 4" "from_be_bytes :: _ \<Rightarrow> u32" 4
  by unfold_locales (auto intro: from_to_be_bytes to_from_be_bytes)

interpretation u64c: fixed_width_codec "to_be_bytes 8" "from_be_bytes :: _ \<Rightarrow> u64" 8
  by unfold_locales (auto intro: from_to_be_bytes to_from_be_bytes)

interpretation u128c: fixed_width_codec "to_be_bytes 16" "from_be_bytes :: _ \<Rightarrow> u128" 16
  by unfold_locales (auto intro: from_to_be_bytes to_from_be_bytes)

lemmas read_field_append [wire_simps] =
  u16c.read_append [folded read_u16_def] u16c.read_last [folded read_u16_def]
  u32c.read_append [folded read_u32_def] u32c.read_last [folded read_u32_def]
  u64c.read_append [folded read_u64_def] u64c.read_last [folded read_u64_def]
  u64c.read_append [folded read_u64_def, folded read_f64_def]
  u64c.read_last [folded read_u64_def, folded read_f64_def]
  u128c.read_append [folded read_i128_def] u128c.read_last [folded read_i128_def]
  u128c.read_append [folded read_uuid_def] u128c.read_last [folded read_uuid_def]

lemma to_be_bytes_1: "to_be_bytes 1 b = [b]" for b :: u8
proof -
  have "unat b < 256"
    using unsigned_less [of b] by simp
  then show ?thesis
    by (simp add: to_be_bytes_def)
qed

lemma read_u8_Cons [wire_simps]:
  "length pre + 1 < usize_limit \<Longrightarrow>
   read_u8 (reader_at pre (b # rest)) = Inr (b, reader_at (pre @ [b]) rest)"
  using u8c.read_append [of pre b rest, folded read_u8_def]
  unfolding to_be_bytes_1 by simp

lemma read_u8_rest: "read_u8 r = Inr (b, r') \<Longrightarrow> reader_rest r = b # reader_rest r'"
  using u8c.read_rest [of r b r', folded read_u8_def]
  unfolding to_be_bytes_1 by simp

lemmas read_field_rest =
  read_u8_rest
  u16c.read_rest [folded read_u16_def]
  u32c.read_rest [folded read_u32_def]
  u64c.read_rest [folded read_u64_def]
  u64c.read_rest [folded read_u64_def, folded read_f64_def]
  u128c.read_rest [folded read_i128_def]
  u128c.read_rest [folded read_uuid_def]

end
