(* ===== verification/Segment_Format.thy ===== *)
theory Segment_Format
  imports Wire
begin

text \<open>
  The fixed blocks at the two ends of a segment file: the 90-byte header
  (\<open>segments/header.rs\<close>) and the 64-byte sealed footer (\<open>segments/footer.rs\<close>), each guarded by a
  CRC-32. The checksum is the third-party crate \<open>crc32fast\<close>, so it is the parameter \<open>crc\<close> of the
  definitions, a function of the bytes hashed; nothing below depends on which function it is.
  The locale \<open>block_codec\<close> is the contract readers rely on: decoding inverts encoding, and only
  encodings decode.
\<close>

type_synonym checksum = "byte_string \<Rightarrow> u32"

section \<open>The contract of a checked block\<close>

locale block_codec =
  fixes enc :: "'a \<Rightarrow> byte_string"
    and dec :: "byte_string \<Rightarrow> format_error + 'a"
    and width :: nat
    and wf :: "'a \<Rightarrow> bool"
  assumes block_length: "length (enc x) = width"
    and block_dec_enc: "wf x \<Longrightarrow> dec (enc x) = Inr x"
    and block_enc_dec: "dec bs = Inr x \<Longrightarrow> wf x \<and> bs = enc x"
begin

lemma dec_iff: "dec bs = Inr x \<longleftrightarrow> wf x \<and> bs = enc x"
  using block_dec_enc block_enc_dec by blast

lemma dec_length: "dec bs = Inr x \<Longrightarrow> length bs = width"
  using block_enc_dec block_length by blast

lemma dec_unique: "dec bs = Inr x \<Longrightarrow> dec bs' = Inr x \<Longrightarrow> bs = bs'"
  using block_enc_dec by blast

lemma dec_wrong_length: "length bs \<noteq> width \<Longrightarrow> \<exists>e. dec bs = Inl e"
  using dec_length by (cases "dec bs") auto

end

section \<open>Segment header\<close>

definition segment_magic :: byte_string where
  "segment_magic = [0x4B, 0x54, 0x53, 0x46]"

definition format_version :: u16 where
  "format_version = 1"

definition segment_header_len :: nat where
  "segment_header_len = 90"

record segment_header =
  sh_segment_id :: segment_id
  sh_session_id :: session_id
  sh_target_id :: target_id
  sh_start_session_time :: session_time
  sh_created_observed :: observed_time
  sh_rotation_max_duration_nanos :: u64
  sh_rotation_max_size :: u64

definition header_body :: "segment_header \<Rightarrow> byte_string" where
  "header_body h =
     segment_magic @ to_be_bytes 2 format_version @
     to_be_bytes 16 (segment_uuid (sh_segment_id h)) @
     to_be_bytes 16 (session_uuid (sh_session_id h)) @
     to_be_bytes 16 (target_uuid (sh_target_id h)) @
     to_be_bytes 8 (session_nanos (sh_start_session_time h)) @
     to_be_bytes 8 (observed_nanos (sh_created_observed h)) @
     to_be_bytes 8 (sh_rotation_max_duration_nanos h) @
     to_be_bytes 8 (sh_rotation_max_size h)"

definition encode_header :: "checksum \<Rightarrow> segment_header \<Rightarrow> byte_string" where
  "encode_header crc h = (let bytes = header_body h in bytes @ to_be_bytes 4 (crc bytes))"

definition decode_header :: "checksum \<Rightarrow> byte_string \<Rightarrow> format_error + segment_header" where
  "decode_header crc bytes =
     (if length bytes \<noteq> segment_header_len then Inl (HeaderWrongLength (length bytes))
      else
        let covered = take (segment_header_len - 4) bytes;
            observed_checksum = from_be_bytes (drop (segment_header_len - 4) bytes)
        in
        if observed_checksum \<noteq> crc covered then Inl HeaderCrcMismatch
        else
          and_then (read_bytes (reader_new covered) 4) (\<lambda>(magic, r).
          if magic \<noteq> segment_magic then Inl HeaderMagicInvalid
          else
          and_then (read_u16 r) (\<lambda>(version, r).
          if version \<noteq> format_version then Inl (UnsupportedVersion version)
          else
          and_then (read_uuid r) (\<lambda>(segment, r).
          and_then (read_uuid r) (\<lambda>(session, r).
          and_then (read_uuid r) (\<lambda>(target, r).
          and_then (read_u64 r) (\<lambda>(start, r).
          and_then (read_u64 r) (\<lambda>(created, r).
          and_then (read_u64 r) (\<lambda>(duration, r).
          and_then (read_u64 r) (\<lambda>(size, r).
          Inr \<lparr>sh_segment_id = SegmentId segment, sh_session_id = SessionId session,
               sh_target_id = TargetId target, sh_start_session_time = SessionTime start,
               sh_created_observed = ObservedTime created,
               sh_rotation_max_duration_nanos = duration,
               sh_rotation_max_size = size\<rparr>))))))))))"

lemma length_segment_magic [simp]: "length segment_magic = 4"
  by (simp add: segment_magic_def)

lemma length_header_body [simp]: "length (header_body h) = 86"
  by (simp add: header_body_def)

lemma length_encode_header [simp]: "length (encode_header crc h) = segment_header_len"
  by (simp add: encode_header_def segment_header_len_def Let_def)

lemma decode_encode_header: "decode_header crc (encode_header crc h) = Inr h"
proof -
  have covered: "take 86 (encode_header crc h) = header_body h"
    and stored: "drop 86 (encode_header crc h) = to_be_bytes 4 (crc (header_body h))"
    by (simp_all add: encode_header_def Let_def)
  show ?thesis
    by (simp add: decode_header_def segment_header_len_def covered stored u32c.dec_enc)
      (simp add: header_body_def reader_new_at wire_simps)
qed

lemma covered_stored:
  assumes "length bs = n + 4" and "from_be_bytes (drop n bs) = (c :: u32)"
  shows "bs = take n bs @ to_be_bytes 4 c"
proof -
  have "to_be_bytes 4 c = drop n bs"
    using assms by (auto intro: u32c.enc_dec)
  then show ?thesis by simp
qed

lemma encode_decode_header:
  assumes "decode_header crc bs = Inr h"
  shows "bs = encode_header crc h"
proof -
  have len: "length bs = 86 + 4" and crc: "from_be_bytes (drop 86 bs) = crc (take 86 bs)"
    using assms by (auto simp: decode_header_def segment_header_len_def Let_def split: if_splits)
  obtain rest where "take 86 bs = header_body h @ rest"
    using assms
    by (auto simp: decode_header_def segment_header_len_def Let_def result_simps header_body_def
        split: if_splits dest!: read_bytes_rest read_field_rest)
  moreover have "length (take 86 bs) = 86"
    using len by simp
  ultimately have "take 86 bs = header_body h"
    by simp
  with covered_stored [OF len crc] show ?thesis
    by (simp add: encode_header_def Let_def)
qed

interpretation header_block: block_codec "encode_header crc" "decode_header crc"
    segment_header_len "\<lambda>_. True" for crc
  by unfold_locales (auto simp: decode_encode_header intro: encode_decode_header)

section \<open>Sealed footer\<close>

definition sealed_footer_magic :: byte_string where
  "sealed_footer_magic = [0x4B, 0x54, 0x53, 0x45]"

definition sealed_footer_len :: nat where
  "sealed_footer_len = 64"

record sealed_footer =
  sf_segment_id :: segment_id
  sf_record_count :: u64
  sf_total_payload :: u64
  sf_first_session_time :: session_time
  sf_last_session_time :: session_time
  sf_sealed_observed :: observed_time

definition footer_body :: "sealed_footer \<Rightarrow> byte_string" where
  "footer_body f =
     sealed_footer_magic @ to_be_bytes 16 (segment_uuid (sf_segment_id f)) @
     to_be_bytes 8 (sf_record_count f) @ to_be_bytes 8 (sf_total_payload f) @
     to_be_bytes 8 (session_nanos (sf_first_session_time f)) @
     to_be_bytes 8 (session_nanos (sf_last_session_time f)) @
     to_be_bytes 8 (observed_nanos (sf_sealed_observed f))"

definition encode_footer :: "checksum \<Rightarrow> sealed_footer \<Rightarrow> byte_string" where
  "encode_footer crc f = (let bytes = footer_body f in bytes @ to_be_bytes 4 (crc bytes))"

definition decode_footer :: "checksum \<Rightarrow> byte_string \<Rightarrow> format_error + sealed_footer" where
  "decode_footer crc bytes =
     (if length bytes \<noteq> sealed_footer_len then Inl (FooterWrongLength (length bytes))
      else
        let covered = take (sealed_footer_len - 4) bytes;
            observed_checksum = from_be_bytes (drop (sealed_footer_len - 4) bytes)
        in
        if observed_checksum \<noteq> crc covered then Inl FooterCrcMismatch
        else
          and_then (read_bytes (reader_new covered) 4) (\<lambda>(magic, r).
          if magic \<noteq> sealed_footer_magic then Inl FooterMagicInvalid
          else
          and_then (read_uuid r) (\<lambda>(segment, r).
          and_then (read_u64 r) (\<lambda>(count, r).
          and_then (read_u64 r) (\<lambda>(payload, r).
          and_then (read_u64 r) (\<lambda>(first, r).
          and_then (read_u64 r) (\<lambda>(last, r).
          and_then (read_u64 r) (\<lambda>(observed, r).
          let footer = \<lparr>sf_segment_id = SegmentId segment, sf_record_count = count,
                sf_total_payload = payload, sf_first_session_time = SessionTime first,
                sf_last_session_time = SessionTime last,
                sf_sealed_observed = ObservedTime observed\<rparr> in
          if sf_first_session_time footer > sf_last_session_time footer
          then Inl FooterTimesReversed
          else Inr footer))))))))"

definition wf_footer :: "sealed_footer \<Rightarrow> bool" where
  "wf_footer f \<longleftrightarrow> sf_first_session_time f \<le> sf_last_session_time f"

lemma length_footer_magic [simp]: "length sealed_footer_magic = 4"
  by (simp add: sealed_footer_magic_def)

lemma length_footer_body [simp]: "length (footer_body f) = 60"
  by (simp add: footer_body_def)

lemma length_encode_footer [simp]: "length (encode_footer crc f) = sealed_footer_len"
  by (simp add: encode_footer_def sealed_footer_len_def Let_def)

lemma decode_encode_footer:
  assumes "wf_footer f"
  shows "decode_footer crc (encode_footer crc f) = Inr f"
proof -
  have covered: "take 60 (encode_footer crc f) = footer_body f"
    and stored: "drop 60 (encode_footer crc f) = to_be_bytes 4 (crc (footer_body f))"
    by (simp_all add: encode_footer_def Let_def)
  show ?thesis
    using assms
    by (simp add: decode_footer_def sealed_footer_len_def covered stored u32c.dec_enc)
      (simp add: footer_body_def reader_new_at wire_simps wf_footer_def)
qed

lemma encode_decode_footer:
  assumes "decode_footer crc bs = Inr f"
  shows "wf_footer f \<and> bs = encode_footer crc f"
proof -
  have len: "length bs = 60 + 4" and crc: "from_be_bytes (drop 60 bs) = crc (take 60 bs)"
    using assms by (auto simp: decode_footer_def sealed_footer_len_def Let_def split: if_splits)
  obtain rest where "take 60 bs = footer_body f @ rest" and "wf_footer f"
    using assms
    by (auto simp: decode_footer_def sealed_footer_len_def Let_def result_simps footer_body_def
        wf_footer_def split: if_splits dest!: read_bytes_rest read_field_rest)
  moreover have "length (take 60 bs) = 60"
    using len by simp
  ultimately have "take 60 bs = footer_body f \<and> wf_footer f"
    by simp
  with covered_stored [OF len crc] show ?thesis
    by (simp add: encode_footer_def Let_def)
qed

interpretation footer_block: block_codec "encode_footer crc" "decode_footer crc"
    sealed_footer_len wf_footer for crc
  by unfold_locales (auto simp: decode_encode_footer dest: encode_decode_footer)

text \<open>The magics differ from each other and from a record's first byte.\<close>

lemma take4_encode_footer: "take 4 (encode_footer crc f) = sealed_footer_magic"
  by (simp add: encode_footer_def footer_body_def sealed_footer_magic_def Let_def)

lemma take4_encode_header: "take 4 (encode_header crc h) = segment_magic"
  by (simp add: encode_header_def header_body_def segment_magic_def Let_def)

end
