(* ===== verification/Frame_Record.thy ===== *)
theory Frame_Record
  imports Segment_Format
begin

text \<open>
  The length-prefixed frame record of \<open>segments/record.rs\<close>: a 17-byte prefix (kind, metadata
  length, payload length, checksum), the metadata header and the encoded image. The two theorems
  shared by the scanner, the writer and recovery are \<open>decode_encode_record\<close> (a stored frame is
  read back, whatever follows it) and \<open>decode_record_sound\<close> (only encodings of well-formed
  frames decode).
\<close>

definition frame_record_kind :: u8 where
  "frame_record_kind = 1"

definition frame_record_prefix_len :: nat where
  "frame_record_prefix_len = 17"

section \<open>Enumerations on the wire\<close>

fun format_code :: "image_format \<Rightarrow> u8" where
  "format_code Jpeg = 0"
| "format_code Png = 1"

definition decode_format :: "u8 \<Rightarrow> format_error + image_format" where
  "decode_format c =
     (if c = 0 then Inr Jpeg else if c = 1 then Inr Png else Inl (InvalidFormatCode c))"

fun warning_code :: "capture_warning \<Rightarrow> u8" where
  "warning_code MissingSourceTime = 0"
| "warning_code SourceTimestampRounded = 1"
| "warning_code ViewportMetadataIncomplete = 2"

definition decode_warning :: "u8 \<Rightarrow> format_error + capture_warning" where
  "decode_warning c =
     (if c = 0 then Inr MissingSourceTime else if c = 1 then Inr SourceTimestampRounded
      else if c = 2 then Inr ViewportMetadataIncomplete else Inl (InvalidWarningCode c))"

lemma decode_format_iff [result_simps]: "decode_format c = Inr f \<longleftrightarrow> c = format_code f"
  by (cases f) (auto simp: decode_format_def)

lemma decode_warning_iff [result_simps]: "decode_warning c = Inr w \<longleftrightarrow> c = warning_code w"
  by (cases w) (auto simp: decode_warning_def)

section \<open>Encoding\<close>

record frame_record =
  fr_header_bytes :: byte_string
  fr_payload_bytes :: byte_string

fun source_time_bytes :: "source_time option \<Rightarrow> byte_string" where
  "source_time_bytes (Some t) = 1 # to_be_bytes 16 (source_nanos t)"
| "source_time_bytes None = [0]"

definition dimension_bytes :: "pixel_dimensions \<Rightarrow> byte_string" where
  "dimension_bytes d = to_be_bytes 4 (pixel_width d) @ to_be_bytes 4 (pixel_height d)"

definition metadata_bytes :: "captured_frame \<Rightarrow> byte_string" where
  "metadata_bytes m =
     to_be_bytes 16 (frame_uuid (cf_id m)) @
     to_be_bytes 8 (ordinal_value (cf_capture_ordinal m)) @
     source_time_bytes (cf_source_time m) @
     to_be_bytes 8 (observed_nanos (cf_observed_time m)) @
     to_be_bytes 8 (session_nanos (cf_session_time m)) @
     [format_code (cf_format m)] @
     dimension_bytes (cf_image m) @ dimension_bytes (cf_viewport m) @
     to_be_bytes 8 (scale_bits (cf_device_scale_factor m)) @
     to_be_bytes 2 (word_of_nat (length (cf_warnings m)) :: u16) @
     map warning_code (cf_warnings m)"

definition frame_record_from_frame :: "encoded_frame \<Rightarrow> format_error + frame_record" where
  "frame_record_from_frame f =
     (let metadata = ef_metadata f in
      if length (cf_warnings metadata) \<ge> 2 ^ 16 then Inl TooManyWarnings
      else Inr \<lparr>fr_header_bytes = metadata_bytes metadata, fr_payload_bytes = ef_bytes f\<rparr>)"

definition frame_record_encode :: "checksum \<Rightarrow> frame_record \<Rightarrow> format_error + byte_string" where
  "frame_record_encode crc r =
     (if length (fr_header_bytes r) \<ge> 2 ^ 32 then Inl MetadataHeaderTooLarge
      else if length (fr_payload_bytes r) \<ge> 2 ^ 64 then Inl PayloadTooLarge
      else Inr (frame_record_kind #
        to_be_bytes 4 (word_of_nat (length (fr_header_bytes r)) :: u32) @
        to_be_bytes 8 (word_of_nat (length (fr_payload_bytes r)) :: u64) @
        to_be_bytes 4 (crc (fr_header_bytes r @ fr_payload_bytes r)) @
        fr_header_bytes r @ fr_payload_bytes r))"

definition encode_frame_record :: "checksum \<Rightarrow> encoded_frame \<Rightarrow> format_error + byte_string" where
  "encode_frame_record crc f = and_then (frame_record_from_frame f) (frame_record_encode crc)"

section \<open>Decoding\<close>

record decoded_frame_record =
  decoded_frame :: encoded_frame
  decoded_len :: nat

definition dimensions :: "u32 \<Rightarrow> u32 \<Rightarrow> format_error + pixel_dimensions" where
  "dimensions w h = map_err InvalidStoredFrame (pixel_dimensions_new w h)"

definition read_source_time :: "wire_reader \<Rightarrow> format_error + source_time option \<times> wire_reader" where
  "read_source_time r =
     and_then (read_u8 r) (\<lambda>(code, r).
       if code = 0 then Inr (None, r)
       else if code = 1 then and_then (read_i128 r) (\<lambda>(t, r). Inr (Some (SourceTime t), r))
       else Inl (InvalidPresenceCode code))"

definition read_dimensions :: "wire_reader \<Rightarrow> format_error + pixel_dimensions \<times> wire_reader" where
  "read_dimensions r =
     and_then (read_u32 r) (\<lambda>(w, r). and_then (read_u32 r) (\<lambda>(h, r).
       and_then (dimensions w h) (\<lambda>d. Inr (d, r))))"

fun read_warnings :: "nat \<Rightarrow> wire_reader \<Rightarrow> format_error + capture_warning list \<times> wire_reader" where
  "read_warnings 0 r = Inr ([], r)"
| "read_warnings (Suc n) r =
     and_then (read_u8 r) (\<lambda>(c, r). and_then (decode_warning c) (\<lambda>w.
       and_then (read_warnings n r) (\<lambda>(ws, r). Inr (w # ws, r))))"

definition decode_metadata :: "segment_header \<Rightarrow> byte_string \<Rightarrow> format_error + captured_frame" where
  "decode_metadata hdr bytes =
     and_then (read_uuid (reader_new bytes)) (\<lambda>(fid, r).
     and_then (read_u64 r) (\<lambda>(ord, r).
     and_then (map_err InvalidStoredFrame (capture_ordinal_new ord)) (\<lambda>ordinal.
     and_then (read_source_time r) (\<lambda>(source, r).
     and_then (read_u64 r) (\<lambda>(observed, r).
     and_then (read_u64 r) (\<lambda>(session, r).
     and_then (read_u8 r) (\<lambda>(fmt, r).
     and_then (decode_format fmt) (\<lambda>format.
     and_then (read_dimensions r) (\<lambda>(image, r).
     and_then (read_dimensions r) (\<lambda>(viewport, r).
     and_then (read_f64 r) (\<lambda>(scale, r).
     and_then (map_err InvalidStoredFrame (device_scale_factor_new scale)) (\<lambda>device_scale.
     and_then (read_u16 r) (\<lambda>(warning_count, r).
     and_then (read_warnings (unat warning_count) r) (\<lambda>(warnings, r).
     if reader_remaining r \<noteq> 0 then Inl MetadataTrailingBytes
     else map_err InvalidStoredFrame (captured_frame_new
       \<lparr>cf_id = FrameId fid, cf_session_id = sh_session_id hdr, cf_target_id = sh_target_id hdr,
        cf_capture_ordinal = ordinal, cf_source_time = source,
        cf_observed_time = ObservedTime observed, cf_session_time = SessionTime session,
        cf_format = format, cf_image = image, cf_viewport = viewport,
        cf_device_scale_factor = device_scale, cf_warnings = warnings\<rparr>)))))))))))))))"

definition decode_frame_record ::
    "checksum \<Rightarrow> segment_header \<Rightarrow> byte_string \<Rightarrow> format_error + decoded_frame_record" where
  "decode_frame_record crc hdr bytes =
     and_then (read_u8 (reader_new bytes)) (\<lambda>(kind, r).
     if kind \<noteq> frame_record_kind then Inl RecordKindNotFrame else
     and_then (read_u32 r) (\<lambda>(hl, r). let header_len = unat hl in
     and_then (read_u64 r) (\<lambda>(pl, r).
     and_then (usize_from_u64 pl) (\<lambda>payload_len.
     and_then (read_u32 r) (\<lambda>(expected_crc, r).
     and_then (ok_or RecordLengthOverflow
         (Option.bind (usize_checked_add frame_record_prefix_len header_len)
            (\<lambda>v. usize_checked_add v payload_len))) (\<lambda>encoded_len.
     if length bytes < encoded_len then Inl RecordEndedEarly
     else
       let header_bytes = take header_len (drop frame_record_prefix_len bytes);
           payload_bytes = take payload_len (drop (frame_record_prefix_len + header_len) bytes)
       in
       if crc (header_bytes @ payload_bytes) \<noteq> expected_crc then Inl RecordCrcMismatch
       else
         and_then (decode_metadata hdr header_bytes) (\<lambda>metadata.
         and_then (map_err InvalidStoredFrame (encoded_frame_new metadata payload_bytes)) (\<lambda>frame.
         Inr \<lparr>decoded_frame = frame, decoded_len = encoded_len\<rparr>))))))))"

section \<open>Metadata round trip\<close>

lemma length_source_time_bytes [simp]:
  "length (source_time_bytes t) = (case t of None \<Rightarrow> 1 | Some _ \<Rightarrow> 17)"
  by (cases t) auto

lemma length_dimension_bytes [simp]: "length (dimension_bytes d) = 8"
  by (simp add: dimension_bytes_def)

lemma length_metadata_bytes:
  "length (metadata_bytes m) =
     67 + length (source_time_bytes (cf_source_time m)) + length (cf_warnings m)"
  by (simp add: metadata_bytes_def)

lemma read_source_time_append [wire_simps]:
  "length pre + 17 < usize_limit \<Longrightarrow>
   read_source_time (reader_at pre (source_time_bytes t @ rest)) =
     Inr (t, reader_at (pre @ source_time_bytes t) rest)"
  by (cases t) (simp_all add: read_source_time_def wire_simps)

lemma read_dimensions_append [wire_simps]:
  "wf_dimensions d \<Longrightarrow> length pre + 8 < usize_limit \<Longrightarrow>
   read_dimensions (reader_at pre (dimension_bytes d @ rest)) =
     Inr (d, reader_at (pre @ dimension_bytes d) rest)"
  by (simp add: read_dimensions_def dimension_bytes_def wire_simps dimensions_def
      pixel_dimensions_new_def wf_dimensions_def)

lemma read_warnings_append [wire_simps]:
  "length pre + length ws < usize_limit \<Longrightarrow> n = length ws \<Longrightarrow>
   read_warnings n (reader_at pre (map warning_code ws @ rest)) =
     Inr (ws, reader_at (pre @ map warning_code ws) rest)"
proof (induction ws arbitrary: pre n)
  case Nil
  then show ?case by simp
next
  case (Cons w ws)
  have "decode_warning (warning_code w) = Inr w"
    by (simp add: result_simps)
  with Cons show ?case
    by (simp add: wire_simps)
qed

lemma read_source_time_rest:
  "read_source_time r = Inr (t, r') \<Longrightarrow> reader_rest r = source_time_bytes t @ reader_rest r'"
  by (auto simp: read_source_time_def result_simps split: if_splits dest!: read_field_rest)

lemma read_dimensions_rest:
  "read_dimensions r = Inr (d, r') \<Longrightarrow>
   wf_dimensions d \<and> reader_rest r = dimension_bytes d @ reader_rest r'"
  by (auto simp: read_dimensions_def dimensions_def dimension_bytes_def result_simps
      dest!: read_field_rest)

lemma read_warnings_rest:
  "read_warnings n r = Inr (ws, r') \<Longrightarrow>
   length ws = n \<and> reader_rest r = map warning_code ws @ reader_rest r'"
proof (induction n arbitrary: r ws)
  case 0
  then show ?case by simp
next
  case (Suc n)
  then show ?case
    by (force simp: result_simps dest!: read_field_rest)
qed

lemma decode_metadata_bytes:
  assumes "wf_captured_frame m" and "length (cf_warnings m) < 2 ^ 16"
    and "cf_session_id m = sh_session_id hdr" and "cf_target_id m = sh_target_id hdr"
  shows "decode_metadata hdr (metadata_bytes m) = Inr m"
proof -
  have ordinal: "capture_ordinal_new (ordinal_value (cf_capture_ordinal m)) =
      Inr (cf_capture_ordinal m)"
    and scale: "device_scale_factor_new (scale_bits (cf_device_scale_factor m)) =
      Inr (cf_device_scale_factor m)"
    using assms(1) by (simp_all add: result_simps wf_captured_frame_def)
  have count: "n < 65536 \<Longrightarrow> unat (word_of_nat n :: u16) = n" for n
    by (simp add: unat_of_nat)
  have format: "decode_format (format_code (cf_format m)) = Inr (cf_format m)"
    by (simp add: result_simps)
  have new: "captured_frame_new m = Inr m"
    using assms(1) by (simp add: result_simps wf_captured_frame_def)
  have warnings: "read_warnings (length ws) (reader_at pre (map warning_code ws)) =
      Inr (ws, reader_at (pre @ map warning_code ws) [])"
    if "length pre < 200" and "length ws < 65536" for pre ws
    using that read_warnings_append [of pre ws "length ws" "[]"] by simp
  show ?thesis
    using assms ordinal scale format new
    by (cases m) (auto simp: decode_metadata_def metadata_bytes_def reader_new_at wire_simps count
        warnings wf_captured_frame_def split: option.split)
qed

lemma decode_metadata_sound:
  assumes "decode_metadata hdr bs = Inr m"
  shows "wf_captured_frame m \<and> length (cf_warnings m) < 2 ^ 16 \<and>
    cf_session_id m = sh_session_id hdr \<and> cf_target_id m = sh_target_id hdr \<and>
    bs = metadata_bytes m"
proof -
  have count: "length (ws :: capture_warning list) = unat (n :: u16) \<Longrightarrow>
      word_of_nat (length ws) = n \<and> length ws < 2 ^ 16" for ws n
    using unsigned_less [of n] by simp
  show ?thesis
    using assms
    by (auto simp: decode_metadata_def result_simps metadata_bytes_def wf_captured_frame_def
        reader_remaining_rest dest!: read_field_rest read_source_time_rest read_dimensions_rest
        read_warnings_rest count split: if_splits)
qed

section \<open>Record round trip\<close>

text \<open>
  A frame the writer can store: the type invariant of \<open>EncodedFrame\<close>, a warning count that fits
  its field, and a payload that leaves its encoded record within the allocation limit
  \<open>isize::MAX\<close> of every Rust buffer.
\<close>

definition storable_frame :: "encoded_frame \<Rightarrow> bool" where
  "storable_frame f \<longleftrightarrow>
     wf_encoded_frame f \<and> length (cf_warnings (ef_metadata f)) < 2 ^ 16 \<and>
     length (ef_bytes f) < 2 ^ 63 - 2 ^ 18"

definition record_bytes :: "checksum \<Rightarrow> encoded_frame \<Rightarrow> byte_string" where
  "record_bytes crc f =
     (let header = metadata_bytes (ef_metadata f); payload = ef_bytes f in
      frame_record_kind # to_be_bytes 4 (word_of_nat (length header) :: u32) @
      to_be_bytes 8 (word_of_nat (length payload) :: u64) @
      to_be_bytes 4 (crc (header @ payload)) @ header @ payload)"

definition belongs_to :: "segment_header \<Rightarrow> encoded_frame \<Rightarrow> bool" where
  "belongs_to hdr f \<longleftrightarrow>
     cf_session_id (ef_metadata f) = sh_session_id hdr \<and>
     cf_target_id (ef_metadata f) = sh_target_id hdr"

lemma length_record_bytes:
  "length (record_bytes crc f) =
     17 + length (metadata_bytes (ef_metadata f)) + length (ef_bytes f)"
  by (simp add: record_bytes_def Let_def)

lemma record_bytes_Cons: "\<exists>bs. record_bytes crc f = frame_record_kind # bs"
  by (simp add: record_bytes_def Let_def)

lemma metadata_bytes_bound:
  "length (cf_warnings m) < 2 ^ 16 \<Longrightarrow> length (metadata_bytes m) < 2 ^ 17"
  by (simp add: length_metadata_bytes split: option.split)

lemma record_bytes_bound:
  "storable_frame f \<Longrightarrow> length (record_bytes crc f) < 2 ^ 63"
  using metadata_bytes_bound [of "ef_metadata f"]
  by (simp add: storable_frame_def length_record_bytes)

lemma encode_storable_frame:
  "storable_frame f \<Longrightarrow> encode_frame_record crc f = Inr (record_bytes crc f)"
  using metadata_bytes_bound [of "ef_metadata f"]
  by (simp add: encode_frame_record_def frame_record_from_frame_def frame_record_encode_def
      storable_frame_def record_bytes_def Let_def)

lemma decode_encode_record:
  assumes "storable_frame f" and "belongs_to hdr f"
  shows "decode_frame_record crc hdr (record_bytes crc f @ rest) =
    Inr \<lparr>decoded_frame = f, decoded_len = length (record_bytes crc f)\<rparr>"
proof -
  let ?h = "metadata_bytes (ef_metadata f)" and ?p = "ef_bytes f"
  have lengths: "length ?h < 2 ^ 17" "length ?p < 2 ^ 63 - 2 ^ 18"
    using assms(1) metadata_bytes_bound [of "ef_metadata f"] by (auto simp: storable_frame_def)
  have lens: "unat (word_of_nat (length ?h) :: u32) = length ?h"
    "unat (word_of_nat (length ?p) :: u64) = length ?p"
    using lengths by (simp_all add: unat_of_nat)
  have metadata: "decode_metadata hdr ?h = Inr (ef_metadata f)"
    using assms by (intro decode_metadata_bytes)
      (auto simp: storable_frame_def wf_encoded_frame_def belongs_to_def)
  have new: "encoded_frame_new (ef_metadata f) ?p = Inr f"
    using assms(1)
    by (cases f) (auto simp: result_simps storable_frame_def wf_encoded_frame_def
        wf_captured_frame_def)
  have past_prefix: "drop (17 + n) xs = drop n (drop 17 xs)" for n and xs :: byte_string
    by (simp add: add.commute)
  show ?thesis
    using lengths
    by (simp del: drop_drop add: decode_frame_record_def record_bytes_def Let_def reader_new_at
        wire_simps lens usize_from_u64_def frame_record_prefix_len_def metadata new past_prefix)
qed

lemma decode_record_sound:
  assumes "decode_frame_record crc hdr bs = Inr d"
  shows "wf_encoded_frame (decoded_frame d) \<and> belongs_to hdr (decoded_frame d) \<and>
    length (cf_warnings (ef_metadata (decoded_frame d))) < 2 ^ 16 \<and>
    decoded_len d \<le> length bs \<and>
    take (decoded_len d) bs = record_bytes crc (decoded_frame d)"
proof -
  obtain hl :: u32 and pl :: u64 and tail where
    bs: "bs = frame_record_kind # to_be_bytes 4 hl @ to_be_bytes 8 pl @
      to_be_bytes 4 (crc (take (unat hl) (drop 17 bs) @
        take (unat pl) (drop (17 + unat hl) bs))) @ tail"
    and len: "17 + unat hl + unat pl \<le> length bs"
    and dec: "decode_metadata hdr (take (unat hl) (drop 17 bs)) =
      Inr (ef_metadata (decoded_frame d))"
    and payload: "ef_bytes (decoded_frame d) = take (unat pl) (drop (17 + unat hl) bs)"
    and ne: "ef_bytes (decoded_frame d) \<noteq> []"
    and dlen: "decoded_len d = 17 + unat hl + unat pl"
    using assms
    by (auto simp: decode_frame_record_def result_simps Let_def usize_from_u64_def
        frame_record_prefix_len_def bind_eq_Some_conv
        split: if_splits dest!: read_field_rest)
  have tail: "drop 17 bs = tail"
    by (subst bs) simp
  have past: "drop (17 + n) bs = drop n tail" for n
    using tail by (metis add.commute drop_drop)
  have lens: "length (take (unat hl) tail) = unat hl"
    "length (take (unat pl) (drop (unat hl) tail)) = unat pl"
    using len tail [symmetric] by simp_all
  note sound = decode_metadata_sound [OF dec]
  have body: "take (unat hl + unat pl) tail =
      metadata_bytes (ef_metadata (decoded_frame d)) @ ef_bytes (decoded_frame d)"
    using sound payload by (simp add: take_add past tail)
  have "take (17 + (unat hl + unat pl)) bs = take 17 bs @ take (unat hl + unat pl) tail"
    by (simp only: take_add tail)
  moreover have "take 17 bs = frame_record_kind # to_be_bytes 4 hl @ to_be_bytes 8 pl @
      to_be_bytes 4 (crc (take (unat hl) tail @ take (unat pl) (drop (unat hl) tail)))"
    by (subst bs) (simp add: past tail)
  ultimately have "take (17 + (unat hl + unat pl)) bs = record_bytes crc (decoded_frame d)"
    using sound lens body payload by (simp add: record_bytes_def Let_def past tail)
  then show ?thesis
    using sound ne len dlen
    by (simp add: wf_encoded_frame_def belongs_to_def add.assoc)
qed

end
