(* ===== verification/Segment_Scanner.thy ===== *)
theory Segment_Scanner
  imports Frame_Record
begin

text \<open>
  Scanning a segment file for complete records and random access to one record
  (\<open>segments/scanner.rs\<close>). The loop of \<open>scan_record_region\<close> is a recursive function over the file
  offset whose body is \<open>scan_step\<close>; an \<open>expect\<close> or \<open>unreachable!\<close> of the source is the error
  \<open>UnreachablePanic\<close>, and an allocation beyond \<open>isize::MAX\<close> is \<open>CapacityOverflowPanic\<close>.
  The lemmas say what one step does on a complete record, on a torn record, on a torn and on a
  complete footer, then what the scan returns for every prefix of a well-formed file, and what
  any result of the scan guarantees about arbitrary bytes.
\<close>

record record_span =
  span_byte_offset :: byte_offset
  span_encoded_len :: u64
  span_header_len :: u32
  span_payload_len :: u64

datatype trailing = Clean | Incomplete byte_offset | Corrupt byte_offset

record scan_result =
  scan_records :: "record_span list"
  scan_trailing :: trailing

definition looks_like_footer :: "byte_string \<Rightarrow> bool" where
  "looks_like_footer bs =
     (let compared = min (length bs) (length sealed_footer_magic) in
      compared > 0 \<and> take compared bs = take compared sealed_footer_magic)"

definition footer_trailing ::
    "checksum \<Rightarrow> segment_header \<Rightarrow> byte_offset \<Rightarrow> byte_string \<Rightarrow> trailing" where
  "footer_trailing crc hdr record_start remaining =
     (if length remaining \<noteq> sealed_footer_len then
        (if length remaining < sealed_footer_len then Incomplete record_start
         else Corrupt record_start)
      else case decode_footer crc remaining of
        Inl _ \<Rightarrow> Corrupt record_start
      | Inr footer \<Rightarrow>
          (if sf_segment_id footer = sh_segment_id hdr then Clean else Corrupt record_start))"

text \<open>One iteration: stop with a verdict on the tail, or a record and the offset after it.\<close>

datatype scan_step_result = Stop trailing | Found record_span nat

definition expect_field :: "format_error + 'a \<Rightarrow> format_error + 'a" where
  "expect_field r = map_err (\<lambda>_. UnreachablePanic) r"

definition scan_step ::
    "checksum \<Rightarrow> byte_string \<Rightarrow> segment_header \<Rightarrow> nat \<Rightarrow> format_error + scan_step_result" where
  "scan_step crc segment_bytes hdr offset =
     (let record_start = ByteOffset (word_of_nat offset);
          remaining = drop offset segment_bytes in
      if looks_like_footer remaining
      then Inr (Stop (footer_trailing crc hdr record_start remaining))
      else if length remaining < frame_record_prefix_len
      then Inr (Stop (Incomplete record_start))
      else
        and_then (expect_field (read_u8 (reader_new (take frame_record_prefix_len remaining)))) (\<lambda>(kind, r).
        if kind \<noteq> frame_record_kind then Inr (Stop (Corrupt record_start))
        else
        and_then (expect_field (read_u32 r)) (\<lambda>(header_len, r).
        and_then (expect_field (read_u64 r)) (\<lambda>(payload_len, r).
        and_then (expect_field (read_u32 r)) (\<lambda>(expected_crc, r).
        case usize_from_u64 payload_len of Inl _ \<Rightarrow> Inr (Stop (Corrupt record_start))
        | Inr payload_len_usize \<Rightarrow>
        (case Option.bind (usize_checked_add frame_record_prefix_len (unat header_len))
           (\<lambda>value. usize_checked_add value payload_len_usize) of
          None \<Rightarrow> Inr (Stop (Corrupt record_start))
        | Some encoded_len \<Rightarrow>
        (case usize_checked_add offset encoded_len of
          None \<Rightarrow> Inr (Stop (Corrupt record_start))
        | Some record_end \<Rightarrow>
          if record_end > length segment_bytes then Inr (Stop (Incomplete record_start))
          else
            let data_start = offset + frame_record_prefix_len in
            if crc (take (record_end - data_start) (drop data_start segment_bytes)) \<noteq> expected_crc
            then Inr (Stop (Corrupt record_start))
            else Inr (Found \<lparr>span_byte_offset = record_start,
                   span_encoded_len = word_of_nat encoded_len,
                   span_header_len = header_len, span_payload_len = payload_len\<rparr>
                 record_end)))))))) "

lemma scan_step_advances:
  assumes "scan_step crc bs hdr offset = Inr (Found sp e)"
  shows "offset + 17 \<le> e \<and> e \<le> length bs"
  using assms
  by (auto simp: scan_step_def Let_def result_simps expect_field_def usize_from_u64_def
      frame_record_prefix_len_def bind_eq_Some_conv split: if_splits option.splits)

function scan_record_region ::
    "checksum \<Rightarrow> byte_string \<Rightarrow> segment_header \<Rightarrow> nat \<Rightarrow> record_span list \<Rightarrow>
     format_error + scan_result" where
  "scan_record_region crc segment_bytes hdr offset records =
     (if offset < length segment_bytes then
        and_then (scan_step crc segment_bytes hdr offset) (\<lambda>st. case st of
          Stop t \<Rightarrow> Inr \<lparr>scan_records = records, scan_trailing = t\<rparr>
        | Found span record_end \<Rightarrow>
            scan_record_region crc segment_bytes hdr record_end (records @ [span]))
      else Inr \<lparr>scan_records = records, scan_trailing = Clean\<rparr>)"
  by pat_completeness auto
termination
  by (relation "measure (\<lambda>(crc, bs, hdr, offset, records). length bs - offset)")
    (auto dest: scan_step_advances)

declare scan_record_region.simps [simp del]

definition scan_complete_records_from ::
    "checksum \<Rightarrow> byte_string \<Rightarrow> byte_offset \<Rightarrow> format_error + scan_result" where
  "scan_complete_records_from crc segment_bytes base_offset =
     (if length segment_bytes < segment_header_len then Inl SegmentShorterThanHeader
      else
        and_then (decode_header crc (take segment_header_len segment_bytes)) (\<lambda>hdr.
        and_then (usize_from_u64 (offset_value base_offset)) (\<lambda>base.
        if base < segment_header_len then Inl ScanBaseInsideHeader
        else if base > length segment_bytes then Inl ScanBaseBeyondEnd
        else scan_record_region crc segment_bytes hdr base [])))"

definition scan_complete_records :: "checksum \<Rightarrow> byte_string \<Rightarrow> format_error + scan_result" where
  "scan_complete_records crc segment_bytes =
     scan_complete_records_from crc segment_bytes (ByteOffset (word_of_nat segment_header_len))"

section \<open>Random access\<close>

text \<open>\<open>Seek\<close> then \<open>read_exact\<close> on a file or \<open>Cursor\<close>: all \<open>n\<close> bytes or an error.\<close>

definition read_exact_at :: "byte_string \<Rightarrow> nat \<Rightarrow> nat \<Rightarrow> byte_string option" where
  "read_exact_at bs pos n =
     (if pos + n \<le> length bs then Some (take n (drop pos bs)) else None)"

definition read_frame_from ::
    "checksum \<Rightarrow> byte_string \<Rightarrow> frame_address \<Rightarrow> format_error + encoded_frame" where
  "read_frame_from crc source address =
     (let offset = unat (offset_value (addr_offset address)) in
      if offset < segment_header_len then Inl AddressInsideHeader
      else
        and_then (ok_or HeaderNotReadable (read_exact_at source 0 segment_header_len)) (\<lambda>header_bytes.
        and_then (decode_header crc header_bytes) (\<lambda>hdr.
        if sh_segment_id hdr \<noteq> addr_segment address then Inl AddressSegmentMismatch
        else
        and_then (ok_or PrefixNotReadable
            (read_exact_at source offset frame_record_prefix_len)) (\<lambda>prefix.
        and_then (read_u8 (reader_new prefix)) (\<lambda>(kind, r).
        if kind \<noteq> frame_record_kind then Inl RecordKindNotFrame
        else
        and_then (read_u32 r) (\<lambda>(header_len, r).
        and_then (read_u64 r) (\<lambda>(pl, r).
        and_then (usize_from_u64 pl) (\<lambda>payload_len.
        and_then (ok_or RecordLengthOverflow
            (usize_checked_add (unat header_len) payload_len)) (\<lambda>tail_len.
        if frame_record_prefix_len + tail_len \<ge> 2 ^ 63 then Inl CapacityOverflowPanic
        else
        and_then (ok_or RecordNotReadable
            (read_exact_at source (offset + frame_record_prefix_len) tail_len)) (\<lambda>tail.
        and_then (decode_frame_record crc hdr (prefix @ tail)) (\<lambda>decoded.
        Inr (decoded_frame decoded))))))))))))"

definition read_frame_at ::
    "checksum \<Rightarrow> byte_string \<Rightarrow> frame_address \<Rightarrow> format_error + encoded_frame" where
  "read_frame_at crc segment_bytes address = read_frame_from crc segment_bytes address"

section \<open>One step on what the writer produces\<close>

definition record_prefix :: "checksum \<Rightarrow> encoded_frame \<Rightarrow> byte_string" where
  "record_prefix crc f =
     (let header = metadata_bytes (ef_metadata f); payload = ef_bytes f in
      frame_record_kind # to_be_bytes 4 (word_of_nat (length header) :: u32) @
      to_be_bytes 8 (word_of_nat (length payload) :: u64) @
      to_be_bytes 4 (crc (header @ payload)))"

lemma length_record_prefix [simp]: "length (record_prefix crc f) = 17"
  by (simp add: record_prefix_def Let_def)

lemma record_bytes_prefix:
  "record_bytes crc f = record_prefix crc f @ metadata_bytes (ef_metadata f) @ ef_bytes f"
  by (simp add: record_bytes_def record_prefix_def Let_def)

lemma storable_lengths:
  assumes "storable_frame f"
  shows "length (metadata_bytes (ef_metadata f)) < 2 ^ 17" and "length (ef_bytes f) < 2 ^ 63 - 2 ^ 18"
    and "unat (word_of_nat (length (metadata_bytes (ef_metadata f))) :: u32) =
      length (metadata_bytes (ef_metadata f))"
    and "unat (word_of_nat (length (ef_bytes f)) :: u64) = length (ef_bytes f)"
  using assms metadata_bytes_bound [of "ef_metadata f"]
  by (simp_all add: storable_frame_def unat_of_nat)

definition span_of :: "checksum \<Rightarrow> nat \<Rightarrow> encoded_frame \<Rightarrow> record_span" where
  "span_of crc offset f =
     \<lparr>span_byte_offset = ByteOffset (word_of_nat offset),
      span_encoded_len = word_of_nat (length (record_bytes crc f)),
      span_header_len = word_of_nat (length (metadata_bytes (ef_metadata f))),
      span_payload_len = word_of_nat (length (ef_bytes f))\<rparr>"

lemma looks_like_footer_record [simp]: "\<not> looks_like_footer (frame_record_kind # bs)"
  by (cases bs) (auto simp: looks_like_footer_def sealed_footer_magic_def frame_record_kind_def
      Let_def min_def)

lemma looks_like_footer_torn_record [simp]:
  "0 < m \<Longrightarrow> \<not> looks_like_footer (take m (record_bytes crc f))"
  using record_bytes_Cons [of crc f] by (cases m) auto

lemma read_record_prefix:
  "expect_field (read_u8 (reader_new (record_prefix crc f))) =
     Inr (frame_record_kind, reader_at [frame_record_kind] (drop (Suc 0) (record_prefix crc f)))"
  "expect_field (read_u32 (reader_at [frame_record_kind] (drop (Suc 0) (record_prefix crc f)))) =
     Inr (word_of_nat (length (metadata_bytes (ef_metadata f))),
       reader_at (take 5 (record_prefix crc f)) (drop 5 (record_prefix crc f)))"
  "expect_field (read_u64 (reader_at (take 5 (record_prefix crc f)) (drop 5 (record_prefix crc f)))) =
     Inr (word_of_nat (length (ef_bytes f)),
       reader_at (take 13 (record_prefix crc f)) (drop 13 (record_prefix crc f)))"
  "expect_field (read_u32 (reader_at (take 13 (record_prefix crc f)) (drop 13 (record_prefix crc f)))) =
     Inr (crc (metadata_bytes (ef_metadata f) @ ef_bytes f), reader_at (record_prefix crc f) [])"
  by (simp_all add: record_prefix_def Let_def reader_new_at wire_simps expect_field_def)

lemma scan_step_record:
  assumes f: "storable_frame f" and bs: "bs = pre @ record_bytes crc f @ rest"
    and limit: "length bs < usize_limit"
  shows "scan_step crc bs hdr (length pre) =
    Inr (Found (span_of crc (length pre) f) (length pre + length (record_bytes crc f)))"
proof -
  let ?h = "metadata_bytes (ef_metadata f)" and ?p = "ef_bytes f"
  have remaining: "drop (length pre) bs = record_bytes crc f @ rest"
    unfolding bs by simp
  have prefix: "take 17 (record_bytes crc f) = record_prefix crc f"
    by (simp add: record_bytes_prefix)
  have "drop (length pre + 17) bs = ?h @ ?p @ rest"
    unfolding bs by (simp add: record_bytes_prefix)
  then have data: "take (length ?h + length ?p) (drop (length pre + 17) bs) = ?h @ ?p"
    by simp
  have footer: "\<not> looks_like_footer (record_bytes crc f @ rest)"
    using record_bytes_Cons [of crc f] by auto
  have fits: "length pre + (17 + length ?h + length ?p) \<le> length bs"
    unfolding bs by (simp add: record_bytes_prefix)
  show ?thesis
    using fits limit
    by (simp add: scan_step_def remaining footer prefix frame_record_prefix_len_def
        length_record_bytes read_record_prefix storable_lengths [OF f] usize_from_u64_def
        Let_def data span_of_def)
qed

lemma scan_step_torn_record:
  assumes f: "storable_frame f" and m: "0 < m" "m < length (record_bytes crc f)"
    and bs: "bs = pre @ take m (record_bytes crc f)" and limit: "length bs < 2 ^ 63"
  shows "scan_step crc bs hdr (length pre) =
    Inr (Stop (Incomplete (ByteOffset (word_of_nat (length pre)))))"
proof -
  have remaining: "drop (length pre) bs = take m (record_bytes crc f)"
    unfolding bs by simp
  have len: "length bs = length pre + m"
    using m unfolding bs by simp
  show ?thesis
  proof (cases "m < 17")
    case True
    then show ?thesis
      using m by (simp add: scan_step_def remaining frame_record_prefix_len_def Let_def)
  next
    case False
    have prefix: "take 17 (record_bytes crc f) = record_prefix crc f"
      by (simp add: record_bytes_prefix)
    have min: "min 17 m = 17" "min m 17 = 17"
      using False by simp_all
    have bound: "17 + length (metadata_bytes (ef_metadata f)) + length (ef_bytes f) < 2 ^ 63"
      using record_bytes_bound [OF f, of crc] by (simp add: length_record_bytes)
    show ?thesis
      using False m limit bound len
      by (simp add: scan_step_def remaining prefix frame_record_prefix_len_def min
          read_record_prefix storable_lengths [OF f] usize_from_u64_def length_record_bytes Let_def)
  qed
qed

lemma looks_like_footer_torn [simp]:
  assumes "0 < m"
  shows "looks_like_footer (take m (encode_footer crc ft))"
proof -
  have "take (min (min 64 m) 4) (take m (encode_footer crc ft)) =
      take (min m 4) (take 4 (encode_footer crc ft))"
    by (simp add: min_def)
  then have "take (min (min 64 m) 4) (take m (encode_footer crc ft)) =
      take (min (min 64 m) 4) sealed_footer_magic"
    by (simp add: take4_encode_footer min_def)
  then show ?thesis
    using assms by (simp add: looks_like_footer_def sealed_footer_len_def Let_def)
qed

lemma scan_step_torn_footer:
  assumes "0 < m" and "m < sealed_footer_len" and "bs = pre @ take m (encode_footer crc ft)"
  shows "scan_step crc bs hdr (length pre) =
    Inr (Stop (Incomplete (ByteOffset (word_of_nat (length pre)))))"
  using assms by (simp add: scan_step_def footer_trailing_def Let_def)

lemma scan_step_footer:
  assumes "wf_footer ft" and "sf_segment_id ft = sh_segment_id hdr"
    and "bs = pre @ encode_footer crc ft"
  shows "scan_step crc bs hdr (length pre) = Inr (Stop Clean)"
proof -
  have "looks_like_footer (encode_footer crc ft)"
    using looks_like_footer_torn [of sealed_footer_len crc ft] by (simp add: sealed_footer_len_def)
  then show ?thesis
    using assms by (simp add: scan_step_def footer_trailing_def decode_encode_footer)
qed

section \<open>The scan of a well-formed file cut anywhere\<close>

definition records_bytes :: "checksum \<Rightarrow> encoded_frame list \<Rightarrow> byte_string" where
  "records_bytes crc fs = concat (map (record_bytes crc) fs)"

definition segment_file ::
    "checksum \<Rightarrow> segment_header \<Rightarrow> encoded_frame list \<Rightarrow> byte_string \<Rightarrow> byte_string" where
  "segment_file crc hdr fs tail = encode_header crc hdr @ records_bytes crc fs @ tail"

fun spans_from :: "checksum \<Rightarrow> nat \<Rightarrow> encoded_frame list \<Rightarrow> record_span list" where
  "spans_from crc offset [] = []"
| "spans_from crc offset (f # fs) =
     span_of crc offset f # spans_from crc (offset + length (record_bytes crc f)) fs"

text \<open>The frames whose records end within the first \<open>n\<close> bytes of the record region.\<close>

fun fitting :: "checksum \<Rightarrow> nat \<Rightarrow> encoded_frame list \<Rightarrow> encoded_frame list" where
  "fitting crc n [] = []"
| "fitting crc n (f # fs) =
     (if length (record_bytes crc f) \<le> n
      then f # fitting crc (n - length (record_bytes crc f)) fs else [])"

lemma records_bytes_simps [simp]:
  "records_bytes crc [] = []"
  "records_bytes crc (f # fs) = record_bytes crc f @ records_bytes crc fs"
  "records_bytes crc (fs @ gs) = records_bytes crc fs @ records_bytes crc gs"
  by (simp_all add: records_bytes_def)

lemma set_fitting: "set (fitting crc n fs) \<subseteq> set fs"
  by (induction crc n fs rule: fitting.induct) auto

lemma length_spans_from [simp]: "length (spans_from crc offset fs) = length fs"
  by (induction fs arbitrary: offset) auto

lemma spans_from_append:
  "spans_from crc offset (fs @ gs) =
     spans_from crc offset fs @ spans_from crc (offset + length (records_bytes crc fs)) gs"
  by (induction fs arbitrary: offset) (auto simp: add.assoc)

lemma scan_region_records:
  assumes "\<forall>f \<in> set fs. storable_frame f"
    and "bs = pre @ records_bytes crc fs @ rest" and "length bs < 2 ^ 63"
  shows "scan_record_region crc bs hdr (length pre) recs =
    scan_record_region crc bs hdr (length pre + length (records_bytes crc fs))
      (recs @ spans_from crc (length pre) fs)"
  using assms
proof (induction fs arbitrary: pre recs)
  case Nil
  then show ?case by simp
next
  case (Cons f fs)
  have step: "scan_step crc bs hdr (length pre) =
      Inr (Found (span_of crc (length pre) f) (length pre + length (record_bytes crc f)))"
    using Cons.prems by (intro scan_step_record [where rest = "records_bytes crc fs @ rest"]) auto
  have "length pre < length bs"
    using Cons.prems(2) record_bytes_Cons [of crc f] by auto
  then have "scan_record_region crc bs hdr (length pre) recs =
      scan_record_region crc bs hdr (length (pre @ record_bytes crc f))
        (recs @ [span_of crc (length pre) f])"
    by (subst scan_record_region.simps) (simp add: step)
  also have "\<dots> = scan_record_region crc bs hdr
      (length (pre @ record_bytes crc f) + length (records_bytes crc fs))
      ((recs @ [span_of crc (length pre) f]) @
        spans_from crc (length (pre @ record_bytes crc f)) fs)"
    using Cons.prems by (intro Cons.IH) auto
  finally show ?case
    by (simp add: add.assoc)
qed

text \<open>What a cut leaves after the last complete record.\<close>

definition torn_tail :: "checksum \<Rightarrow> encoded_frame list \<Rightarrow> byte_string \<Rightarrow> byte_string \<Rightarrow> bool" where
  "torn_tail crc fs tail bs \<longleftrightarrow>
     (\<exists>f m. f \<in> set fs \<and> 0 < m \<and> m < length (record_bytes crc f) \<and>
        bs = take m (record_bytes crc f)) \<or>
     (\<exists>m. 0 < m \<and> m < length tail \<and> bs = take m tail)"

lemma take_records:
  "take n (records_bytes crc fs @ tail) = records_bytes crc (fitting crc n fs) \<or>
   take n (records_bytes crc fs @ tail) = records_bytes crc fs @ tail \<and> fitting crc n fs = fs \<or>
   (\<exists>bs. take n (records_bytes crc fs @ tail) = records_bytes crc (fitting crc n fs) @ bs \<and>
      torn_tail crc fs tail bs)"
proof (induction fs arbitrary: n)
  case Nil
  show ?case
  proof (cases "n = 0 \<or> length tail \<le> n")
    case False
    then have "torn_tail crc [] tail (take n tail)"
      unfolding torn_tail_def by (intro disjI2 exI [of _ n]) simp
    then show ?thesis by simp
  qed auto
next
  case (Cons f fs)
  show ?case
  proof (cases "length (record_bytes crc f) \<le> n")
    case True
    let ?m = "n - length (record_bytes crc f)"
    have "torn_tail crc fs tail bs \<Longrightarrow> torn_tail crc (f # fs) tail bs" for bs
      by (auto simp: torn_tail_def)
    then show ?thesis
      using True Cons.IH [of ?m] by auto
  next
    case False
    have "torn_tail crc (f # fs) tail (take n (record_bytes crc f))" if "0 < n"
      using False that unfolding torn_tail_def by (intro disjI1 exI [of _ f] exI [of _ n]) simp
    then show ?thesis
      using False by (cases "n = 0") auto
  qed
qed

lemma offset_90 [simp]: "unat (word_of_nat segment_header_len :: u64) = 90"
  by (simp add: segment_header_len_def)

lemma scan_after_records:
  assumes "\<forall>f \<in> set fs. storable_frame f" and "bs = segment_file crc hdr fs rest"
    and "length bs < 2 ^ 63"
  shows "scan_complete_records crc bs =
    scan_record_region crc bs hdr (90 + length (records_bytes crc fs)) (spans_from crc 90 fs)"
proof -
  have "take 90 bs = encode_header crc hdr"
    using assms(2) by (simp add: segment_file_def segment_header_len_def)
  moreover have "90 \<le> length bs"
    using assms(2) by (simp add: segment_file_def segment_header_len_def)
  ultimately have "scan_complete_records crc bs = scan_record_region crc bs hdr 90 []"
    by (simp add: scan_complete_records_def scan_complete_records_from_def
        decode_encode_header usize_from_u64_def)
      (simp add: segment_header_len_def decode_encode_header)
  then show ?thesis
    using scan_region_records [OF assms(1), of bs "encode_header crc hdr" crc rest hdr "[]"] assms
    by (simp add: segment_file_def segment_header_len_def)
qed

lemma scan_region_stop:
  "offset < length bs \<Longrightarrow> scan_step crc bs hdr offset = Inr (Stop t) \<Longrightarrow>
   scan_record_region crc bs hdr offset recs = Inr \<lparr>scan_records = recs, scan_trailing = t\<rparr>"
  by (subst scan_record_region.simps) simp

lemma scan_region_end:
  "length bs \<le> offset \<Longrightarrow>
   scan_record_region crc bs hdr offset recs = Inr \<lparr>scan_records = recs, scan_trailing = Clean\<rparr>"
  by (subst scan_record_region.simps) simp

lemma scan_open_file:
  assumes "\<forall>f \<in> set fs. storable_frame f" and "length (segment_file crc hdr fs []) < 2 ^ 63"
  shows "scan_complete_records crc (segment_file crc hdr fs []) =
    Inr \<lparr>scan_records = spans_from crc 90 fs, scan_trailing = Clean\<rparr>"
  using scan_after_records [OF assms(1) refl assms(2)]
  by (simp add: scan_region_end segment_file_def segment_header_len_def)

lemma scan_sealed_file:
  assumes fs: "\<forall>f \<in> set fs. storable_frame f"
    and ft: "wf_footer ft" "sf_segment_id ft = sh_segment_id hdr"
    and limit: "length (segment_file crc hdr fs (encode_footer crc ft)) < 2 ^ 63"
  shows "scan_complete_records crc (segment_file crc hdr fs (encode_footer crc ft)) =
    Inr \<lparr>scan_records = spans_from crc 90 fs, scan_trailing = Clean\<rparr>"
proof -
  let ?bs = "segment_file crc hdr fs (encode_footer crc ft)"
  let ?pre = "encode_header crc hdr @ records_bytes crc fs"
  have "scan_step crc ?bs hdr (length ?pre) = Inr (Stop Clean)"
    using ft by (intro scan_step_footer) (auto simp: segment_file_def)
  moreover have "length ?pre < length ?bs"
    by (simp add: segment_file_def sealed_footer_len_def)
  ultimately show ?thesis
    unfolding scan_after_records [OF fs refl limit]
    by (simp add: scan_region_stop segment_header_len_def)
qed

lemma scan_torn_file:
  assumes fs: "\<forall>f \<in> set fs. storable_frame f" and all: "\<forall>f \<in> set all_fs. storable_frame f"
    and torn: "torn_tail crc all_fs (encode_footer crc ft) tail"
    and limit: "length (segment_file crc hdr fs tail) < 2 ^ 63"
  shows "scan_complete_records crc (segment_file crc hdr fs tail) =
    Inr \<lparr>scan_records = spans_from crc 90 fs,
      scan_trailing = Incomplete (ByteOffset (word_of_nat (90 + length (records_bytes crc fs))))\<rparr>"
proof -
  let ?bs = "segment_file crc hdr fs tail"
  let ?pre = "encode_header crc hdr @ records_bytes crc fs"
  have bs: "?bs = ?pre @ tail"
    by (simp add: segment_file_def)
  have "scan_step crc ?bs hdr (length ?pre) =
      Inr (Stop (Incomplete (ByteOffset (word_of_nat (length ?pre)))))"
    using torn unfolding torn_tail_def
  proof (elim disjE exE conjE)
    fix f m
    assume "f \<in> set all_fs" "0 < m" "m < length (record_bytes crc f)"
      "tail = take m (record_bytes crc f)"
    then show ?thesis
      using all limit bs by (intro scan_step_torn_record [of f m crc]) auto
  next
    fix m
    assume "0 < m" "m < length (encode_footer crc ft)" "tail = take m (encode_footer crc ft)"
    then show ?thesis
      using bs by (intro scan_step_torn_footer [of m _ _ crc ft]) auto
  qed
  moreover have "tail \<noteq> []"
    using torn by (auto simp: torn_tail_def dest: arg_cong [where f = length])
  ultimately show ?thesis
    unfolding scan_after_records [OF fs refl limit]
    by (simp add: scan_region_stop segment_header_len_def bs)
qed

lemma scan_cut_file:
  assumes fs: "\<forall>f \<in> set fs. storable_frame f"
    and ft: "wf_footer ft" "sf_segment_id ft = sh_segment_id hdr"
    and limit: "length (segment_file crc hdr fs (encode_footer crc ft)) < 2 ^ 63"
    and n: "segment_header_len \<le> n"
  shows "\<exists>kept t. scan_complete_records crc
      (take n (segment_file crc hdr fs (encode_footer crc ft))) =
      Inr \<lparr>scan_records = spans_from crc 90 kept, scan_trailing = t\<rparr> \<and>
    kept = fitting crc (n - 90) fs \<and>
    (t = Clean \<or> t = Incomplete (ByteOffset (word_of_nat (90 + length (records_bytes crc kept)))))"
proof -
  let ?foot = "encode_footer crc ft" and ?kept = "fitting crc (n - 90) fs"
  have cut: "take n (segment_file crc hdr fs ?foot) =
      encode_header crc hdr @ take (n - 90) (records_bytes crc fs @ ?foot)"
    using n by (simp add: segment_file_def segment_header_len_def)
  have kept: "\<forall>f \<in> set ?kept. storable_frame f"
    using fs set_fitting [of crc "n - 90" fs] by blast
  have short: "length (take n (segment_file crc hdr fs ?foot)) < 2 ^ 63"
    using limit by simp
  show ?thesis
    using take_records [of "n - 90" crc fs ?foot]
  proof (elim disjE exE conjE)
    assume eq: "take (n - 90) (records_bytes crc fs @ ?foot) = records_bytes crc ?kept"
    then have "take n (segment_file crc hdr fs ?foot) = segment_file crc hdr ?kept []"
      unfolding cut by (simp only: segment_file_def append_Nil2)
    then show ?thesis
      using short scan_open_file [OF kept, of crc hdr] by (simp only:) blast
  next
    assume "take (n - 90) (records_bytes crc fs @ ?foot) = records_bytes crc fs @ ?foot"
      and "?kept = fs"
    then have "take n (segment_file crc hdr fs ?foot) = segment_file crc hdr fs ?foot"
      unfolding cut by (simp only: segment_file_def)
    then show ?thesis
      using \<open>?kept = fs\<close> scan_sealed_file [OF fs ft limit] by (simp only:) blast
  next
    fix bs
    assume "take (n - 90) (records_bytes crc fs @ ?foot) = records_bytes crc ?kept @ bs"
      and torn: "torn_tail crc fs ?foot bs"
    then have "take n (segment_file crc hdr fs ?foot) = segment_file crc hdr ?kept bs"
      unfolding cut by (simp only: segment_file_def)
    then show ?thesis
      using short scan_torn_file [OF kept fs torn, of hdr] by (simp only:) blast
  qed
qed

section \<open>What any scan result guarantees\<close>

fun span_chain :: "checksum \<Rightarrow> byte_string \<Rightarrow> nat \<Rightarrow> record_span list \<Rightarrow> nat \<Rightarrow> bool" where
  "span_chain crc bs offset [] e \<longleftrightarrow> offset = e"
| "span_chain crc bs offset (sp # sps) e \<longleftrightarrow>
     unat (offset_value (span_byte_offset sp)) = offset \<and>
     unat (span_encoded_len sp) =
       frame_record_prefix_len + unat (span_header_len sp) + unat (span_payload_len sp) \<and>
     offset + unat (span_encoded_len sp) \<le> length bs \<and>
     take frame_record_prefix_len (drop offset bs) =
       frame_record_kind # to_be_bytes 4 (span_header_len sp) @
       to_be_bytes 8 (span_payload_len sp) @
       to_be_bytes 4 (crc (take (unat (span_encoded_len sp) - frame_record_prefix_len)
         (drop (offset + frame_record_prefix_len) bs))) \<and>
     span_chain crc bs (offset + unat (span_encoded_len sp)) sps e"

definition verdict_at ::
    "checksum \<Rightarrow> byte_string \<Rightarrow> segment_header \<Rightarrow> nat \<Rightarrow> trailing \<Rightarrow> bool" where
  "verdict_at crc bs hdr e t \<longleftrightarrow>
     (case t of
        Clean \<Rightarrow> e = length bs \<or>
          (\<exists>ft. decode_footer crc (drop e bs) = Inr ft \<and> sf_segment_id ft = sh_segment_id hdr)
      | Incomplete at \<Rightarrow> e < length bs \<and> at = ByteOffset (word_of_nat e)
      | Corrupt at \<Rightarrow> e < length bs \<and> at = ByteOffset (word_of_nat e))"

lemma scan_step_stop_verdict:
  assumes "scan_step crc bs hdr offset = Inr (Stop t)" and "offset < length bs"
  shows "verdict_at crc bs hdr offset t"
  using assms
  by (auto simp: scan_step_def footer_trailing_def verdict_at_def Let_def result_simps
      usize_from_u64_def split: if_splits option.splits sum.splits trailing.splits)

lemma scan_step_found_chain:
  assumes "scan_step crc bs hdr offset = Inr (Found sp e)" and "length bs < 2 ^ 63"
    and "span_chain crc bs e sps e'"
  shows "span_chain crc bs offset (sp # sps) e'"
proof -
  obtain hl :: u32 and pl :: u64 and tail where
    sp: "sp = \<lparr>span_byte_offset = ByteOffset (word_of_nat offset),
        span_encoded_len = word_of_nat (17 + unat hl + unat pl), span_header_len = hl,
        span_payload_len = pl\<rparr>"
    and e: "e = offset + (17 + unat hl + unat pl)" "e \<le> length bs"
    and prefix: "take 17 (drop offset bs) = frame_record_kind # to_be_bytes 4 hl @
      to_be_bytes 8 pl @
      to_be_bytes 4 (crc (take (unat hl + unat pl) (drop (offset + 17) bs))) @ tail"
    using assms(1)
    by (auto simp: scan_step_def Let_def result_simps expect_field_def usize_from_u64_def
        frame_record_prefix_len_def bind_eq_Some_conv
        split: if_splits option.splits dest!: read_field_rest)
  have "length (take 17 (drop offset bs)) = 17"
    using e by simp
  then have "tail = []"
    unfolding prefix by simp
  moreover have lens: "unat (span_encoded_len sp) = 17 + unat hl + unat pl"
    "unat (offset_value (span_byte_offset sp)) = offset"
    "span_header_len sp = hl" "span_payload_len sp = pl"
    unfolding sp using e assms(2) unat_u64_of_nat [of "17 + unat hl + unat pl"]
      unat_u64_of_nat [of offset] by (simp_all del: of_nat_add)
  ultimately show ?thesis
    using e prefix assms(3) by (simp add: frame_record_prefix_len_def add.assoc)
qed

lemma scan_region_sound:
  assumes "scan_record_region crc bs hdr offset recs = Inr r" and "offset \<le> length bs"
    and "length bs < 2 ^ 63"
  shows "\<exists>sps e. scan_records r = recs @ sps \<and> span_chain crc bs offset sps e \<and>
    e \<le> length bs \<and> verdict_at crc bs hdr e (scan_trailing r)"
  using assms
proof (induction crc bs hdr offset recs rule: scan_record_region.induct)
  case (1 crc bs hdr offset recs)
  show ?case
  proof (cases "offset < length bs")
    case False
    then show ?thesis
      using "1.prems" scan_region_end [of bs offset crc hdr recs]
      by (auto simp: verdict_at_def intro!: exI [of _ "[]"])
  next
    case True
    then obtain st where st: "scan_step crc bs hdr offset = Inr st"
      using "1.prems"(1) by (subst (asm) scan_record_region.simps) (auto simp: result_simps)
    show ?thesis
    proof (cases st)
      case (Stop t)
      then show ?thesis
        using "1.prems" st True scan_step_stop_verdict [of crc bs hdr offset t]
          scan_region_stop [of offset bs crc hdr t recs]
        by (auto intro!: exI [of _ "[]"])
    next
      case (Found sp e)
      have rec: "scan_record_region crc bs hdr e (recs @ [sp]) = Inr r"
        using "1.prems"(1) st True Found by (subst (asm) scan_record_region.simps) simp
      have "e \<le> length bs"
        using st Found scan_step_advances by blast
      from "1.IH" [OF True st Found rec this "1.prems"(3)] obtain sps e' where
        "scan_records r = (recs @ [sp]) @ sps" "span_chain crc bs e sps e'"
        "e' \<le> length bs" "verdict_at crc bs hdr e' (scan_trailing r)"
        by blast
      then show ?thesis
        using scan_step_found_chain [of crc bs hdr offset sp e sps e'] st Found "1.prems"(3)
        by (intro exI [of _ "sp # sps"] exI [of _ e']) auto
    qed
  qed
qed

text \<open>The scan always ends with a verdict: the \<open>expect\<close>s on a full prefix hold.\<close>

lemma scan_step_total: "\<exists>st. scan_step crc bs hdr offset = Inr st"
proof -
  have fields: "\<exists>k hl pl c. expect_field (read_u8 (reader_new x)) = Inr (k, \<lparr>reader_bytes = x, reader_offset = 1\<rparr>) \<and>
      expect_field (read_u32 \<lparr>reader_bytes = x, reader_offset = 1\<rparr>) =
        Inr (hl, \<lparr>reader_bytes = x, reader_offset = 5\<rparr>) \<and>
      expect_field (read_u64 \<lparr>reader_bytes = x, reader_offset = 5\<rparr>) =
        Inr (pl, \<lparr>reader_bytes = x, reader_offset = 13\<rparr>) \<and>
      expect_field (read_u32 \<lparr>reader_bytes = x, reader_offset = 13\<rparr>) =
        Inr (c, \<lparr>reader_bytes = x, reader_offset = 17\<rparr>)" if "length x = 17" for x
    using that
    by (simp add: read_u8_def read_u32_def read_u64_def read_array_def read_bytes_def reader_new_def
        expect_field_def)
  show ?thesis
  proof (cases "length (drop offset bs) < frame_record_prefix_len")
    case True
    then show ?thesis by (simp add: scan_step_def Let_def)
  next
    case False
    then have "length (take frame_record_prefix_len (drop offset bs)) = 17"
      by (simp add: frame_record_prefix_len_def)
    from fields [OF this] show ?thesis
      by (auto simp: scan_step_def Let_def usize_from_u64_def split: option.split)
  qed
qed

lemma scan_record_region_total: "\<exists>r. scan_record_region crc bs hdr offset recs = Inr r"
proof (induction crc bs hdr offset recs rule: scan_record_region.induct)
  case (1 crc bs hdr offset recs)
  obtain st where "scan_step crc bs hdr offset = Inr st"
    using scan_step_total by blast
  then show ?case
    using 1 by (subst scan_record_region.simps) (simp split: scan_step_result.split)
qed

section \<open>Random access to a stored frame\<close>

lemma read_stored_frame:
  assumes f: "storable_frame f" "belongs_to hdr f"
    and bs: "bs = encode_header crc hdr @ mid @ record_bytes crc f @ rest"
    and limit: "90 + length mid < usize_limit"
  shows "read_frame_at crc bs \<lparr>addr_segment = sh_segment_id hdr,
    addr_offset = ByteOffset (word_of_nat (90 + length mid))\<rparr> = Inr f"
proof -
  let ?o = "90 + length mid"
  let ?h = "metadata_bytes (ef_metadata f)" and ?p = "ef_bytes f"
  have o: "unat (word_of_nat ?o :: u64) = ?o"
    using limit by (intro unat_u64_of_nat) simp
  have header: "read_exact_at bs 0 90 = Some (encode_header crc hdr)"
    unfolding bs by (simp add: read_exact_at_def segment_header_len_def)
  have at: "drop ?o bs = record_prefix crc f @ ?h @ ?p @ rest"
    unfolding bs by (simp add: segment_header_len_def record_bytes_prefix)
  have prefix: "read_exact_at bs ?o 17 = Some (record_prefix crc f)"
    using at by (simp add: read_exact_at_def bs segment_header_len_def record_bytes_prefix)
  have "drop (?o + 17) bs = ?h @ ?p @ rest"
    using at by (metis add.commute append_eq_conv_conj drop_drop length_record_prefix)
  then have tail: "read_exact_at bs (?o + 17) (length ?h + length ?p) = Some (?h @ ?p)"
    by (simp add: read_exact_at_def bs segment_header_len_def record_bytes_prefix)
  have fields: "read_u8 (reader_new (record_prefix crc f)) =
      Inr (frame_record_kind, reader_at [frame_record_kind] (drop (Suc 0) (record_prefix crc f)))"
    "read_u32 (reader_at [frame_record_kind] (drop (Suc 0) (record_prefix crc f))) =
      Inr (word_of_nat (length ?h), reader_at (take 5 (record_prefix crc f)) (drop 5 (record_prefix crc f)))"
    "read_u64 (reader_at (take 5 (record_prefix crc f)) (drop 5 (record_prefix crc f))) =
      Inr (word_of_nat (length ?p), reader_at (take 13 (record_prefix crc f)) (drop 13 (record_prefix crc f)))"
    using read_record_prefix [of crc f] by (simp_all add: expect_field_def result_simps)
  have decode: "decode_frame_record crc hdr (record_prefix crc f @ ?h @ ?p) =
      Inr \<lparr>decoded_frame = f, decoded_len = length (record_bytes crc f)\<rparr>"
    using decode_encode_record [OF f, of crc "[]"] by (simp add: record_bytes_prefix)
  have small: "\<not> 2 ^ 63 \<le> 17 + (length ?h + length ?p)" "length ?h + length ?p < usize_limit"
    using storable_lengths [OF f(1)] by simp_all
  show ?thesis
    using small
    by (simp del: of_nat_add add: read_frame_at_def read_frame_from_def o Let_def segment_header_len_def header
        decode_encode_header prefix frame_record_prefix_len_def fields usize_from_u64_def
        storable_lengths [OF f(1)] tail [simplified] decode)
qed

text \<open>Bytes appended to a file do not change what its addresses read.\<close>

lemma read_exact_at_append:
  "read_exact_at bs pos n = Some xs \<Longrightarrow> read_exact_at (bs @ rest) pos n = Some xs"
  by (auto simp: read_exact_at_def split: if_splits)

lemma read_frame_at_append:
  assumes "read_frame_at crc bs a = Inr f"
  shows "read_frame_at crc (bs @ rest) a = Inr f"
proof -
  obtain hb hdr prefix k r hl r1 pl r2 tail decoded where
    steps: "\<not> unat (offset_value (addr_offset a)) < segment_header_len"
      "decode_header crc hb = Inr hdr" "sh_segment_id hdr = addr_segment a"
      "read_u8 (reader_new prefix) = Inr (k, r)" "k = frame_record_kind"
      "read_u32 r = Inr (hl, r1)" "read_u64 r1 = Inr (pl, r2)"
      "unat hl + unat pl < usize_limit" "\<not> 2 ^ 63 \<le> frame_record_prefix_len + (unat hl + unat pl)"
      "decode_frame_record crc hdr (prefix @ tail) = Inr decoded" "f = decoded_frame decoded"
    and reads: "read_exact_at bs 0 segment_header_len = Some hb"
      "read_exact_at bs (unat (offset_value (addr_offset a))) frame_record_prefix_len = Some prefix"
      "read_exact_at bs (unat (offset_value (addr_offset a)) + frame_record_prefix_len)
        (unat hl + unat pl) = Some tail"
    using assms
    by (auto simp: read_frame_at_def read_frame_from_def Let_def result_simps usize_from_u64_def
        split: if_splits)
  note longer = reads [THEN read_exact_at_append [where rest = rest]]
  show ?thesis
    using steps longer
    by (simp add: read_frame_at_def read_frame_from_def Let_def usize_from_u64_def)
qed

end
