(* ===== verification/Storage_Env.thy ===== *)
theory Storage_Env
  imports Segment_Scanner
begin

text \<open>
  The filesystem as the segment writer uses it (\<open>segments/writer.rs\<close>): files named by a segment
  identifier and a publication state, and a script of outcomes for the coming system calls, so
  that every failure the code handles, partial writes included, is an input of the model.
  \<open>BufWriter\<close> is the standard library's: bytes below its capacity are buffered, a failed flush
  keeps the unwritten suffix, and dropping the writer makes one more attempt whose failure is
  ignored. New identifiers come from the crate \<open>uuid\<close>: the parameter \<open>new_v4\<close>.
\<close>

section \<open>Failures\<close>

datatype io_kind =
    IoNotFound | IoPermissionDenied | IoAlreadyExists | IoInterrupted | IoWouldBlock
  | IoStorageFull | IoReadOnlyFilesystem | IoInvalidData | IoInvalidInput | IoOther

datatype persistence_operation =
    SegmentDirectoryPreparation | OpenSegmentCreation | OpenSegmentPublicationSync
  | FrameRecordAppend | FrameRecordFlush | SealedSegmentFooterWrite | SealedSegmentFileSync
  | SealedSegmentPublication | SealedSegmentPublicationSync | SegmentWriterWorker
  | FrameIndex | GapIndex | SessionFlush

datatype persistence_category =
    NotFound | PermissionDenied | AlreadyExists | Interrupted | ResourceBusy | StorageFull
  | ReadOnlyFilesystem | InvalidData | Unavailable | OtherCategory

datatype persistence_recoverability = WriterUsable | WriterTerminal

record persistence_failure =
  pf_operation :: persistence_operation
  pf_category :: persistence_category
  pf_recoverability :: persistence_recoverability

text \<open>
  A \<open>KrometrailError\<close> of the store, without its fixed message; \<open>ThreadPanic\<close> is an \<open>expect\<close> of the
  worker thread that does not hold.
\<close>

datatype store_failure = KrometrailError "persistence_failure option" | ThreadPanic

definition store_error ::
    "persistence_operation \<Rightarrow> persistence_category \<Rightarrow> persistence_recoverability \<Rightarrow> store_failure" where
  "store_error operation category recoverability =
     KrometrailError (Some \<lparr>pf_operation = operation, pf_category = category,
       pf_recoverability = recoverability\<rparr>)"

fun io_category :: "io_kind \<Rightarrow> persistence_category" where
  "io_category IoNotFound = NotFound"
| "io_category IoPermissionDenied = PermissionDenied"
| "io_category IoAlreadyExists = AlreadyExists"
| "io_category IoInterrupted = Interrupted"
| "io_category IoWouldBlock = ResourceBusy"
| "io_category IoStorageFull = StorageFull"
| "io_category IoReadOnlyFilesystem = ReadOnlyFilesystem"
| "io_category IoInvalidData = InvalidData"
| "io_category IoInvalidInput = InvalidData"
| "io_category IoOther = OtherCategory"

definition io_error ::
    "persistence_operation \<Rightarrow> io_kind \<Rightarrow> persistence_recoverability \<Rightarrow> store_failure" where
  "io_error operation kind recoverability = store_error operation (io_category kind) recoverability"

definition writer_invalid :: store_failure where
  "writer_invalid = store_error FrameRecordAppend InvalidData WriterTerminal"

section \<open>Files\<close>

datatype segment_state = Open | Sealed

type_synonym segment_name = "segment_id \<times> segment_state"

datatype io_outcome = IoOk | IoError io_kind nat

record disk =
  disk_files :: "segment_name \<Rightarrow> byte_string option"
  disk_script :: "io_outcome list"
  disk_uuids :: nat

definition open_segment_name :: "segment_id \<Rightarrow> segment_name" where
  "open_segment_name sid = (sid, Open)"

definition sealed_segment_name :: "segment_id \<Rightarrow> segment_name" where
  "sealed_segment_name sid = (sid, Sealed)"

definition next_outcome :: "disk \<Rightarrow> io_outcome \<times> disk" where
  "next_outcome d =
     (case disk_script d of [] \<Rightarrow> (IoOk, d) | out # outs \<Rightarrow> (out, d\<lparr>disk_script := outs\<rparr>))"

definition append_file :: "segment_name \<Rightarrow> byte_string \<Rightarrow> disk \<Rightarrow> disk" where
  "append_file name bs d =
     d\<lparr>disk_files := (disk_files d)(name := map_option (\<lambda>c. c @ bs) (disk_files d name))\<rparr>"

text \<open>\<open>write_all\<close> on the file: on failure the first \<open>n\<close> bytes may have reached it.\<close>

definition sys_write :: "segment_name \<Rightarrow> byte_string \<Rightarrow> disk \<Rightarrow> (io_kind \<times> nat + unit) \<times> disk" where
  "sys_write name bs d =
     (case next_outcome d of
        (IoOk, d) \<Rightarrow> (Inr (), append_file name bs d)
      | (IoError k n, d) \<Rightarrow> (Inl (k, n), append_file name (take n bs) d))"

definition sys_sync :: "disk \<Rightarrow> (io_kind + unit) \<times> disk" where
  "sys_sync d =
     (case next_outcome d of (IoOk, d) \<Rightarrow> (Inr (), d) | (IoError k n, d) \<Rightarrow> (Inl k, d))"

text \<open>\<open>create_new\<close>, and a rename that replaces its destination.\<close>

definition sys_create :: "segment_name \<Rightarrow> disk \<Rightarrow> (io_kind + unit) \<times> disk" where
  "sys_create name d =
     (case next_outcome d of
        (IoOk, d) \<Rightarrow>
          (case disk_files d name of
             None \<Rightarrow> (Inr (), d\<lparr>disk_files := (disk_files d)(name \<mapsto> [])\<rparr>)
           | Some _ \<Rightarrow> (Inl IoAlreadyExists, d))
      | (IoError k n, d) \<Rightarrow> (Inl k, d))"

definition sys_rename :: "segment_name \<Rightarrow> segment_name \<Rightarrow> disk \<Rightarrow> (io_kind + unit) \<times> disk" where
  "sys_rename source dest d =
     (case next_outcome d of
        (IoOk, d) \<Rightarrow>
          (case disk_files d source of
             None \<Rightarrow> (Inl IoNotFound, d)
           | Some bs \<Rightarrow> (Inr (), d\<lparr>disk_files := (disk_files d)(source := None, dest \<mapsto> bs)\<rparr>))
      | (IoError k n, d) \<Rightarrow> (Inl k, d))"

section \<open>The buffered writer\<close>

definition buf_capacity :: nat where
  "buf_capacity = 8192"

definition flush_buf :: "segment_name \<Rightarrow> byte_string \<times> disk \<Rightarrow> (io_kind + unit) \<times> byte_string \<times> disk" where
  "flush_buf name = (\<lambda>(buf, d).
     if buf = [] then (Inr (), [], d)
     else case sys_write name buf d of
        (Inr _, d) \<Rightarrow> (Inr (), [], d)
      | (Inl (k, n), d) \<Rightarrow> (Inl k, drop n buf, d))"

definition buf_write_all ::
    "segment_name \<Rightarrow> byte_string \<Rightarrow> byte_string \<times> disk \<Rightarrow> (io_kind + unit) \<times> byte_string \<times> disk" where
  "buf_write_all name bs = (\<lambda>(buf, d).
     if length bs < buf_capacity - length buf then (Inr (), buf @ bs, d)
     else
       case (if length bs > buf_capacity - length buf then flush_buf name (buf, d)
             else (Inr (), buf, d)) of
         (Inl k, buf, d) \<Rightarrow> (Inl k, buf, d)
       | (Inr _, buf, d) \<Rightarrow>
           if length bs \<ge> buf_capacity then
             (case sys_write name bs d of
                (Inr _, d) \<Rightarrow> (Inr (), buf, d)
              | (Inl (k, n), d) \<Rightarrow> (Inl k, buf, d))
           else (Inr (), buf @ bs, d))"

definition drop_writer :: "segment_name \<Rightarrow> byte_string \<times> disk \<Rightarrow> disk" where
  "drop_writer name s = snd (snd (flush_buf name s))"

section \<open>What the system calls keep\<close>

text \<open>
  \<open>disk_extends\<close> is the guarantee every call gives readers: no file of a segment loses a byte, and
  the only change of name is from the open to the sealed publication of the same segment.
\<close>

definition disk_extends :: "disk \<Rightarrow> disk \<Rightarrow> bool" where
  "disk_extends d d' \<longleftrightarrow>
     (\<forall>sid st bs. disk_files d (sid, st) = Some bs \<longrightarrow>
        (\<exists>st' rest. disk_files d' (sid, st') = Some (bs @ rest)))"

lemma disk_extendsI:
  assumes "\<And>sid st bs. disk_files d (sid, st) = Some bs \<Longrightarrow>
    \<exists>rest. disk_files d' (sid, st) = Some (bs @ rest)"
  shows "disk_extends d d'"
  using assms unfolding disk_extends_def by meson

lemma disk_extends_files_eq: "disk_files d' = disk_files d \<Longrightarrow> disk_extends d d'"
  by (rule disk_extendsI) (simp add: exI [of _ "[]"])

lemma disk_extends_refl [simp, intro]: "disk_extends d d"
  by (simp add: disk_extends_files_eq)

lemma disk_extends_trans [trans]:
  assumes "disk_extends d d'" and "disk_extends d' d''"
  shows "disk_extends d d''"
  unfolding disk_extends_def
proof (intro allI impI)
  fix sid st bs
  assume "disk_files d (sid, st) = Some bs"
  then obtain st' rest where "disk_files d' (sid, st') = Some (bs @ rest)"
    using assms(1) unfolding disk_extends_def by blast
  then obtain st'' rest' where "disk_files d'' (sid, st'') = Some ((bs @ rest) @ rest')"
    using assms(2) unfolding disk_extends_def by blast
  then show "\<exists>st' rest. disk_files d'' (sid, st') = Some (bs @ rest)"
    by auto
qed

lemma next_outcome_same:
  "next_outcome d = (out, d') \<Longrightarrow> disk_files d' = disk_files d \<and> disk_uuids d' = disk_uuids d"
  by (auto simp: next_outcome_def split: list.splits)

text \<open>Bytes are added at the end of one file and nothing else changes.\<close>

definition appends_to :: "segment_name \<Rightarrow> byte_string \<Rightarrow> disk \<Rightarrow> disk \<Rightarrow> bool" where
  "appends_to name bs d d' \<longleftrightarrow>
     disk_uuids d' = disk_uuids d \<and>
     disk_files d' = (disk_files d)(name := map_option (\<lambda>c. c @ bs) (disk_files d name))"

definition writes_only :: "segment_name \<Rightarrow> disk \<Rightarrow> disk \<Rightarrow> bool" where
  "writes_only name d d' \<longleftrightarrow> (\<exists>bs. appends_to name bs d d')"

lemma appends_to_writes_only [intro]: "appends_to name bs d d' \<Longrightarrow> writes_only name d d'"
  by (auto simp: writes_only_def)

lemma appends_to_Nil: "disk_files d' = disk_files d \<Longrightarrow> disk_uuids d' = disk_uuids d \<Longrightarrow>
  appends_to name [] d d'"
  by (auto simp: appends_to_def fun_eq_iff option.map_ident)

lemma writes_only_refl [simp, intro]: "writes_only name d d"
  unfolding writes_only_def by (rule exI [of _ "[]"]) (simp add: appends_to_Nil)

lemma appends_to_trans:
  "appends_to name xs d d' \<Longrightarrow> appends_to name ys d' d'' \<Longrightarrow> appends_to name (xs @ ys) d d''"
  by (auto simp: appends_to_def fun_eq_iff option.map_comp comp_def)

lemma writes_only_trans [trans]:
  "writes_only name d d' \<Longrightarrow> writes_only name d' d'' \<Longrightarrow> writes_only name d d''"
  unfolding writes_only_def by (blast intro: appends_to_trans)

lemma writes_only_extends: "writes_only name d d' \<Longrightarrow> disk_extends d d'"
  by (rule disk_extendsI) (auto simp: writes_only_def appends_to_def exI [of _ "[]"])

lemma writes_only_uuids: "writes_only name d d' \<Longrightarrow> disk_uuids d' = disk_uuids d"
  by (auto simp: writes_only_def appends_to_def)

lemma writes_only_other: "writes_only name d d' \<Longrightarrow> name' \<noteq> name \<Longrightarrow>
  disk_files d' name' = disk_files d name'"
  by (auto simp: writes_only_def appends_to_def)

lemma writes_only_None: "writes_only name d d' \<Longrightarrow> disk_files d' name' = None \<longleftrightarrow> disk_files d name' = None"
  by (auto simp: writes_only_def appends_to_def split: if_splits)

lemma append_file_appends_to:
  "disk_files d' = disk_files d \<Longrightarrow> disk_uuids d' = disk_uuids d \<Longrightarrow>
   appends_to name bs d (append_file name bs d')"
  by (simp add: appends_to_def append_file_def)

lemma sys_write_effect:
  "sys_write name bs d = (r, d') \<Longrightarrow>
   (case r of Inr _ \<Rightarrow> appends_to name bs d d' | Inl (k, n) \<Rightarrow> appends_to name (take n bs) d d')"
  by (auto simp: sys_write_def append_file_appends_to dest!: next_outcome_same
      split: prod.splits io_outcome.splits)

lemma sys_sync_effect:
  "sys_sync d = (r, d') \<Longrightarrow> disk_files d' = disk_files d \<and> disk_uuids d' = disk_uuids d"
  by (auto simp: sys_sync_def dest!: next_outcome_same split: prod.splits io_outcome.splits)

lemma flush_buf_effect:
  "flush_buf name (buf, d) = (r, buf', d') \<Longrightarrow>
   writes_only name d d' \<and> (r = Inr () \<longrightarrow> buf' = [] \<and> appends_to name buf d d')"
  by (auto simp: flush_buf_def appends_to_Nil dest!: sys_write_effect
      split: if_splits prod.splits sum.splits)

lemma buf_write_all_effect:
  "buf_write_all name bs ([], d) = (r, buf', d') \<Longrightarrow>
   writes_only name d d' \<and> (r = Inr () \<longrightarrow>
     buf' = bs \<and> appends_to name [] d d' \<or> buf' = [] \<and> appends_to name bs d d')"
  by (auto simp: buf_write_all_def flush_buf_def appends_to_Nil
      dest!: sys_write_effect split: if_splits prod.splits sum.splits)

text \<open>A record written and flushed is at the end of its file, whichever way it was buffered.\<close>

lemma write_then_flush:
  assumes "buf_write_all name bs ([], d) = (Inr (), buf1, d1)"
    and "flush_buf name (buf1, d1) = (Inr (), buf2, d2)"
  shows "buf2 = [] \<and> appends_to name bs d d2"
  using buf_write_all_effect [OF assms(1)] flush_buf_effect [OF assms(2)]
  by (auto dest: appends_to_trans)

lemma drop_writer_effect: "writes_only name d (drop_writer name (buf, d))"
  using flush_buf_effect [of name buf d]
  by (cases "flush_buf name (buf, d)") (auto simp: drop_writer_def)

lemma sys_create_effect:
  "sys_create name d = (r, d') \<Longrightarrow>
   disk_uuids d' = disk_uuids d \<and> disk_extends d d' \<and>
   (r = Inr () \<longrightarrow> disk_files d name = None \<and> disk_files d' = (disk_files d)(name \<mapsto> [])) \<and>
   (r \<noteq> Inr () \<longrightarrow> disk_files d' = disk_files d)"
  by (auto simp: sys_create_def dest!: next_outcome_same intro!: disk_extendsI
      split: prod.splits io_outcome.splits option.splits)

lemma sys_rename_effect:
  "sys_rename source dest d = (r, d') \<Longrightarrow>
   disk_uuids d' = disk_uuids d \<and>
   (case r of
      Inr _ \<Rightarrow> (\<exists>bs. disk_files d source = Some bs \<and>
        disk_files d' = (disk_files d)(source := None, dest \<mapsto> bs))
    | Inl _ \<Rightarrow> disk_files d' = disk_files d)"
  by (auto simp: sys_rename_def dest!: next_outcome_same
      split: prod.splits io_outcome.splits option.splits)

end
