(* ===== verification/Hash_Map.thy ===== *)
theory Hash_Map
  imports Prelude "HOL-Library.AList"
begin

text \<open>
  The hash maps of the sources as association lists with distinct keys. The order of the list
  stands for the unspecified iteration order of a Rust \<open>HashMap\<close>: no property of the development
  depends on it. The locale \<open>hash_map\<close> is the interface the supervisor and the segment writer
  use; loops that visit every key once are derived from its laws.
\<close>

section \<open>The interface\<close>

locale hash_map =
  fixes get :: "'m \<Rightarrow> 'k \<Rightarrow> 'v option"
    and put :: "'k \<Rightarrow> 'v \<Rightarrow> 'm \<Rightarrow> 'm"
    and del :: "'k \<Rightarrow> 'm \<Rightarrow> 'm"
    and keys :: "'m \<Rightarrow> 'k list"
    and inv :: "'m \<Rightarrow> bool"
  assumes inv_put: "inv m \<Longrightarrow> inv (put k v m)"
    and inv_del: "inv m \<Longrightarrow> inv (del k m)"
    and get_put: "get (put k v m) = (get m)(k \<mapsto> v)"
    and get_del: "get (del k m) = (get m)(k := None)"
    and set_keys: "set (keys m) = dom (get m)"
    and distinct_keys: "inv m \<Longrightarrow> distinct (keys m)"
begin

lemma get_put_same [simp]: "get (put k v m) k = Some v"
  by (simp add: get_put)

lemma get_put_other [simp]: "j \<noteq> k \<Longrightarrow> get (put k v m) j = get m j"
  by (simp add: get_put)

lemma in_keys_iff: "k \<in> set (keys m) \<longleftrightarrow> get m k \<noteq> None"
  by (auto simp: set_keys)

lemma dom_put: "dom (get (put k v m)) = insert k (dom (get m))"
  by (simp add: get_put)

lemma dom_del: "dom (get (del k m)) = dom (get m) - {k}"
  by (simp add: get_del)

lemma length_keys: "inv m \<Longrightarrow> length (keys m) = card (dom (get m))"
  by (metis distinct_card distinct_keys set_keys)

lemma fold_del:
  "get (fold del ks m) = (get m) |` (- set ks)"
  by (induction ks arbitrary: m) (auto simp: get_del restrict_map_def fun_eq_iff)

lemma fold_del_inv: "inv m \<Longrightarrow> inv (fold del ks m)"
  by (induction ks arbitrary: m) (auto intro: inv_del)

text \<open>A pass that rewrites the value at each listed key.\<close>

lemma fold_modify_get:
  assumes "distinct ks"
    and step: "\<And>k m. get (upd k m) = (case get m k of None \<Rightarrow> get m | Some v \<Rightarrow> (get m)(k \<mapsto> h k v))"
  shows "get (fold upd ks m) j = (if j \<in> set ks then map_option (h j) (get m j) else get m j)"
  using assms(1)
proof (induction ks arbitrary: m)
  case Nil
  then show ?case by simp
next
  case (Cons k ks)
  then show ?case
    by (auto simp: step split: option.splits)
qed

end

section \<open>Association lists provide it\<close>

type_synonym ('k, 'v) hmap = "('k \<times> 'v) list"

definition hm_get :: "('k, 'v) hmap \<Rightarrow> 'k \<Rightarrow> 'v option" where
  "hm_get m k = map_of m k"

definition hm_insert :: "'k \<Rightarrow> 'v \<Rightarrow> ('k, 'v) hmap \<Rightarrow> ('k, 'v) hmap" where
  "hm_insert k v m = AList.update k v m"

definition hm_remove :: "'k \<Rightarrow> ('k, 'v) hmap \<Rightarrow> ('k, 'v) hmap" where
  "hm_remove k m = AList.delete k m"

definition hm_keys :: "('k, 'v) hmap \<Rightarrow> 'k list" where
  "hm_keys m = map fst m"

definition hm_inv :: "('k, 'v) hmap \<Rightarrow> bool" where
  "hm_inv m \<longleftrightarrow> distinct (map fst m)"

interpretation hm: hash_map hm_get hm_insert hm_remove hm_keys hm_inv
proof unfold_locales
  fix m :: "('k, 'v) hmap" and k v
  show "hm_inv m \<Longrightarrow> hm_inv (hm_insert k v m)"
    by (simp add: hm_inv_def hm_insert_def distinct_update)
  show "hm_inv m \<Longrightarrow> hm_inv (hm_remove k m)"
    by (simp add: hm_inv_def hm_remove_def distinct_delete)
  show "hm_get (hm_insert k v m) = (hm_get m)(k \<mapsto> v)"
    by (simp add: fun_eq_iff hm_get_def hm_insert_def update_conv')
  show "hm_get (hm_remove k m) = (hm_get m)(k := None)"
    by (simp add: fun_eq_iff hm_get_def hm_remove_def delete_conv')
  show "set (hm_keys m) = dom (hm_get m)"
  proof -
    have "hm_get m = map_of m"
      by (simp add: fun_eq_iff hm_get_def)
    then show ?thesis
      by (simp add: hm_keys_def dom_map_of_conv_image_fst)
  qed
  show "hm_inv m \<Longrightarrow> distinct (hm_keys m)"
    by (simp add: hm_inv_def hm_keys_def)
qed

lemma hm_get_Nil [simp]: "hm_get [] k = None"
  by (simp add: hm_get_def)

lemma hm_inv_Nil [simp]: "hm_inv []"
  by (simp add: hm_inv_def)

lemma hm_get_Cons: "hm_get ((k, v) # m) j = (if j = k then Some v else hm_get m j)"
  by (simp add: hm_get_def)

lemma hm_get_mem: "hm_get m k = Some v \<Longrightarrow> (k, v) \<in> set m"
  by (simp add: hm_get_def map_of_SomeD)

lemma hm_mem_get: "hm_inv m \<Longrightarrow> (k, v) \<in> set m \<Longrightarrow> hm_get m k = Some v"
  by (simp add: hm_get_def hm_inv_def)

text \<open>\<open>values_mut\<close> and \<open>retain\<close>: one pass over every entry.\<close>

definition hm_map_values :: "('k \<Rightarrow> 'v \<Rightarrow> 'w) \<Rightarrow> ('k, 'v) hmap \<Rightarrow> ('k, 'w) hmap" where
  "hm_map_values h m = map (\<lambda>(k, v). (k, h k v)) m"

definition hm_retain :: "('k \<Rightarrow> 'v \<Rightarrow> bool) \<Rightarrow> ('k, 'v) hmap \<Rightarrow> ('k, 'v) hmap" where
  "hm_retain P m = filter (\<lambda>(k, v). P k v) m"

lemma hm_get_map_values [simp]: "hm_get (hm_map_values h m) k = map_option (h k) (hm_get m k)"
  by (induction m) (auto simp: hm_map_values_def hm_get_def)

lemma hm_inv_map_values [simp]: "hm_inv (hm_map_values h m) \<longleftrightarrow> hm_inv m"
  by (simp add: hm_inv_def hm_map_values_def comp_def case_prod_beta)

lemma hm_keys_map_values [simp]: "hm_keys (hm_map_values h m) = hm_keys m"
  by (simp add: hm_keys_def hm_map_values_def comp_def case_prod_beta)

lemma hm_inv_retain: "hm_inv m \<Longrightarrow> hm_inv (hm_retain P m)"
  by (simp add: hm_inv_def hm_retain_def distinct_map_filter)

lemma hm_get_retain:
  assumes "hm_inv m"
  shows "hm_get (hm_retain P m) k =
    (case hm_get m k of Some v \<Rightarrow> if P k v then Some v else None | None \<Rightarrow> None)"
  using assms
proof (induction m)
  case Nil
  then show ?case by (simp add: hm_retain_def hm_get_def)
next
  case (Cons x m)
  have "map_of (filter (\<lambda>(k, v). P k v) m) k = None" if "k \<notin> fst ` set m"
    using that by (force simp: map_of_eq_None_iff)
  with Cons show ?case
    by (cases x) (auto simp: hm_retain_def hm_get_def hm_inv_def split: option.splits)
qed

end
