(* ===== verification/Command_Machine.thy ===== *)
theory Command_Machine
  imports Prelude
begin

text \<open>
  A component that takes commands one at a time, each returning a reply and the next state: the
  segment writer's worker and the target supervisor. \<open>run_steps\<close> is the loop over the queue; the
  locale \<open>command_machine\<close> states what one step promises (an invariant, and a relation that only
  grows) and derives the same of any run.
\<close>

fun run_steps :: "('c \<Rightarrow> 's \<Rightarrow> 'r \<times> 's) \<Rightarrow> 'c list \<Rightarrow> 's \<Rightarrow> 'r list \<times> 's" where
  "run_steps step [] s = ([], s)"
| "run_steps step (c # cs) s =
     (case step c s of (r, s) \<Rightarrow>
        (case run_steps step cs s of (rs, s) \<Rightarrow> (r # rs, s)))"

lemma run_steps_length: "run_steps step cs s = (rs, s') \<Longrightarrow> length rs = length cs"
  by (induction cs arbitrary: s rs) (auto split: prod.splits)

lemma run_steps_append:
  "run_steps step (cs @ ds) s =
     (case run_steps step cs s of (rs, s) \<Rightarrow>
        (case run_steps step ds s of (qs, s) \<Rightarrow> (rs @ qs, s)))"
  by (induction cs arbitrary: s) (auto split: prod.splits)

locale command_machine =
  fixes step :: "'c \<Rightarrow> 's \<Rightarrow> 'r \<times> 's"
    and ok :: "'c \<Rightarrow> bool"
    and inv :: "'s \<Rightarrow> bool"
    and grows :: "'s \<Rightarrow> 's \<Rightarrow> bool"
  assumes step_inv: "inv s \<Longrightarrow> ok c \<Longrightarrow> step c s = (r, s') \<Longrightarrow> inv s'"
    and step_grows: "inv s \<Longrightarrow> ok c \<Longrightarrow> step c s = (r, s') \<Longrightarrow> grows s s'"
    and grows_refl: "grows s s"
    and grows_trans: "grows s s' \<Longrightarrow> grows s' s'' \<Longrightarrow> grows s s''"
begin

lemma run_inv:
  "run_steps step cs s = (rs, s') \<Longrightarrow> list_all ok cs \<Longrightarrow> inv s \<Longrightarrow> inv s'"
  by (induction cs arbitrary: s rs) (auto split: prod.splits intro: step_inv)

lemma run_grows:
  "run_steps step cs s = (rs, s') \<Longrightarrow> list_all ok cs \<Longrightarrow> inv s \<Longrightarrow> grows s s'"
proof (induction cs arbitrary: s rs)
  case Nil
  then show ?case by (simp add: grows_refl)
next
  case (Cons c cs)
  then obtain r s1 rs1 where "step c s = (r, s1)" "run_steps step cs s1 = (rs1, s')"
    by (auto split: prod.splits)
  moreover from this Cons.prems have "inv s1" "grows s s1"
    by (auto intro: step_inv step_grows)
  ultimately show ?case
    using Cons by (auto intro: grows_trans [of s s1 s'])
qed

text \<open>The reply at position \<open>i\<close> was given by a step from a good state, and only growth followed.\<close>

lemma run_nth:
  assumes "run_steps step cs s = (rs, s')" and "list_all ok cs" and "inv s" and "i < length cs"
  obtains s1 s2 where "inv s1" "step (cs ! i) s1 = (rs ! i, s2)" "inv s2" "grows s2 s'"
    "grows s s1" "ok (cs ! i)"
proof -
  have split: "cs = take i cs @ cs ! i # drop (Suc i) cs"
    using assms(4) by (simp add: id_take_nth_drop)
  obtain rs1 s1 where before: "run_steps step (take i cs) s = (rs1, s1)" by fastforce
  obtain r s2 where at: "step (cs ! i) s1 = (r, s2)" by fastforce
  obtain rs2 s3 where after: "run_steps step (drop (Suc i) cs) s2 = (rs2, s3)" by fastforce
  have "rs = rs1 @ r # rs2 \<and> s' = s3"
    using assms(1) before at after run_steps_append [of step "take i cs" "cs ! i # drop (Suc i) cs" s]
    by (simp flip: split)
  moreover have "length rs1 = i"
    using run_steps_length [OF before] assms(4) by simp
  ultimately have r: "r = rs ! i" and end_: "s' = s3"
    by auto
  have ok: "list_all ok (take i cs)" "ok (cs ! i)" "list_all ok (drop (Suc i) cs)"
    using assms(2,4) by (simp_all add: list_all_length)
  have "inv s1" using run_inv [OF before ok(1) assms(3)] .
  moreover from this have "inv s2" using step_inv at ok(2) by blast
  moreover from this have "grows s2 s'" using run_grows [OF after ok(3)] end_ by simp
  moreover have "grows s s1" using run_grows [OF before ok(1) assms(3)] .
  ultimately show thesis
    using that at r ok(2) by blast
qed

end

end
