(* ===== verification/Segment_Writer.thy ===== *)
theory Segment_Writer
  imports Storage_Env Hash_Map Command_Machine
begin

text \<open>
  The segment writer of \<open>segments/writer.rs\<close>: one open segment per session and target, rotation by
  age and size, sealing (footer, sync, rename, directory sync), the worker that latches the first
  terminal error, and the queue of commands it runs in order. Operations that can fail half-way
  return the error together with the state they leave behind.
  The lemmas say what each operation leaves on disk whatever system call fails, and what an open
  segment of the worker holds.
\<close>

section \<open>Rotation\<close>

record duration =
  dur_secs :: u64
  dur_subsec_nanos :: u32

definition duration_as_nanos :: "duration \<Rightarrow> nat" where
  "duration_as_nanos d = unat (dur_secs d) * 10 ^ 9 + unat (dur_subsec_nanos d)"

record rotation_config =
  rc_max_duration :: duration
  rc_max_size :: u64

datatype rotation_error = ZeroRotationDuration | ZeroRotationSize

definition rotation_suggested :: rotation_config where
  "rotation_suggested = \<lparr>rc_max_duration = \<lparr>dur_secs = 120, dur_subsec_nanos = 0\<rparr>,
     rc_max_size = 128 * 1024 * 1024\<rparr>"

definition rotation_validate :: "rotation_config \<Rightarrow> rotation_error + rotation_config" where
  "rotation_validate rc =
     (if duration_as_nanos (rc_max_duration rc) = 0 then Inl ZeroRotationDuration
      else if rc_max_size rc = 0 then Inl ZeroRotationSize
      else Inr rc)"

definition max_duration_nanos :: "rotation_config \<Rightarrow> u64" where
  "max_duration_nanos rc =
     (let nanos = duration_as_nanos (rc_max_duration rc) in
      if nanos < 2 ^ 64 then word_of_nat nanos else - 1)"

section \<open>Open segments\<close>

record segment_registration =
  sr_segment_id :: segment_id
  sr_session_id :: session_id
  sr_target_id :: target_id
  sr_state :: segment_state
  sr_start_time :: session_time
  sr_end_time :: "session_time option"
  sr_file_bytes :: u64
  sr_payload_bytes :: u64
  sr_record_count :: u64

record frame_write_commit =
  fc_address :: frame_address
  fc_active_segment :: segment_registration
  fc_sealed_segment :: "segment_registration option"

record open_segment =
  os_header :: segment_header
  os_buffer :: byte_string
  os_file_len :: u64
  os_record_count :: u64
  os_total_payload :: u64
  os_first_session_time :: session_time
  os_last_session_time :: session_time
  os_last_observed_time :: observed_time

definition registration :: "open_segment \<Rightarrow> segment_state \<Rightarrow> segment_registration" where
  "registration os st =
     \<lparr>sr_segment_id = sh_segment_id (os_header os), sr_session_id = sh_session_id (os_header os),
      sr_target_id = sh_target_id (os_header os), sr_state = st,
      sr_start_time = sh_start_session_time (os_header os),
      sr_end_time = (if st = Sealed then Some (os_last_session_time os) else None),
      sr_file_bytes = os_file_len os, sr_payload_bytes = os_total_payload os,
      sr_record_count = os_record_count os\<rparr>"

definition should_rotate :: "open_segment \<Rightarrow> encoded_frame \<Rightarrow> rotation_config \<Rightarrow> bool" where
  "should_rotate os frame rotation =
     (if os_record_count os = 0 then False
      else
        let elapsed = saturating_sub (session_nanos (cf_session_time (ef_metadata frame)))
              (session_nanos (sh_start_session_time (os_header os)))
        in elapsed \<ge> max_duration_nanos rotation \<or> os_file_len os \<ge> rc_max_size rotation)"

definition os_name :: "open_segment \<Rightarrow> segment_name" where
  "os_name os = open_segment_name (sh_segment_id (os_header os))"

definition count_record :: "encoded_frame \<Rightarrow> byte_string \<Rightarrow> open_segment \<Rightarrow>
    (store_failure + unit) \<times> open_segment" where
  "count_record frame rec os =
     (case checked_add (os_file_len os) (word_of_nat (length rec)) of
        None \<Rightarrow> (Inl writer_invalid, os)
      | Some len \<Rightarrow> let os = os\<lparr>os_file_len := len\<rparr> in
     (case checked_add (os_record_count os) 1 of
        None \<Rightarrow> (Inl writer_invalid, os)
      | Some count \<Rightarrow> let os = os\<lparr>os_record_count := count\<rparr> in
     (case checked_add (os_total_payload os) (frame_byte_len frame) of
        None \<Rightarrow> (Inl writer_invalid, os)
      | Some payload \<Rightarrow>
          (Inr (), os\<lparr>os_total_payload := payload,
             os_last_session_time := cf_session_time (ef_metadata frame),
             os_last_observed_time := cf_observed_time (ef_metadata frame)\<rparr>))))"

definition open_append :: "checksum \<Rightarrow> encoded_frame \<Rightarrow> open_segment \<times> disk \<Rightarrow>
    (store_failure + frame_address) \<times> open_segment \<times> disk" where
  "open_append crc frame = (\<lambda>(os, d).
     case encode_frame_record crc frame of
       Inl _ \<Rightarrow> (Inl (store_error FrameRecordAppend InvalidData WriterTerminal), os, d)
     | Inr rec \<Rightarrow>
     (let offset = os_file_len os in
     case buf_write_all (os_name os) rec (os_buffer os, d) of
       (Inl k, buf, d) \<Rightarrow>
         (Inl (io_error FrameRecordAppend k WriterTerminal), os\<lparr>os_buffer := buf\<rparr>, d)
     | (Inr _, buf, d) \<Rightarrow>
     (case flush_buf (os_name os) (buf, d) of
       (Inl k, buf, d) \<Rightarrow>
         (Inl (io_error FrameRecordFlush k WriterTerminal), os\<lparr>os_buffer := buf\<rparr>, d)
     | (Inr _, buf, d) \<Rightarrow>
     (case count_record frame rec (os\<lparr>os_buffer := buf\<rparr>) of
       (Inl e, os) \<Rightarrow> (Inl e, os, d)
     | (Inr _, os) \<Rightarrow>
         (Inr \<lparr>addr_segment = sh_segment_id (os_header os), addr_offset = ByteOffset offset\<rparr>,
          os, d)))))"

section \<open>Creating a segment\<close>

fun create_open_file :: "(nat \<Rightarrow> uuid) \<Rightarrow> nat \<Rightarrow> disk \<Rightarrow> (store_failure + segment_id) \<times> disk" where
  "create_open_file new_v4 0 d =
     (Inl (store_error OpenSegmentCreation AlreadyExists WriterTerminal), d)"
| "create_open_file new_v4 (Suc attempts) d =
     (let sid = SegmentId (new_v4 (disk_uuids d)); d = d\<lparr>disk_uuids := Suc (disk_uuids d)\<rparr> in
      case sys_create (open_segment_name sid) d of
        (Inr _, d) \<Rightarrow> (Inr sid, d)
      | (Inl k, d) \<Rightarrow>
          if k = IoAlreadyExists then create_open_file new_v4 attempts d
          else (Inl (io_error OpenSegmentCreation k WriterTerminal), d))"

definition new_header :: "segment_id \<Rightarrow> rotation_config \<Rightarrow> encoded_frame \<Rightarrow> segment_header" where
  "new_header sid rotation frame =
     \<lparr>sh_segment_id = sid, sh_session_id = cf_session_id (ef_metadata frame),
      sh_target_id = cf_target_id (ef_metadata frame),
      sh_start_session_time = cf_session_time (ef_metadata frame),
      sh_created_observed = cf_observed_time (ef_metadata frame),
      sh_rotation_max_duration_nanos = max_duration_nanos rotation,
      sh_rotation_max_size = rc_max_size rotation\<rparr>"

definition open_segment_file :: "checksum \<Rightarrow> (nat \<Rightarrow> uuid) \<Rightarrow> rotation_config \<Rightarrow> encoded_frame \<Rightarrow>
    disk \<Rightarrow> (store_failure + open_segment) \<times> disk" where
  "open_segment_file crc new_v4 rotation first_frame d =
     (case create_open_file new_v4 4 d of
       (Inl e, d) \<Rightarrow> (Inl e, d)
     | (Inr sid, d) \<Rightarrow>
     (let header = new_header sid rotation first_frame; name = open_segment_name sid in
     case buf_write_all name (encode_header crc header) ([], d) of
       (Inl k, buf, d) \<Rightarrow>
         (Inl (io_error OpenSegmentCreation k WriterTerminal), drop_writer name (buf, d))
     | (Inr _, buf, d) \<Rightarrow>
     (case flush_buf name (buf, d) of
       (Inl k, buf, d) \<Rightarrow>
         (Inl (io_error OpenSegmentCreation k WriterTerminal), drop_writer name (buf, d))
     | (Inr _, buf, d) \<Rightarrow>
     (case sys_sync d of
       (Inl k, d) \<Rightarrow>
         (Inl (io_error OpenSegmentCreation k WriterTerminal), drop_writer name (buf, d))
     | (Inr _, d) \<Rightarrow>
     (case sys_sync d of
       (Inl k, d) \<Rightarrow>
         (Inl (io_error OpenSegmentPublicationSync k WriterTerminal), drop_writer name (buf, d))
     | (Inr _, d) \<Rightarrow>
         (Inr \<lparr>os_header = header, os_buffer = buf,
            os_file_len = word_of_nat segment_header_len, os_record_count = 0,
            os_total_payload = 0,
            os_first_session_time = cf_session_time (ef_metadata first_frame),
            os_last_session_time = cf_session_time (ef_metadata first_frame),
            os_last_observed_time = cf_observed_time (ef_metadata first_frame)\<rparr>, d))))))"

section \<open>Sealing\<close>

definition sealed_publication_bytes :: "checksum \<Rightarrow> byte_string \<Rightarrow> segment_id \<Rightarrow> bool" where
  "sealed_publication_bytes crc bs sid \<longleftrightarrow>
     length bs \<ge> segment_header_len + sealed_footer_len \<and>
     (case decode_header crc (take segment_header_len bs) of
        Inl _ \<Rightarrow> False | Inr header \<Rightarrow> sh_segment_id header = sid) \<and>
     (case decode_footer crc (drop (length bs - sealed_footer_len) bs) of
        Inl _ \<Rightarrow> False | Inr footer \<Rightarrow> sf_segment_id footer = sid)"

text \<open>Opening, inspecting, reading, seeking and reading again may each fail.\<close>

fun probe_calls :: "nat \<Rightarrow> disk \<Rightarrow> bool \<times> disk" where
  "probe_calls 0 d = (True, d)"
| "probe_calls (Suc n) d =
     (case sys_sync d of (Inl _, d) \<Rightarrow> (False, d) | (Inr _, d) \<Rightarrow> probe_calls n d)"

definition sealed_publication_is_complete :: "checksum \<Rightarrow> segment_id \<Rightarrow> disk \<Rightarrow> bool \<times> disk" where
  "sealed_publication_is_complete crc sid d =
     (case disk_files d (sealed_segment_name sid) of
        None \<Rightarrow> (False, d)
      | Some bs \<Rightarrow>
          (case probe_calls 5 d of (ok, d) \<Rightarrow> (ok \<and> sealed_publication_bytes crc bs sid, d)))"

definition footer_of :: "open_segment \<Rightarrow> sealed_footer" where
  "footer_of os =
     \<lparr>sf_segment_id = sh_segment_id (os_header os), sf_record_count = os_record_count os,
      sf_total_payload = os_total_payload os, sf_first_session_time = os_first_session_time os,
      sf_last_session_time = os_last_session_time os,
      sf_sealed_observed = os_last_observed_time os\<rparr>"

definition publish_segment :: "checksum \<Rightarrow> segment_id \<Rightarrow> segment_registration \<Rightarrow> disk \<Rightarrow>
    (store_failure + segment_registration) \<times> disk" where
  "publish_segment crc sid reg d =
     (case sys_rename (open_segment_name sid) (sealed_segment_name sid) d of
        (Inr _, d) \<Rightarrow>
          (case sys_sync d of
             (Inl k, d) \<Rightarrow> (Inl (io_error SealedSegmentPublicationSync k WriterUsable), d)
           | (Inr _, d) \<Rightarrow> (Inr reg, d))
      | (Inl k, d) \<Rightarrow>
          if k = IoNotFound then
            (case sealed_publication_is_complete crc sid d of (complete, d) \<Rightarrow>
               if \<not> complete
               then (Inl (store_error SealedSegmentPublication NotFound WriterUsable), d)
               else (Inr reg, d))
          else (Inl (io_error SealedSegmentPublication k WriterUsable), d))"

definition seal_segment :: "checksum \<Rightarrow> open_segment \<Rightarrow> disk \<Rightarrow>
    (store_failure + segment_registration) \<times> disk" where
  "seal_segment crc os d =
     (let footer_bytes = encode_footer crc (footer_of os); name = os_name os in
     case buf_write_all name footer_bytes (os_buffer os, d) of
       (Inl k, buf, d) \<Rightarrow>
         (Inl (io_error SealedSegmentFooterWrite k WriterTerminal), drop_writer name (buf, d))
     | (Inr _, buf, d) \<Rightarrow>
     (case flush_buf name (buf, d) of
       (Inl k, buf, d) \<Rightarrow>
         (Inl (io_error SealedSegmentFooterWrite k WriterTerminal), drop_writer name (buf, d))
     | (Inr _, buf, d) \<Rightarrow>
     (case sys_sync d of
       (Inl k, d) \<Rightarrow>
         (Inl (io_error SealedSegmentFileSync k WriterTerminal), drop_writer name (buf, d))
     | (Inr _, d) \<Rightarrow>
     (case checked_add (os_file_len os) (word_of_nat (length footer_bytes)) of
       None \<Rightarrow> (Inl writer_invalid, drop_writer name (buf, d))
     | Some len \<Rightarrow>
         publish_segment crc (sh_segment_id (os_header os))
           (registration (os\<lparr>os_file_len := len\<rparr>) Sealed) (drop_writer name (buf, d))))))"

section \<open>The worker\<close>

type_synonym segment_key = "session_id \<times> target_id"

record worker_state =
  ws_rotation :: rotation_config
  ws_open :: "(segment_key, open_segment) hmap"
  ws_terminal :: "store_failure option"
  ws_disk :: disk

definition frame_key :: "encoded_frame \<Rightarrow> segment_key" where
  "frame_key frame = (cf_session_id (ef_metadata frame), cf_target_id (ef_metadata frame))"

text \<open>Seal the open segment of a key that must rotate.\<close>

definition rotate_if_needed :: "checksum \<Rightarrow> encoded_frame \<Rightarrow> worker_state \<Rightarrow>
    (store_failure + segment_registration option) \<times> worker_state" where
  "rotate_if_needed crc frame ws =
     (case hm_get (ws_open ws) (frame_key frame) of
        None \<Rightarrow> (Inr None, ws)
      | Some os \<Rightarrow>
          if should_rotate os frame (ws_rotation ws) then
            (case seal_segment crc os (ws_disk ws) of (r, d) \<Rightarrow>
               (map_sum id Some r,
                ws\<lparr>ws_open := hm_remove (frame_key frame) (ws_open ws), ws_disk := d\<rparr>))
          else (Inr None, ws))"

definition ensure_open :: "checksum \<Rightarrow> (nat \<Rightarrow> uuid) \<Rightarrow> encoded_frame \<Rightarrow> worker_state \<Rightarrow>
    (store_failure + open_segment) \<times> worker_state" where
  "ensure_open crc new_v4 frame ws =
     (case hm_get (ws_open ws) (frame_key frame) of
        Some os \<Rightarrow> (Inr os, ws)
      | None \<Rightarrow>
          (case open_segment_file crc new_v4 (ws_rotation ws) frame (ws_disk ws) of
             (Inl e, d) \<Rightarrow> (Inl e, ws\<lparr>ws_disk := d\<rparr>)
           | (Inr os, d) \<Rightarrow>
               (Inr os, ws\<lparr>ws_open := hm_insert (frame_key frame) os (ws_open ws),
                  ws_disk := d\<rparr>)))"

definition worker_append :: "checksum \<Rightarrow> (nat \<Rightarrow> uuid) \<Rightarrow> encoded_frame \<Rightarrow> worker_state \<Rightarrow>
    (store_failure + frame_write_commit) \<times> worker_state" where
  "worker_append crc new_v4 frame ws =
     (case rotate_if_needed crc frame ws of
        (Inl e, ws) \<Rightarrow> (Inl e, ws)
      | (Inr sealed, ws) \<Rightarrow>
     (case ensure_open crc new_v4 frame ws of
        (Inl e, ws) \<Rightarrow> (Inl e, ws)
      | (Inr os, ws) \<Rightarrow>
     (case open_append crc frame (os, ws_disk ws) of (r, os, d) \<Rightarrow>
        (map_sum id (\<lambda>address. \<lparr>fc_address = address, fc_active_segment = registration os Open,
             fc_sealed_segment = sealed\<rparr>) r,
         ws\<lparr>ws_open := hm_insert (frame_key frame) os (ws_open ws), ws_disk := d\<rparr>))))"

fun flush_keys :: "checksum \<Rightarrow> segment_key list \<Rightarrow> worker_state \<Rightarrow>
    (store_failure + segment_registration list) \<times> worker_state" where
  "flush_keys crc [] ws = (Inr [], ws)"
| "flush_keys crc (key # keys) ws =
     (case hm_get (ws_open ws) key of
        None \<Rightarrow> (Inl ThreadPanic, ws)
      | Some os \<Rightarrow>
     (case seal_segment crc os (ws_disk ws) of (r, d) \<Rightarrow>
       (let ws = ws\<lparr>ws_open := hm_remove key (ws_open ws), ws_disk := d\<rparr> in
        case r of
          Inl e \<Rightarrow> (Inl e, ws)
        | Inr reg \<Rightarrow>
            (case flush_keys crc keys ws of (r, ws) \<Rightarrow> (map_sum id (Cons reg) r, ws)))))"

definition flush_session :: "checksum \<Rightarrow> session_id \<Rightarrow> worker_state \<Rightarrow>
    (store_failure + segment_registration list) \<times> worker_state" where
  "flush_session crc session ws =
     flush_keys crc (filter (\<lambda>(candidate, _). candidate = session) (hm_keys (ws_open ws))) ws"

definition flush_all :: "checksum \<Rightarrow> worker_state \<Rightarrow>
    (store_failure + segment_registration list) \<times> worker_state" where
  "flush_all crc ws = flush_keys crc (hm_keys (ws_open ws)) ws"

text \<open>The first terminal failure is kept and answers every later command.\<close>

definition execute :: "(worker_state \<Rightarrow> (store_failure + 'a) \<times> worker_state) \<Rightarrow> worker_state \<Rightarrow>
    (store_failure + 'a) \<times> worker_state" where
  "execute operation ws =
     (case ws_terminal ws of
        Some error \<Rightarrow> (Inl error, ws)
      | None \<Rightarrow>
          (case operation ws of
             (Inr v, ws) \<Rightarrow> (Inr v, ws)
           | (Inl ThreadPanic, ws) \<Rightarrow> (Inl ThreadPanic, ws)
           | (Inl (KrometrailError (Some failure)), ws) \<Rightarrow>
               (Inl (KrometrailError (Some failure)),
                if pf_recoverability failure = WriterTerminal
                then ws\<lparr>ws_terminal := Some (KrometrailError (Some failure))\<rparr> else ws)
           | (Inl (KrometrailError None), ws) \<Rightarrow>
               (let error = store_error SegmentWriterWorker InvalidData WriterTerminal in
                (Inl error, ws\<lparr>ws_terminal := Some error\<rparr>))))"

datatype writer_command = AppendFrame encoded_frame | FlushSession session_id | FlushAll

datatype writer_reply =
    AppendReply "store_failure + frame_write_commit"
  | FlushReply "store_failure + segment_registration list"

fun run_command :: "checksum \<Rightarrow> (nat \<Rightarrow> uuid) \<Rightarrow> writer_command \<Rightarrow> worker_state \<Rightarrow>
    writer_reply \<times> worker_state" where
  "run_command crc new_v4 (AppendFrame frame) ws =
     map_prod AppendReply id (execute (worker_append crc new_v4 frame) ws)"
| "run_command crc new_v4 (FlushSession session) ws =
     map_prod FlushReply id (execute (flush_session crc session) ws)"
| "run_command crc new_v4 FlushAll ws =
     map_prod FlushReply id (execute (flush_all crc) ws)"

definition run_commands :: "checksum \<Rightarrow> (nat \<Rightarrow> uuid) \<Rightarrow> writer_command list \<Rightarrow> worker_state \<Rightarrow>
    writer_reply list \<times> worker_state" where
  "run_commands crc new_v4 cs ws = run_steps (run_command crc new_v4) cs ws"

text \<open>The start of a worker. What \<open>open_with_worker\<close> does before is the environment's and not modelled: the
  check of the queue's capacity, the preparation of the directory, the probe that it is writable and the
  start of the thread, each of which returns its error and leaves no worker.\<close>

definition segment_writer_open :: "rotation_config \<Rightarrow> disk \<Rightarrow> rotation_error + worker_state" where
  "segment_writer_open config d =
     and_then (rotation_validate config) (\<lambda>rotation.
       Inr \<lparr>ws_rotation = rotation, ws_open = [], ws_terminal = None, ws_disk = d\<rparr>)"

section \<open>What each operation leaves on disk\<close>

text \<open>Only files of one segment change.\<close>

definition touches :: "segment_id \<Rightarrow> disk \<Rightarrow> disk \<Rightarrow> bool" where
  "touches sid d d' \<longleftrightarrow>
     disk_uuids d' = disk_uuids d \<and>
     (\<forall>sid' st. sid' \<noteq> sid \<longrightarrow> disk_files d' (sid', st) = disk_files d (sid', st))"

lemma touches_refl [simp, intro]: "touches sid d d"
  by (simp add: touches_def)

lemma touches_trans [trans]: "touches sid d d' \<Longrightarrow> touches sid d' d'' \<Longrightarrow> touches sid d d''"
  by (simp add: touches_def)

lemma touches_same_files:
  "disk_files d' = disk_files d \<and> disk_uuids d' = disk_uuids d \<Longrightarrow> touches sid d d'"
  by (simp add: touches_def)

lemma writes_only_touches: "writes_only (sid, st) d d' \<Longrightarrow> touches sid d d'"
  by (auto simp: touches_def writes_only_uuids dest: writes_only_other)

definition sealed_absent :: "segment_id \<Rightarrow> disk \<Rightarrow> bool" where
  "sealed_absent sid d \<longleftrightarrow> disk_files d (sealed_segment_name sid) = None"

lemma sealed_absent_writes: "writes_only (sid, Open) d d' \<Longrightarrow> sealed_absent sid d' \<longleftrightarrow> sealed_absent sid d"
  by (simp add: sealed_absent_def writes_only_None)

lemma rename_extends:
  assumes "sys_rename (open_segment_name sid) (sealed_segment_name sid) d = (r, d')"
    and "sealed_absent sid d"
  shows "touches sid d d' \<and> disk_extends d d'"
proof -
  note effect = sys_rename_effect [OF assms(1)]
  show ?thesis
  proof (cases r)
    case (Inl k)
    with effect show ?thesis
      by (simp add: touches_def disk_extends_files_eq)
  next
    case (Inr u)
    then obtain bs where bs: "disk_files d (sid, Open) = Some bs"
      and files: "disk_files d' = (disk_files d)((sid, Open) := None, (sid, Sealed) \<mapsto> bs)"
      using effect by (auto simp: open_segment_name_def sealed_segment_name_def)
    have "\<exists>st' rest. disk_files d' (s, st') = Some (c @ rest)" if c: "disk_files d (s, st) = Some c" for s st c
    proof (cases "s = sid")
      case True
      then have "st = Open \<and> c = bs"
        using c bs assms(2) by (cases st) (auto simp: sealed_absent_def sealed_segment_name_def)
      then show ?thesis
        using True files by (intro exI [of _ Sealed] exI [of _ "[]"]) simp
    next
      case False
      then show ?thesis
        using c files by (intro exI [of _ st] exI [of _ "[]"]) simp
    qed
    then have "disk_extends d d'"
      by (simp add: disk_extends_def)
    then show ?thesis
      using effect Inr files by (simp add: touches_def)
  qed
qed

lemma probe_calls_same:
  "probe_calls n d = (ok, d') \<Longrightarrow> disk_files d' = disk_files d \<and> disk_uuids d' = disk_uuids d"
  by (induction n arbitrary: d) (auto dest: sys_sync_effect split: prod.splits sum.splits)

lemma publish_segment_disk:
  assumes "publish_segment crc sid reg d = (r, d')" and "sealed_absent sid d"
  shows "touches sid d d' \<and> disk_extends d d'"
proof -
  have step: "touches sid d d1 \<and> disk_extends d d1 \<Longrightarrow>
      disk_files d2 = disk_files d1 \<and> disk_uuids d2 = disk_uuids d1 \<Longrightarrow>
      touches sid d d2 \<and> disk_extends d d2" for d1 d2
    by (meson disk_extends_files_eq disk_extends_trans touches_same_files touches_trans)
  obtain r1 d1 where rename: "sys_rename (open_segment_name sid) (sealed_segment_name sid) d = (r1, d1)"
    by fastforce
  have "disk_files d' = disk_files d1 \<and> disk_uuids d' = disk_uuids d1"
    using assms(1) rename
    by (auto simp: publish_segment_def sealed_publication_is_complete_def
        dest!: sys_sync_effect probe_calls_same
        split: prod.splits sum.splits if_splits option.splits)
  with step rename_extends [OF rename assms(2)] show ?thesis by blast
qed

lemma seal_segment_disk:
  assumes "seal_segment crc os d = (r, d')" and "os_buffer os = []"
    and "sealed_absent (sh_segment_id (os_header os)) d"
  shows "touches (sh_segment_id (os_header os)) d d' \<and> disk_extends d d'"
proof -
  let ?sid = "sh_segment_id (os_header os)"
  have name: "os_name os = (?sid, Open)"
    by (simp add: os_name_def open_segment_name_def)
  obtain r1 buf1 d1 where wrote: "buf_write_all (os_name os) (encode_footer crc (footer_of os)) ([], d) =
      (r1, buf1, d1)"
    using prod_cases3 by blast
  obtain r2 buf2 d2 where flush: "flush_buf (os_name os) (buf1, d1) = (r2, buf2, d2)"
    using prod_cases3 by blast
  obtain r3 d3 where sync: "sys_sync d2 = (r3, d3)"
    by fastforce
  have w1: "writes_only (?sid, Open) d d1"
    using buf_write_all_effect [OF wrote] name by simp
  moreover have "writes_only (?sid, Open) d1 d2"
    using flush_buf_effect [OF flush] name by simp
  ultimately have w2: "writes_only (?sid, Open) d d2"
    by (rule writes_only_trans)
  have "appends_to (?sid, Open) [] d2 d3"
    using sys_sync_effect [OF sync] by (auto intro: appends_to_Nil)
  with w2 have w3: "writes_only (?sid, Open) d d3"
    by (blast intro: writes_only_trans)
  have drop: "writes_only (?sid, Open) d e \<Longrightarrow> writes_only (?sid, Open) d (drop_writer (os_name os) (buf, e))"
    for buf e
    using drop_writer_effect [of "os_name os" e buf] name by (auto intro: writes_only_trans)
  have done_: "writes_only (?sid, Open) d e \<Longrightarrow> touches ?sid d e \<and> disk_extends d e" for e
    by (simp add: writes_only_touches writes_only_extends)
  have publish: "touches ?sid d e' \<and> disk_extends d e'"
    if "writes_only (?sid, Open) d e" "publish_segment crc ?sid reg e = (r, e')" for e e' reg
  proof -
    have "sealed_absent ?sid e"
      using sealed_absent_writes [OF that(1)] assms(3) by simp
    with publish_segment_disk [OF that(2)] have "touches ?sid e e' \<and> disk_extends e e'"
      by simp
    with done_ [OF that(1)] show ?thesis
      by (blast intro: touches_trans disk_extends_trans)
  qed
  show ?thesis
    using assms(1,2) wrote flush sync
    by (auto simp: seal_segment_def Let_def
        intro!: done_ [THEN conjunct1] done_ [THEN conjunct2] drop w1 w2 w3
        dest!: publish [rotated] split: sum.splits option.splits)
qed

section \<open>The open-segment invariant\<close>

text \<open>
  What the type of \<open>EncodedFrame\<close> guarantees of any frame handed to the writer (with the payload
  within the allocation limit); a warning count too large for its field is the writer's to refuse.
\<close>

definition acceptable_frame :: "encoded_frame \<Rightarrow> bool" where
  "acceptable_frame f \<longleftrightarrow> wf_encoded_frame f \<and> length (ef_bytes f) < 2 ^ 63 - 2 ^ 18"

lemma encode_acceptable:
  assumes "acceptable_frame f" and "encode_frame_record crc f = Inr rec"
  shows "storable_frame f \<and> rec = record_bytes crc f"
proof -
  have "storable_frame f"
    using assms by (auto simp: acceptable_frame_def storable_frame_def encode_frame_record_def
        frame_record_from_frame_def Let_def split: if_splits)
  then show ?thesis
    using assms(2) encode_storable_frame [of f crc] by simp
qed

definition payload_total :: "encoded_frame list \<Rightarrow> nat" where
  "payload_total fs = sum_list (map (\<lambda>f. length (ef_bytes f)) fs)"

lemma payload_total_simps [simp]:
  "payload_total [] = 0"
  "payload_total (f # fs) = length (ef_bytes f) + payload_total fs"
  "payload_total (fs @ gs) = payload_total fs + payload_total gs"
  by (simp_all add: payload_total_def)

definition last_or :: "('f \<Rightarrow> 't) \<Rightarrow> 't \<Rightarrow> 'f list \<Rightarrow> 't" where
  "last_or g t fs = (if fs = [] then t else g (last fs))"

definition segment_holds ::
    "checksum \<Rightarrow> disk \<Rightarrow> open_segment \<Rightarrow> encoded_frame list \<Rightarrow> bool" where
  "segment_holds crc d os fs \<longleftrightarrow>
     os_buffer os = [] \<and>
     disk_files d (os_name os) = Some (segment_file crc (os_header os) fs []) \<and>
     (\<forall>f \<in> set fs. storable_frame f \<and> belongs_to (os_header os) f) \<and>
     unat (os_file_len os) = length (segment_file crc (os_header os) fs []) \<and>
     unat (os_record_count os) = length fs \<and>
     unat (os_total_payload os) = payload_total fs \<and>
     os_first_session_time os = sh_start_session_time (os_header os) \<and>
     os_last_session_time os = last_or (\<lambda>f. cf_session_time (ef_metadata f))
       (sh_start_session_time (os_header os)) fs \<and>
     os_last_observed_time os = last_or (\<lambda>f. cf_observed_time (ef_metadata f))
       (sh_created_observed (os_header os)) fs"

lemma segment_holds_files_eq:
  "segment_holds crc d os fs \<Longrightarrow> disk_files d' (os_name os) = disk_files d (os_name os) \<Longrightarrow>
   segment_holds crc d' os fs"
  by (simp add: segment_holds_def)

lemma count_record_Inr:
  assumes "count_record frame rec os = (Inr u, os')"
  shows "os_header os' = os_header os \<and> os_buffer os' = os_buffer os \<and>
    unat (os_file_len os') = unat (os_file_len os) + unat (word_of_nat (length rec) :: u64) \<and>
    unat (os_record_count os') = unat (os_record_count os) + 1 \<and>
    unat (os_total_payload os') = unat (os_total_payload os) + unat (frame_byte_len frame) \<and>
    os_first_session_time os' = os_first_session_time os \<and>
    os_last_session_time os' = cf_session_time (ef_metadata frame) \<and>
    os_last_observed_time os' = cf_observed_time (ef_metadata frame)"
  using assms
  by (auto simp: count_record_def Let_def checked_add_Some_iff split: option.splits)

lemma open_append_writes:
  assumes "open_append crc frame (os, d) = (r, os', d')" and "os_buffer os = []"
  shows "writes_only (os_name os) d d'"
  using assms
  by (auto simp: open_append_def Let_def split: sum.splits prod.splits
      dest!: buf_write_all_effect flush_buf_effect intro: writes_only_trans)

lemma open_append_Inr:
  assumes run: "open_append crc frame (os, d) = (Inr a, os', d')"
    and holds: "segment_holds crc d os fs" and frame: "acceptable_frame frame"
    and owner: "belongs_to (os_header os) frame"
  shows "segment_holds crc d' os' (fs @ [frame]) \<and> os_header os' = os_header os \<and>
    a = \<lparr>addr_segment = sh_segment_id (os_header os), addr_offset = ByteOffset (os_file_len os)\<rparr>"
proof -
  have buffer: "os_buffer os = []"
    using holds by (simp add: segment_holds_def)
  obtain rec buf1 d1 buf2 where
    encode: "encode_frame_record crc frame = Inr rec"
    and wrote: "buf_write_all (os_name os) rec ([], d) = (Inr (), buf1, d1)"
    and flushed: "flush_buf (os_name os) (buf1, d1) = (Inr (), buf2, d')"
    and counted: "count_record frame rec (os\<lparr>os_buffer := buf2\<rparr>) = (Inr (), os')"
    and a: "a = \<lparr>addr_segment = sh_segment_id (os_header os'), addr_offset = ByteOffset (os_file_len os)\<rparr>"
    using run buffer by (auto simp: open_append_def Let_def split: sum.splits prod.splits)
  have rec: "storable_frame frame" "rec = record_bytes crc frame"
    using encode_acceptable [OF frame encode] by auto
  have disk: "buf2 = []" "appends_to (os_name os) rec d d'"
    using write_then_flush [OF wrote flushed] by auto
  note c = count_record_Inr [OF counted]
  have lens: "unat (word_of_nat (length rec) :: u64) = length rec"
    "unat (frame_byte_len frame) = length (ef_bytes frame)"
    using record_bytes_bound [OF rec(1), of crc] storable_lengths(4) [OF rec(1)] rec(2)
    by (simp_all add: unat_of_nat frame_byte_len_def)
  have contents: "segment_file crc (os_header os) (fs @ [frame]) [] =
      segment_file crc (os_header os) fs [] @ rec"
    by (simp add: segment_file_def rec(2))
  have "segment_holds crc d' os' (fs @ [frame])"
    using holds c disk lens contents owner rec
    by (auto simp: segment_holds_def os_name_def appends_to_def last_or_def)
  then show ?thesis
    using a c by simp
qed

text \<open>
  What an acknowledged address denotes: the file of its segment, in whichever publication, holds
  the frame's record at the offset, after the records of earlier frames; anything may follow.
\<close>

definition stored :: "checksum \<Rightarrow> disk \<Rightarrow> frame_address \<Rightarrow> encoded_frame \<Rightarrow> bool" where
  "stored crc d a f \<longleftrightarrow>
     (\<exists>st hdr fs rest. disk_files d (addr_segment a, st) = Some (segment_file crc hdr (fs @ [f]) rest) \<and>
        sh_segment_id hdr = addr_segment a \<and>
        (\<forall>g \<in> set (fs @ [f]). storable_frame g \<and> belongs_to hdr g) \<and>
        unat (offset_value (addr_offset a)) = 90 + length (records_bytes crc fs))"

definition readable :: "checksum \<Rightarrow> disk \<Rightarrow> frame_address \<Rightarrow> encoded_frame \<Rightarrow> bool" where
  "readable crc d a f \<longleftrightarrow>
     (\<exists>st bs. disk_files d (addr_segment a, st) = Some bs \<and> read_frame_at crc bs a = Inr f)"

lemma stored_readable:
  assumes "stored crc d a f"
  shows "readable crc d a f"
proof -
  obtain st hdr fs rest where
    bs: "disk_files d (addr_segment a, st) = Some (segment_file crc hdr (fs @ [f]) rest)"
    and hdr: "sh_segment_id hdr = addr_segment a"
    and f: "storable_frame f" "belongs_to hdr f"
    and offset: "unat (offset_value (addr_offset a)) = 90 + length (records_bytes crc fs)"
    using assms by (auto simp: stored_def)
  have "offset_value (addr_offset a) = word_of_nat (90 + length (records_bytes crc fs))"
    using offset by (rule u64_eq_of_nat)
  then have a: "a = \<lparr>addr_segment = sh_segment_id hdr,
      addr_offset = ByteOffset (word_of_nat (90 + length (records_bytes crc fs)))\<rparr>"
    using hdr by (cases a, cases "addr_offset a") auto
  have "unat (offset_value (addr_offset a)) < 2 ^ 64"
    using unsigned_less [of "offset_value (addr_offset a)"] by simp
  then have "90 + length (records_bytes crc fs) < usize_limit"
    using offset by simp
  from read_stored_frame [OF f _ this, of "segment_file crc hdr (fs @ [f]) rest" crc rest]
  have "read_frame_at crc (segment_file crc hdr (fs @ [f]) rest) a = Inr f"
    unfolding a by (simp add: segment_file_def)
  then show ?thesis
    using bs by (auto simp: readable_def)
qed

lemma stored_extends:
  assumes "stored crc d a f" and "disk_extends d d'"
  shows "stored crc d' a f"
proof -
  obtain st hdr fs rest where
    bs: "disk_files d (addr_segment a, st) = Some (segment_file crc hdr (fs @ [f]) rest)"
    and s: "sh_segment_id hdr = addr_segment a"
      "\<forall>g \<in> set (fs @ [f]). storable_frame g \<and> belongs_to hdr g"
      "unat (offset_value (addr_offset a)) = 90 + length (records_bytes crc fs)"
    using assms(1) unfolding stored_def by blast
  obtain st' more where "disk_files d' (addr_segment a, st') =
      Some (segment_file crc hdr (fs @ [f]) rest @ more)"
    using assms(2) bs unfolding disk_extends_def by blast
  then have "disk_files d' (addr_segment a, st') = Some (segment_file crc hdr (fs @ [f]) (rest @ more))"
    by (simp add: segment_file_def)
  then show ?thesis
    using s unfolding stored_def by blast
qed

lemma open_append_stored:
  assumes run: "open_append crc frame (os, d) = (Inr a, os', d')"
    and holds: "segment_holds crc d os fs" and frame: "acceptable_frame frame"
    and owner: "belongs_to (os_header os) frame"
  shows "stored crc d' a frame"
proof -
  let ?h = "os_header os"
  from open_append_Inr [OF assms] have
    holds': "segment_holds crc d' os' (fs @ [frame])" and hdr: "os_header os' = ?h"
    and a: "a = \<lparr>addr_segment = sh_segment_id ?h, addr_offset = ByteOffset (os_file_len os)\<rparr>"
    by auto
  have contents: "disk_files d' (sh_segment_id ?h, Open) = Some (segment_file crc ?h (fs @ [frame]) [])"
    and frames: "\<forall>g \<in> set (fs @ [frame]). storable_frame g \<and> belongs_to ?h g"
    using holds' hdr by (auto simp: segment_holds_def os_name_def open_segment_name_def)
  moreover have "unat (os_file_len os) = 90 + length (records_bytes crc fs)"
    using holds by (simp add: segment_holds_def segment_file_def segment_header_len_def)
  ultimately show ?thesis
    unfolding stored_def a
    by (intro exI [of _ Open] exI [of _ ?h] exI [of _ fs] exI [of _ "[]"]) simp
qed

section \<open>Creating a segment keeps the disk\<close>

text \<open>
  The identifiers a step may have taken from the generator, and the hypothesis documented of
  version-4 UUIDs: the identifiers to come, up to the \<open>bound\<close> on draws a run needs, are distinct
  and on no file yet.
\<close>

definition drawn :: "(nat \<Rightarrow> uuid) \<Rightarrow> disk \<Rightarrow> disk \<Rightarrow> segment_id set" where
  "drawn new_v4 d d' = {SegmentId (new_v4 n) | n. disk_uuids d \<le> n \<and> n < disk_uuids d'}"

definition ids_fresh :: "(nat \<Rightarrow> uuid) \<Rightarrow> nat \<Rightarrow> disk \<Rightarrow> bool" where
  "ids_fresh new_v4 bound d \<longleftrightarrow>
     inj_on new_v4 {disk_uuids d..<bound} \<and>
     (\<forall>n \<in> {disk_uuids d..<bound}. \<forall>st. disk_files d (SegmentId (new_v4 n), st) = None)"

lemma drawn_fresh:
  "ids_fresh new_v4 bound d \<Longrightarrow> disk_uuids d' \<le> bound \<Longrightarrow> sid \<in> drawn new_v4 d d' \<Longrightarrow>
   disk_files d (sid, st) = None"
  by (auto simp: drawn_def ids_fresh_def)

definition creates :: "(nat \<Rightarrow> uuid) \<Rightarrow> disk \<Rightarrow> disk \<Rightarrow> bool" where
  "creates new_v4 d d' \<longleftrightarrow>
     disk_uuids d \<le> disk_uuids d' \<and> disk_extends d d' \<and>
     (\<forall>sid st. sid \<notin> drawn new_v4 d d' \<longrightarrow> disk_files d' (sid, st) = disk_files d (sid, st)) \<and>
     (\<forall>sid. disk_files d' (sid, Sealed) = disk_files d (sid, Sealed))"

lemma creates_fresh:
  assumes "creates new_v4 d d'" and "ids_fresh new_v4 bound d"
  shows "ids_fresh new_v4 bound d'"
proof -
  have mono: "disk_uuids d \<le> disk_uuids d'"
    using assms(1) by (simp add: creates_def)
  have "disk_files d' (SegmentId (new_v4 n), st) = None" if n: "disk_uuids d' \<le> n" "n < bound" for n st
  proof -
    have "SegmentId (new_v4 n) \<notin> drawn new_v4 d d'"
      using assms(2) n mono by (auto simp: drawn_def ids_fresh_def dest: inj_onD)
    then show ?thesis
      using assms n mono by (simp add: creates_def ids_fresh_def)
  qed
  moreover have "inj_on new_v4 {disk_uuids d'..<bound}"
    using assms(2) mono by (auto simp: ids_fresh_def intro: inj_on_subset)
  ultimately show ?thesis
    by (simp add: ids_fresh_def)
qed

lemma touches_fresh:
  "touches sid d d' \<Longrightarrow> disk_files d (sid, st) \<noteq> None \<Longrightarrow> ids_fresh new_v4 bound d \<Longrightarrow>
   ids_fresh new_v4 bound d'"
  unfolding touches_def ids_fresh_def by metis

lemma create_open_file_effect:
  assumes "create_open_file new_v4 attempts d = (r, d')"
  shows "creates new_v4 d d' \<and>
    (case r of
       Inr sid \<Rightarrow> sid \<in> drawn new_v4 d d' \<and> disk_files d' (sid, Open) = Some []
     | Inl e \<Rightarrow> disk_files d' = disk_files d \<and> (\<exists>k. e = store_error OpenSegmentCreation k WriterTerminal))"
  using assms
proof (induction attempts arbitrary: d)
  case 0
  then show ?case by (auto simp: creates_def)
next
  case (Suc attempts)
  define sid where "sid = SegmentId (new_v4 (disk_uuids d))"
  define d1 where "d1 = d\<lparr>disk_uuids := Suc (disk_uuids d)\<rparr>"
  obtain r2 d2 where create: "sys_create (open_segment_name sid) d1 = (r2, d2)"
    by fastforce
  note effect = sys_create_effect [OF create]
  have d1: "disk_files d1 = disk_files d" "disk_uuids d1 = Suc (disk_uuids d)"
    by (simp_all add: d1_def)
  show ?case
  proof (cases r2)
    case (Inr u)
    then have "r = Inr sid" "d' = d2"
      using Suc.prems create by (auto simp: sid_def d1_def Let_def)
    moreover have "sid \<in> drawn new_v4 d d2"
      using effect d1 by (auto simp: drawn_def sid_def)
    moreover have "disk_extends d d2"
      using effect d1 by (simp add: disk_extends_def)
    ultimately show ?thesis
      using Inr effect d1 by (auto simp: creates_def open_segment_name_def)
  next
    case (Inl k)
    then have same: "disk_files d2 = disk_files d" "disk_uuids d2 = Suc (disk_uuids d)"
      using effect d1 by auto
    show ?thesis
    proof (cases "k = IoAlreadyExists")
      case True
      then have "create_open_file new_v4 attempts d2 = (r, d')"
        using Suc.prems create Inl by (simp add: sid_def d1_def Let_def)
      from Suc.IH [OF this] have later: "creates new_v4 d2 d'"
        and result: "case r of
          Inr sid \<Rightarrow> sid \<in> drawn new_v4 d2 d' \<and> disk_files d' (sid, Open) = Some []
        | Inl e \<Rightarrow> disk_files d' = disk_files d2 \<and>
            (\<exists>k. e = store_error OpenSegmentCreation k WriterTerminal)"
        by auto
      have more: "drawn new_v4 d2 d' \<subseteq> drawn new_v4 d d'"
        using same by (auto simp: drawn_def)
      have "disk_extends d d'"
        using later same disk_extends_files_eq [of d2 d] by (auto simp: creates_def intro: disk_extends_trans)
      then have "creates new_v4 d d'"
        using later same more by (auto simp: creates_def)
      then show ?thesis
        using result more same by (auto split: sum.splits)
    next
      case False
      then show ?thesis
        using Suc.prems create Inl same disk_extends_files_eq [of d2 d]
        by (auto simp: creates_def sid_def d1_def Let_def io_error_def)
    qed
  qed
qed

lemma creates_then_writes:
  assumes "creates new_v4 d d1" and "writes_only (sid, Open) d1 d2" and "sid \<in> drawn new_v4 d d1"
  shows "creates new_v4 d d2"
proof -
  have "disk_uuids d2 = disk_uuids d1"
    using assms(2) by (rule writes_only_uuids)
  then have drawn: "drawn new_v4 d d2 = drawn new_v4 d d1"
    by (simp add: drawn_def)
  have "disk_extends d d2"
    using assms(1,2) by (auto simp: creates_def intro: disk_extends_trans writes_only_extends)
  moreover have "disk_files d2 (s, st) = disk_files d1 (s, st)" if "s \<noteq> sid \<or> st = Sealed" for s st
    using writes_only_other [OF assms(2), of "(s, st)"] that by auto
  moreover have "s \<notin> drawn new_v4 d d1 \<Longrightarrow> s \<noteq> sid" for s
    using assms(3) by blast
  ultimately show ?thesis
    using assms(1) \<open>disk_uuids d2 = disk_uuids d1\<close> by (auto simp: creates_def drawn)
qed

lemma open_segment_file_effect:
  assumes "open_segment_file crc new_v4 rotation frame d = (r, d')"
  shows "creates new_v4 d d'"
    and "r = Inr os \<Longrightarrow> os_header os = new_header (sh_segment_id (os_header os)) rotation frame \<and>
      sh_segment_id (os_header os) \<in> drawn new_v4 d d' \<and> segment_holds crc d' os []"
proof -
  obtain r0 d0 where create: "create_open_file new_v4 4 d = (r0, d0)"
    by fastforce
  note effect = create_open_file_effect [OF create]
  have "creates new_v4 d d' \<and> (\<forall>os. r = Inr os \<longrightarrow>
      os_header os = new_header (sh_segment_id (os_header os)) rotation frame \<and>
      sh_segment_id (os_header os) \<in> drawn new_v4 d d' \<and> segment_holds crc d' os [])"
  proof (cases r0)
    case (Inl e)
    then show ?thesis
      using assms create effect by (auto simp: open_segment_file_def)
  next
    case (Inr sid)
    let ?h = "new_header sid rotation frame"
    let ?name = "open_segment_name sid"
    obtain r1 buf1 d1 where wrote: "buf_write_all ?name (encode_header crc ?h) ([], d0) = (r1, buf1, d1)"
      using prod_cases3 by blast
    obtain r2 buf2 d2 where flush: "flush_buf ?name (buf1, d1) = (r2, buf2, d2)"
      using prod_cases3 by blast
    obtain r3 d3 where sync: "sys_sync d2 = (r3, d3)" by fastforce
    obtain r4 d4 where sync': "sys_sync d3 = (r4, d4)" by fastforce
    note same = sys_sync_effect [OF sync] sys_sync_effect [OF sync']
    have w1: "writes_only ?name d0 d1"
      using buf_write_all_effect [OF wrote] by simp
    have w2: "writes_only ?name d0 d2"
      using w1 flush_buf_effect [OF flush] by (blast intro: writes_only_trans)
    have w3: "writes_only ?name d0 d3" and w4: "writes_only ?name d0 d4"
      using w2 same by (auto simp: writes_only_def appends_to_def)
    have dropped: "writes_only ?name d0 e \<Longrightarrow> writes_only ?name d0 (drop_writer ?name (buf, e))" for buf e
      using drop_writer_effect [of ?name e buf] by (blast intro: writes_only_trans)
    have final: "writes_only ?name d0 d'"
      using assms create Inr wrote flush sync sync' w1 w2 w3 w4
      by (auto simp: open_segment_file_def Let_def intro: dropped split: sum.splits)
    then have creates: "creates new_v4 d d'"
      using effect Inr creates_then_writes [of new_v4 d d0 sid d'] by (auto simp: open_segment_name_def)
    have "drawn new_v4 d d' = drawn new_v4 d d0"
      using writes_only_uuids [OF final] by (simp add: drawn_def)
    then have mem: "sid \<in> drawn new_v4 d d'"
      using effect Inr by simp
    have "os_header os = ?h \<and> segment_holds crc d' os []" if "r = Inr os" for os
    proof -
      have ok: "r1 = Inr ()" "r2 = Inr ()" "d' = d4"
        and os: "os = \<lparr>os_header = ?h, os_buffer = buf2,
            os_file_len = word_of_nat segment_header_len, os_record_count = 0,
            os_total_payload = 0,
            os_first_session_time = cf_session_time (ef_metadata frame),
            os_last_session_time = cf_session_time (ef_metadata frame),
            os_last_observed_time = cf_observed_time (ef_metadata frame)\<rparr>"
        using assms create Inr wrote flush sync sync' that
        by (auto simp: open_segment_file_def Let_def split: sum.splits)
      have "buf2 = [] \<and> appends_to ?name (encode_header crc ?h) d0 d2"
        using write_then_flush wrote flush ok by blast
      then have "disk_files d' (sid, Open) = Some (encode_header crc ?h)" "buf2 = []"
        using ok same effect Inr by (auto simp: appends_to_def open_segment_name_def)
      then show ?thesis
        by (auto simp: os segment_holds_def os_name_def open_segment_name_def segment_file_def
            last_or_def new_header_def segment_header_len_def)
    qed
    then show ?thesis
      using creates mem by (auto simp: new_header_def)
  qed
  then show "creates new_v4 d d'"
    and "r = Inr os \<Longrightarrow> os_header os = new_header (sh_segment_id (os_header os)) rotation frame \<and>
      sh_segment_id (os_header os) \<in> drawn new_v4 d d' \<and> segment_holds crc d' os []"
    by auto
qed

section \<open>How many identifiers are drawn\<close>

lemma next_outcome_uuids: "disk_uuids (snd (next_outcome d)) = disk_uuids d"
  using next_outcome_same [of d] by (cases "next_outcome d") simp

lemma sys_sync_uuids: "disk_uuids (snd (sys_sync d)) = disk_uuids d"
  using sys_sync_effect [of d] by (cases "sys_sync d") simp

lemma sys_write_uuids: "disk_uuids (snd (sys_write name bs d)) = disk_uuids d"
  using next_outcome_uuids [of d]
  by (auto simp: sys_write_def append_file_def split: prod.splits io_outcome.splits)

lemma flush_buf_uuids: "disk_uuids (snd (snd (flush_buf name s))) = disk_uuids (snd s)"
  using sys_write_uuids [of name "fst s" "snd s"]
  by (auto simp: flush_buf_def split: prod.splits sum.splits)

lemma buf_write_all_uuids: "disk_uuids (snd (snd (buf_write_all name bs s))) = disk_uuids (snd s)"
proof -
  obtain buf d where s: "s = (buf, d)" by fastforce
  obtain r1 buf1 d1 where flush: "(if length bs > buf_capacity - length buf then flush_buf name (buf, d)
      else (Inr (), buf, d)) = (r1, buf1, d1)"
    using prod_cases3 by blast
  then have "disk_uuids d1 = disk_uuids d"
    using flush_buf_uuids [of name "(buf, d)"] by (auto split: if_splits)
  then show ?thesis
    using flush sys_write_uuids [of name bs d1]
    by (auto simp: buf_write_all_def s split: prod.splits sum.splits)
qed

lemmas file_uuids = sys_sync_uuids flush_buf_uuids buf_write_all_uuids

lemma open_append_uuids: "open_append crc frame (os, d) = (r, os', d') \<Longrightarrow> disk_uuids d' = disk_uuids d"
  using buf_write_all_uuids [of "os_name os" _ "(os_buffer os, d)"] flush_buf_uuids [of "os_name os"]
  by (auto simp: open_append_def Let_def split: sum.splits prod.splits) (metis snd_conv)+

lemma drop_writer_uuids: "disk_uuids (drop_writer name (buf, d)) = disk_uuids d"
  using flush_buf_uuids [of name "(buf, d)"] by (simp add: drop_writer_def)

lemma publish_segment_uuids: "publish_segment crc sid reg d = (r, d') \<Longrightarrow> disk_uuids d' = disk_uuids d"
  by (auto simp: publish_segment_def sealed_publication_is_complete_def
      dest!: sys_rename_effect sys_sync_effect probe_calls_same
      split: prod.splits sum.splits if_splits option.splits)

lemma seal_segment_uuids:
  assumes "seal_segment crc os d = (r, d')"
  shows "disk_uuids d' = disk_uuids d"
proof -
  obtain r1 buf1 d1 where wrote: "buf_write_all (os_name os) (encode_footer crc (footer_of os)) (os_buffer os, d) =
      (r1, buf1, d1)"
    using prod_cases3 by blast
  obtain r2 buf2 d2 where flush: "flush_buf (os_name os) (buf1, d1) = (r2, buf2, d2)"
    using prod_cases3 by blast
  obtain r3 d3 where sync: "sys_sync d2 = (r3, d3)" by fastforce
  have "disk_uuids d1 = disk_uuids d" "disk_uuids d2 = disk_uuids d1" "disk_uuids d3 = disk_uuids d2"
    using buf_write_all_uuids [of "os_name os" "encode_footer crc (footer_of os)" "(os_buffer os, d)"]
      flush_buf_uuids [of "os_name os" "(buf1, d1)"] sys_sync_uuids [of d2] wrote flush sync
    by simp_all
  then show ?thesis
    using assms wrote flush sync
    by (auto simp: seal_segment_def Let_def drop_writer_uuids dest!: publish_segment_uuids
        split: sum.splits option.splits)
qed

lemma create_open_file_uuids:
  "create_open_file new_v4 attempts d = (r, d') \<Longrightarrow>
   disk_uuids d \<le> disk_uuids d' \<and> disk_uuids d' \<le> disk_uuids d + attempts"
proof (induction attempts arbitrary: d)
  case (Suc attempts)
  obtain r1 d1 where create: "sys_create (open_segment_name (SegmentId (new_v4 (disk_uuids d))))
      (d\<lparr>disk_uuids := Suc (disk_uuids d)\<rparr>) = (r1, d1)"
    by fastforce
  then have "disk_uuids d1 = Suc (disk_uuids d)"
    using sys_create_effect [OF create] by simp
  then show ?case
    using Suc.prems create Suc.IH [of d1]
    by (auto simp: Let_def split: sum.splits if_splits)
qed simp

lemma open_segment_file_uuids:
  assumes "open_segment_file crc new_v4 rotation frame d = (r, d')"
  shows "disk_uuids d \<le> disk_uuids d' \<and> disk_uuids d' \<le> disk_uuids d + 4"
proof -
  obtain r0 d0 where create: "create_open_file new_v4 4 d = (r0, d0)"
    by fastforce
  note bound = create_open_file_uuids [OF create]
  show ?thesis
  proof (cases r0)
    case (Inl e)
    then show ?thesis
      using assms create bound by (auto simp: open_segment_file_def)
  next
    case (Inr sid)
    let ?name = "open_segment_name sid"
    let ?bytes = "encode_header crc (new_header sid rotation frame)"
    obtain r1 buf1 d1 where wrote: "buf_write_all ?name ?bytes ([], d0) = (r1, buf1, d1)"
      using prod_cases3 by blast
    obtain r2 buf2 d2 where flush: "flush_buf ?name (buf1, d1) = (r2, buf2, d2)"
      using prod_cases3 by blast
    obtain r3 d3 where sync: "sys_sync d2 = (r3, d3)" by fastforce
    obtain r4 d4 where sync': "sys_sync d3 = (r4, d4)" by fastforce
    have "disk_uuids d1 = disk_uuids d0" "disk_uuids d2 = disk_uuids d1"
      "disk_uuids d3 = disk_uuids d2" "disk_uuids d4 = disk_uuids d3"
      using buf_write_all_uuids [of ?name ?bytes "([], d0)"] flush_buf_uuids [of ?name "(buf1, d1)"]
        sys_sync_uuids [of d2] sys_sync_uuids [of d3] wrote flush sync sync'
      by simp_all
    then have "disk_uuids d' = disk_uuids d0"
      using assms create Inr wrote flush sync sync'
      by (auto simp: open_segment_file_def Let_def drop_writer_uuids split: sum.splits)
    then show ?thesis
      using bound by simp
  qed
qed

end
