(* ===== verification/Sample_Values.thy ===== *)
theory Sample_Values
  imports Segment_Writer "HOL-Library.Code_Target_Nat"
begin

text \<open>
  Concrete values for the witnesses: frames, a checksum in the place of \<open>crc32fast\<close>, an identifier
  source in the place of the crate \<open>uuid\<close>, and an empty disk with a script of system-call outcomes.
\<close>

definition sample_metadata :: "nat \<Rightarrow> captured_frame" where
  "sample_metadata n =
     \<lparr>cf_id = FrameId (word_of_nat n), cf_session_id = SessionId 1, cf_target_id = TargetId 2,
      cf_capture_ordinal = CaptureOrdinal (word_of_nat n + 1), cf_source_time = None,
      cf_observed_time = ObservedTime (1000 + word_of_nat n),
      cf_session_time = SessionTime (word_of_nat n), cf_format = Jpeg,
      cf_image = \<lparr>pixel_width = 640, pixel_height = 480\<rparr>,
      cf_viewport = \<lparr>pixel_width = 640, pixel_height = 480\<rparr>,
      cf_device_scale_factor = DeviceScaleFactor 0x3FF0000000000000, cf_warnings = []\<rparr>"

definition sample_frame :: "nat \<Rightarrow> encoded_frame" where
  "sample_frame n = \<lparr>ef_metadata = sample_metadata n, ef_bytes = [255, 216, word_of_nat n]\<rparr>"

definition sample_crc :: checksum where
  "sample_crc bs = word_of_nat (7 + length bs)"

definition sample_v4 :: "nat \<Rightarrow> uuid" where
  "sample_v4 n = word_of_nat n"

definition sample_disk :: "io_outcome list \<Rightarrow> disk" where
  "sample_disk script = \<lparr>disk_files = (\<lambda>_. None), disk_script = script, disk_uuids = 0\<rparr>"

definition sample_rotation :: rotation_config where
  "sample_rotation = \<lparr>rc_max_duration = \<lparr>dur_secs = 0, dur_subsec_nanos = 5\<rparr>, rc_max_size = 1024\<rparr>"

definition sample_worker :: "io_outcome list \<Rightarrow> worker_state" where
  "sample_worker script = \<lparr>ws_rotation = sample_rotation, ws_open = [], ws_terminal = None,
     ws_disk = sample_disk script\<rparr>"

lemma disk_uuids_sample_disk [simp]: "disk_uuids (sample_disk script) = 0"
  by (simp add: sample_disk_def)

lemma sample_open: "segment_writer_open sample_rotation (sample_disk script) = Inr (sample_worker script)"
  by (simp add: segment_writer_open_def rotation_validate_def duration_as_nanos_def sample_rotation_def
      sample_worker_def)

lemma sample_frame_acceptable: "acceptable_frame (sample_frame n)" if "n < 1000"
proof -
  have "unat (word_of_nat n :: u64) = n" "unat (word_of_nat (Suc n) :: u64) = Suc n"
    "unat (1000 + word_of_nat n :: u64) = 1000 + n"
    using that unat_u64_of_nat [of n] unat_u64_of_nat [of "Suc n"] unat_u64_of_nat [of "1000 + n"]
    by simp_all
  then have "(word_of_nat n + 1 :: u64) \<noteq> 0" "(word_of_nat n :: u64) \<le> 1000 + word_of_nat n"
    by (auto simp: word_le_nat_alt word_unat_eq_iff add.commute)
  then show ?thesis
    by (simp add: acceptable_frame_def wf_encoded_frame_def wf_captured_frame_def sample_frame_def
        sample_metadata_def wf_dimensions_def wf_scale_def f64_is_finite_def f64_exceeds_zero_def)
qed

lemma sample_ids_fresh: "n < 1000 \<Longrightarrow> ids_fresh sample_v4 n (sample_disk script)"
  by (auto simp: ids_fresh_def sample_disk_def sample_v4_def inj_on_def word_unat_eq_iff unat_of_nat)

end
