(* ===== verification/Segment_Properties.thy ===== *)
theory Segment_Properties
  imports Sample_Values
begin

text \<open>
  The properties of the segment format: the round trip and the canonical encoding of the frame record, the
  scan of a file cut by a crash and of arbitrary bytes, and random access to a stored frame.
\<close>

definition sample_header :: segment_header where
  "sample_header = new_header (SegmentId 0) sample_rotation (sample_frame 0)"

definition sample_footer :: sealed_footer where
  "sample_footer = \<lparr>sf_segment_id = SegmentId 0, sf_record_count = 2, sf_total_payload = 6,
     sf_first_session_time = SessionTime 0, sf_last_session_time = SessionTime 1,
     sf_sealed_observed = ObservedTime 1001\<rparr>"

lemma sample_storable [simp]: "storable_frame (sample_frame n)" if "n < 1000"
  using sample_frame_acceptable [OF that]
  by (simp add: acceptable_frame_def storable_frame_def sample_frame_def sample_metadata_def)

lemma sample_belongs [simp]: "belongs_to sample_header (sample_frame n)"
  by (simp add: belongs_to_def sample_header_def new_header_def sample_frame_def sample_metadata_def)

lemma length_sample_record [simp]: "length (record_bytes crc (sample_frame n)) = 88"
  by (simp add: length_record_bytes length_metadata_bytes sample_frame_def sample_metadata_def)

text \<open>C19: A frame written to a segment is read back unchanged. Encoding a storable frame
  succeeds, and decoding its record under the segment's header, with any bytes after it, returns
  the same metadata and payload and the record's length.\<close>

theorem record_roundtrip:
  assumes "storable_frame f" and "belongs_to hdr f"
  shows "\<exists>rec. encode_frame_record crc f = Inr rec \<and>
    decode_frame_record crc hdr (rec @ rest) = Inr \<lparr>decoded_frame = f, decoded_len = length rec\<rparr>"
  using encode_storable_frame [OF assms(1)] decode_encode_record [OF assms] by blast

lemma record_roundtrip_witness:
  "\<exists>rec. encode_frame_record sample_crc (sample_frame 3) = Inr rec \<and>
    decode_frame_record sample_crc sample_header (rec @ [1, 2]) =
      Inr \<lparr>decoded_frame = sample_frame 3, decoded_len = length rec\<rparr>"
  by (rule record_roundtrip) simp_all

text \<open>C35: Whatever bytes decode as a record, the result is a valid frame of the
  segment's session and target, and the bytes consumed are the one encoding of that frame.\<close>

theorem record_decode_sound:
  assumes "decode_frame_record crc hdr bs = Inr d"
  shows "wf_encoded_frame (decoded_frame d) \<and> belongs_to hdr (decoded_frame d) \<and>
    decoded_len d \<le> length bs \<and> take (decoded_len d) bs = record_bytes crc (decoded_frame d)"
  using decode_record_sound [OF assms] by blast

lemma record_decode_sound_witness:
  "take 88 (record_bytes sample_crc (sample_frame 3)) = record_bytes sample_crc (sample_frame 3)"
proof -
  have "decode_frame_record sample_crc sample_header (record_bytes sample_crc (sample_frame 3)) =
      Inr \<lparr>decoded_frame = sample_frame 3, decoded_len = 88\<rparr>"
    using decode_encode_record [of "sample_frame 3" sample_header sample_crc "[]"] by simp
  from record_decode_sound [OF this] show ?thesis by simp
qed

lemma fitting_prefix:
  "\<exists>rest. fs = fitting crc n fs @ rest \<and>
    (rest = [] \<or> n < length (records_bytes crc (fitting crc n fs)) + length (record_bytes crc (hd rest)))"
proof (induction crc n fs rule: fitting.induct)
  case (2 crc n f fs)
  then show ?case by (cases "length (record_bytes crc f) \<le> n") auto
qed simp

text \<open>C20: The scan of a sealed segment cut at any byte after the header finds exactly the
  frames whose records survived the cut: a prefix of those written, each at its offset, and no
  record that fits is missed. The verdict is clean, or incomplete exactly where the last whole
  record ends; never corrupt.\<close>

theorem scan_after_crash:
  assumes "\<forall>f \<in> set fs. storable_frame f"
    and "wf_footer ft" and "sf_segment_id ft = sh_segment_id hdr"
    and "length (segment_file crc hdr fs (encode_footer crc ft)) < 2 ^ 63"
    and "segment_header_len \<le> n"
  shows "\<exists>kept lost t.
    scan_complete_records crc (take n (segment_file crc hdr fs (encode_footer crc ft))) =
      Inr \<lparr>scan_records = spans_from crc 90 kept, scan_trailing = t\<rparr> \<and>
    fs = kept @ lost \<and>
    (lost = [] \<or> n - 90 < length (records_bytes crc kept) + length (record_bytes crc (hd lost))) \<and>
    (t = Clean \<or> t = Incomplete (ByteOffset (word_of_nat (90 + length (records_bytes crc kept)))))"
  using scan_cut_file [OF assms] fitting_prefix [of fs crc "n - 90"] by blast

lemma scan_after_crash_witness:
  "\<exists>kept t. scan_complete_records sample_crc (take 200 (segment_file sample_crc sample_header
      [sample_frame 0, sample_frame 1] (encode_footer sample_crc sample_footer))) =
    Inr \<lparr>scan_records = spans_from sample_crc 90 kept, scan_trailing = t\<rparr> \<and> length kept \<le> 2"
proof -
  have "\<exists>kept lost t. scan_complete_records sample_crc (take 200 (segment_file sample_crc sample_header
      [sample_frame 0, sample_frame 1] (encode_footer sample_crc sample_footer))) =
    Inr \<lparr>scan_records = spans_from sample_crc 90 kept, scan_trailing = t\<rparr> \<and>
    [sample_frame 0, sample_frame 1] = kept @ lost \<and>
    (lost = [] \<or> 200 - 90 < length (records_bytes sample_crc kept) +
      length (record_bytes sample_crc (hd lost))) \<and>
    (t = Clean \<or> t = Incomplete (ByteOffset (word_of_nat (90 + length (records_bytes sample_crc kept)))))"
    by (rule scan_after_crash)
      (simp_all add: wf_footer_def sample_footer_def less_eq_session_time_def sample_header_def
        new_header_def segment_file_def segment_header_len_def sealed_footer_len_def)
  then obtain kept lost t where "scan_complete_records sample_crc (take 200 (segment_file sample_crc
      sample_header [sample_frame 0, sample_frame 1] (encode_footer sample_crc sample_footer))) =
    Inr \<lparr>scan_records = spans_from sample_crc 90 kept, scan_trailing = t\<rparr>"
    and "[sample_frame 0, sample_frame 1] = kept @ lost"
    by blast
  moreover have "length kept \<le> 2"
    using arg_cong [OF \<open>[sample_frame 0, sample_frame 1] = kept @ lost\<close>, of length] by simp
  ultimately show ?thesis by blast
qed

text \<open>C32: On arbitrary bytes with a valid header, the spans a scan reports are adjacent from
  the header on, lie inside the file, and each frames a record: it has the frame kind, its own lengths
  and the checksum of its contents. That the metadata inside decodes is not promised (recovery checks
  it). The verdict names the end of the file, a valid footer of this segment, or the offset where the
  last whole record ends.\<close>

theorem scan_sound:
  assumes "scan_complete_records crc bs = Inr r" and "length bs < 2 ^ 63"
  shows "\<exists>e hdr. decode_header crc (take segment_header_len bs) = Inr hdr \<and>
    span_chain crc bs segment_header_len (scan_records r) e \<and> e \<le> length bs \<and>
    verdict_at crc bs hdr e (scan_trailing r)"
proof -
  obtain hdr where hdr: "decode_header crc (take segment_header_len bs) = Inr hdr"
    and len: "segment_header_len \<le> length bs"
    and run: "scan_record_region crc bs hdr segment_header_len [] = Inr r"
    using assms(1) unat_u64_of_nat [of segment_header_len]
    by (auto simp: scan_complete_records_def scan_complete_records_from_def result_simps Let_def
        usize_from_u64_def segment_header_len_def
        split: if_splits option.splits)
  from scan_region_sound [OF run len assms(2)] hdr show ?thesis by auto
qed

lemma scan_sound_witness:
  "\<exists>e. span_chain sample_crc (segment_file sample_crc sample_header [sample_frame 0] []) 90
     [span_of sample_crc 90 (sample_frame 0)] e"
proof -
  have "scan_complete_records sample_crc (segment_file sample_crc sample_header [sample_frame 0] []) =
      Inr \<lparr>scan_records = spans_from sample_crc 90 [sample_frame 0], scan_trailing = Clean\<rparr>"
    by (rule scan_open_file) (simp_all add: segment_file_def segment_header_len_def)
  from scan_sound [OF this] show ?thesis
    by (auto simp: segment_file_def segment_header_len_def)
qed

text \<open>C33: Scanning terminates with a verdict on every file whose header decodes. It fails only
  for a file shorter than a header or with an invalid one, and none of the three \<open>expect\<close>s on the
  record prefix can panic, whatever bytes follow the header.\<close>

theorem scan_total:
  "(\<exists>r. scan_complete_records crc bs = Inr r) \<longleftrightarrow>
     segment_header_len \<le> length bs \<and> (\<exists>h. decode_header crc (take segment_header_len bs) = Inr h)"
  using scan_record_region_total
  by (auto simp: scan_complete_records_def scan_complete_records_from_def result_simps
      usize_from_u64_def segment_header_len_def split: if_splits)

text \<open>C29: Every frame of a segment file can be fetched by its address alone: reading
  at the offset the scan reports for the frame at position \<open>i\<close>, whatever follows the records, returns
  that frame.\<close>

theorem stored_frame_readable:
  assumes fs: "\<forall>f \<in> set fs. storable_frame f \<and> belongs_to hdr f" and i: "i < length fs"
    and limit: "length (segment_file crc hdr fs tail) < 2 ^ 63"
  shows "read_frame_at crc (segment_file crc hdr fs tail)
      \<lparr>addr_segment = sh_segment_id hdr, addr_offset = span_byte_offset (spans_from crc 90 fs ! i)\<rparr> =
    Inr (fs ! i)"
proof -
  let ?pre = "take i fs" and ?post = "drop (Suc i) fs"
  have split: "fs = ?pre @ fs ! i # ?post"
    using i by (rule id_take_nth_drop)
  have bytes: "records_bytes crc fs = records_bytes crc ?pre @ record_bytes crc (fs ! i) @ records_bytes crc ?post"
    by (subst split) (simp only: records_bytes_simps append_assoc)
  have "spans_from crc 90 fs = spans_from crc 90 ?pre @
      spans_from crc (90 + length (records_bytes crc ?pre)) (fs ! i # ?post)"
    by (subst split) (simp only: spans_from_append)
  then have span: "span_byte_offset (spans_from crc 90 fs ! i) =
      ByteOffset (word_of_nat (90 + length (records_bytes crc ?pre)))"
    using i by (simp add: nth_append span_of_def)
  have "90 + length (records_bytes crc ?pre) < usize_limit"
    using limit bytes by (simp add: segment_file_def segment_header_len_def)
  then show ?thesis
    unfolding span using fs i bytes
    by (intro read_stored_frame [of _ _ _ _ _ "records_bytes crc ?post @ tail"])
      (simp_all add: segment_file_def)
qed

lemma stored_frame_readable_witness:
  "read_frame_at sample_crc (segment_file sample_crc sample_header [sample_frame 0, sample_frame 1] [7])
     \<lparr>addr_segment = SegmentId 0, addr_offset = ByteOffset 178\<rparr> = Inr (sample_frame 1)"
proof -
  have "read_frame_at sample_crc (segment_file sample_crc sample_header [sample_frame 0, sample_frame 1] [7])
     \<lparr>addr_segment = sh_segment_id sample_header,
      addr_offset = span_byte_offset (spans_from sample_crc 90 [sample_frame 0, sample_frame 1] ! 1)\<rparr> =
     Inr ([sample_frame 0, sample_frame 1] ! 1)"
    by (rule stored_frame_readable) (simp_all add: segment_file_def segment_header_len_def)
  then show ?thesis
    by (simp add: span_of_def sample_header_def new_header_def)
qed

text \<open>C39: Random access does not check the lengths of a record's prefix before it
  allocates. A record whose prefix declares a payload of \<open>isize::MAX\<close> bytes or more makes the read
  panic on the allocation, where every other malformed record is an error.\<close>

theorem corrupt_length_panics:
  assumes "2 ^ 63 \<le> unat (pl :: u64)" and "unat (hl :: u32) + unat pl < usize_limit"
    and "90 + length mid < usize_limit" and "length crc_bytes = 4"
  shows "read_frame_at crc
      (encode_header crc hdr @ mid @ (frame_record_kind # to_be_bytes 4 hl @ to_be_bytes 8 pl @ crc_bytes) @ rest)
      \<lparr>addr_segment = sh_segment_id hdr, addr_offset = ByteOffset (word_of_nat (90 + length mid))\<rparr> =
    Inl CapacityOverflowPanic"
proof -
  let ?prefix = "frame_record_kind # to_be_bytes 4 hl @ to_be_bytes 8 pl @ crc_bytes"
  let ?bs = "encode_header crc hdr @ mid @ ?prefix @ rest"
  have o: "unat (word_of_nat (90 + length mid) :: u64) = 90 + length mid"
    using assms(3) by (intro unat_u64_of_nat) simp
  have header: "read_exact_at ?bs 0 90 = Some (encode_header crc hdr)"
    by (simp add: read_exact_at_def segment_header_len_def)
  have prefix: "read_exact_at ?bs (90 + length mid) 17 = Some ?prefix"
    using assms(4) by (simp add: read_exact_at_def segment_header_len_def)
  have "read_u8 (reader_new ?prefix) = Inr (frame_record_kind, reader_at [frame_record_kind] (tl ?prefix))"
    "read_u32 (reader_at [frame_record_kind] (tl ?prefix)) =
      Inr (hl, reader_at (frame_record_kind # to_be_bytes 4 hl) (to_be_bytes 8 pl @ crc_bytes))"
    "read_u64 (reader_at (frame_record_kind # to_be_bytes 4 hl) (to_be_bytes 8 pl @ crc_bytes)) =
      Inr (pl, reader_at (frame_record_kind # to_be_bytes 4 hl @ to_be_bytes 8 pl) crc_bytes)"
    using read_field_append
    by (simp_all add: reader_new_at wire_simps)
  then show ?thesis
    using assms(1,2)
    by (simp del: of_nat_add add: read_frame_at_def read_frame_from_def o Let_def segment_header_len_def
        header [simplified] decode_encode_header prefix [simplified] frame_record_prefix_len_def
        usize_from_u64_def)
qed

lemma corrupt_length_panics_witness:
  "read_frame_at sample_crc (encode_header sample_crc sample_header @
      (frame_record_kind # to_be_bytes 4 (0 :: u32) @ to_be_bytes 8 (0x8000000000000000 :: u64) @ [0, 0, 0, 0]))
      \<lparr>addr_segment = SegmentId 0, addr_offset = ByteOffset 90\<rparr> = Inl CapacityOverflowPanic"
  using corrupt_length_panics [of "0x8000000000000000" 0 "[]" "[0, 0, 0, 0]" sample_crc sample_header "[]"]
  by (simp add: sample_header_def new_header_def)

end
