(* ===== verification/Writer_Durability.thy ===== *)
theory Writer_Durability
  imports Segment_Writer
begin

text \<open>
  The guarantees of the whole segment writer: the worker's invariant and its preservation by every
  command whatever system call fails, the durability of acknowledged frames, the terminal latch,
  and what sealing publishes.
\<close>

section \<open>The invariant of the worker\<close>

definition open_ok :: "checksum \<Rightarrow> disk \<Rightarrow> segment_key \<Rightarrow> open_segment \<Rightarrow> bool" where
  "open_ok crc d key os \<longleftrightarrow>
     (sh_session_id (os_header os), sh_target_id (os_header os)) = key \<and>
     sealed_absent (sh_segment_id (os_header os)) d \<and> (\<exists>fs. segment_holds crc d os fs)"

definition open_map_ok :: "checksum \<Rightarrow> disk \<Rightarrow> (segment_key, open_segment) hmap \<Rightarrow> bool" where
  "open_map_ok crc d m \<longleftrightarrow>
     (\<forall>key os. hm_get m key = Some os \<longrightarrow> open_ok crc d key os) \<and>
     (\<forall>key key' os os'. hm_get m key = Some os \<longrightarrow> hm_get m key' = Some os' \<longrightarrow>
        sh_segment_id (os_header os) = sh_segment_id (os_header os') \<longrightarrow> key = key')"

definition worker_ok :: "checksum \<Rightarrow> (nat \<Rightarrow> uuid) \<Rightarrow> nat \<Rightarrow> worker_state \<Rightarrow> bool" where
  "worker_ok crc new_v4 bound ws \<longleftrightarrow>
     hm_inv (ws_open ws) \<and> ids_fresh new_v4 bound (ws_disk ws) \<and>
     open_map_ok crc (ws_disk ws) (ws_open ws)"

text \<open>The invariant speaks of runs that draw no more identifiers than the \<open>bound\<close>.\<close>

definition drawn_within :: "nat \<Rightarrow> worker_state \<Rightarrow> bool" where
  "drawn_within bound ws \<longleftrightarrow> disk_uuids (ws_disk ws) \<le> bound"

definition worker_inv :: "checksum \<Rightarrow> (nat \<Rightarrow> uuid) \<Rightarrow> nat \<Rightarrow> worker_state \<Rightarrow> bool" where
  "worker_inv crc new_v4 bound ws \<longleftrightarrow>
     (drawn_within bound ws \<longrightarrow> ws_terminal ws = None \<longrightarrow> worker_ok crc new_v4 bound ws)"

lemma open_ok_file: "open_ok crc d key os \<Longrightarrow> disk_files d (sh_segment_id (os_header os), Open) \<noteq> None"
  by (auto simp: open_ok_def segment_holds_def os_name_def open_segment_name_def)

lemma open_ok_same_files:
  assumes "open_ok crc d key os"
    and "\<And>st. disk_files d' (sh_segment_id (os_header os), st) = disk_files d (sh_segment_id (os_header os), st)"
  shows "open_ok crc d' key os"
  using assms segment_holds_files_eq [of crc d os _ d']
  by (auto simp: open_ok_def sealed_absent_def sealed_segment_name_def os_name_def open_segment_name_def)

text \<open>Creating a segment keeps every open one: its identifier is not among those drawn.\<close>

lemma open_map_ok_creates:
  assumes "open_map_ok crc d m" and "creates new_v4 d d'" and "ids_fresh new_v4 bound d"
    and "disk_uuids d' \<le> bound"
  shows "open_map_ok crc d' m"
proof -
  have "open_ok crc d' key os" if ok: "open_ok crc d key os" for key os
  proof (rule open_ok_same_files [OF ok])
    fix st
    have "sh_segment_id (os_header os) \<notin> drawn new_v4 d d'"
      using open_ok_file [OF ok] drawn_fresh [OF assms(3,4)] by metis
    then show "disk_files d' (sh_segment_id (os_header os), st) =
        disk_files d (sh_segment_id (os_header os), st)"
      using assms(2) by (simp add: creates_def)
  qed
  then show ?thesis
    using assms(1) unfolding open_map_ok_def by blast
qed

text \<open>Work on one open segment keeps the others; its own entry may be dropped or replaced.\<close>

lemma open_map_ok_others:
  assumes map: "open_map_ok crc d m" and entry: "hm_get m key = Some os"
    and touch: "touches (sh_segment_id (os_header os)) d d'"
  shows "open_map_ok crc d' (hm_remove key m)"
    and "open_ok crc d' key os' \<Longrightarrow> sh_segment_id (os_header os') = sh_segment_id (os_header os) \<Longrightarrow>
      open_map_ok crc d' (hm_insert key os' m)"
proof -
  have other: "open_ok crc d' key' o' \<and> sh_segment_id (os_header o') \<noteq> sh_segment_id (os_header os)"
    if "hm_get m key' = Some o'" "key' \<noteq> key" for key' o'
  proof -
    have "sh_segment_id (os_header o') \<noteq> sh_segment_id (os_header os)"
      using map entry that unfolding open_map_ok_def by blast
    moreover have "open_ok crc d key' o'"
      using map that unfolding open_map_ok_def by blast
    ultimately show ?thesis
      using touch by (auto simp: touches_def intro!: open_ok_same_files [of crc d])
  qed
  then show "open_map_ok crc d' (hm_remove key m)"
    using map unfolding open_map_ok_def hm.get_del by (auto split: if_splits)
  show "open_map_ok crc d' (hm_insert key os' m)"
    if "open_ok crc d' key os'" "sh_segment_id (os_header os') = sh_segment_id (os_header os)"
    using map other that unfolding open_map_ok_def hm.get_put fun_upd_apply
    by (smt (verit) option.inject)
qed

text \<open>What a step of the worker that does not run the latch promises.\<close>

definition steps_ok :: "checksum \<Rightarrow> (nat \<Rightarrow> uuid) \<Rightarrow> nat \<Rightarrow> worker_state \<Rightarrow> worker_state \<Rightarrow> bool" where
  "steps_ok crc new_v4 bound ws ws' \<longleftrightarrow>
     worker_ok crc new_v4 bound ws' \<and> disk_extends (ws_disk ws) (ws_disk ws') \<and>
     ws_terminal ws' = ws_terminal ws \<and> ws_rotation ws' = ws_rotation ws"

lemma steps_ok_trans [trans]:
  "steps_ok crc new_v4 bound ws ws' \<Longrightarrow> steps_ok crc new_v4 bound ws' ws'' \<Longrightarrow> steps_ok crc new_v4 bound ws ws''"
  by (auto simp: steps_ok_def intro: disk_extends_trans)

lemma seal_entry:
  assumes ok: "worker_ok crc new_v4 bound ws" and entry: "hm_get (ws_open ws) key = Some os"
    and seal: "seal_segment crc os (ws_disk ws) = (r, d')"
  shows "steps_ok crc new_v4 bound ws (ws\<lparr>ws_open := hm_remove key (ws_open ws), ws_disk := d'\<rparr>)"
proof -
  have os: "open_ok crc (ws_disk ws) key os"
    using ok entry unfolding worker_ok_def open_map_ok_def by blast
  then have "os_buffer os = []" "sealed_absent (sh_segment_id (os_header os)) (ws_disk ws)"
    by (auto simp: open_ok_def segment_holds_def)
  with seal_segment_disk [OF seal] have
    disk: "touches (sh_segment_id (os_header os)) (ws_disk ws) d'" "disk_extends (ws_disk ws) d'"
    by auto
  have "ids_fresh new_v4 bound d'"
    using touches_fresh [OF disk(1) open_ok_file [OF os]] ok by (simp add: worker_ok_def)
  moreover have "open_map_ok crc d' (hm_remove key (ws_open ws))"
    using ok by (auto simp: worker_ok_def intro: open_map_ok_others(1) [OF _ entry disk(1)])
  ultimately show ?thesis
    using ok disk by (simp add: steps_ok_def worker_ok_def hm.inv_del)
qed

lemma rotate_if_needed_ok:
  assumes "worker_ok crc new_v4 bound ws" and "rotate_if_needed crc frame ws = (r, ws')"
  shows "steps_ok crc new_v4 bound ws ws'"
proof -
  have "steps_ok crc new_v4 bound ws ws"
    using assms(1) by (simp add: steps_ok_def)
  then show ?thesis
    using assms by (auto simp: rotate_if_needed_def split: option.splits if_splits prod.splits
        dest: seal_entry)
qed

lemma ensure_open_ok:
  assumes ok: "worker_ok crc new_v4 bound ws" and run: "ensure_open crc new_v4 frame ws = (r, ws')"
    and within: "drawn_within bound ws'"
  shows "steps_ok crc new_v4 bound ws ws' \<and>
    (\<forall>os. r = Inr os \<longrightarrow> hm_get (ws_open ws') (frame_key frame) = Some os)"
proof (cases "hm_get (ws_open ws) (frame_key frame)")
  case (Some os)
  then show ?thesis
    using ok run by (auto simp: ensure_open_def steps_ok_def)
next
  case None
  obtain r1 d1 where opened: "open_segment_file crc new_v4 (ws_rotation ws) frame (ws_disk ws) = (r1, d1)"
    by fastforce
  note creates = open_segment_file_effect(1) [OF opened]
  have "ws_disk ws' = d1"
    using None run opened by (auto simp: ensure_open_def split: sum.splits)
  then have bound: "disk_uuids d1 \<le> bound"
    using within by (simp add: drawn_within_def)
  have fresh: "ids_fresh new_v4 bound (ws_disk ws)" and map: "open_map_ok crc (ws_disk ws) (ws_open ws)"
    using ok by (auto simp: worker_ok_def)
  have fresh': "ids_fresh new_v4 bound d1"
    using creates_fresh [OF creates fresh] .
  note map' = open_map_ok_creates [OF map creates fresh bound]
  have ext: "disk_extends (ws_disk ws) d1"
    using creates by (simp add: creates_def)
  show ?thesis
  proof (cases r1)
    case (Inl e)
    then show ?thesis
      using None run opened ok fresh' map' ext
      by (auto simp: ensure_open_def steps_ok_def worker_ok_def)
  next
    case (Inr os)
    let ?sid = "sh_segment_id (os_header os)"
    from open_segment_file_effect(2) [OF opened Inr] have
      hdr: "os_header os = new_header ?sid (ws_rotation ws) frame" and
      sid: "?sid \<in> drawn new_v4 (ws_disk ws) d1" and holds: "segment_holds crc d1 os []"
      by auto
    have "disk_files (ws_disk ws) (?sid, st) = None" for st
      using drawn_fresh [OF fresh bound sid] .
    then have "sealed_absent ?sid d1"
      using creates by (auto simp: sealed_absent_def sealed_segment_name_def creates_def)
    moreover have "(sh_session_id (os_header os), sh_target_id (os_header os)) = frame_key frame"
      by (subst (1 2) hdr) (simp add: new_header_def frame_key_def)
    ultimately have "open_ok crc d1 (frame_key frame) os"
      using holds by (auto simp: open_ok_def)
    moreover have "sh_segment_id (os_header o') \<noteq> ?sid"
      if "hm_get (ws_open ws) key' = Some o'" for key' o'
      using open_ok_file [of crc "ws_disk ws" key' o'] map that \<open>\<And>st. disk_files (ws_disk ws) (?sid, st) = None\<close>
      by (metis open_map_ok_def)
    ultimately have "open_map_ok crc d1 (hm_insert (frame_key frame) os (ws_open ws))"
      using map' unfolding open_map_ok_def hm.get_put fun_upd_apply
      by (metis option.inject)
    moreover have "r = Inr os \<and>
        ws' = ws\<lparr>ws_open := hm_insert (frame_key frame) os (ws_open ws), ws_disk := d1\<rparr>"
      using None run opened Inr by (simp add: ensure_open_def)
    ultimately show ?thesis
      using ok fresh' ext by (simp add: steps_ok_def worker_ok_def hm.inv_put)
  qed
qed

lemma open_append_ok:
  assumes ok: "worker_ok crc new_v4 bound ws" and entry: "hm_get (ws_open ws) (frame_key frame) = Some os"
    and frame: "acceptable_frame frame"
    and run: "open_append crc frame (os, ws_disk ws) = (r, os', d')"
  shows "disk_extends (ws_disk ws) d'" and "ids_fresh new_v4 bound d'"
    and "r = Inr a \<Longrightarrow> stored crc d' a frame \<and>
      steps_ok crc new_v4 bound ws (ws\<lparr>ws_open := hm_insert (frame_key frame) os' (ws_open ws), ws_disk := d'\<rparr>)"
proof -
  have os: "open_ok crc (ws_disk ws) (frame_key frame) os"
    using ok entry unfolding worker_ok_def open_map_ok_def by blast
  then obtain fs where holds: "segment_holds crc (ws_disk ws) os fs"
    and key: "belongs_to (os_header os) frame"
    by (auto simp: open_ok_def belongs_to_def frame_key_def)
  have w: "writes_only (os_name os) (ws_disk ws) d'"
    using open_append_writes [OF run] holds by (simp add: segment_holds_def)
  then show ext: "disk_extends (ws_disk ws) d'"
    by (rule writes_only_extends)
  have touch: "touches (sh_segment_id (os_header os)) (ws_disk ws) d'"
    using w by (simp add: os_name_def open_segment_name_def writes_only_touches)
  show fresh: "ids_fresh new_v4 bound d'"
    using touches_fresh [OF touch open_ok_file [OF os]] ok by (simp add: worker_ok_def)
  assume "r = Inr a"
  with run have run': "open_append crc frame (os, ws_disk ws) = (Inr a, os', d')"
    by simp
  note appended = open_append_Inr [OF run' holds frame key]
  have "sealed_absent (sh_segment_id (os_header os)) d'"
    using sealed_absent_writes [of "sh_segment_id (os_header os)" "ws_disk ws" d'] w os
    by (simp add: open_ok_def os_name_def open_segment_name_def)
  with appended os have "open_ok crc d' (frame_key frame) os'"
    by (auto simp: open_ok_def)
  then have "open_map_ok crc d' (hm_insert (frame_key frame) os' (ws_open ws))"
    using open_map_ok_others(2) [OF _ entry touch] ok appended by (simp add: worker_ok_def)
  then show "stored crc d' a frame \<and>
      steps_ok crc new_v4 bound ws (ws\<lparr>ws_open := hm_insert (frame_key frame) os' (ws_open ws), ws_disk := d'\<rparr>)"
    using open_append_stored [OF run' holds frame key] ok ext fresh
    by (simp add: steps_ok_def worker_ok_def hm.inv_put)
qed

definition latching :: "store_failure \<Rightarrow> bool" where
  "latching e \<longleftrightarrow> (\<exists>failure. e = KrometrailError (Some failure) \<and> pf_recoverability failure = WriterTerminal)"

lemma open_append_Inl:
  "open_append crc frame (os, d) = (Inl e, os', d') \<Longrightarrow> latching e"
  by (auto simp: open_append_def Let_def latching_def store_error_def io_error_def writer_invalid_def
      count_record_def split: sum.splits prod.splits option.splits)

lemma worker_append_ok:
  assumes ok: "worker_ok crc new_v4 bound ws" and within: "drawn_within bound ws'"
    and frame: "acceptable_frame frame" and run: "worker_append crc new_v4 frame ws = (r, ws')"
  shows "steps_ok crc new_v4 bound ws ws' \<or>
      disk_extends (ws_disk ws) (ws_disk ws') \<and> ws_terminal ws' = ws_terminal ws \<and>
      (\<exists>e. r = Inl e \<and> latching e)"
    and "r = Inr commit \<Longrightarrow> stored crc (ws_disk ws') (fc_address commit) frame"
proof -
  obtain r1 ws1 where rotated: "rotate_if_needed crc frame ws = (r1, ws1)" by fastforce
  note s1 = rotate_if_needed_ok [OF ok rotated]
  have both: "(steps_ok crc new_v4 bound ws ws' \<or>
      disk_extends (ws_disk ws) (ws_disk ws') \<and> ws_terminal ws' = ws_terminal ws \<and>
      (\<exists>e. r = Inl e \<and> latching e)) \<and>
    (\<forall>commit. r = Inr commit \<longrightarrow> stored crc (ws_disk ws') (fc_address commit) frame)"
  proof (cases r1)
    case (Inl e)
    then show ?thesis
      using run rotated s1 by (auto simp: worker_append_def)
  next
    case (Inr sealed)
    obtain r2 ws2 where opened: "ensure_open crc new_v4 frame ws1 = (r2, ws2)" by fastforce
    have "drawn_within bound ws2"
      using within run rotated Inr opened
      by (auto simp: worker_append_def drawn_within_def dest: open_append_uuids
          split: sum.splits prod.splits)
    then have s2: "steps_ok crc new_v4 bound ws1 ws2"
      and entry: "\<And>os. r2 = Inr os \<Longrightarrow> hm_get (ws_open ws2) (frame_key frame) = Some os"
      using ensure_open_ok [OF _ opened] s1 by (auto simp: steps_ok_def)
    have s12: "steps_ok crc new_v4 bound ws ws2"
      using s1 s2 by (rule steps_ok_trans)
    show ?thesis
    proof (cases r2)
      case (Inl e)
      then show ?thesis
        using run rotated Inr opened s12 by (auto simp: worker_append_def)
    next
      case r2: (Inr os)
      obtain r3 os' d' where appended: "open_append crc frame (os, ws_disk ws2) = (r3, os', d')"
        using prod_cases3 by blast
      have ok2: "worker_ok crc new_v4 bound ws2"
        using s12 by (simp add: steps_ok_def)
      note fin = open_append_ok [OF ok2 entry [OF r2] frame appended]
      let ?ws = "ws2\<lparr>ws_open := hm_insert (frame_key frame) os' (ws_open ws2), ws_disk := d'\<rparr>"
      have ws': "ws' = ?ws" and r: "r = map_sum id (\<lambda>address. \<lparr>fc_address = address,
          fc_active_segment = registration os' Open, fc_sealed_segment = sealed\<rparr>) r3"
        using run rotated Inr opened r2 appended by (auto simp: worker_append_def)
      show ?thesis
      proof (cases r3)
        case (Inl e)
        then have "latching e" using appended open_append_Inl by blast
        then show ?thesis
          using Inl r ws' fin(1) s12 by (auto simp: steps_ok_def intro: disk_extends_trans)
      next
        case r3: (Inr a)
        then show ?thesis
          using fin(3) [OF r3] r ws' s12 by (auto intro: steps_ok_trans)
      qed
    qed
  qed
  then show "steps_ok crc new_v4 bound ws ws' \<or>
      disk_extends (ws_disk ws) (ws_disk ws') \<and> ws_terminal ws' = ws_terminal ws \<and>
      (\<exists>e. r = Inl e \<and> latching e)" by blast
  show "r = Inr commit \<Longrightarrow> stored crc (ws_disk ws') (fc_address commit) frame"
    using both by blast
qed

lemma flush_keys_ok:
  assumes "worker_ok crc new_v4 bound ws" and "flush_keys crc keys ws = (r, ws')"
  shows "steps_ok crc new_v4 bound ws ws'"
  using assms
proof (induction keys arbitrary: ws r ws')
  case Nil
  then show ?case by (simp add: steps_ok_def)
next
  case (Cons key keys)
  show ?case
  proof (cases "hm_get (ws_open ws) key")
    case None
    then show ?thesis using Cons.prems by (simp add: steps_ok_def)
  next
    case (Some os)
    obtain r1 d1 where seal: "seal_segment crc os (ws_disk ws) = (r1, d1)" by fastforce
    let ?ws = "ws\<lparr>ws_open := hm_remove key (ws_open ws), ws_disk := d1\<rparr>"
    have s: "steps_ok crc new_v4 bound ws ?ws"
      using seal_entry [OF Cons.prems(1) Some seal] .
    show ?thesis
    proof (cases r1)
      case (Inl e)
      then show ?thesis using Cons.prems(2) Some seal s by (simp add: Let_def)
    next
      case (Inr reg)
      then obtain r2 where "flush_keys crc keys ?ws = (r2, ws')"
        using Cons.prems(2) Some seal by (auto simp: Let_def split: prod.splits)
      then have "steps_ok crc new_v4 bound ?ws ws'"
        by (rule Cons.IH [rotated]) (use s in \<open>simp add: steps_ok_def\<close>)
      with s show ?thesis by (rule steps_ok_trans)
    qed
  qed
qed

section \<open>How many identifiers the worker draws\<close>

lemma rotate_if_needed_uuids:
  "rotate_if_needed crc frame ws = (r, ws') \<Longrightarrow> disk_uuids (ws_disk ws') = disk_uuids (ws_disk ws)"
  by (auto simp: rotate_if_needed_def split: option.splits if_splits prod.splits dest: seal_segment_uuids)

lemma worker_append_uuids:
  assumes "worker_append crc new_v4 frame ws = (r, ws')"
  shows "disk_uuids (ws_disk ws) \<le> disk_uuids (ws_disk ws') \<and>
    disk_uuids (ws_disk ws') \<le> disk_uuids (ws_disk ws) + 4"
proof -
  obtain r1 ws1 where rotated: "rotate_if_needed crc frame ws = (r1, ws1)" by fastforce
  obtain r2 ws2 where opened: "ensure_open crc new_v4 frame ws1 = (r2, ws2)" by fastforce
  have "disk_uuids (ws_disk ws1) \<le> disk_uuids (ws_disk ws2) \<and>
      disk_uuids (ws_disk ws2) \<le> disk_uuids (ws_disk ws1) + 4"
    using opened by (auto simp: ensure_open_def split: option.splits prod.splits sum.splits
        dest: open_segment_file_uuids)
  then show ?thesis
    using assms rotated opened rotate_if_needed_uuids [OF rotated]
    by (auto simp: worker_append_def split: sum.splits prod.splits dest: open_append_uuids)
qed

lemma flush_keys_uuids:
  "flush_keys crc keys ws = (r, ws') \<Longrightarrow> disk_uuids (ws_disk ws') = disk_uuids (ws_disk ws)"
proof (induction keys arbitrary: ws r)
  case (Cons key keys)
  show ?case
  proof (cases "hm_get (ws_open ws) key")
    case None
    then show ?thesis using Cons.prems by simp
  next
    case (Some os)
    obtain r1 d1 where seal: "seal_segment crc os (ws_disk ws) = (r1, d1)" by fastforce
    note same = seal_segment_uuids [OF seal]
    show ?thesis
    proof (cases r1)
      case (Inl e)
      then show ?thesis using Cons.prems Some seal same by (auto simp: Let_def)
    next
      case (Inr reg)
      let ?ws = "ws\<lparr>ws_open := hm_remove key (ws_open ws), ws_disk := d1\<rparr>"
      obtain r2 where "flush_keys crc keys ?ws = (r2, ws')"
        using Cons.prems Some seal Inr by (auto simp: Let_def split: prod.splits)
      from Cons.IH [OF this] show ?thesis using same by simp
    qed
  qed
qed simp

lemma execute_uuids:
  assumes "execute operation ws = (r, ws')"
    and "\<And>q ws1. operation ws = (q, ws1) \<Longrightarrow> disk_uuids (ws_disk ws) \<le> disk_uuids (ws_disk ws1) \<and>
      disk_uuids (ws_disk ws1) \<le> disk_uuids (ws_disk ws) + 4"
  shows "disk_uuids (ws_disk ws) \<le> disk_uuids (ws_disk ws') \<and>
    disk_uuids (ws_disk ws') \<le> disk_uuids (ws_disk ws) + 4"
  using assms
  by (cases "operation ws")
    (auto simp: execute_def Let_def split: option.splits sum.splits store_failure.splits if_splits)

lemma run_command_uuids:
  assumes "run_command crc new_v4 c ws = (reply, ws')"
  shows "disk_uuids (ws_disk ws) \<le> disk_uuids (ws_disk ws') \<and>
    disk_uuids (ws_disk ws') \<le> disk_uuids (ws_disk ws) + 4"
proof (cases c)
  case (AppendFrame frame)
  then obtain r where "execute (worker_append crc new_v4 frame) ws = (r, ws')"
    using assms by (cases "execute (worker_append crc new_v4 frame) ws") auto
  from execute_uuids [OF this] worker_append_uuids show ?thesis by blast
next
  case (FlushSession session)
  then obtain r where "execute (flush_session crc session) ws = (r, ws')"
    using assms by (cases "execute (flush_session crc session) ws") auto
  from execute_uuids [OF this] show ?thesis
    by (simp add: flush_session_def flush_keys_uuids)
next
  case FlushAll
  then obtain r where "execute (flush_all crc) ws = (r, ws')"
    using assms by (cases "execute (flush_all crc) ws") auto
  from execute_uuids [OF this] show ?thesis
    by (simp add: flush_all_def flush_keys_uuids)
qed

lemma run_commands_uuids:
  "run_commands crc new_v4 cs ws = (replies, ws') \<Longrightarrow>
   disk_uuids (ws_disk ws') \<le> disk_uuids (ws_disk ws) + 4 * length cs"
  unfolding run_commands_def
proof (induction cs arbitrary: ws replies)
  case (Cons c cs)
  obtain reply ws1 where c: "run_command crc new_v4 c ws = (reply, ws1)" by fastforce
  obtain rs where cs: "run_steps (run_command crc new_v4) cs ws1 = (rs, ws')"
    using Cons.prems c by (auto split: prod.splits)
  show ?case
    using run_command_uuids [OF c] Cons.IH [OF cs] by simp
qed simp

section \<open>Commands\<close>

text \<open>From one state of the worker to a later one: files only grow, and a latched failure stays.\<close>

definition writer_grows :: "nat \<Rightarrow> worker_state \<Rightarrow> worker_state \<Rightarrow> bool" where
  "writer_grows bound ws ws' \<longleftrightarrow>
     disk_uuids (ws_disk ws) \<le> disk_uuids (ws_disk ws') \<and>
     (drawn_within bound ws' \<longrightarrow> disk_extends (ws_disk ws) (ws_disk ws')) \<and>
     (ws_terminal ws \<noteq> None \<longrightarrow> ws' = ws)"

definition acceptable_command :: "writer_command \<Rightarrow> bool" where
  "acceptable_command c = (case c of AppendFrame frame \<Rightarrow> acceptable_frame frame | _ \<Rightarrow> True)"

lemma execute_latched:
  "ws_terminal ws = Some e \<Longrightarrow> execute operation ws = (r, ws') \<Longrightarrow> r = Inl e \<and> ws' = ws"
  by (auto simp: execute_def)

lemma execute_step:
  assumes ok: "worker_ok crc new_v4 bound ws" and run: "execute operation ws = (r, ws')"
    and None: "ws_terminal ws = None"
    and step: "\<And>q ws1. operation ws = (q, ws1) \<Longrightarrow> ws_disk ws1 = ws_disk ws' \<Longrightarrow>
      steps_ok crc new_v4 bound ws ws1 \<or>
      disk_extends (ws_disk ws) (ws_disk ws1) \<and> ws_terminal ws1 = ws_terminal ws \<and>
      (\<exists>e. q = Inl e \<and> latching e)"
  shows "(ws_terminal ws' = None \<longrightarrow> worker_ok crc new_v4 bound ws') \<and>
    disk_extends (ws_disk ws) (ws_disk ws') \<and>
    (\<forall>v. r = Inr v \<longrightarrow> operation ws = (Inr v, ws'))"
proof -
  obtain q ws1 where op: "operation ws = (q, ws1)" by fastforce
  have "ws_disk ws1 = ws_disk ws'"
    using run op None
    by (auto simp: execute_def Let_def split: sum.splits store_failure.splits option.splits if_splits)
  note step1 = step [OF op this]
  consider (ok) v where "q = Inr v" | (panic) "q = Inl ThreadPanic"
    | (none) "q = Inl (KrometrailError None)" | (some) f where "q = Inl (KrometrailError (Some f))"
    by (metis option.exhaust store_failure.exhaust sum.exhaust)
  then show ?thesis
  proof cases
    case ok
    then show ?thesis
      using run op None step1 by (auto simp: execute_def steps_ok_def)
  next
    case panic
    then show ?thesis
      using run op None step1 by (auto simp: execute_def steps_ok_def latching_def)
  next
    case none
    then show ?thesis
      using run op None step1 by (auto simp: execute_def steps_ok_def Let_def)
  next
    case some
    then show ?thesis
      using run op None step1 by (auto simp: execute_def steps_ok_def latching_def split: if_splits)
  qed
qed

lemma run_command_step:
  assumes inv: "worker_inv crc new_v4 bound ws" and cmd: "acceptable_command c"
    and run: "run_command crc new_v4 c ws = (reply, ws')"
  shows "worker_inv crc new_v4 bound ws' \<and> writer_grows bound ws ws' \<and>
    (\<forall>frame commit. c = AppendFrame frame \<longrightarrow> reply = AppendReply (Inr commit) \<longrightarrow>
       drawn_within bound ws' \<longrightarrow> stored crc (ws_disk ws') (fc_address commit) frame)"
proof -
  note mono = run_command_uuids [OF run]
  consider (latched) e where "ws_terminal ws = Some e" | (beyond) "ws_terminal ws = None" "\<not> drawn_within bound ws'"
    | (usual) "ws_terminal ws = None" "drawn_within bound ws'"
    by (cases "ws_terminal ws") auto
  then show ?thesis
  proof cases
    case latched
    then have "ws' = ws \<and> (\<forall>commit. reply \<noteq> AppendReply (Inr commit))"
      using run by (cases c) (auto simp: map_prod_def split: prod.splits dest: execute_latched)
    then show ?thesis using inv by (auto simp: writer_grows_def)
  next
    case beyond
    then show ?thesis using mono by (auto simp: worker_inv_def writer_grows_def)
  next
    case usual
    then have ok: "worker_ok crc new_v4 bound ws"
      using inv mono by (simp add: worker_inv_def drawn_within_def)
    show ?thesis
    proof (cases c)
      case (AppendFrame frame)
      then have frame: "acceptable_frame frame"
        using cmd by (simp add: acceptable_command_def)
      obtain r where ex: "execute (worker_append crc new_v4 frame) ws = (r, ws')" and reply: "reply = AppendReply r"
        using run AppendFrame by (cases "execute (worker_append crc new_v4 frame) ws") auto
      have within: "drawn_within bound ws1" if "ws_disk ws1 = ws_disk ws'" for ws1
        using usual(2) that by (simp add: drawn_within_def)
      note result = execute_step [OF ok ex usual(1) worker_append_ok(1) [OF ok within frame]]
      have "stored crc (ws_disk ws') (fc_address commit) frame" if "r = Inr commit" for commit
        using result that worker_append_ok(2) [OF ok usual(2) frame] by blast
      with result show ?thesis
        using AppendFrame reply mono usual by (simp add: worker_inv_def writer_grows_def)
    next
      case (FlushSession session)
      then obtain r where ex: "execute (flush_session crc session) ws = (r, ws')"
        using run by (cases "execute (flush_session crc session) ws") auto
      show ?thesis
        using execute_step [OF ok ex usual(1)] FlushSession mono usual flush_keys_ok [OF ok]
        by (simp add: flush_session_def worker_inv_def writer_grows_def)
    next
      case FlushAll
      then obtain r where ex: "execute (flush_all crc) ws = (r, ws')"
        using run by (cases "execute (flush_all crc) ws") auto
      show ?thesis
        using execute_step [OF ok ex usual(1)] FlushAll mono usual flush_keys_ok [OF ok]
        by (simp add: flush_all_def worker_inv_def writer_grows_def)
    qed
  qed
qed

lemma writer_grows_refl [simp]: "writer_grows bound ws ws"
  by (simp add: writer_grows_def)

lemma writer_grows_trans:
  "writer_grows bound ws ws' \<Longrightarrow> writer_grows bound ws' ws'' \<Longrightarrow> writer_grows bound ws ws''"
  by (auto simp: writer_grows_def drawn_within_def intro: disk_extends_trans)

interpretation writer: command_machine "run_command crc new_v4" acceptable_command
    "worker_inv crc new_v4 bound" "writer_grows bound" for crc new_v4 bound
proof unfold_locales
  fix s s' :: worker_state and c r
  assume "worker_inv crc new_v4 bound s" "acceptable_command c" "run_command crc new_v4 c s = (r, s')"
  from run_command_step [OF this] show "worker_inv crc new_v4 bound s'" "writer_grows bound s s'"
    by blast+
qed (use writer_grows_trans in \<open>simp_all\<close>)

lemma worker_inv_start:
  "ids_fresh new_v4 bound d \<Longrightarrow> segment_writer_open config d = Inr ws \<Longrightarrow>
   worker_inv crc new_v4 bound ws \<and> ws_disk ws = d"
  by (auto simp: segment_writer_open_def and_then_Inr_iff worker_inv_def worker_ok_def open_map_ok_def)

section \<open>Sealing publishes what the segment holds\<close>

lemma seal_segment_published:
  assumes run: "seal_segment crc os d = (Inr reg, d')" and holds: "segment_holds crc d os fs"
    and absent: "sealed_absent (sh_segment_id (os_header os)) d"
  shows "disk_files d' (sealed_segment_name (sh_segment_id (os_header os))) =
      Some (segment_file crc (os_header os) fs (encode_footer crc (footer_of os)))"
    and "disk_files d' (open_segment_name (sh_segment_id (os_header os))) = None"
    and "sr_state reg = Sealed" "sr_end_time reg = Some (os_last_session_time os)"
    and "unat (sr_file_bytes reg) = length (segment_file crc (os_header os) fs (encode_footer crc (footer_of os)))"
    and "unat (sr_record_count reg) = length fs" "unat (sr_payload_bytes reg) = payload_total fs"
proof -
  let ?sid = "sh_segment_id (os_header os)"
  let ?footer = "encode_footer crc (footer_of os)"
  have buffer: "os_buffer os = []"
    using holds by (simp add: segment_holds_def)
  obtain buf1 d1 buf2 d2 d3 len where
    wrote: "buf_write_all (os_name os) ?footer ([], d) = (Inr (), buf1, d1)"
    and flushed: "flush_buf (os_name os) (buf1, d1) = (Inr (), buf2, d2)"
    and synced: "sys_sync d2 = (Inr (), d3)"
    and len: "checked_add (os_file_len os) (word_of_nat (length ?footer)) = Some len"
    and publish: "publish_segment crc ?sid (registration (os\<lparr>os_file_len := len\<rparr>) Sealed)
      (drop_writer (os_name os) (buf2, d3)) = (Inr reg, d')"
    using run buffer by (auto simp: seal_segment_def Let_def split: sum.splits prod.splits option.splits)
  have disk: "buf2 = []" "appends_to (os_name os) ?footer d d2"
    using write_then_flush [OF wrote flushed] by auto
  then have same: "drop_writer (os_name os) (buf2, d3) = d3"
    by (simp add: drop_writer_def flush_buf_def)
  have name: "os_name os = (?sid, Open)"
    by (simp add: os_name_def open_segment_name_def)
  have files3: "disk_files d3 = (disk_files d)((?sid, Open) \<mapsto>
      segment_file crc (os_header os) fs ?footer)"
    using sys_sync_effect [OF synced] disk holds name
    by (auto simp: appends_to_def segment_holds_def segment_file_def)
  have "disk_files d3 (sealed_segment_name ?sid) = None"
    using files3 absent by (simp add: sealed_absent_def sealed_segment_name_def)
  then have "reg = registration (os\<lparr>os_file_len := len\<rparr>) Sealed \<and>
      disk_files d' (?sid, Sealed) = disk_files d3 (?sid, Open) \<and> disk_files d' (?sid, Open) = None"
    using publish same
    by (auto simp: publish_segment_def sealed_publication_is_complete_def open_segment_name_def
        sealed_segment_name_def dest!: sys_rename_effect sys_sync_effect
        split: prod.splits sum.splits if_splits)
  moreover have "unat len = unat (os_file_len os) + length ?footer"
    using len by (auto simp: checked_add_Some_iff sealed_footer_len_def)
  ultimately show "disk_files d' (sealed_segment_name ?sid) =
      Some (segment_file crc (os_header os) fs ?footer)"
    and "disk_files d' (open_segment_name ?sid) = None"
    and "sr_state reg = Sealed" "sr_end_time reg = Some (os_last_session_time os)"
    and "unat (sr_file_bytes reg) = length (segment_file crc (os_header os) fs ?footer)"
    and "unat (sr_record_count reg) = length fs" "unat (sr_payload_bytes reg) = payload_total fs"
    using files3 holds
    by (simp_all add: sealed_segment_name_def open_segment_name_def registration_def
        segment_holds_def segment_file_def)
qed

text \<open>A sealed file is never written again.\<close>

definition sealed_kept :: "disk \<Rightarrow> disk \<Rightarrow> bool" where
  "sealed_kept d d' \<longleftrightarrow> (\<forall>sid bs. disk_files d (sealed_segment_name sid) = Some bs \<longrightarrow>
     disk_files d' (sealed_segment_name sid) = Some bs)"

lemma touches_sealed_kept: "touches sid d d' \<Longrightarrow> sealed_absent sid d \<Longrightarrow> sealed_kept d d'"
  unfolding sealed_kept_def sealed_absent_def touches_def sealed_segment_name_def
  by (metis option.distinct(1))

text \<open>The file a sealed registration describes.\<close>

definition published :: "checksum \<Rightarrow> disk \<Rightarrow> segment_registration \<Rightarrow> bool" where
  "published crc d reg \<longleftrightarrow> (\<exists>hdr fs footer.
     disk_files d (sealed_segment_name (sr_segment_id reg)) =
       Some (segment_file crc hdr fs (encode_footer crc footer)) \<and>
     (\<forall>f \<in> set fs. storable_frame f \<and> belongs_to hdr f) \<and>
     sh_segment_id hdr = sr_segment_id reg \<and> sf_segment_id footer = sr_segment_id reg \<and>
     sr_state reg = Sealed \<and>
     unat (sr_file_bytes reg) = length (segment_file crc hdr fs (encode_footer crc footer)) \<and>
     unat (sr_record_count reg) = length fs \<and> unat (sr_payload_bytes reg) = payload_total fs)"

lemma published_kept: "published crc d reg \<Longrightarrow> sealed_kept d d' \<Longrightarrow> published crc d' reg"
  unfolding published_def sealed_kept_def by metis

lemma seal_registration_id:
  "seal_segment crc os d = (Inr reg, d') \<Longrightarrow> sr_segment_id reg = sh_segment_id (os_header os)"
  by (auto simp: seal_segment_def publish_segment_def registration_def Let_def
      split: sum.splits prod.splits option.splits if_splits)

lemma seal_entry_published:
  assumes ok: "worker_ok crc new_v4 bound ws" and entry: "hm_get (ws_open ws) key = Some os"
    and seal: "seal_segment crc os (ws_disk ws) = (r, d')"
  shows "sealed_kept (ws_disk ws) d'" and "r = Inr reg \<Longrightarrow> published crc d' reg"
proof -
  have os: "open_ok crc (ws_disk ws) key os"
    using ok entry unfolding worker_ok_def open_map_ok_def by blast
  then obtain fs where holds: "segment_holds crc (ws_disk ws) os fs"
    and absent: "sealed_absent (sh_segment_id (os_header os)) (ws_disk ws)"
    by (auto simp: open_ok_def)
  then show "sealed_kept (ws_disk ws) d'"
    using seal_segment_disk [OF seal]
    by (auto simp: segment_holds_def intro: touches_sealed_kept)
  assume "r = Inr reg"
  with seal have seal': "seal_segment crc os (ws_disk ws) = (Inr reg, d')"
    by simp
  have frames: "\<forall>f \<in> set fs. storable_frame f \<and> belongs_to (os_header os) f"
    using holds by (simp add: segment_holds_def)
  show "published crc d' reg"
    unfolding published_def
    using seal_segment_published [OF seal' holds absent] seal_registration_id [OF seal'] frames
    by (intro exI [of _ "os_header os"] exI [of _ fs] exI [of _ "footer_of os"]) (simp add: footer_of_def)
qed

lemma flush_keys_published:
  assumes "worker_ok crc new_v4 bound ws" and "flush_keys crc keys ws = (r, ws')"
  shows "sealed_kept (ws_disk ws) (ws_disk ws') \<and>
    (\<forall>regs. r = Inr regs \<longrightarrow> (\<forall>reg \<in> set regs. published crc (ws_disk ws') reg) \<and>
       length regs = length keys \<and> hm_get (ws_open ws') = (hm_get (ws_open ws)) |` (- set keys))"
  using assms
proof (induction keys arbitrary: ws r)
  case Nil
  then show ?case by (auto simp: sealed_kept_def)
next
  case (Cons key keys)
  show ?case
  proof (cases "hm_get (ws_open ws) key")
    case None
    then show ?thesis using Cons.prems by (auto simp: sealed_kept_def)
  next
    case (Some os)
    obtain r1 d1 where seal: "seal_segment crc os (ws_disk ws) = (r1, d1)" by fastforce
    let ?ws = "ws\<lparr>ws_open := hm_remove key (ws_open ws), ws_disk := d1\<rparr>"
    have ok: "worker_ok crc new_v4 bound ?ws"
      using seal_entry [OF Cons.prems(1) Some seal] by (simp add: steps_ok_def)
    note sealed = seal_entry_published [OF Cons.prems(1) Some seal]
    show ?thesis
    proof (cases r1)
      case (Inl e)
      then show ?thesis using Cons.prems(2) Some seal sealed(1) by (auto simp: Let_def)
    next
      case (Inr reg)
      obtain r2 where rest: "flush_keys crc keys ?ws = (r2, ws')" and r: "r = map_sum id (Cons reg) r2"
        using Cons.prems(2) Some seal Inr by (auto simp: Let_def split: prod.splits)
      note ih = Cons.IH [OF ok rest]
      have kept: "sealed_kept (ws_disk ws) (ws_disk ws')"
        using sealed(1) ih by (auto simp: sealed_kept_def)
      have "published crc (ws_disk ws') reg"
        using published_kept [OF sealed(2) [OF Inr]] ih by simp
      with kept ih show ?thesis
        by (cases r2) (auto simp: r hm.get_del restrict_map_def fun_eq_iff)
    qed
  qed
qed

section \<open>The worker never panics\<close>

definition calm :: "worker_state \<Rightarrow> bool" where
  "calm ws \<longleftrightarrow> hm_inv (ws_open ws) \<and> ws_terminal ws \<noteq> Some ThreadPanic"

lemma seal_segment_calm: "seal_segment crc os d = (Inl e, d') \<Longrightarrow> e \<noteq> ThreadPanic"
  by (auto simp: seal_segment_def publish_segment_def Let_def store_error_def io_error_def writer_invalid_def
      split: sum.splits prod.splits option.splits if_splits)

lemma create_open_file_calm: "create_open_file new_v4 attempts d = (Inl e, d') \<Longrightarrow> e \<noteq> ThreadPanic"
  using create_open_file_effect [of new_v4 attempts d "Inl e" d'] by (auto simp: store_error_def)

lemma open_segment_file_calm:
  "open_segment_file crc new_v4 rotation frame d = (Inl e, d') \<Longrightarrow> e \<noteq> ThreadPanic"
  by (auto simp: open_segment_file_def Let_def store_error_def io_error_def
      dest: create_open_file_calm split: sum.splits prod.splits)

lemma flush_keys_calm:
  assumes "flush_keys crc keys ws = (r, ws')" and "calm ws" and "distinct keys"
    and "set keys \<subseteq> set (hm_keys (ws_open ws))"
  shows "calm ws' \<and> r \<noteq> Inl ThreadPanic"
  using assms
proof (induction keys arbitrary: ws r)
  case (Cons key keys)
  then obtain os where os: "hm_get (ws_open ws) key = Some os"
    by (auto simp: hm.set_keys)
  obtain r1 d1 where seal: "seal_segment crc os (ws_disk ws) = (r1, d1)" by fastforce
  let ?ws = "ws\<lparr>ws_open := hm_remove key (ws_open ws), ws_disk := d1\<rparr>"
  have calm: "calm ?ws"
    using Cons.prems by (simp add: calm_def hm.inv_del)
  have keys: "set keys \<subseteq> set (hm_keys (ws_open ?ws))"
    using Cons.prems by (auto simp: hm.set_keys hm.get_del)
  show ?case
  proof (cases r1)
    case (Inl e)
    then show ?thesis
      using Cons.prems os seal calm by (auto simp: Let_def dest: seal_segment_calm)
  next
    case (Inr reg)
    then obtain r2 where "flush_keys crc keys ?ws = (r2, ws')" "r = map_sum id (Cons reg) r2"
      using Cons.prems os seal by (auto simp: Let_def split: prod.splits)
    then show ?thesis
      using Cons.IH [OF _ calm _ keys] Cons.prems by (cases r2) auto
  qed
qed simp

lemma worker_append_calm:
  assumes "worker_append crc new_v4 frame ws = (r, ws')" and "calm ws"
  shows "calm ws' \<and> r \<noteq> Inl ThreadPanic"
  using assms
  by (auto simp: worker_append_def rotate_if_needed_def ensure_open_def calm_def hm.inv_put hm.inv_del
      map_sum_def latching_def
      dest: seal_segment_calm open_segment_file_calm open_append_Inl
      split: sum.splits prod.splits option.splits if_splits)

lemma execute_calm:
  assumes "execute operation ws = (r, ws')" and "calm ws"
    and "\<And>q ws1. operation ws = (q, ws1) \<Longrightarrow> calm ws1 \<and> q \<noteq> Inl ThreadPanic"
  shows "calm ws' \<and> r \<noteq> Inl ThreadPanic"
  using assms
  by (cases "operation ws")
    (auto simp: execute_def calm_def Let_def store_error_def
      split: option.splits sum.splits store_failure.splits if_splits)

lemma run_command_calm:
  assumes "calm ws" and "run_command crc new_v4 c ws = (reply, ws')"
  shows "calm ws' \<and> reply \<noteq> AppendReply (Inl ThreadPanic) \<and> reply \<noteq> FlushReply (Inl ThreadPanic)"
proof -
  have keys: "distinct (hm_keys (ws_open ws))"
    using assms(1) by (simp add: calm_def hm.distinct_keys)
  show ?thesis
  proof (cases c)
    case (AppendFrame frame)
    then obtain r where "execute (worker_append crc new_v4 frame) ws = (r, ws')" "reply = AppendReply r"
      using assms(2) by (cases "execute (worker_append crc new_v4 frame) ws") auto
    with execute_calm [OF _ assms(1)] worker_append_calm [OF _ assms(1)] show ?thesis by blast
  next
    case (FlushSession session)
    then obtain r where "execute (flush_session crc session) ws = (r, ws')" "reply = FlushReply r"
      using assms(2) by (cases "execute (flush_session crc session) ws") auto
    moreover have "flush_session crc session ws = (q, ws1) \<Longrightarrow> calm ws1 \<and> q \<noteq> Inl ThreadPanic" for q ws1
      unfolding flush_session_def using flush_keys_calm [OF _ assms(1)] keys by auto
    ultimately show ?thesis
      using execute_calm [OF _ assms(1)] by blast
  next
    case FlushAll
    then obtain r where "execute (flush_all crc) ws = (r, ws')" "reply = FlushReply r"
      using assms(2) by (cases "execute (flush_all crc) ws") auto
    moreover have "flush_all crc ws = (q, ws1) \<Longrightarrow> calm ws1 \<and> q \<noteq> Inl ThreadPanic" for q ws1
      unfolding flush_all_def using flush_keys_calm [OF _ assms(1)] keys by auto
    ultimately show ?thesis
      using execute_calm [OF _ assms(1)] by blast
  qed
qed

interpretation calm_writer: command_machine "run_command crc new_v4" "\<lambda>_. True" calm "\<lambda>_ _. True"
    for crc new_v4
  by unfold_locales (use run_command_calm in \<open>blast+\<close>)

section \<open>The terminal latch\<close>

definition failed_reply :: "store_failure \<Rightarrow> writer_reply \<Rightarrow> bool" where
  "failed_reply e reply \<longleftrightarrow> reply = AppendReply (Inl e) \<or> reply = FlushReply (Inl e)"

lemma execute_latches:
  "execute operation ws = (Inl e, ws') \<Longrightarrow> latching e \<Longrightarrow> ws_terminal ws' = Some e"
  by (auto simp: execute_def latching_def Let_def split: option.splits prod.splits sum.splits
      store_failure.splits if_splits)

lemma map_sum_Inr_iff: "map_sum f g r = Inr y \<longleftrightarrow> (\<exists>x. r = Inr x \<and> y = g x)"
  by (cases r) auto

lemma map_prod_id_eq: "map_prod f id x = (y, s) \<longleftrightarrow> (\<exists>r. x = (r, s) \<and> y = f r)"
  by (cases x) auto

lemma run_command_latches:
  assumes "run_command crc new_v4 c ws = (reply, ws')" and "failed_reply e reply" and "latching e"
  shows "ws_terminal ws' = Some e"
  using assms by (cases c) (auto simp: failed_reply_def map_prod_id_eq dest: execute_latches)

lemma run_command_latched:
  assumes "run_command crc new_v4 c ws = (reply, ws')" and "ws_terminal ws = Some e"
  shows "ws' = ws \<and> failed_reply e reply"
  using assms by (cases c) (auto simp: failed_reply_def execute_def)

lemma run_commands_latched:
  assumes "run_steps (run_command crc new_v4) cs ws = (replies, ws')" and "ws_terminal ws = Some e"
  shows "ws' = ws \<and> list_all (failed_reply e) replies"
  using assms
proof (induction cs arbitrary: replies)
  case (Cons c cs)
  obtain reply ws1 where c: "run_command crc new_v4 c ws = (reply, ws1)" by fastforce
  obtain rs where rest: "run_steps (run_command crc new_v4) cs ws1 = (rs, ws')" "replies = reply # rs"
    using Cons.prems c by (auto split: prod.splits)
  then show ?case
    using Cons.IH Cons.prems run_command_latched [OF c] by simp
qed simp

section \<open>Rotation\<close>

lemma open_append_counts:
  assumes "open_append crc frame (os, d) = (Inr a, os', d')"
  shows "addr_offset a = ByteOffset (os_file_len os) \<and> os_header os' = os_header os \<and>
    unat (os_record_count os') = unat (os_record_count os) + 1"
proof -
  obtain rec os1 where "count_record frame rec os1 = (Inr (), os')" "os_header os1 = os_header os"
    "os_record_count os1 = os_record_count os" "addr_offset a = ByteOffset (os_file_len os)"
    using assms by (auto simp: open_append_def Let_def split: sum.splits prod.splits)
  then show ?thesis
    using count_record_Inr by metis
qed

lemma rotate_if_needed_keeps:
  assumes "rotate_if_needed crc frame ws = (Inr sealed, ws')"
    and "hm_get (ws_open ws') (frame_key frame) = Some os"
  shows "\<not> should_rotate os frame (ws_rotation ws') \<and> sealed = None"
  using assms
  by (auto simp: rotate_if_needed_def hm.get_del split: option.splits if_splits prod.splits sum.splits)

lemma ensure_open_fresh:
  assumes "ensure_open crc new_v4 frame ws = (Inr os, ws')"
  shows "hm_get (ws_open ws) (frame_key frame) = Some os \<and> ws' = ws \<or> os_record_count os = 0"
  using assms
  by (auto simp: ensure_open_def open_segment_file_def Let_def split: option.splits prod.splits sum.splits)

end
