(* ===== verification/Writer_Properties.thy ===== *)
theory Writer_Properties
  imports Writer_Durability Sample_Values
begin

text \<open>
  The properties of the segment writer, stated of runs of its command queue from the state that
  \<open>SegmentWriter::open\<close> leaves, with the file system's failures as a script and a witness for each.
\<close>

lemma run_commands_stored:
  assumes fresh: "ids_fresh new_v4 (disk_uuids d + 4 * length cs) d"
    and cs: "list_all acceptable_command cs" and opened: "segment_writer_open config d = Inr ws"
    and run: "run_commands crc new_v4 cs ws = (replies, ws')"
    and i: "i < length cs" "cs ! i = AppendFrame frame" "replies ! i = AppendReply (Inr commit)"
  shows "stored crc (ws_disk ws') (fc_address commit) frame"
proof -
  let ?bound = "disk_uuids d + 4 * length cs"
  have start: "worker_inv crc new_v4 ?bound ws" "ws_disk ws = d"
    using worker_inv_start [OF fresh opened] by simp_all
  then have within: "drawn_within ?bound ws'"
    using run_commands_uuids [OF run] by (simp add: drawn_within_def)
  obtain s1 s2 where s1: "worker_inv crc new_v4 ?bound s1"
    and at: "run_command crc new_v4 (cs ! i) s1 = (replies ! i, s2)" "acceptable_command (cs ! i)"
    and grows: "writer_grows ?bound s2 ws'"
    using writer.run_nth [OF run [unfolded run_commands_def] cs start(1) i(1)] by blast
  have "drawn_within ?bound s2"
    using grows within by (simp add: writer_grows_def drawn_within_def)
  then have "stored crc (ws_disk s2) (fc_address commit) frame"
    using run_command_step [OF s1 at(2,1)] i by simp
  then show ?thesis
    using grows within by (auto simp: writer_grows_def intro: stored_extends)
qed

text \<open>C2: An acknowledged frame is durable. If an append command of a run was answered
  with a commit, then after the whole run, whatever later commands did and whatever system call
  failed, the committed address still reads the frame back, metadata and payload.\<close>

theorem writer_durable:
  assumes fresh: "ids_fresh new_v4 (disk_uuids d + 4 * length cs) d"
    and cs: "list_all acceptable_command cs" and opened: "segment_writer_open config d = Inr ws"
    and run: "run_commands crc new_v4 cs ws = (replies, ws')"
    and i: "i < length cs" "cs ! i = AppendFrame frame" "replies ! i = AppendReply (Inr commit)"
  shows "readable crc (ws_disk ws') (fc_address commit) frame"
  using stored_readable [OF run_commands_stored [OF assms]] .

definition failing_commands :: "writer_command list" where
  "failing_commands = [AppendFrame (sample_frame 0), FlushAll]"

definition failing_script :: "io_outcome list" where
  "failing_script = [IoOk, IoOk, IoOk, IoOk, IoOk, IoError IoStorageFull 3]"


lemma writer_durable_witness:
  "readable sample_crc (ws_disk (snd (run_commands sample_crc sample_v4 failing_commands
     (sample_worker failing_script)))) \<lparr>addr_segment = SegmentId 0, addr_offset = ByteOffset 90\<rparr> (sample_frame 0)"
proof -
  let ?run = "run_commands sample_crc sample_v4 failing_commands (sample_worker failing_script)"
  let ?commit = "\<lparr>fc_address = \<lparr>addr_segment = SegmentId 0, addr_offset = ByteOffset 90\<rparr>,
    fc_active_segment = \<lparr>sr_segment_id = SegmentId 0, sr_session_id = SessionId 1,
      sr_target_id = TargetId 2, sr_state = Open, sr_start_time = SessionTime 0, sr_end_time = None,
      sr_file_bytes = 178, sr_payload_bytes = 3, sr_record_count = 1\<rparr>, fc_sealed_segment = None\<rparr>"
  have reply: "fst ?run ! 0 = AppendReply (Inr ?commit)"
    by code_simp
  have fresh: "ids_fresh sample_v4 (disk_uuids (sample_disk failing_script) + 4 * length failing_commands)
      (sample_disk failing_script)"
    by (simp add: sample_ids_fresh failing_commands_def)
  have ok: "list_all acceptable_command failing_commands"
    by (simp add: failing_commands_def acceptable_command_def sample_frame_acceptable)
  have "readable sample_crc (ws_disk (snd ?run)) (fc_address ?commit) (sample_frame 0)"
    by (rule writer_durable [OF fresh ok sample_open prod.collapse [symmetric] _ _ reply])
      (simp_all add: failing_commands_def)
  then show ?thesis
    by simp
qed

text \<open>C23: A terminal failure is latched. Once a command of a run was answered with a
  failure the worker cannot recover from, every later command of the run is answered with that
  same failure, and no later command changes the disk or the open segments.\<close>

theorem writer_latches:
  assumes run: "run_commands crc new_v4 (cs @ c # later) ws = (replies, ws')"
    and failed: "failed_reply e (replies ! length cs)" and terminal: "latching e"
  shows "(\<forall>j \<in> {length cs..<length replies}. failed_reply e (replies ! j)) \<and>
    ws_terminal ws' = Some e \<and> snd (run_commands crc new_v4 (cs @ [c]) ws) = ws'"
proof -
  obtain rs1 s1 where before: "run_steps (run_command crc new_v4) cs ws = (rs1, s1)" by fastforce
  obtain reply s2 where at: "run_command crc new_v4 c s1 = (reply, s2)" by fastforce
  obtain rs2 s3 where after: "run_steps (run_command crc new_v4) later s2 = (rs2, s3)" by fastforce
  have replies: "replies = rs1 @ reply # rs2" "ws' = s3" and len: "length rs1 = length cs"
    using run before at after run_steps_length [OF before]
    by (simp_all add: run_commands_def run_steps_append)
  then have "failed_reply e reply"
    using failed by (simp add: nth_append)
  then have latched: "ws_terminal s2 = Some e"
    using run_command_latches [OF at] terminal by blast
  note rest = run_commands_latched [OF after latched]
  have "\<forall>j \<in> {length cs..<length replies}. failed_reply e (replies ! j)"
    using replies len rest \<open>failed_reply e reply\<close>
    by (auto simp: nth_append nth_Cons list_all_length split: nat.split)
  moreover have "snd (run_commands crc new_v4 (cs @ [c]) ws) = ws'"
    using before at replies rest by (simp add: run_commands_def run_steps_append)
  ultimately show ?thesis
    using replies rest latched by simp
qed

definition terminal_failure :: store_failure where
  "terminal_failure = store_error SealedSegmentFooterWrite StorageFull WriterTerminal"

lemma writer_latches_witness:
  "snd (run_commands sample_crc sample_v4 [AppendFrame (sample_frame 0), FlushAll]
     (sample_worker failing_script)) =
   snd (run_commands sample_crc sample_v4 [AppendFrame (sample_frame 0), FlushAll, FlushAll]
     (sample_worker failing_script))"
proof -
  let ?run = "run_commands sample_crc sample_v4 ([AppendFrame (sample_frame 0)] @ FlushAll # [FlushAll])
    (sample_worker failing_script)"
  have "failed_reply terminal_failure (fst ?run ! length [AppendFrame (sample_frame 0)])"
    by code_simp
  moreover have "latching terminal_failure"
    by (simp add: latching_def terminal_failure_def store_error_def)
  ultimately show ?thesis
    using writer_latches [OF prod.collapse [symmetric, of ?run], of terminal_failure]
    by simp
qed



text \<open>C30: Rotation bounds a segment. A record that is not the first of its segment was
  appended while the segment's file was still below the configured size, and its frame's session
  time is less than the configured duration after the segment's start.\<close>

theorem rotation_bound:
  assumes run: "worker_append crc new_v4 frame ws = (Inr commit, ws')"
    and later: "1 < sr_record_count (fc_active_segment commit)"
  shows "offset_value (addr_offset (fc_address commit)) < rc_max_size (ws_rotation ws) \<and>
    saturating_sub (session_nanos (cf_session_time (ef_metadata frame)))
      (session_nanos (sr_start_time (fc_active_segment commit))) < max_duration_nanos (ws_rotation ws)"
proof -
  obtain sealed ws1 os ws2 a os' d' where
    rotated: "rotate_if_needed crc frame ws = (Inr sealed, ws1)"
    and opened: "ensure_open crc new_v4 frame ws1 = (Inr os, ws2)"
    and appended: "open_append crc frame (os, ws_disk ws2) = (Inr a, os', d')"
    and commit: "fc_address commit = a" "fc_active_segment commit = registration os' Open"
    using run by (auto simp: worker_append_def map_sum_Inr_iff split: sum.splits prod.splits)
  note counts = open_append_counts [OF appended]
  have "os_record_count os \<noteq> 0"
    using counts later commit by (auto simp: registration_def word_less_nat_alt)
  then have "hm_get (ws_open ws1) (frame_key frame) = Some os"
    using ensure_open_fresh [OF opened] by blast
  moreover have "ws_rotation ws1 = ws_rotation ws"
    using rotated by (auto simp: rotate_if_needed_def split: option.splits if_splits prod.splits sum.splits)
  ultimately have "\<not> should_rotate os frame (ws_rotation ws)"
    using rotate_if_needed_keeps [OF rotated] by simp
  then show ?thesis
    using \<open>os_record_count os \<noteq> 0\<close> counts commit
    by (simp add: should_rotate_def registration_def Let_def not_le)
qed

definition one_frame_worker :: worker_state where
  "one_frame_worker = snd (run_command sample_crc sample_v4 (AppendFrame (sample_frame 0)) (sample_worker []))"

lemma rotation_bound_witness:
  "\<exists>commit ws'. worker_append sample_crc sample_v4 (sample_frame 1) one_frame_worker = (Inr commit, ws') \<and>
     offset_value (addr_offset (fc_address commit)) < rc_max_size (ws_rotation one_frame_worker)"
proof -
  let ?run = "worker_append sample_crc sample_v4 (sample_frame 1) one_frame_worker"
  have "case fst ?run of Inr commit \<Rightarrow> 1 < sr_record_count (fc_active_segment commit) | Inl _ \<Rightarrow> False"
    by code_simp
  then obtain commit where "?run = (Inr commit, snd ?run)" "1 < sr_record_count (fc_active_segment commit)"
    by (cases "fst ?run") (auto simp: prod_eq_iff)
  with rotation_bound [OF this] show ?thesis
    by blast
qed

lemma first_append_files:
  assumes "hm_get (ws_open ws) (frame_key frame) = None" and "ws_terminal ws = None"
    and "run_command crc new_v4 (AppendFrame frame) ws = (AppendReply (Inr commit), ws')"
    and "disk_files (ws_disk ws') (sid, st) = Some bs" and "\<And>name. disk_files (ws_disk ws) name = None"
  shows "sid \<in> drawn new_v4 (ws_disk ws) (ws_disk ws') \<and> st = Open"
proof -
  obtain os d1 a os' where
    opened: "open_segment_file crc new_v4 (ws_rotation ws) frame (ws_disk ws) = (Inr os, d1)"
    and appended: "open_append crc frame (os, d1) = (Inr a, os', ws_disk ws')"
    using assms(1-3)
    by (auto simp: map_prod_id_eq execute_def worker_append_def rotate_if_needed_def ensure_open_def
        map_sum_Inr_iff Let_def split: prod.splits sum.splits store_failure.splits option.splits if_splits)
  note e = open_segment_file_effect [OF opened]
  have same: "drawn new_v4 (ws_disk ws) (ws_disk ws') = drawn new_v4 (ws_disk ws) d1"
    using open_append_uuids [OF appended] by (simp add: drawn_def)
  have buffer: "os_buffer os = []" and mem: "sh_segment_id (os_header os) \<in> drawn new_v4 (ws_disk ws) d1"
    using e(2) [OF refl] by (auto simp: segment_holds_def)
  have w: "writes_only (os_name os) d1 (ws_disk ws')"
    using open_append_writes [OF appended buffer] .
  have "disk_files d1 (sid, st) \<noteq> None"
    using writes_only_None [OF w, of "(sid, st)"] assms(4) by simp
  moreover have "creates new_v4 (ws_disk ws) d1"
    using e(1) .
  ultimately show ?thesis
    using assms(5) same unfolding creates_def by (metis segment_state.exhaust)
qed

lemma one_frame_reply: "\<exists>commit. run_command sample_crc sample_v4 (AppendFrame (sample_frame 0)) (sample_worker []) =
   (AppendReply (Inr commit), one_frame_worker)"
proof -
  have "case fst (run_command sample_crc sample_v4 (AppendFrame (sample_frame 0)) (sample_worker [])) of
      AppendReply (Inr commit) \<Rightarrow> addr_offset (fc_address commit) = ByteOffset 90 | _ \<Rightarrow> False"
    by code_simp
  then show ?thesis
    by (auto simp: one_frame_worker_def prod_eq_iff simp del: run_command.simps split: writer_reply.splits sum.splits)
qed

lemma one_frame_files:
  assumes "disk_files (ws_disk one_frame_worker) (sid, st) = Some bs"
  shows "sid = SegmentId 0 \<and> length bs \<le> 1000"
proof -
  obtain commit where run: "run_command sample_crc sample_v4 (AppendFrame (sample_frame 0)) (sample_worker []) =
      (AppendReply (Inr commit), one_frame_worker)"
    using one_frame_reply by blast
  have "sid \<in> drawn sample_v4 (ws_disk (sample_worker [])) (ws_disk one_frame_worker) \<and> st = Open"
    using first_append_files [OF _ _ run assms] by (simp add: sample_worker_def sample_disk_def)
  moreover have "disk_uuids (ws_disk one_frame_worker) = 1"
    by code_simp
  ultimately have "sid = SegmentId 0" "st = Open"
    by (auto simp: drawn_def sample_worker_def sample_v4_def)
  moreover have "case disk_files (ws_disk one_frame_worker) (SegmentId 0, Open) of None \<Rightarrow> True | Some bs \<Rightarrow> length bs \<le> 1000"
    by code_simp
  ultimately show ?thesis
    using assms by simp
qed

text \<open>A flush of every session that succeeds publishes every open segment. In
  a run from the writer's start, the registrations it returns are one per open segment, each
  names a sealed file made of a header, the complete records of its frames and their footer, with
  the registered size, record count and payload, and no segment is left open.\<close>

lemma flush_all_publishes:
  assumes fresh: "ids_fresh new_v4 (disk_uuids d + 4 * length cs) d"
    and cs: "list_all acceptable_command cs" and opened: "segment_writer_open config d = Inr ws"
    and run: "run_commands crc new_v4 cs ws = (replies, ws')"
    and flush: "run_command crc new_v4 FlushAll ws' = (FlushReply (Inr regs), ws'')"
  shows "(\<forall>reg \<in> set regs. published crc (ws_disk ws'') reg) \<and>
    length regs = length (hm_keys (ws_open ws')) \<and> (\<forall>key. hm_get (ws_open ws'') key = None)"
proof -
  let ?bound = "disk_uuids d + 4 * length cs"
  have start: "worker_inv crc new_v4 ?bound ws" "ws_disk ws = d"
    using worker_inv_start [OF fresh opened] by simp_all
  have "worker_inv crc new_v4 ?bound ws'"
    using writer.run_inv [OF run [unfolded run_commands_def] cs start(1)] .
  moreover have "drawn_within ?bound ws'"
    using run_commands_uuids [OF run] start by (simp add: drawn_within_def)
  moreover have "ws_terminal ws' = None \<and> flush_keys crc (hm_keys (ws_open ws')) ws' = (Inr regs, ws'')"
    using flush by (auto simp: map_prod_id_eq execute_def flush_all_def Let_def
        split: option.splits prod.splits sum.splits store_failure.splits)
  ultimately have "worker_ok crc new_v4 ?bound ws'"
    and flushed: "flush_keys crc (hm_keys (ws_open ws')) ws' = (Inr regs, ws'')"
    by (simp_all add: worker_inv_def)
  from flush_keys_published [OF this] show ?thesis
    by (auto simp: hm.set_keys restrict_map_def)
qed

end
