(* ===== verification/Segment_Recovery.thy ===== *)
theory Segment_Recovery
  imports Segment_Writer
begin

text \<open>
  Startup recovery of the segment directory (\<open>recovery.rs\<close>): the analysis of one segment file, its
  normalisation to a sealed publication, quarantine, discovery, and the two filesystem phases of
  \<open>recover\<close>. The SQLite index that the third phase reconciles is not part of this model.
\<close>

section \<open>Analysis of one file\<close>

datatype candidate_kind = OpenCandidate | SealedCandidate

record candidate =
  cd_segment_id :: segment_id
  cd_kind :: candidate_kind

record recovered_record =
  rr_span :: record_span
  rr_frame :: encoded_frame

record analysis =
  an_header :: segment_header
  an_records :: "recovered_record list"
  an_footer :: sealed_footer
  an_record_end :: u64
  an_footer_is_exact :: bool
  an_repair_at :: "byte_offset option"
  an_original_len :: u64

datatype recovery_error =
    RecoveryIo io_kind
  | PayloadCountOverflow
  | SegmentLengthTooLarge
  | DuplicatePublication
  | ByteCountOverflow
  | RecoveryPanic

datatype file_analysis_error = CorruptHeader | Operational recovery_error

text \<open>
  Read each span back until the first that does not decode; its offset ends the valid records.
\<close>

fun recover_records ::
    "checksum \<Rightarrow> byte_string \<Rightarrow> segment_header \<Rightarrow> record_span list \<Rightarrow>
     file_analysis_error + recovered_record list \<times> byte_offset option" where
  "recover_records crc bytes hdr [] = Inr ([], None)"
| "recover_records crc bytes hdr (span # spans) =
     (case read_frame_at crc bytes
        \<lparr>addr_segment = sh_segment_id hdr, addr_offset = span_byte_offset span\<rparr> of
        Inr frame \<Rightarrow>
          and_then (recover_records crc bytes hdr spans) (\<lambda>(records, corruption).
            Inr (\<lparr>rr_span = span, rr_frame = frame\<rparr> # records, corruption))
      | Inl CapacityOverflowPanic \<Rightarrow> Inl (Operational RecoveryPanic)
      | Inl _ \<Rightarrow> Inr ([], Some (span_byte_offset span)))"

fun trailing_repair :: "trailing \<Rightarrow> byte_offset option" where
  "trailing_repair Clean = None"
| "trailing_repair (Incomplete at) = Some at"
| "trailing_repair (Corrupt at) = Some at"

definition records_end :: "recovered_record list \<Rightarrow> u64" where
  "records_end records =
     (if records = [] then word_of_nat segment_header_len
      else offset_value (span_byte_offset (rr_span (last records))) +
        span_encoded_len (rr_span (last records)))"

definition recovered_footer :: "segment_header \<Rightarrow> recovered_record list \<Rightarrow> u64 \<Rightarrow> sealed_footer" where
  "recovered_footer hdr records total_payload =
     \<lparr>sf_segment_id = sh_segment_id hdr, sf_record_count = word_of_nat (length records),
      sf_total_payload = total_payload,
      sf_first_session_time = (case records of [] \<Rightarrow> sh_start_session_time hdr
        | record # _ \<Rightarrow> cf_session_time (ef_metadata (rr_frame record))),
      sf_last_session_time = (if records = [] then sh_start_session_time hdr
        else cf_session_time (ef_metadata (rr_frame (last records)))),
      sf_sealed_observed = (if records = [] then sh_created_observed hdr
        else cf_observed_time (ef_metadata (rr_frame (last records))))\<rparr>"

definition footer_is_exact ::
    "checksum \<Rightarrow> byte_string \<Rightarrow> byte_offset option \<Rightarrow> nat \<Rightarrow> sealed_footer \<Rightarrow> bool" where
  "footer_is_exact crc bytes repair_at record_end footer \<longleftrightarrow>
     repair_at = None \<and> length bytes = record_end + sealed_footer_len \<and>
     decode_footer crc (drop record_end bytes) = Inr footer"

definition analyze_bytes ::
    "checksum \<Rightarrow> segment_id \<Rightarrow> byte_string \<Rightarrow> file_analysis_error + analysis" where
  "analyze_bytes crc segment_id bytes =
     (if length bytes < segment_header_len then Inl CorruptHeader
      else
        and_then (map_err (\<lambda>_. CorruptHeader) (decode_header crc (take segment_header_len bytes))) (\<lambda>hdr.
        if sh_segment_id hdr \<noteq> segment_id then Inl CorruptHeader
        else
        and_then (map_err (\<lambda>_. CorruptHeader) (scan_complete_records crc bytes)) (\<lambda>scan.
        and_then (recover_records crc bytes hdr (scan_records scan)) (\<lambda>(records, corruption).
        let repair_at = (case corruption of Some at \<Rightarrow> Some at
              | None \<Rightarrow> trailing_repair (scan_trailing scan));
            record_end = records_end records in
        and_then (fold_result (\<lambda>total record.
            ok_or (Operational PayloadCountOverflow)
              (checked_add total (span_payload_len (rr_span record)))) 0 records) (\<lambda>total_payload.
        let footer = recovered_footer hdr records total_payload in
        Inr \<lparr>an_header = hdr, an_records = records, an_footer = footer,
          an_record_end = record_end,
          an_footer_is_exact = footer_is_exact crc bytes repair_at (unat record_end) footer,
          an_repair_at = repair_at, an_original_len = word_of_nat (length bytes)\<rparr>)))))"

section \<open>Normalisation, quarantine and discovery\<close>

text \<open>The directory with its quarantined files (\<open>.corrupt\<close>), which nothing reads again.\<close>

record segment_directory =
  sd_disk :: disk
  sd_corrupt :: "segment_id \<Rightarrow> byte_string option"

definition candidate_name :: "candidate \<Rightarrow> segment_name" where
  "candidate_name c = (case cd_kind c of
     OpenCandidate \<Rightarrow> open_segment_name (cd_segment_id c)
   | SealedCandidate \<Rightarrow> sealed_segment_name (cd_segment_id c))"

definition io_step :: "(io_kind + 'a) \<times> disk \<Rightarrow> (recovery_error + 'a) \<times> disk" where
  "io_step = map_prod (map_err RecoveryIo) id"

definition analyze_file ::
    "checksum \<Rightarrow> candidate \<Rightarrow> disk \<Rightarrow> (file_analysis_error + analysis) \<times> disk" where
  "analyze_file crc c d =
     (case probe_calls 2 d of (ok, d) \<Rightarrow>
        if \<not> ok then (Inl (Operational (RecoveryIo IoOther)), d)
        else (case disk_files d (candidate_name c) of
            None \<Rightarrow> (Inl (Operational (RecoveryIo IoNotFound)), d)
          | Some bytes \<Rightarrow> (analyze_bytes crc (cd_segment_id c) bytes, d)))"

definition set_len :: "segment_name \<Rightarrow> nat \<Rightarrow> disk \<Rightarrow> (io_kind + unit) \<times> disk" where
  "set_len name len d =
     (case next_outcome d of
        (IoOk, d) \<Rightarrow>
          (Inr (), d\<lparr>disk_files := (disk_files d)(name :=
             map_option (\<lambda>bs. take len bs @ replicate (len - length bs) 0) (disk_files d name))\<rparr>)
      | (IoError k n, d) \<Rightarrow> (Inl k, d))"

text \<open>Truncate to the valid records, append the footer, flush and sync; each call may fail.\<close>

definition rewrite_footer ::
    "checksum \<Rightarrow> segment_name \<Rightarrow> nat \<Rightarrow> sealed_footer \<Rightarrow> disk \<Rightarrow> (io_kind + unit) \<times> disk" where
  "rewrite_footer crc name record_end footer d =
     (case sys_sync d of (Inl k, d) \<Rightarrow> (Inl k, d)
      | (Inr _, d) \<Rightarrow>
     (case set_len name record_end d of (Inl k, d) \<Rightarrow> (Inl k, d)
      | (Inr _, d) \<Rightarrow>
     (case sys_sync d of (Inl k, d) \<Rightarrow> (Inl k, d)
      | (Inr _, d) \<Rightarrow>
     (case sys_write name (encode_footer crc footer) d of (Inl (k, n), d) \<Rightarrow> (Inl k, d)
      | (Inr _, d) \<Rightarrow>
     (case sys_sync d of (Inl k, d) \<Rightarrow> (Inl k, d)
      | (Inr _, d) \<Rightarrow> sys_sync d)))))"

record normalized_segment =
  ns_registration :: segment_registration
  ns_records :: "recovered_record list"
  ns_repaired :: bool
  ns_repair_at :: "byte_offset option"
  ns_bytes_truncated :: u64

definition normalized_of :: "candidate \<Rightarrow> analysis \<Rightarrow> u64 \<Rightarrow> normalized_segment" where
  "normalized_of c a file_bytes =
     (let must_write_footer = (\<not> an_footer_is_exact a) in
      \<lparr>ns_registration =
         \<lparr>sr_segment_id = sh_segment_id (an_header a), sr_session_id = sh_session_id (an_header a),
          sr_target_id = sh_target_id (an_header a), sr_state = Sealed,
          sr_start_time = sh_start_session_time (an_header a),
          sr_end_time = Some (sf_last_session_time (an_footer a)), sr_file_bytes = file_bytes,
          sr_payload_bytes = sf_total_payload (an_footer a),
          sr_record_count = sf_record_count (an_footer a)\<rparr>,
       ns_records = an_records a,
       ns_repaired = (cd_kind c = SealedCandidate \<and> must_write_footer),
       ns_repair_at = an_repair_at a,
       ns_bytes_truncated = (if must_write_footer
         then saturating_sub (an_original_len a) (an_record_end a) else 0)\<rparr>)"

definition publish_recovered :: "candidate \<Rightarrow> bool \<Rightarrow> disk \<Rightarrow> (io_kind + unit) \<times> disk" where
  "publish_recovered c must_write_footer d =
     (case cd_kind c of
        OpenCandidate \<Rightarrow>
          (case sys_rename (open_segment_name (cd_segment_id c)) (sealed_segment_name (cd_segment_id c)) d of
             (Inl k, d) \<Rightarrow> (Inl k, d)
           | (Inr _, d) \<Rightarrow> sys_sync d)
      | SealedCandidate \<Rightarrow> if must_write_footer then sys_sync d else (Inr (), d))"

definition normalize_file :: "checksum \<Rightarrow> candidate \<Rightarrow> analysis \<Rightarrow> disk \<Rightarrow>
    (recovery_error + normalized_segment) \<times> disk" where
  "normalize_file crc c a d =
     (let must_write_footer = (\<not> an_footer_is_exact a) in
      case (if must_write_footer
            then rewrite_footer crc (candidate_name c) (unat (an_record_end a)) (an_footer a) d
            else (Inr (), d)) of
        (Inl k, d) \<Rightarrow> (Inl (RecoveryIo k), d)
      | (Inr _, d) \<Rightarrow>
     (case publish_recovered c must_write_footer d of
        (Inl k, d) \<Rightarrow> (Inl (RecoveryIo k), d)
      | (Inr _, d) \<Rightarrow>
     (case checked_add (an_record_end a) (word_of_nat sealed_footer_len) of
        None \<Rightarrow> (Inl SegmentLengthTooLarge, d)
      | Some file_bytes \<Rightarrow> (Inr (normalized_of c a file_bytes), d))))"

definition quarantine :: "candidate \<Rightarrow> segment_directory \<Rightarrow> (recovery_error + unit) \<times> segment_directory" where
  "quarantine c sd =
     (case next_outcome (sd_disk sd) of
        (IoError k n, d) \<Rightarrow> (Inl (RecoveryIo k), sd\<lparr>sd_disk := d\<rparr>)
      | (IoOk, d) \<Rightarrow>
          (case disk_files d (candidate_name c) of
             None \<Rightarrow> (Inl (RecoveryIo IoNotFound), sd\<lparr>sd_disk := d\<rparr>)
           | Some bytes \<Rightarrow>
               (case sys_sync (d\<lparr>disk_files := (disk_files d)(candidate_name c := None)\<rparr>) of
                  (r, d) \<Rightarrow> (map_err RecoveryIo r,
                    sd\<lparr>sd_disk := d, sd_corrupt := (sd_corrupt sd)(cd_segment_id c \<mapsto> bytes)\<rparr>))))"

text \<open>
  The candidates in the order of their identifiers, which is the iteration order of the source's
  \<open>BTreeMap\<close>; \<open>listing\<close> is what \<open>read_dir\<close> enumerates.
\<close>

fun discover_at :: "disk \<Rightarrow> segment_id \<Rightarrow> recovery_error + candidate list" where
  "discover_at d sid =
     (case (disk_files d (open_segment_name sid), disk_files d (sealed_segment_name sid)) of
        (Some _, Some _) \<Rightarrow> Inl DuplicatePublication
      | (Some _, None) \<Rightarrow> Inr [\<lparr>cd_segment_id = sid, cd_kind = OpenCandidate\<rparr>]
      | (None, Some _) \<Rightarrow> Inr [\<lparr>cd_segment_id = sid, cd_kind = SealedCandidate\<rparr>]
      | (None, None) \<Rightarrow> Inr [])"

definition discover :: "segment_id list \<Rightarrow> disk \<Rightarrow> recovery_error + candidate list" where
  "discover listing d = map_sum id concat (collect_results (discover_at d) (sort (remdups listing)))"

text \<open>
  The filesystem phases of \<open>recover\<close>. Open candidates are sealed or quarantined; then every sealed
  file is analysed again and repaired if its footer is not exact. The report keeps the counters
  these phases update.
\<close>

record recovery_report =
  rp_open_segments_sealed :: u64
  rp_segments_repaired :: u64
  rp_segments_quarantined :: u64
  rp_bytes_truncated :: u64

definition default_report :: recovery_report where
  "default_report = \<lparr>rp_open_segments_sealed = 0, rp_segments_repaired = 0,
     rp_segments_quarantined = 0, rp_bytes_truncated = 0\<rparr>"

definition count_truncated :: "normalized_segment \<Rightarrow> recovery_report \<Rightarrow> recovery_error + recovery_report" where
  "count_truncated ns report =
     and_then (ok_or ByteCountOverflow (checked_add (rp_bytes_truncated report) (ns_bytes_truncated ns)))
       (\<lambda>total. Inr (report\<lparr>rp_bytes_truncated := total\<rparr>))"

definition count_sealed :: "normalized_segment \<Rightarrow> recovery_report \<Rightarrow> recovery_error + recovery_report" where
  "count_sealed ns report =
     count_truncated ns (report\<lparr>rp_open_segments_sealed := rp_open_segments_sealed report + 1\<rparr>)"

definition count_repaired :: "normalized_segment \<Rightarrow> recovery_report \<Rightarrow> recovery_error + recovery_report" where
  "count_repaired ns report =
     (if ns_repaired ns
      then count_truncated ns (report\<lparr>rp_segments_repaired := rp_segments_repaired report + 1\<rparr>)
      else Inr report)"

text \<open>One candidate of either phase; \<open>count\<close> is what the phase reports of a normalised file.\<close>

definition recover_candidate ::
    "checksum \<Rightarrow> (normalized_segment \<Rightarrow> recovery_report \<Rightarrow> recovery_error + recovery_report) \<Rightarrow>
     candidate \<Rightarrow> recovery_report \<times> segment_directory \<Rightarrow>
     (recovery_error + recovery_report) \<times> segment_directory" where
  "recover_candidate crc count c = (\<lambda>(report, sd).
     case analyze_file crc c (sd_disk sd) of
       (Inl CorruptHeader, d) \<Rightarrow>
         (case quarantine c (sd\<lparr>sd_disk := d\<rparr>) of
            (Inl e, sd) \<Rightarrow> (Inl e, sd)
          | (Inr _, sd) \<Rightarrow>
              (Inr (report\<lparr>rp_segments_quarantined := rp_segments_quarantined report + 1\<rparr>), sd))
     | (Inl (Operational e), d) \<Rightarrow> (Inl e, sd\<lparr>sd_disk := d\<rparr>)
     | (Inr a, d) \<Rightarrow>
         (case normalize_file crc c a d of
            (Inl e, d) \<Rightarrow> (Inl e, sd\<lparr>sd_disk := d\<rparr>)
          | (Inr ns, d) \<Rightarrow> (count ns report, sd\<lparr>sd_disk := d\<rparr>)))"

fun recover_candidates ::
    "checksum \<Rightarrow> (normalized_segment \<Rightarrow> recovery_report \<Rightarrow> recovery_error + recovery_report) \<Rightarrow>
     candidate list \<Rightarrow> recovery_report \<times> segment_directory \<Rightarrow>
     (recovery_error + recovery_report) \<times> segment_directory" where
  "recover_candidates crc count [] = (\<lambda>(report, sd). (Inr report, sd))"
| "recover_candidates crc count (c # cs) = (\<lambda>s.
     case recover_candidate crc count c s of
       (Inl e, sd) \<Rightarrow> (Inl e, sd)
     | (Inr report, sd) \<Rightarrow> recover_candidates crc count cs (report, sd))"

definition recover_files :: "checksum \<Rightarrow> segment_id list \<Rightarrow> segment_directory \<Rightarrow>
    (recovery_error + recovery_report) \<times> segment_directory" where
  "recover_files crc listing sd =
     (case discover listing (sd_disk sd) of
        Inl e \<Rightarrow> (Inl e, sd)
      | Inr initial \<Rightarrow>
     (case recover_candidates crc count_sealed
          (filter (\<lambda>c. cd_kind c = OpenCandidate) initial) (default_report, sd) of
        (Inl e, sd) \<Rightarrow> (Inl e, sd)
      | (Inr report, sd) \<Rightarrow>
     (case discover listing (sd_disk sd) of
        Inl e \<Rightarrow> (Inl e, sd)
      | Inr disk \<Rightarrow>
          recover_candidates crc count_repaired
            (filter (\<lambda>c. cd_kind c = SealedCandidate) disk) (report, sd))))"

section \<open>What reading an address says of the bytes there\<close>

lemma read_frame_at_sound:
  assumes read: "read_frame_at crc bs \<lparr>addr_segment = sid, addr_offset = off\<rparr> = Inr f"
    and hdr: "decode_header crc (take segment_header_len bs) = Inr hdr"
    and len: "segment_header_len \<le> length bs"
  shows "take (length (record_bytes crc f)) (drop (unat (offset_value off)) bs) = record_bytes crc f \<and>
    wf_encoded_frame f \<and> belongs_to hdr f \<and> length (cf_warnings (ef_metadata f)) < 2 ^ 16"
proof -
  let ?o = "unat (offset_value off)"
  have "read_exact_at bs 0 segment_header_len = Some (take segment_header_len bs)"
    using len by (simp add: read_exact_at_def)
  then obtain prefix tail n d where
    prefix: "read_exact_at bs ?o frame_record_prefix_len = Some prefix"
    and tail: "read_exact_at bs (?o + frame_record_prefix_len) n = Some tail"
    and decode: "decode_frame_record crc hdr (prefix @ tail) = Inr d" and f: "f = decoded_frame d"
    using read hdr
    by (auto simp: read_frame_at_def read_frame_from_def Let_def result_simps split: if_splits)
  have "prefix @ tail = take (frame_record_prefix_len + n) (drop ?o bs)"
    using prefix tail by (auto simp: read_exact_at_def take_add add.commute split: if_splits)
  moreover have "decoded_len d \<le> length (prefix @ tail)"
    and "take (decoded_len d) (prefix @ tail) = record_bytes crc f"
    using decode_record_sound [OF decode] f by blast+
  ultimately have "decoded_len d \<le> frame_record_prefix_len + n"
    and le: "decoded_len d \<le> length (drop ?o bs)"
    and "take (decoded_len d) (take (frame_record_prefix_len + n) (drop ?o bs)) = record_bytes crc f"
    by simp_all
  then have taken: "take (decoded_len d) (drop ?o bs) = record_bytes crc f"
    by (simp add: min_absorb1)
  moreover have "length (record_bytes crc f) = decoded_len d"
    using le by (simp flip: taken)
  ultimately show ?thesis
    using decode_record_sound [OF decode] f by simp
qed

text \<open>A span of the scan and the frame read at it agree.\<close>

lemma span_of_read:
  assumes read: "read_frame_at crc bs \<lparr>addr_segment = sid, addr_offset = span_byte_offset sp\<rparr> = Inr f"
    and hdr: "decode_header crc (take segment_header_len bs) = Inr hdr"
    and len: "segment_header_len \<le> length bs" "length bs < 2 ^ 62"
    and chain: "span_chain crc bs offset (sp # sps) e" and le: "e \<le> length bs"
  shows "storable_frame f \<and> belongs_to hdr f \<and> sp = span_of crc offset f \<and>
    take (length (record_bytes crc f)) (drop offset bs) = record_bytes crc f"
proof -
  have offset: "unat (offset_value (span_byte_offset sp)) = offset"
    and prefix: "take 17 (drop offset bs) =
      frame_record_kind # to_be_bytes 4 (span_header_len sp) @ to_be_bytes 8 (span_payload_len sp) @
        to_be_bytes 4 (crc (take (unat (span_encoded_len sp) - 17) (drop (offset + 17) bs)))"
    and enc: "unat (span_encoded_len sp) = 17 + unat (span_header_len sp) + unat (span_payload_len sp)"
    using chain by (simp_all add: frame_record_prefix_len_def)
  from read_frame_at_sound [OF read hdr len(1)] offset have
    rec: "take (length (record_bytes crc f)) (drop offset bs) = record_bytes crc f"
    and f: "wf_encoded_frame f" "belongs_to hdr f" "length (cf_warnings (ef_metadata f)) < 2 ^ 16"
    by auto
  have "length (record_bytes crc f) \<le> length bs"
    using arg_cong [OF rec, of length] by simp
  then have bound: "length (ef_bytes f) < 2 ^ 62"
    using len(2) by (simp add: length_record_bytes)
  have storable: "storable_frame f"
    using f bound by (simp add: storable_frame_def)
  note lens = storable_lengths [OF storable]
  have "take 17 (drop offset bs) = take 17 (record_bytes crc f)"
    using arg_cong [OF rec, of "take 17"] by (simp add: length_record_bytes)
  then have "to_be_bytes 4 (span_header_len sp) @ to_be_bytes 8 (span_payload_len sp) =
      to_be_bytes 4 (word_of_nat (length (metadata_bytes (ef_metadata f))) :: u32) @
      to_be_bytes 8 (word_of_nat (length (ef_bytes f)) :: u64)"
    unfolding prefix by (simp add: record_bytes_def Let_def)
  then have fields: "span_header_len sp = word_of_nat (length (metadata_bytes (ef_metadata f)))"
    "span_payload_len sp = word_of_nat (length (ef_bytes f))"
    by (simp_all add: u32c.enc_inj u64c.enc_inj)
  have "unat (span_encoded_len sp) = length (record_bytes crc f)"
    using enc fields lens by (simp add: length_record_bytes)
  then have "span_encoded_len sp = word_of_nat (length (record_bytes crc f))"
    by (rule u64_eq_of_nat)
  moreover have "span_byte_offset sp = ByteOffset (word_of_nat offset)"
    using u64_eq_of_nat [OF offset] by (cases "span_byte_offset sp") simp
  ultimately have "sp = span_of crc offset f"
    using fields by (cases sp) (simp add: span_of_def)
  then show ?thesis
    using storable f rec by simp
qed

end
