(* ===== verification/Recovery_Correct.thy ===== *)
theory Recovery_Correct
  imports Segment_Recovery
begin

text \<open>
  What the analysis of any segment file establishes, that it misses no frame of a file the writer
  left, and when its footer is accepted as it is.
\<close>

abbreviation frames_of :: "recovered_record list \<Rightarrow> encoded_frame list" where
  "frames_of records \<equiv> map rr_frame records"

lemma take_drop_append:
  "take m (drop n xs) = ys \<Longrightarrow> take k (drop (n + m) xs) = zs \<Longrightarrow> length ys = m \<Longrightarrow>
   take (m + k) (drop n xs) = ys @ zs"
  by (metis add.commute drop_drop take_add)

lemma span_chain_le: "span_chain crc bs offset sps e \<Longrightarrow> offset \<le> e"
proof (induction sps arbitrary: offset)
  case (Cons sp sps)
  then have "offset + unat (span_encoded_len sp) \<le> e"
    unfolding span_chain.simps by blast
  then show ?case by simp
qed simp

lemma recover_records_sound:
  assumes "recover_records crc bs hdr sps = Inr (recs, corruption)"
    and "span_chain crc bs offset sps e" and "e \<le> length bs" and "length bs < 2 ^ 62"
    and "decode_header crc (take segment_header_len bs) = Inr hdr" and "segment_header_len \<le> length bs"
  shows "map rr_span recs = spans_from crc offset (frames_of recs) \<and>
    (\<forall>f \<in> set (frames_of recs). storable_frame f \<and> belongs_to hdr f) \<and>
    take (length (records_bytes crc (frames_of recs))) (drop offset bs) =
      records_bytes crc (frames_of recs) \<and>
    offset + length (records_bytes crc (frames_of recs)) \<le> e \<and>
    (corruption = None \<longrightarrow> offset + length (records_bytes crc (frames_of recs)) = e) \<and>
    (\<forall>at. corruption = Some at \<longrightarrow>
      at = ByteOffset (word_of_nat (offset + length (records_bytes crc (frames_of recs)))))"
  using assms
proof (induction sps arbitrary: offset recs)
  case Nil
  then show ?case by simp
next
  case (Cons sp sps)
  have chain: "offset + unat (span_encoded_len sp) \<le> length bs"
    "span_chain crc bs (offset + unat (span_encoded_len sp)) sps e"
    "unat (offset_value (span_byte_offset sp)) = offset"
    using Cons.prems(2) unfolding span_chain.simps by blast+
  note later = span_chain_le [OF chain(2)]
  show ?case
  proof (cases "read_frame_at crc bs \<lparr>addr_segment = sh_segment_id hdr, addr_offset = span_byte_offset sp\<rparr>")
    case (Inl err)
    then have "recs = []" "corruption = Some (span_byte_offset sp)"
      using Cons.prems(1) by (auto split: format_error.splits)
    moreover have "span_byte_offset sp = ByteOffset (word_of_nat offset)"
      using u64_eq_of_nat [OF chain(3)] by (cases "span_byte_offset sp") simp
    ultimately show ?thesis
      using later by simp
  next
    case (Inr f)
    obtain recs' where rest: "recover_records crc bs hdr sps = Inr (recs', corruption)"
      and recs: "recs = \<lparr>rr_span = sp, rr_frame = f\<rparr> # recs'"
      using Cons.prems(1) Inr by (auto simp: result_simps)
    from span_of_read [OF Inr Cons.prems(5,6,4,2,3)] have
      f: "storable_frame f" "belongs_to hdr f" and sp: "sp = span_of crc offset f"
      and bytes: "take (length (record_bytes crc f)) (drop offset bs) = record_bytes crc f"
      by auto
    have enc: "unat (span_encoded_len sp) = length (record_bytes crc f)"
      using record_bytes_bound [OF f(1), of crc] by (simp add: sp span_of_def unat_of_nat)
    note ih = Cons.IH [OF rest chain(2) Cons.prems(3-6), unfolded enc]
    have "take (length (record_bytes crc f) + length (records_bytes crc (frames_of recs'))) (drop offset bs) =
        record_bytes crc f @ records_bytes crc (frames_of recs')"
      using ih by (intro take_drop_append [OF bytes]) simp_all
    with ih f show ?thesis
      by (auto simp: recs sp add.assoc)
  qed
qed

section \<open>The footer of a list of frames\<close>

definition frames_footer :: "segment_header \<Rightarrow> encoded_frame list \<Rightarrow> sealed_footer" where
  "frames_footer hdr fs =
     \<lparr>sf_segment_id = sh_segment_id hdr, sf_record_count = word_of_nat (length fs),
      sf_total_payload = word_of_nat (payload_total fs),
      sf_first_session_time = (case fs of [] \<Rightarrow> sh_start_session_time hdr
        | f # _ \<Rightarrow> cf_session_time (ef_metadata f)),
      sf_last_session_time = last_or (\<lambda>f. cf_session_time (ef_metadata f)) (sh_start_session_time hdr) fs,
      sf_sealed_observed = last_or (\<lambda>f. cf_observed_time (ef_metadata f)) (sh_created_observed hdr) fs\<rparr>"

lemma recovered_footer_frames:
  "recovered_footer hdr recs (word_of_nat (payload_total (frames_of recs))) = frames_footer hdr (frames_of recs)"
  by (cases recs) (simp_all add: recovered_footer_def frames_footer_def last_or_def last_map)

lemma payload_total_le: "payload_total fs \<le> length (records_bytes crc fs)"
  by (induction fs) (auto simp: length_record_bytes)

lemma payload_fold:
  assumes "map rr_span recs = spans_from crc offset (frames_of recs)"
    and "\<forall>f \<in> set (frames_of recs). storable_frame f"
    and "n + payload_total (frames_of recs) < 2 ^ 64"
  shows "fold_result (\<lambda>total record. ok_or (Operational PayloadCountOverflow)
      (checked_add total (span_payload_len (rr_span record)))) (word_of_nat n :: u64) recs =
    Inr (word_of_nat (n + payload_total (frames_of recs)))"
  using assms
proof (induction recs arbitrary: offset n)
  case Nil
  then show ?case by simp
next
  case (Cons r recs)
  let ?p = "length (ef_bytes (rr_frame r))"
  have fits: "n + ?p < 2 ^ 64"
    using Cons.prems(3) by simp
  then have "checked_add (word_of_nat n :: u64) (word_of_nat ?p) = Some (word_of_nat (n + ?p))"
    by (simp add: checked_add_def unat_u64_of_nat)
  then show ?case
    using Cons.IH [of "offset + length (record_bytes crc (rr_frame r))" "n + ?p"] Cons.prems
    by (simp add: span_of_def add.assoc del: of_nat_add)
qed

lemma records_end_frames:
  assumes "map rr_span recs = spans_from crc 90 (frames_of recs)"
    and "90 + length (records_bytes crc (frames_of recs)) < 2 ^ 64"
  shows "records_end recs = word_of_nat (90 + length (records_bytes crc (frames_of recs)))"
proof (cases recs rule: rev_cases)
  case Nil
  then show ?thesis by (simp add: records_end_def segment_header_len_def)
next
  case (snoc rs r)
  then have "rr_span r = span_of crc (90 + length (records_bytes crc (frames_of rs))) (rr_frame r)"
    using assms(1) by (simp add: spans_from_append)
  then show ?thesis
    using snoc by (simp add: records_end_def span_of_def)
qed

section \<open>Soundness of the analysis\<close>

definition sound_analysis :: "checksum \<Rightarrow> segment_id \<Rightarrow> byte_string \<Rightarrow> analysis \<Rightarrow> bool" where
  "sound_analysis crc sid bs a \<longleftrightarrow>
     (let hdr = an_header a; fs = frames_of (an_records a) in
      sh_segment_id hdr = sid \<and> (\<forall>f \<in> set fs. storable_frame f \<and> belongs_to hdr f) \<and>
      map rr_span (an_records a) = spans_from crc 90 fs \<and>
      take (unat (an_record_end a)) bs = segment_file crc hdr fs [] \<and>
      unat (an_record_end a) = length (segment_file crc hdr fs []) \<and>
      unat (an_record_end a) \<le> length bs \<and>
      an_footer a = frames_footer hdr fs \<and> unat (an_original_len a) = length bs)"

lemma analyze_bytes_sound:
  assumes run: "analyze_bytes crc sid bs = Inr a" and limit: "length bs < 2 ^ 62"
  shows "sound_analysis crc sid bs a"
proof -
  obtain hdr scan recs corruption total where
    len: "segment_header_len \<le> length bs"
    and hdr: "decode_header crc (take segment_header_len bs) = Inr hdr" "sh_segment_id hdr = sid"
    and scan: "scan_complete_records crc bs = Inr scan"
    and recs: "recover_records crc bs hdr (scan_records scan) = Inr (recs, corruption)"
    and total: "fold_result (\<lambda>total record. ok_or (Operational PayloadCountOverflow)
      (checked_add total (span_payload_len (rr_span record)))) 0 recs = Inr total"
    and a: "an_header a = hdr" "an_records a = recs" "an_footer a = recovered_footer hdr recs total"
      "an_record_end a = records_end recs" "an_original_len a = word_of_nat (length bs)"
    using run
    by (auto simp: analyze_bytes_def result_simps Let_def map_err_Inr_iff split: if_splits)
  have "scan_record_region crc bs hdr 90 [] = Inr scan"
    using scan hdr len
    by (auto simp: scan_complete_records_def scan_complete_records_from_def result_simps
        usize_from_u64_def split: if_splits)
  from scan_region_sound [OF this] limit len obtain e where
    chain: "span_chain crc bs 90 (scan_records scan) e" "e \<le> length bs"
    by (auto simp: segment_header_len_def)
  note sound = recover_records_sound [OF recs chain limit hdr(1) len]
  let ?fs = "frames_of recs"
  have ends: "90 + length (records_bytes crc ?fs) \<le> length bs"
    using sound chain by simp
  have footer: "recovered_footer hdr recs total = frames_footer hdr ?fs"
    using payload_fold [of recs crc 90 0] sound total ends limit payload_total_le [of ?fs crc]
    by (simp flip: recovered_footer_frames)
  have "records_end recs = word_of_nat (90 + length (records_bytes crc ?fs))"
    using records_end_frames [of recs crc] sound ends limit by simp
  then have end_: "unat (records_end recs) = 90 + length (records_bytes crc ?fs)"
    using ends limit by (simp add: unat_u64_of_nat del: of_nat_add)
  have "take 90 bs = encode_header crc hdr"
    using encode_decode_header [OF hdr(1)] by (simp add: segment_header_len_def)
  then have "take (90 + length (records_bytes crc ?fs)) bs = segment_file crc hdr ?fs []"
    using sound by (simp add: take_add segment_file_def)
  then show ?thesis
    using sound hdr a footer end_ ends limit
    by (simp add: sound_analysis_def segment_file_def segment_header_len_def unat_u64_of_nat)
qed

section \<open>Completeness of the analysis\<close>

text \<open>Decoding fails only with errors of the format.\<close>

definition unpanicked :: "format_error + 'a \<Rightarrow> bool" where
  "unpanicked r \<longleftrightarrow> r \<noteq> Inl CapacityOverflowPanic"

lemma unpanicked_and_then [intro]:
  "unpanicked r \<Longrightarrow> (\<And>x. unpanicked (f x)) \<Longrightarrow> unpanicked (and_then r f)"
  by (cases r) (auto simp: unpanicked_def)

lemma unpanicked_map_err [intro]: "(\<And>x. h x \<noteq> CapacityOverflowPanic) \<Longrightarrow> unpanicked (map_err h r)"
  by (cases r) (auto simp: unpanicked_def)

lemma unpanicked_simps [simp]:
  "unpanicked (Inr x)" "unpanicked (Inl e) \<longleftrightarrow> e \<noteq> CapacityOverflowPanic"
  by (auto simp: unpanicked_def)

lemma unpanicked_ok_or [intro]: "e \<noteq> CapacityOverflowPanic \<Longrightarrow> unpanicked (ok_or e v)"
  by (cases v) auto

lemma unpanicked_read_array: "unpanicked (read_array n dec r)"
  by (auto intro!: unpanicked_and_then unpanicked_ok_or simp: read_array_def read_bytes_def split: prod.split)

lemma unpanicked_read [simp]:
  "unpanicked (read_u8 r)" "unpanicked (read_u16 r)" "unpanicked (read_u32 r)"
  "unpanicked (read_u64 r)" "unpanicked (read_f64 r)" "unpanicked (read_i128 r)"
  "unpanicked (read_uuid r)"
  by (simp_all add: read_u8_def read_u16_def read_u32_def read_u64_def read_f64_def read_i128_def
      read_uuid_def unpanicked_read_array)

lemma unpanicked_read_warnings: "unpanicked (read_warnings n r)"
proof (induction n arbitrary: r)
  case (Suc n)
  then show ?case
    by (auto intro!: unpanicked_and_then simp: decode_warning_def split: prod.split)
qed simp

lemma unpanicked_decode_metadata: "unpanicked (decode_metadata hdr bs)"
  unfolding decode_metadata_def read_source_time_def read_dimensions_def dimensions_def decode_format_def
  by (auto intro!: unpanicked_and_then unpanicked_map_err simp: unpanicked_read_warnings split: prod.split)

lemma unpanicked_decode_frame_record: "unpanicked (decode_frame_record crc hdr bs)"
  unfolding decode_frame_record_def Let_def usize_from_u64_def
  by (auto intro!: unpanicked_and_then unpanicked_map_err unpanicked_ok_or
      simp: unpanicked_decode_metadata split: prod.split)

text \<open>Reading at a span the scan reported does not panic: its lengths lie inside the file.\<close>

lemma read_span_calm:
  assumes hdr: "decode_header crc (take segment_header_len bs) = Inr hdr"
    and len: "segment_header_len \<le> length bs" "length bs < 2 ^ 62"
    and chain: "span_chain crc bs offset (sp # sps) e"
  shows "unpanicked (read_frame_at crc bs
    \<lparr>addr_segment = sh_segment_id hdr, addr_offset = span_byte_offset sp\<rparr>)"
proof -
  let ?hl = "span_header_len sp" and ?pl = "span_payload_len sp"
  have offset: "unat (offset_value (span_byte_offset sp)) = offset"
    and prefix: "take 17 (drop offset bs) = frame_record_kind # to_be_bytes 4 ?hl @ to_be_bytes 8 ?pl @
      to_be_bytes 4 (crc (take (unat (span_encoded_len sp) - 17) (drop (offset + 17) bs)))"
    and fits: "offset + 17 + unat ?hl + unat ?pl \<le> length bs"
    using chain by (simp_all add: frame_record_prefix_len_def)
  let ?c = "to_be_bytes 4 (crc (take (unat (span_encoded_len sp) - 17) (drop (offset + 17) bs)))"
  have header: "read_exact_at bs 0 segment_header_len = Some (take segment_header_len bs)"
    using len by (simp add: read_exact_at_def)
  have at: "read_exact_at bs offset frame_record_prefix_len =
      Some (frame_record_kind # to_be_bytes 4 ?hl @ to_be_bytes 8 ?pl @ ?c)"
    using fits prefix by (simp add: read_exact_at_def frame_record_prefix_len_def)
  have "read_u8 (reader_new (frame_record_kind # to_be_bytes 4 ?hl @ to_be_bytes 8 ?pl @ ?c)) =
      Inr (frame_record_kind, reader_at [frame_record_kind] (to_be_bytes 4 ?hl @ to_be_bytes 8 ?pl @ ?c))"
    "read_u32 (reader_at [frame_record_kind] (to_be_bytes 4 ?hl @ to_be_bytes 8 ?pl @ ?c)) =
      Inr (?hl, reader_at (frame_record_kind # to_be_bytes 4 ?hl) (to_be_bytes 8 ?pl @ ?c))"
    "read_u64 (reader_at (frame_record_kind # to_be_bytes 4 ?hl) (to_be_bytes 8 ?pl @ ?c)) =
      Inr (?pl, reader_at (frame_record_kind # to_be_bytes 4 ?hl @ to_be_bytes 8 ?pl) ?c)"
    by (simp_all add: reader_new_at wire_simps)
  then show ?thesis
    using fits len(2)
    by (simp add: read_frame_at_def read_frame_from_def Let_def header hdr offset at
        frame_record_prefix_len_def [symmetric] usize_from_u64_def usize_checked_add_def)
      (auto simp: frame_record_prefix_len_def
        intro!: unpanicked_and_then unpanicked_ok_or unpanicked_decode_frame_record)
qed

lemma recover_records_total:
  assumes "span_chain crc bs offset sps e"
    and "decode_header crc (take segment_header_len bs) = Inr hdr"
    and "segment_header_len \<le> length bs" "length bs < 2 ^ 62"
  shows "\<exists>recs corruption. recover_records crc bs hdr sps = Inr (recs, corruption)"
  using assms
proof (induction sps arbitrary: offset)
  case (Cons sp sps)
  note calm = read_span_calm [OF Cons.prems(2,3,4,1)]
  have "span_chain crc bs (offset + unat (span_encoded_len sp)) sps e"
    using Cons.prems(1) unfolding span_chain.simps by blast
  from Cons.IH [OF this Cons.prems(2-4)] calm show ?case
    by (auto simp: unpanicked_def split: sum.split format_error.split)
qed simp

text \<open>The records of the stored frames, at their offsets.\<close>

definition records_at :: "checksum \<Rightarrow> nat \<Rightarrow> encoded_frame list \<Rightarrow> recovered_record list" where
  "records_at crc offset fs =
     map (\<lambda>(span, frame). \<lparr>rr_span = span, rr_frame = frame\<rparr>) (zip (spans_from crc offset fs) fs)"

lemma records_at_simps [simp]:
  "records_at crc offset [] = []"
  "records_at crc offset (f # fs) =
     \<lparr>rr_span = span_of crc offset f, rr_frame = f\<rparr> # records_at crc (offset + length (record_bytes crc f)) fs"
  by (simp_all add: records_at_def)

lemma frames_of_records_at [simp]: "frames_of (records_at crc offset fs) = fs"
  by (induction fs arbitrary: offset) auto

lemma recover_stored_records:
  assumes "\<forall>f \<in> set (pre @ fs). storable_frame f \<and> belongs_to hdr f"
    and "bs = segment_file crc hdr (pre @ fs) rest" and "length bs < 2 ^ 62"
  shows "recover_records crc bs hdr (spans_from crc (90 + length (records_bytes crc pre)) fs @ sps) =
    and_then (recover_records crc bs hdr sps) (\<lambda>(recs, corruption).
      Inr (records_at crc (90 + length (records_bytes crc pre)) fs @ recs, corruption))"
  using assms
proof (induction fs arbitrary: pre)
  case Nil
  then show ?case by (cases "recover_records crc bs hdr sps") auto
next
  case (Cons f fs)
  let ?o = "90 + length (records_bytes crc pre)"
  have bs: "bs = encode_header crc hdr @ records_bytes crc pre @ record_bytes crc f @ records_bytes crc fs @ rest"
    using Cons.prems(2) by (simp add: segment_file_def)
  have "?o < usize_limit"
    using Cons.prems(3) bs by (simp add: segment_header_len_def)
  then have read: "read_frame_at crc bs \<lparr>addr_segment = sh_segment_id hdr,
      addr_offset = ByteOffset (word_of_nat ?o)\<rparr> = Inr f"
    using Cons.prems(1) by (intro read_stored_frame [OF _ _ bs]) auto
  have "recover_records crc bs hdr (spans_from crc (90 + length (records_bytes crc (pre @ [f]))) fs @ sps) =
      and_then (recover_records crc bs hdr sps) (\<lambda>(recs, corruption).
        Inr (records_at crc (90 + length (records_bytes crc (pre @ [f]))) fs @ recs, corruption))"
    using Cons.prems by (intro Cons.IH) auto
  then show ?case
    using read by (simp add: span_of_def add.assoc) (cases "recover_records crc bs hdr sps"; auto)
qed

lemma analyze_bytes_complete:
  assumes fs: "\<forall>f \<in> set fs. storable_frame f \<and> belongs_to hdr f"
    and bs: "bs = segment_file crc hdr fs rest" and limit: "length bs < 2 ^ 62"
  shows "\<exists>a more. analyze_bytes crc (sh_segment_id hdr) bs = Inr a \<and> an_header a = hdr \<and>
    frames_of (an_records a) = fs @ more"
proof -
  have len: "segment_header_len \<le> length bs"
    and head: "take segment_header_len bs = encode_header crc hdr"
    using bs by (simp_all add: segment_file_def)
  have dec: "decode_header crc (take segment_header_len bs) = Inr hdr"
    by (simp add: head decode_encode_header)
  have storable: "\<forall>f \<in> set fs. storable_frame f"
    using fs by blast
  obtain scan where region: "scan_record_region crc bs hdr 90 [] = Inr scan"
    using scan_record_region_total by blast
  moreover have "scan_complete_records crc bs = scan_record_region crc bs hdr 90 []"
    using len dec by (simp add: scan_complete_records_def scan_complete_records_from_def
        usize_from_u64_def) (simp add: segment_header_len_def)
  ultimately have scan: "scan_complete_records crc bs = Inr scan"
    by simp
  have limit': "length bs < 2 ^ 63" and len': "90 \<le> length bs"
    using limit len by (simp_all add: segment_header_len_def)
  obtain e where chain: "span_chain crc bs 90 (scan_records scan) e" "e \<le> length bs"
    using scan_region_sound [OF region len' limit'] by auto
  have "scan_record_region crc bs hdr (90 + length (records_bytes crc fs)) (spans_from crc 90 fs) = Inr scan"
    using scan scan_after_records [OF storable bs limit'] by simp
  from scan_region_sound [OF this _ limit'] bs obtain sps where
    spans: "scan_records scan = spans_from crc 90 fs @ sps"
    by (auto simp: segment_file_def segment_header_len_def)
  obtain recs corruption where
    recs: "recover_records crc bs hdr (scan_records scan) = Inr (recs, corruption)"
    using recover_records_total [OF chain(1) dec len limit] by blast
  have "and_then (recover_records crc bs hdr sps) (\<lambda>(recs, corruption).
      Inr (records_at crc 90 fs @ recs, corruption)) = Inr (recs, corruption)"
    using recover_stored_records [of "[]" fs hdr bs crc rest sps] fs bs limit spans recs by simp
  then obtain more where more: "recs = records_at crc 90 fs @ more"
    by (auto simp: result_simps)
  note sound = recover_records_sound [OF recs chain limit dec len]
  have "0 + payload_total (frames_of recs) < 2 ^ 64"
    using payload_total_le [of "frames_of recs" crc] sound chain(2) limit by simp
  from payload_fold [OF _ _ this, of crc 90] sound obtain total where
    total: "fold_result (\<lambda>total record. ok_or (Operational PayloadCountOverflow)
      (checked_add total (span_payload_len (rr_span record)))) 0 recs = Inr total"
    by auto
  show ?thesis
    using len dec scan recs total more
    by (auto simp: analyze_bytes_def Let_def)
qed

text \<open>Nothing that begins like a footer holds a record, so a torn footer adds no frame.\<close>

lemma analyze_torn_footer:
  assumes fs: "\<forall>f \<in> set fs. storable_frame f \<and> belongs_to hdr f"
    and bs: "bs = segment_file crc hdr fs (take k (encode_footer crc ft))" and limit: "length bs < 2 ^ 62"
  shows "\<exists>a. analyze_bytes crc (sh_segment_id hdr) bs = Inr a \<and> an_header a = hdr \<and>
    frames_of (an_records a) = fs \<and> an_footer a = frames_footer hdr fs"
proof -
  obtain a more where a: "analyze_bytes crc (sh_segment_id hdr) bs = Inr a" "an_header a = hdr"
    and frames: "frames_of (an_records a) = fs @ more"
    using analyze_bytes_complete [OF fs bs limit] by blast
  note sound = analyze_bytes_sound [OF a(1) limit, unfolded sound_analysis_def Let_def a(2) frames]
  have "more = []"
  proof (rule ccontr)
    assume "more \<noteq> []"
    then obtain f gs where more: "more = f # gs" by (cases more) auto
    let ?x = "segment_file crc hdr fs []" and ?foot = "take k (encode_footer crc ft)"
    obtain n where n: "take n bs = segment_file crc hdr (fs @ more) []"
      using sound by blast
    have "bs = ?x @ ?foot" and "segment_file crc hdr (fs @ more) [] = ?x @ records_bytes crc more"
      by (simp_all add: bs segment_file_def)
    then have "drop (length ?x) (take n (?x @ ?foot)) = drop (length ?x) (?x @ records_bytes crc more)"
      using n by simp
    then have "take (n - length ?x) ?foot = records_bytes crc more"
      by (simp add: drop_take del: take_append)
    then have "\<exists>j bs'. take j (encode_footer crc ft) = frame_record_kind # bs'"
      using record_bytes_Cons [of crc f] by (auto simp: more simp del: take_eq_Nil) blast
    then have "hd (encode_footer crc ft) = frame_record_kind"
      by (cases "encode_footer crc ft") (auto simp: take_Cons' split: if_splits)
    then show False
      using arg_cong [OF take4_encode_footer [of crc ft], of hd]
      by (simp add: sealed_footer_magic_def frame_record_kind_def sealed_footer_len_def)
  qed
  then show ?thesis
    using a frames sound by auto
qed

section \<open>When a footer is accepted\<close>

lemma recover_all_stored:
  assumes "\<forall>f \<in> set fs. storable_frame f \<and> belongs_to hdr f"
    and "bs = segment_file crc hdr fs rest" and "length bs < 2 ^ 62"
  shows "recover_records crc bs hdr (spans_from crc 90 fs) = Inr (records_at crc 90 fs, None)"
  using recover_stored_records [of "[]" fs hdr bs crc rest "[]"] assms by simp

text \<open>
  A sealed file with its own footer is left as it is exactly when the footer's session times are in
  order; otherwise its footer does not decode and the same bytes would be written again.
\<close>

lemma analyze_sealed_exact:
  assumes fs: "\<forall>f \<in> set fs. storable_frame f \<and> belongs_to hdr f"
    and bs: "bs = segment_file crc hdr fs (encode_footer crc (frames_footer hdr fs))"
    and limit: "length bs < 2 ^ 62" and run: "analyze_bytes crc (sh_segment_id hdr) bs = Inr a"
  shows "an_footer_is_exact a \<longleftrightarrow> wf_footer (frames_footer hdr fs)"
proof -
  let ?ft = "frames_footer hdr fs"
  have len: "segment_header_len \<le> length bs" and head: "take segment_header_len bs = encode_header crc hdr"
    using bs by (simp_all add: segment_file_def)
  obtain a' where a': "analyze_bytes crc (sh_segment_id hdr) bs = Inr a'" "an_header a' = hdr"
    "frames_of (an_records a') = fs" "an_footer a' = ?ft"
    using analyze_torn_footer [OF fs, of bs crc sealed_footer_len ?ft] bs limit by auto
  then have a: "an_header a = hdr" "frames_of (an_records a) = fs" "an_footer a = ?ft"
    using run by auto
  note sound = analyze_bytes_sound [OF run limit, unfolded sound_analysis_def Let_def a]
  have end_: "unat (an_record_end a) = 90 + length (records_bytes crc fs)"
    using sound by (simp add: segment_file_def segment_header_len_def)
  obtain scan recs corruption where scan: "scan_complete_records crc bs = Inr scan"
    and recs: "recover_records crc bs hdr (scan_records scan) = Inr (recs, corruption)"
    and "an_footer_is_exact a = footer_is_exact crc bs (case corruption of Some at \<Rightarrow> Some at
      | None \<Rightarrow> trailing_repair (scan_trailing scan)) (unat (an_record_end a)) (an_footer a)"
    using run by (auto simp: analyze_bytes_def result_simps Let_def head decode_encode_header split: if_splits)
  then have exact: "an_footer_is_exact a = footer_is_exact crc bs (case corruption of Some at \<Rightarrow> Some at
      | None \<Rightarrow> trailing_repair (scan_trailing scan)) (unat (an_record_end a)) ?ft"
    by (simp only: a)
  show ?thesis
  proof
    assume "an_footer_is_exact a"
    then show "wf_footer ?ft"
      unfolding exact footer_is_exact_def using encode_decode_footer by blast
  next
    assume wf: "wf_footer ?ft"
    have "scan_complete_records crc bs = Inr \<lparr>scan_records = spans_from crc 90 fs, scan_trailing = Clean\<rparr>"
      unfolding bs using fs wf limit bs by (intro scan_sealed_file) (auto simp: frames_footer_def)
    then have "corruption = None \<and> scan_trailing scan = Clean"
      using scan recs recover_all_stored [OF fs bs limit] by auto
    moreover have "length bs = unat (an_record_end a) + sealed_footer_len"
      unfolding end_ by (simp add: bs segment_file_def segment_header_len_def)
    moreover have "drop (unat (an_record_end a)) bs = encode_footer crc ?ft"
      unfolding end_ by (simp add: bs segment_file_def segment_header_len_def)
    ultimately show "an_footer_is_exact a"
      unfolding exact footer_is_exact_def using decode_encode_footer [OF wf] by simp
  qed
qed

end
