(* ===== verification/Recovery_Pass.thy ===== *)
theory Recovery_Pass
  imports Recovery_Correct
begin

text \<open>
  The filesystem phases of \<open>recover\<close> over a whole directory: what one candidate's recovery may leave
  behind when any of its calls fails, that no stored frame is lost on any path, and that a second
  pass has nothing left to do.
\<close>

section \<open>One file of a segment\<close>

definition sole :: "disk \<Rightarrow> segment_id \<Rightarrow> segment_state \<Rightarrow> byte_string \<Rightarrow> bool" where
  "sole d sid st bs \<longleftrightarrow>
     disk_files d (sid, st) = Some bs \<and> (\<forall>st'. st' \<noteq> st \<longrightarrow> disk_files d (sid, st') = None)"

lemma sole_unique: "sole d sid st bs \<Longrightarrow> disk_files d (sid, st') = Some b \<Longrightarrow> b = bs \<and> st' = st"
  unfolding sole_def by (metis option.distinct(1) option.inject)

fun kind_state :: "candidate_kind \<Rightarrow> segment_state" where
  "kind_state OpenCandidate = Open"
| "kind_state SealedCandidate = Sealed"

lemma candidate_name_state: "candidate_name c = (cd_segment_id c, kind_state (cd_kind c))"
  by (cases "cd_kind c") (simp_all add: candidate_name_def open_segment_name_def sealed_segment_name_def)

text \<open>A file as recovery may leave it: the valid records and a footer, possibly torn.\<close>

definition footer_file :: "checksum \<Rightarrow> segment_id \<Rightarrow> nat \<Rightarrow> byte_string \<Rightarrow> bool" where
  "footer_file crc sid k bs \<longleftrightarrow> (\<exists>hdr fs. sh_segment_id hdr = sid \<and>
     (\<forall>f \<in> set fs. storable_frame f \<and> belongs_to hdr f) \<and>
     length (segment_file crc hdr fs []) \<le> 2 ^ 61 \<and>
     bs = segment_file crc hdr fs (take k (encode_footer crc (frames_footer hdr fs))))"

abbreviation normal_file :: "checksum \<Rightarrow> segment_id \<Rightarrow> byte_string \<Rightarrow> bool" where
  "normal_file crc sid bs \<equiv> footer_file crc sid sealed_footer_len bs"

definition fits :: "checksum \<Rightarrow> segment_id \<Rightarrow> byte_string \<Rightarrow> bool" where
  "fits crc sid bs \<longleftrightarrow> length bs \<le> 2 ^ 61 \<or> (\<exists>k. footer_file crc sid k bs)"

lemma fits_footer: "footer_file crc sid k bs \<Longrightarrow> fits crc sid bs"
  unfolding fits_def by blast

lemma fits_length: "fits crc sid bs \<Longrightarrow> length bs < 2 ^ 62"
  by (auto simp: fits_def footer_file_def segment_file_def sealed_footer_len_def)

lemma fits_record_end:
  assumes fits: "fits crc sid bs" and run: "analyze_bytes crc sid bs = Inr a"
  shows "unat (an_record_end a) \<le> 2 ^ 61"
proof (cases "length bs \<le> 2 ^ 61")
  case True
  then show ?thesis
    using analyze_bytes_sound [OF run fits_length [OF fits]] by (simp add: sound_analysis_def Let_def)
next
  case False
  then obtain k hdr fs where hdr: "sh_segment_id hdr = sid"
    and fs: "\<forall>f \<in> set fs. storable_frame f \<and> belongs_to hdr f" "length (segment_file crc hdr fs []) \<le> 2 ^ 61"
    and bs: "bs = segment_file crc hdr fs (take k (encode_footer crc (frames_footer hdr fs)))"
    using fits unfolding fits_def footer_file_def by blast
  from analyze_torn_footer [OF fs(1) bs fits_length [OF fits]] hdr run
  have "an_header a = hdr" "frames_of (an_records a) = fs" by auto
  then show ?thesis
    using analyze_bytes_sound [OF run fits_length [OF fits]] fs(2)
    by (simp add: sound_analysis_def Let_def)
qed

text \<open>What a file keeps of the records that were in it.\<close>

definition keeps_records :: "checksum \<Rightarrow> segment_id \<Rightarrow> byte_string \<Rightarrow> byte_string \<Rightarrow> bool" where
  "keeps_records crc sid bs bs' \<longleftrightarrow> (\<forall>hdr fs rest. sh_segment_id hdr = sid \<longrightarrow>
     (\<forall>f \<in> set fs. storable_frame f \<and> belongs_to hdr f) \<longrightarrow> bs = segment_file crc hdr fs rest \<longrightarrow>
     (\<exists>rest'. bs' = segment_file crc hdr fs rest'))"

lemma keeps_records_refl [simp]: "keeps_records crc sid bs bs"
  by (auto simp: keeps_records_def)

text \<open>The valid records an analysis finds include every record that was stored.\<close>

lemma analysis_keeps_records:
  assumes run: "analyze_bytes crc sid bs = Inr a" and limit: "length bs < 2 ^ 62"
  shows "keeps_records crc sid bs (segment_file crc (an_header a) (frames_of (an_records a)) tail)"
  unfolding keeps_records_def
proof (intro allI impI)
  fix hdr fs rest
  assume "sh_segment_id hdr = sid" and fs: "\<forall>f \<in> set fs. storable_frame f \<and> belongs_to hdr f"
    and bs: "bs = segment_file crc hdr fs rest"
  then obtain more where "an_header a = hdr" "frames_of (an_records a) = fs @ more"
    using analyze_bytes_complete [OF fs bs limit] run by auto
  then show "\<exists>rest'. segment_file crc (an_header a) (frames_of (an_records a)) tail = segment_file crc hdr fs rest'"
    by (intro exI [of _ "records_bytes crc more @ tail"]) (simp add: segment_file_def)
qed

section \<open>The steps of normalisation\<close>

lemma set_len_effect:
  assumes "set_len name len d = (r, d')" and "disk_files d name = Some bs" and "len \<le> length bs"
  shows "disk_uuids d' = disk_uuids d \<and>
    (if r = Inr () then disk_files d' = (disk_files d)(name \<mapsto> take len bs)
     else disk_files d' = disk_files d)"
  using assms by (auto simp: set_len_def dest!: next_outcome_same split: prod.splits io_outcome.splits)

lemma rewrite_footer_effect:
  assumes run: "rewrite_footer crc name len footer d = (r, d')" and bs: "disk_files d name = Some bs"
    and len: "len \<le> length bs"
  shows "disk_uuids d' = disk_uuids d \<and>
    (\<exists>x. disk_files d' = (disk_files d)(name \<mapsto> x) \<and>
      (x = bs \<or> (\<exists>k. x = take len bs @ take k (encode_footer crc footer))) \<and>
      (r = Inr () \<longrightarrow> x = take len bs @ encode_footer crc footer))"
proof -
  let ?foot = "encode_footer crc footer"
  have same: "disk_files d = (disk_files d)(name \<mapsto> bs)"
    using bs by (simp add: fun_upd_idem)
  obtain r1 d1 where s1: "sys_sync d = (r1, d1)" by fastforce
  obtain r2 d2 where s2: "set_len name len d1 = (r2, d2)" by fastforce
  obtain r3 d3 where s3: "sys_sync d2 = (r3, d3)" by fastforce
  obtain r4 d4 where s4: "sys_write name ?foot d3 = (r4, d4)" by fastforce
  obtain r5 d5 where s5: "sys_sync d4 = (r5, d5)" by fastforce
  obtain r6 d6 where s6: "sys_sync d5 = (r6, d6)" by fastforce
  have e1: "disk_files d1 = disk_files d" "disk_uuids d1 = disk_uuids d"
    using sys_sync_effect [OF s1] by auto
  have e2: "disk_uuids d2 = disk_uuids d" "r2 \<noteq> Inr () \<Longrightarrow> disk_files d2 = disk_files d"
    "r2 = Inr () \<Longrightarrow> disk_files d2 = (disk_files d)(name \<mapsto> take len bs)"
    using set_len_effect [OF s2] e1 bs len by (auto split: if_splits)
  have e3: "disk_files d3 = disk_files d2" "disk_uuids d3 = disk_uuids d"
    using sys_sync_effect [OF s3] e2 by auto
  have e4: "disk_uuids d4 = disk_uuids d" "r2 = Inr () \<Longrightarrow> \<exists>k. disk_files d4 =
      (disk_files d)(name \<mapsto> take len bs @ take k ?foot) \<and> (r4 = Inr () \<longrightarrow> take k ?foot = ?foot)"
    using sys_write_effect [OF s4] e3 e2
    by (auto simp: appends_to_def split: sum.splits prod.splits intro: exI [of _ "length ?foot"])
  have e5: "disk_files d5 = disk_files d4" "disk_uuids d5 = disk_uuids d"
    using sys_sync_effect [OF s5] e4 by auto
  have e6: "disk_files d6 = disk_files d4" "disk_uuids d6 = disk_uuids d"
    using sys_sync_effect [OF s6] e5 by auto
  have torn: "\<exists>x. (disk_files d)(name \<mapsto> take len bs) = (disk_files d)(name \<mapsto> x) \<and>
      (x = bs \<or> (\<exists>k. x = take len bs @ take k ?foot))"
    by (intro exI [of _ "take len bs"]) (auto intro: exI [of _ 0])
  note defs = rewrite_footer_def s1 s2 s3 s4 s5 s6
  consider (one) k where "r1 = Inl k" | (two) k where "r1 = Inr ()" "r2 = Inl k"
    | (three) k where "r1 = Inr ()" "r2 = Inr ()" "r3 = Inl k"
    | (rest) "r1 = Inr ()" "r2 = Inr ()" "r3 = Inr ()"
    by (cases r1; cases r2; cases r3) auto
  then show ?thesis
  proof cases
    case one
    then have "d' = d1" "r = Inl k" using run by (simp_all add: defs)
    then show ?thesis using e1 same by auto
  next
    case two
    then have "d' = d2" "r = Inl k" using run by (simp_all add: defs)
    then show ?thesis using e2 two same by auto
  next
    case three
    then have "d' = d3" "r = Inl k" using run by (simp_all add: defs)
    then show ?thesis using e2 e3 three torn by auto
  next
    case rest
    then have ends: "disk_files d' = disk_files d4 \<and> disk_uuids d' = disk_uuids d \<and> (r = Inr () \<longrightarrow> r4 = Inr ())"
      using run e4 e5 e6 by (auto simp: defs split: sum.splits prod.splits)
    obtain k where "disk_files d4 = (disk_files d)(name \<mapsto> take len bs @ take k ?foot)"
      "r4 = Inr () \<longrightarrow> take k ?foot = ?foot"
      using e4 rest by blast
    then show ?thesis using ends by auto
  qed
qed

lemma publish_recovered_effect:
  assumes "publish_recovered c must_write d = (r, d')"
    and "sole d (cd_segment_id c) (kind_state (cd_kind c)) bs"
  shows "touches (cd_segment_id c) d d' \<and> (\<exists>st. sole d' (cd_segment_id c) st bs) \<and>
    (r = Inr () \<longrightarrow> sole d' (cd_segment_id c) Sealed bs)"
proof (cases "cd_kind c")
  case SealedCandidate
  then show ?thesis
    using assms by (auto simp: publish_recovered_def sole_def touches_def dest!: sys_sync_effect split: if_splits)
next
  case OpenCandidate
  let ?sid = "cd_segment_id c"
  obtain r1 d1 where rename: "sys_rename (open_segment_name ?sid) (sealed_segment_name ?sid) d = (r1, d1)"
    by fastforce
  note effect = sys_rename_effect [OF rename]
  have contents: "disk_files d (?sid, Open) = Some bs" "disk_files d (?sid, Sealed) = None"
    using assms(2) OpenCandidate by (auto simp: sole_def)
  show ?thesis
  proof (cases r1)
    case (Inl k)
    then show ?thesis
      using assms OpenCandidate rename effect by (auto simp: publish_recovered_def sole_def touches_def)
  next
    case (Inr u)
    then have d1: "disk_files d1 = (disk_files d)((?sid, Open) := None, (?sid, Sealed) \<mapsto> bs)"
      "disk_uuids d1 = disk_uuids d"
      using effect contents by (auto simp: open_segment_name_def sealed_segment_name_def)
    have "disk_files d' = disk_files d1 \<and> disk_uuids d' = disk_uuids d1"
      using assms(1) OpenCandidate rename Inr by (auto simp: publish_recovered_def dest: sys_sync_effect)
    moreover have "sole d1 ?sid Sealed bs"
      unfolding sole_def by (auto simp: d1) (metis segment_state.exhaust)
    ultimately show ?thesis
      using d1 by (auto simp: sole_def touches_def)
  qed
qed

lemma analysis_exact_footer:
  "analyze_bytes crc sid bs = Inr a \<Longrightarrow> an_footer_is_exact a \<Longrightarrow>
   decode_footer crc (drop (unat (an_record_end a)) bs) = Inr (an_footer a)"
  by (auto simp: analyze_bytes_def footer_is_exact_def result_simps Let_def split: if_splits)

lemma normalize_file_effect:
  assumes run: "normalize_file crc c a d = (r, d')"
    and sole: "sole d (cd_segment_id c) (kind_state (cd_kind c)) bs"
    and fits: "fits crc (cd_segment_id c) bs" and analysis: "analyze_bytes crc (cd_segment_id c) bs = Inr a"
  shows "touches (cd_segment_id c) d d' \<and>
    (\<exists>st x. sole d' (cd_segment_id c) st x \<and> fits crc (cd_segment_id c) x \<and>
      keeps_records crc (cd_segment_id c) bs x \<and>
      (\<forall>ns. r = Inr ns \<longrightarrow> st = Sealed \<and> normal_file crc (cd_segment_id c) x \<and>
         ns = normalized_of c a (an_record_end a + word_of_nat sealed_footer_len)))"
proof -
  let ?sid = "cd_segment_id c" and ?st = "kind_state (cd_kind c)"
  let ?hdr = "an_header a" and ?fs = "frames_of (an_records a)" and ?stop = "unat (an_record_end a)"
  let ?foot = "encode_footer crc (frames_footer ?hdr ?fs)"
  note limit = fits_length [OF fits]
  note sound = analyze_bytes_sound [OF analysis limit, unfolded sound_analysis_def Let_def]
  note end_ = fits_record_end [OF fits analysis]
  have footer_file: "footer_file crc ?sid k (segment_file crc ?hdr ?fs (take k ?foot))" for k
    using sound end_ unfolding footer_file_def by (intro exI [of _ ?hdr] exI [of _ ?fs]) simp
  have kept: "keeps_records crc ?sid bs (segment_file crc ?hdr ?fs tail)" for tail
    using analysis_keeps_records [OF analysis limit] .
  have "take ?stop bs = segment_file crc ?hdr ?fs []"
    using sound by blast
  then have torn: "take ?stop bs @ t = segment_file crc ?hdr ?fs t" for t
    by (simp add: segment_file_def)
  have whole: "segment_file crc ?hdr ?fs ?foot = segment_file crc ?hdr ?fs (take sealed_footer_len ?foot)"
    by simp
  define must where "must = (\<not> an_footer_is_exact a)"
  obtain r1 d1 where rewrite: "(if must then rewrite_footer crc (candidate_name c) ?stop (an_footer a) d
      else (Inr (), d)) = (r1, d1)"
    by fastforce
  have "\<exists>x. touches ?sid d d1 \<and> sole d1 ?sid ?st x \<and> fits crc ?sid x \<and> keeps_records crc ?sid bs x \<and>
      (r1 = Inr () \<longrightarrow> normal_file crc ?sid x)"
  proof (cases must)
    case True
    have contents: "disk_files d (candidate_name c) = Some bs"
      using sole by (simp add: candidate_name_state sole_def)
    have le: "?stop \<le> length bs"
      using sound by simp
    have "rewrite_footer crc (candidate_name c) ?stop (an_footer a) d = (r1, d1)"
      using rewrite True by simp
    from rewrite_footer_effect [OF this contents le] sound obtain x where
      d1: "disk_uuids d1 = disk_uuids d" "disk_files d1 = (disk_files d)(candidate_name c \<mapsto> x)"
      and x: "x = bs \<or> (\<exists>k. x = take ?stop bs @ take k ?foot)" "r1 = Inr () \<longrightarrow> x = take ?stop bs @ ?foot"
      by auto
    have "sole d1 ?sid ?st x" "touches ?sid d d1"
      using sole d1 by (auto simp: sole_def touches_def candidate_name_state)
    moreover have "fits crc ?sid x \<and> keeps_records crc ?sid bs x"
      using x(1) unfolding torn using fits kept fits_footer [OF footer_file] keeps_records_refl by metis
    moreover have "r1 = Inr () \<longrightarrow> normal_file crc ?sid x"
      using x(2) unfolding torn using footer_file [of sealed_footer_len] whole by metis
    ultimately show ?thesis by blast
  next
    case False
    then have "decode_footer crc (drop ?stop bs) = Inr (an_footer a)"
      using analysis_exact_footer [OF analysis] by (simp add: must_def)
    moreover have "an_footer a = frames_footer ?hdr ?fs"
      using sound by blast
    ultimately have "bs = take ?stop bs @ ?foot"
      using encode_decode_footer [of crc "drop ?stop bs"] append_take_drop_id [of ?stop bs] by metis
    then have "normal_file crc ?sid bs"
      using footer_file [of sealed_footer_len] whole torn by metis
    then show ?thesis
      using False rewrite sole fits by auto
  qed
  then obtain x where x: "touches ?sid d d1" "sole d1 ?sid ?st x" "fits crc ?sid x"
    "keeps_records crc ?sid bs x" "r1 = Inr () \<longrightarrow> normal_file crc ?sid x"
    by blast
  obtain r2 d2 where publish: "publish_recovered c must d1 = (r2, d2)" by fastforce
  note effect = publish_recovered_effect [OF publish x(2)]
  show ?thesis
  proof (cases r1)
    case (Inl k)
    then have "d' = d1" "r = Inl (RecoveryIo k)"
      using run rewrite by (simp_all add: normalize_file_def Let_def must_def)
    then show ?thesis using x by auto
  next
    case (Inr u)
    then have "d' = d2" and r: "\<And>ns. r = Inr ns \<Longrightarrow> r2 = Inr () \<and>
        ns = normalized_of c a (an_record_end a + word_of_nat sealed_footer_len)"
      using run rewrite publish
      by (auto simp: normalize_file_def Let_def must_def checked_add_def split: sum.splits option.splits if_splits)
    moreover have "touches ?sid d d2"
      using x(1) effect by (blast intro: touches_trans)
    moreover obtain st where "sole d2 ?sid st x" "r2 = Inr () \<longrightarrow> st = Sealed"
      using effect by blast
    ultimately show ?thesis
      using x Inr by auto
  qed
qed

section \<open>One candidate\<close>

lemma analyze_file_effect:
  "analyze_file crc c d = (r, d') \<Longrightarrow> disk_files d (candidate_name c) = Some bs \<Longrightarrow>
   disk_files d' = disk_files d \<and> disk_uuids d' = disk_uuids d \<and>
   (r = analyze_bytes crc (cd_segment_id c) bs \<or> r = Inl (Operational (RecoveryIo IoOther)))"
  by (auto simp: analyze_file_def dest!: probe_calls_same split: prod.splits if_splits)

text \<open>What one candidate's recovery may leave of its segment, success or failure.\<close>

definition recovered_as :: "checksum \<Rightarrow> segment_id \<Rightarrow> byte_string \<Rightarrow> disk \<Rightarrow> bool \<Rightarrow> bool" where
  "recovered_as crc sid bs d finished \<longleftrightarrow>
     (\<exists>st x. sole d sid st x \<and> fits crc sid x \<and> keeps_records crc sid bs x \<and>
        (finished \<longrightarrow> st = Sealed \<and> normal_file crc sid x)) \<or>
     (\<forall>st. disk_files d (sid, st) = None) \<and> analyze_bytes crc sid bs = Inl CorruptHeader"

lemma recover_candidate_effect:
  assumes run: "recover_candidate crc count c (report, sd) = (r, sd')"
    and sole: "sole (sd_disk sd) (cd_segment_id c) (kind_state (cd_kind c)) bs"
    and fits: "fits crc (cd_segment_id c) bs"
  shows "touches (cd_segment_id c) (sd_disk sd) (sd_disk sd') \<and>
    recovered_as crc (cd_segment_id c) bs (sd_disk sd') (is_ok r)"
proof -
  let ?sid = "cd_segment_id c" and ?d = "sd_disk sd"
  have contents: "disk_files ?d (candidate_name c) = Some bs"
    using sole by (simp add: candidate_name_state sole_def)
  obtain q d1 where analyzed: "analyze_file crc c ?d = (q, d1)" by fastforce
  note e1 = analyze_file_effect [OF analyzed contents]
  have t1: "touches ?sid ?d d1" and sole1: "sole d1 ?sid (kind_state (cd_kind c)) bs"
    using e1 sole by (auto simp: touches_def sole_def)
  have same: "recovered_as crc ?sid bs d1 False"
    unfolding recovered_as_def using sole1 fits by (intro disjI1 exI [of _ "kind_state (cd_kind c)"] exI [of _ bs]) simp
  consider (io) e where "q = Inl (Operational e)" | (corrupt) "q = Inl CorruptHeader"
    | (ok) a where "q = Inr a"
    by (metis file_analysis_error.exhaust sum.exhaust)
  then show ?thesis
  proof cases
    case io
    then have "r = Inl e" "sd_disk sd' = d1"
      using run analyzed by (auto simp: recover_candidate_def)
    then show ?thesis using t1 same by simp
  next
    case ok
    then have a: "analyze_bytes crc ?sid bs = Inr a"
      using e1 by auto
    obtain q2 d2 where norm: "normalize_file crc c a d1 = (q2, d2)" by fastforce
    note effect = normalize_file_effect [OF norm sole1 fits a]
    have "sd_disk sd' = d2" "is_ok r \<Longrightarrow> \<exists>ns. q2 = Inr ns"
      using run analyzed ok norm by (auto simp: recover_candidate_def split: sum.splits)
    moreover have "touches ?sid ?d d2"
      using t1 effect by (blast intro: touches_trans)
    moreover have "recovered_as crc ?sid bs d2 (is_ok r)"
    proof -
      obtain st x where "sole d2 ?sid st x" "fits crc ?sid x" "keeps_records crc ?sid bs x"
        "\<forall>ns. q2 = Inr ns \<longrightarrow> st = Sealed \<and> normal_file crc ?sid x"
        using effect by blast
      then show ?thesis
        unfolding recovered_as_def using \<open>is_ok r \<Longrightarrow> \<exists>ns. q2 = Inr ns\<close> by blast
    qed
    ultimately show ?thesis by simp
  next
    case corrupt
    then have bad: "analyze_bytes crc ?sid bs = Inl CorruptHeader"
      using e1 by auto
    obtain q2 sd2 where quar: "quarantine c (sd\<lparr>sd_disk := d1\<rparr>) = (q2, sd2)" by fastforce
    have sd': "sd' = sd2" "is_ok r \<longleftrightarrow> q2 = Inr ()"
      using run analyzed corrupt quar by (auto simp: recover_candidate_def split: sum.splits)
    have file1: "disk_files d1 (candidate_name c) = Some bs"
      using e1 contents by simp
    have "touches ?sid d1 (sd_disk sd2) \<and> (disk_files (sd_disk sd2) = disk_files d1 \<and> q2 \<noteq> Inr () \<or>
        disk_files (sd_disk sd2) = (disk_files d1)(candidate_name c := None))"
      using quar file1 
      by (auto simp: quarantine_def touches_def candidate_name_state dest!: next_outcome_same sys_sync_effect
          split: prod.splits io_outcome.splits)
    moreover have "sole d2 ?sid (kind_state (cd_kind c)) bs" if "disk_files d2 = disk_files d1" for d2
      using that sole1 by (simp add: sole_def)
    moreover have "\<forall>st. disk_files d2 (?sid, st) = None"
      if "disk_files d2 = (disk_files d1)(candidate_name c := None)" for d2
      using that sole1 by (auto simp: sole_def candidate_name_state)
    ultimately have "touches ?sid d1 (sd_disk sd2) \<and> recovered_as crc ?sid bs (sd_disk sd2) (is_ok r)"
      unfolding recovered_as_def sd' using fits bad keeps_records_refl by blast
    then show ?thesis
      using t1 sd' by (blast intro: touches_trans)
  qed
qed

section \<open>One pass over the candidates\<close>

lemma recovered_as_unfinished: "recovered_as crc sid bs d fin \<Longrightarrow> recovered_as crc sid bs d False"
  unfolding recovered_as_def by blast

lemma recovered_as_same:
  "recovered_as crc sid bs d fin \<Longrightarrow> (\<And>st. disk_files d' (sid, st) = disk_files d (sid, st)) \<Longrightarrow>
   recovered_as crc sid bs d' fin"
  by (simp add: recovered_as_def sole_def)

lemma recovered_as_start:
  "sole d sid st bs \<Longrightarrow> fits crc sid bs \<Longrightarrow> recovered_as crc sid bs d False"
  unfolding recovered_as_def using keeps_records_refl by blast

definition candidates_of :: "checksum \<Rightarrow> disk \<Rightarrow> candidate list \<Rightarrow> bool" where
  "candidates_of crc d cs \<longleftrightarrow> distinct (map cd_segment_id cs) \<and>
     (\<forall>c \<in> set cs. \<exists>bs. sole d (cd_segment_id c) (kind_state (cd_kind c)) bs \<and> fits crc (cd_segment_id c) bs)"

lemma recover_candidates_effect:
  assumes "recover_candidates crc count cs (report, sd) = (r, sd')" and "candidates_of crc (sd_disk sd) cs"
  shows "(\<forall>sid. sid \<notin> cd_segment_id ` set cs \<longrightarrow>
      (\<forall>st. disk_files (sd_disk sd') (sid, st) = disk_files (sd_disk sd) (sid, st))) \<and>
    (\<forall>c \<in> set cs. \<forall>bs. disk_files (sd_disk sd) (candidate_name c) = Some bs \<longrightarrow>
      recovered_as crc (cd_segment_id c) bs (sd_disk sd') (is_ok r))"
  using assms
proof (induction cs arbitrary: report sd)
  case Nil
  then show ?case by simp
next
  case (Cons c cs)
  let ?sid = "cd_segment_id c"
  obtain bs where sole: "sole (sd_disk sd) ?sid (kind_state (cd_kind c)) bs" and fits: "fits crc ?sid bs"
    using Cons.prems(2) by (auto simp: candidates_of_def)
  obtain r1 sd1 where head: "recover_candidate crc count c (report, sd) = (r1, sd1)" by fastforce
  note effect = recover_candidate_effect [OF head sole fits]
  have other: "disk_files (sd_disk sd1) (sid, st) = disk_files (sd_disk sd) (sid, st)" if "sid \<noteq> ?sid" for sid st
    using effect that by (simp add: touches_def)
  have fresh: "?sid \<notin> cd_segment_id ` set cs"
    using Cons.prems(2) by (simp add: candidates_of_def)
  have name: "disk_files (sd_disk sd) (candidate_name c) = Some b \<longleftrightarrow> b = bs" for b
    using sole by (auto simp: sole_def candidate_name_state)
  have later: "candidates_of crc (sd_disk sd1) cs"
    using Cons.prems(2) fresh other unfolding candidates_of_def sole_def by (auto simp: image_iff)
  show ?case
  proof (cases r1)
    case (Inl e)
    then have r: "r = Inl e" "sd' = sd1"
      using Cons.prems(1) head by auto
    have "recovered_as crc (cd_segment_id c') b (sd_disk sd1) False"
      if c': "c' \<in> set cs" and b: "disk_files (sd_disk sd) (candidate_name c') = Some b" for c' b
    proof -
      obtain b' where b': "sole (sd_disk sd1) (cd_segment_id c') (kind_state (cd_kind c')) b'"
        "fits crc (cd_segment_id c') b'"
        using later c' by (auto simp: candidates_of_def)
      have "cd_segment_id c' \<noteq> ?sid"
        using fresh c' by (metis image_eqI)
      then have "b' = b"
        using b b'(1) other by (auto simp: sole_def candidate_name_state)
      then show ?thesis
        using recovered_as_start [OF b'] by simp
    qed
    then show ?thesis
      using r effect other name recovered_as_unfinished Inl by auto
  next
    case (Inr report1)
    then have rest: "recover_candidates crc count cs (report1, sd1) = (r, sd')"
      using Cons.prems(1) head by auto
    note ih = Cons.IH [OF rest later]
    have "recovered_as crc ?sid bs (sd_disk sd') (is_ok r)"
    proof (rule recovered_as_same)
      show "recovered_as crc ?sid bs (sd_disk sd1) (is_ok r)"
        using effect Inr recovered_as_unfinished by (cases "is_ok r") auto
    next
      fix st
      show "disk_files (sd_disk sd') (?sid, st) = disk_files (sd_disk sd1) (?sid, st)"
        using ih fresh by blast
    qed
    moreover have "disk_files (sd_disk sd) (candidate_name c') = disk_files (sd_disk sd1) (candidate_name c')"
      if "c' \<in> set cs" for c'
      using that fresh other [of "cd_segment_id c'"] by (metis candidate_name_state image_eqI)
    ultimately show ?thesis
      using ih other name by auto
  qed
qed

section \<open>Discovery\<close>

lemma collect_results_mem:
  "collect_results f xs = Inr ys \<Longrightarrow> x \<in> set xs \<Longrightarrow> \<exists>y \<in> set ys. f x = Inr y"
  by (induction xs arbitrary: ys) (auto simp: result_simps)

lemma all_segment_state: "(\<forall>st. P st) \<longleftrightarrow> P Open \<and> P Sealed"
  by (metis segment_state.exhaust)

lemma ex_candidate_kind: "(\<exists>k. P k) \<longleftrightarrow> P OpenCandidate \<or> P SealedCandidate"
  by (metis candidate_kind.exhaust)

lemma discover_at_cases:
  "discover_at d sid = Inr cs \<Longrightarrow>
   cs = [] \<and> (\<forall>st. disk_files d (sid, st) = None) \<or>
   (\<exists>k bs. cs = [\<lparr>cd_segment_id = sid, cd_kind = k\<rparr>] \<and> sole d sid (kind_state k) bs)"
  by (simp add: open_segment_name_def sealed_segment_name_def sole_def ex_candidate_kind
      all_segment_state split: option.splits)

lemma discover_collect:
  assumes "collect_results (discover_at d) ids = Inr css" and "distinct ids"
  shows "distinct (map cd_segment_id (concat css)) \<and> cd_segment_id ` set (concat css) \<subseteq> set ids \<and>
    (\<forall>c \<in> set (concat css). \<exists>bs. sole d (cd_segment_id c) (kind_state (cd_kind c)) bs) \<and>
    (\<forall>sid \<in> set ids. \<forall>st bs. disk_files d (sid, st) = Some bs \<longrightarrow> sid \<in> cd_segment_id ` set (concat css))"
  using assms
proof (induction ids arbitrary: css)
  case Nil
  then show ?case by simp
next
  case (Cons sid ids)
  obtain cs css' where head: "discover_at d sid = Inr cs" and rest: "collect_results (discover_at d) ids = Inr css'"
    and css: "css = cs # css'"
    using Cons.prems(1) by (auto simp: result_simps simp del: discover_at.simps)
  note ih = Cons.IH [OF rest]
  from discover_at_cases [OF head] show ?case
  proof (elim disjE exE conjE)
    assume "cs = []" "\<forall>st. disk_files d (sid, st) = None"
    then show ?thesis
      using ih Cons.prems(2) by (auto simp: css)
  next
    fix k bs
    assume "cs = [\<lparr>cd_segment_id = sid, cd_kind = k\<rparr>]" "sole d sid (kind_state k) bs"
    then show ?thesis
      using ih Cons.prems(2) by (auto simp: css)
  qed
qed

lemma discover_Inr:
  assumes "discover listing d = Inr cs"
  shows "distinct (map cd_segment_id cs) \<and>
    (\<forall>c \<in> set cs. \<exists>bs. sole d (cd_segment_id c) (kind_state (cd_kind c)) bs) \<and>
    (\<forall>sid \<in> set listing. \<forall>st bs. disk_files d (sid, st) = Some bs \<longrightarrow> sid \<in> cd_segment_id ` set cs)"
proof -
  obtain css where "collect_results (discover_at d) (sort (remdups listing)) = Inr css" "cs = concat css"
    using assms by (cases "collect_results (discover_at d) (sort (remdups listing))") (auto simp: discover_def)
  from discover_collect [OF this(1)] this(2) show ?thesis
    by simp
qed

section \<open>The two filesystem phases\<close>

text \<open>A directory recovery can start from: the listing is complete and every file is of bounded length.\<close>

definition all_fit :: "checksum \<Rightarrow> disk \<Rightarrow> bool" where
  "all_fit crc d \<longleftrightarrow> (\<forall>sid st bs. disk_files d (sid, st) = Some bs \<longrightarrow> fits crc sid bs)"

definition listed :: "segment_id list \<Rightarrow> disk \<Rightarrow> bool" where
  "listed listing d \<longleftrightarrow> (\<forall>sid st bs. disk_files d (sid, st) = Some bs \<longrightarrow> sid \<in> set listing)"

lemma stored_recovered:
  assumes "recovered_as crc (addr_segment a) bs d' fin" and "fits crc (addr_segment a) bs"
    and "stored crc d a f" and "\<And>st bs'. disk_files d (addr_segment a, st) = Some bs' \<Longrightarrow> bs' = bs"
  shows "stored crc d' a f"
proof -
  obtain hdr fs rest where bs: "bs = segment_file crc hdr (fs @ [f]) rest"
    and hdr: "sh_segment_id hdr = addr_segment a"
    and fs: "\<forall>g \<in> set (fs @ [f]). storable_frame g \<and> belongs_to hdr g"
    and offset: "unat (offset_value (addr_offset a)) = 90 + length (records_bytes crc fs)"
    using assms(3,4) unfolding stored_def by metis
  have "analyze_bytes crc (addr_segment a) bs \<noteq> Inl CorruptHeader"
    using analyze_bytes_complete [OF fs bs fits_length [OF assms(2)]] hdr by auto
  then obtain st x where x: "disk_files d' (addr_segment a, st) = Some x"
    and keeps: "keeps_records crc (addr_segment a) bs x"
    using assms(1) unfolding recovered_as_def sole_def by blast
  obtain rest' where "x = segment_file crc hdr (fs @ [f]) rest'"
    using keeps hdr fs bs unfolding keeps_records_def by blast
  then show ?thesis
    using x hdr fs offset unfolding stored_def by blast
qed

text \<open>A pass over some of the candidates: stored frames stay, and the directory stays recoverable.\<close>

lemma recover_candidates_pass:
  assumes run: "recover_candidates crc count (filter P cs) (report, sd) = (r, sd')"
    and disc: "discover listing (sd_disk sd) = Inr cs"
    and fit: "all_fit crc (sd_disk sd)" and listed: "listed listing (sd_disk sd)"
  shows "(stored crc (sd_disk sd) a f \<longrightarrow> stored crc (sd_disk sd') a f) \<and>
    all_fit crc (sd_disk sd') \<and> listed listing (sd_disk sd') \<and>
    (is_ok r \<longrightarrow> (\<forall>sid st x. disk_files (sd_disk sd') (sid, st) = Some x \<longrightarrow>
       st = Sealed \<and> normal_file crc sid x \<or>
       (\<exists>c \<in> set cs. cd_segment_id c = sid \<and> \<not> P c \<and> st = kind_state (cd_kind c))))"
proof -
  let ?d = "sd_disk sd" and ?d' = "sd_disk sd'" and ?cs = "filter P cs"
  note found = discover_Inr [OF disc]
  have sole: "\<exists>bs. sole ?d (cd_segment_id c) (kind_state (cd_kind c)) bs \<and> fits crc (cd_segment_id c) bs"
    if "c \<in> set cs" for c
    using found that fit unfolding all_fit_def sole_def by blast
  have "distinct (map cd_segment_id ?cs)"
    using found by (simp add: distinct_map_filter)
  then have "candidates_of crc ?d ?cs"
    unfolding candidates_of_def using sole by auto
  note effect = recover_candidates_effect [OF run this]
  have one: "recovered_as crc sid bs ?d' (is_ok r) \<and> sole ?d sid (kind_state (cd_kind c)) bs"
    if "c \<in> set ?cs" "cd_segment_id c = sid" "sole ?d (cd_segment_id c) (kind_state (cd_kind c)) bs" for c sid bs
    using effect that by (auto simp: candidate_name_state sole_def)
  have cases: "(\<exists>c bs. c \<in> set ?cs \<and> cd_segment_id c = sid \<and> recovered_as crc sid bs ?d' (is_ok r) \<and>
        sole ?d sid (kind_state (cd_kind c)) bs \<and> fits crc sid bs) \<or>
      (\<forall>st. disk_files ?d' (sid, st) = disk_files ?d (sid, st))" for sid
  proof (cases "sid \<in> cd_segment_id ` set ?cs")
    case True
    then obtain c where "c \<in> set ?cs" "cd_segment_id c = sid" by auto
    then show ?thesis
      using one [of c sid] sole [of c] by auto
  next
    case False
    then show ?thesis using effect by blast
  qed
  have stored: "stored crc ?d' a f" if st: "stored crc ?d a f"
    using cases [of "addr_segment a"]
  proof (elim disjE exE conjE)
    fix c bs
    assume "recovered_as crc (addr_segment a) bs ?d' (is_ok r)"
      "sole ?d (addr_segment a) (kind_state (cd_kind c)) bs" "fits crc (addr_segment a) bs"
    then show ?thesis
      using st sole_unique by (intro stored_recovered [of crc a bs ?d']) blast+
  next
    assume "\<forall>st. disk_files ?d' (addr_segment a, st) = disk_files ?d (addr_segment a, st)"
    then show ?thesis
      using st unfolding stored_def by auto
  qed
  have after: "fits crc sid x \<and> sid \<in> set listing \<and> (is_ok r \<longrightarrow> st = Sealed \<and> normal_file crc sid x \<or>
       (\<exists>c \<in> set cs. cd_segment_id c = sid \<and> \<not> P c \<and> st = kind_state (cd_kind c)))"
    if x: "disk_files ?d' (sid, st) = Some x" for sid st x
    using cases [of sid]
  proof (elim disjE exE conjE)
    fix c bs
    assume c: "c \<in> set ?cs" "cd_segment_id c = sid" "recovered_as crc sid bs ?d' (is_ok r)"
      "sole ?d sid (kind_state (cd_kind c)) bs"
    then have "sid \<in> set listing"
      using listed unfolding listed_def sole_def by blast
    then show ?thesis
      using c(3) x unfolding recovered_as_def sole_def by (metis option.distinct(1) option.inject)
  next
    assume same: "\<forall>st. disk_files ?d' (sid, st) = disk_files ?d (sid, st)"
    then have old: "disk_files ?d (sid, st) = Some x"
      using x by simp
    then have sid: "fits crc sid x" "sid \<in> set listing"
      using fit listed unfolding all_fit_def listed_def by blast+
    then obtain c where c: "c \<in> set cs" "cd_segment_id c = sid"
      using found old by blast
    then have kind: "st = kind_state (cd_kind c)"
      using sole [of c] old unfolding sole_def by (metis option.distinct(1))
    show ?thesis
    proof (cases "P c")
      case False
      then show ?thesis using sid c kind by blast
    next
      case True
      then obtain bs where "recovered_as crc sid bs ?d' (is_ok r)" 
        using one [of c sid] sole [of c] c by auto
      then show ?thesis
        using sid x unfolding recovered_as_def sole_def by (metis option.distinct(1) option.inject)
    qed
  qed
  then show ?thesis
    using stored unfolding all_fit_def listed_def by blast
qed

lemma recover_files_effect:
  assumes run: "recover_files crc listing sd = (r, sd')"
    and fit: "all_fit crc (sd_disk sd)" and listed: "listed listing (sd_disk sd)"
  shows "(stored crc (sd_disk sd) a f \<longrightarrow> stored crc (sd_disk sd') a f) \<and>
    (is_ok r \<longrightarrow> (\<forall>sid st x. disk_files (sd_disk sd') (sid, st) = Some x \<longrightarrow>
       st = Sealed \<and> normal_file crc sid x))"
proof (cases "discover listing (sd_disk sd)")
  case (Inl e)
  then show ?thesis using run by (auto simp: recover_files_def)
next
  case (Inr initial)
  let ?open = "\<lambda>c. cd_kind c = OpenCandidate" and ?sealed = "\<lambda>c. cd_kind c = SealedCandidate"
  obtain r1 sd1 where first: "recover_candidates crc count_sealed (filter ?open initial) (default_report, sd) = (r1, sd1)"
    by fastforce
  note pass1 = recover_candidates_pass [OF first Inr fit listed]
  show ?thesis
  proof (cases r1)
    case (Inl e)
    then show ?thesis using run Inr first pass1 by (auto simp: recover_files_def)
  next
    case r1: (Inr report)
    show ?thesis
    proof (cases "discover listing (sd_disk sd1)")
      case (Inl e)
      then show ?thesis using run Inr first r1 pass1 by (auto simp: recover_files_def)
    next
      case disc: (Inr cs)
      have second: "recover_candidates crc count_repaired (filter ?sealed cs) (report, sd1) = (r, sd')"
        using run Inr first r1 disc by (simp add: recover_files_def)
      have fit1: "all_fit crc (sd_disk sd1)" and listed1: "listed listing (sd_disk sd1)"
        using pass1 by blast+
      note pass2 = recover_candidates_pass [OF second disc fit1 listed1]
      have sealed1: "st = Sealed" if x: "disk_files (sd_disk sd1) (sid, st) = Some x" for sid st x
      proof -
        have "st = Sealed \<or> (\<exists>c :: candidate. cd_kind c \<noteq> OpenCandidate \<and> st = kind_state (cd_kind c))"
          using pass1 x unfolding r1 is_ok.simps by blast
        then show ?thesis
          by (metis candidate_kind.exhaust kind_state.simps(2))
      qed
      have "cd_kind c = SealedCandidate" if c: "c \<in> set cs" for c
      proof -
        obtain bs where bs: "sole (sd_disk sd1) (cd_segment_id c) (kind_state (cd_kind c)) bs"
          using discover_Inr [OF disc] c by blast
        then have "kind_state (cd_kind c) = Sealed"
          using sealed1 unfolding sole_def by blast
        then show ?thesis
          by (cases "cd_kind c") auto
      qed
      then show ?thesis using pass1 pass2 by blast
    qed
  qed
qed

section \<open>A second pass\<close>

lemma no_script: "disk_script d = [] \<Longrightarrow> next_outcome d = (IoOk, d)"
  by (simp add: next_outcome_def)

lemma sync_no_script: "disk_script d = [] \<Longrightarrow> sys_sync d = (Inr (), d)"
  by (simp add: sys_sync_def no_script)

lemma probe_no_script: "disk_script d = [] \<Longrightarrow> probe_calls n d = (True, d)"
  by (induction n) (simp_all add: sync_no_script)

lemma analyze_file_no_script:
  "disk_script d = [] \<Longrightarrow> disk_files d (candidate_name c) = Some bs \<Longrightarrow>
   analyze_file crc c d = (analyze_bytes crc (cd_segment_id c) bs, d)"
  by (simp add: analyze_file_def probe_no_script)

text \<open>A normal file whose footer's times are in order is left alone and counted nowhere.\<close>

definition settled_file :: "checksum \<Rightarrow> segment_id \<Rightarrow> byte_string \<Rightarrow> bool" where
  "settled_file crc sid bs \<longleftrightarrow> (\<exists>hdr fs. sh_segment_id hdr = sid \<and>
     (\<forall>f \<in> set fs. storable_frame f \<and> belongs_to hdr f) \<and>
     length (segment_file crc hdr fs []) \<le> 2 ^ 61 \<and> wf_footer (frames_footer hdr fs) \<and>
     bs = segment_file crc hdr fs (encode_footer crc (frames_footer hdr fs)))"

lemma recover_settled_file:
  assumes "settled_file crc (cd_segment_id c) bs" and "cd_kind c = SealedCandidate"
    and bs: "disk_files (sd_disk sd) (candidate_name c) = Some bs" and quiet: "disk_script (sd_disk sd) = []"
  shows "recover_candidate crc count_repaired c (report, sd) = (Inr report, sd)"
proof -
  obtain hdr fs where hdr: "sh_segment_id hdr = cd_segment_id c"
    and fs: "\<forall>f \<in> set fs. storable_frame f \<and> belongs_to hdr f" "length (segment_file crc hdr fs []) \<le> 2 ^ 61"
    and wf: "wf_footer (frames_footer hdr fs)"
    and file_bytes: "bs = segment_file crc hdr fs (encode_footer crc (frames_footer hdr fs))"
    using assms(1) unfolding settled_file_def by blast
  have limit: "length bs < 2 ^ 62"
    using fs(2) by (simp add: file_bytes segment_file_def sealed_footer_len_def)
  obtain a where run: "analyze_bytes crc (cd_segment_id c) bs = Inr a" "frames_of (an_records a) = fs" "an_header a = hdr"
    using analyze_torn_footer [OF fs(1), of bs crc sealed_footer_len "frames_footer hdr fs"] file_bytes limit hdr
    by auto
  have exact: "an_footer_is_exact a"
    using analyze_sealed_exact [OF fs(1) file_bytes limit] run wf hdr by simp
  have "unat (an_record_end a) \<le> 2 ^ 61"
    using analyze_bytes_sound [OF run(1) limit] run(2,3) fs(2) by (simp add: sound_analysis_def Let_def)
  then have "normalize_file crc c a (sd_disk sd) =
      (Inr (normalized_of c a (an_record_end a + word_of_nat sealed_footer_len)), sd_disk sd)"
    using exact assms(2)
    by (simp add: normalize_file_def publish_recovered_def checked_add_def sealed_footer_len_def)
  then show ?thesis
    using exact by (simp add: recover_candidate_def analyze_file_no_script [OF quiet bs] run
        count_repaired_def normalized_of_def Let_def)
qed

lemma recover_settled_candidates:
  assumes "disk_script (sd_disk sd) = []"
    and "\<forall>c \<in> set cs. cd_kind c = SealedCandidate \<and> (\<exists>bs. settled_file crc (cd_segment_id c) bs \<and>
      disk_files (sd_disk sd) (candidate_name c) = Some bs)"
  shows "recover_candidates crc count_repaired cs (report, sd) = (Inr report, sd)"
  using assms
proof (induction cs)
  case (Cons c cs)
  then obtain bs where "settled_file crc (cd_segment_id c) bs" "cd_kind c = SealedCandidate"
    "disk_files (sd_disk sd) (candidate_name c) = Some bs"
    by auto
  from recover_settled_file [OF this Cons.prems(1)] Cons show ?case
    by simp
qed simp

lemma discover_sealed:
  assumes "\<forall>sid. disk_files d (sid, Open) = None"
  shows "\<exists>cs. discover listing d = Inr cs \<and> (\<forall>c \<in> set cs. cd_kind c = SealedCandidate)"
proof -
  have "\<exists>css. collect_results (discover_at d) ids = Inr css \<and> (\<forall>c \<in> set (concat css). cd_kind c = SealedCandidate)" for ids
    using assms
    by (induction ids) (auto simp: open_segment_name_def sealed_segment_name_def split: option.splits)
  then show ?thesis
    by (metis discover_def map_sum.simps(2))
qed

lemma recover_files_settled:
  assumes quiet: "disk_script (sd_disk sd) = []"
    and settled: "\<forall>sid st x. disk_files (sd_disk sd) (sid, st) = Some x \<longrightarrow> st = Sealed \<and> settled_file crc sid x"
  shows "recover_files crc listing sd = (Inr default_report, sd)"
proof -
  have "\<forall>sid. disk_files (sd_disk sd) (sid, Open) = None"
    using settled by (metis not_None_eq segment_state.distinct(1))
  then obtain cs where disc: "discover listing (sd_disk sd) = Inr cs"
    and sealed: "\<forall>c \<in> set cs. cd_kind c = SealedCandidate"
    using discover_sealed by blast
  have none: "filter (\<lambda>c. cd_kind c = OpenCandidate) cs = []" and all: "filter (\<lambda>c. cd_kind c = SealedCandidate) cs = cs"
    using sealed by (auto simp: filter_empty_conv)
  have "\<forall>c \<in> set cs. cd_kind c = SealedCandidate \<and> (\<exists>bs. settled_file crc (cd_segment_id c) bs \<and>
      disk_files (sd_disk sd) (candidate_name c) = Some bs)"
    using discover_Inr [OF disc] sealed settled unfolding candidate_name_state sole_def by blast
  from recover_settled_candidates [OF quiet this] show ?thesis
    by (simp add: recover_files_def disc none all)
qed

end
