(* ===== verification/Recovery_Properties.thy ===== *)
theory Recovery_Properties
  imports Recovery_Pass Segment_Properties
begin

text \<open>
  The properties of startup recovery. The directory's listing is complete (\<open>listed\<close>) and its files are
  at most \<open>2 ^ 61\<close> bytes long or already carry a recovered footer (\<open>all_fit\<close>); the script of outcomes
  lets any system call of the pass fail.
\<close>

definition times_in_order :: "checksum \<Rightarrow> disk \<Rightarrow> bool" where
  "times_in_order crc d \<longleftrightarrow> (\<forall>sid bs a. disk_files d (sid, Sealed) = Some bs \<longrightarrow>
     analyze_bytes crc sid bs = Inr a \<longrightarrow> wf_footer (an_footer a))"

text \<open>A directory as a crash leaves it: an open segment with two records and the start of its footer.\<close>

definition sample_frames :: "encoded_frame list" where
  "sample_frames = [sample_frame 0, sample_frame 1]"

definition crashed_bytes :: byte_string where
  "crashed_bytes = segment_file sample_crc sample_header sample_frames (take 5 (encode_footer sample_crc sample_footer))"

definition crashed_directory :: segment_directory where
  "crashed_directory = \<lparr>sd_disk = \<lparr>disk_files = (\<lambda>_. None)((SegmentId 0, Open) \<mapsto> crashed_bytes),
     disk_script = [], disk_uuids = 1\<rparr>, sd_corrupt = (\<lambda>_. None)\<rparr>"

lemma sample_header_id [simp]: "sh_segment_id sample_header = SegmentId 0"
  by (simp add: sample_header_def new_header_def)

lemma sample_frames_ok: "\<forall>f \<in> set sample_frames. storable_frame f \<and> belongs_to sample_header f"
  by (simp add: sample_frames_def)

lemma length_sample_segment [simp]: "length (segment_file crc sample_header sample_frames rest) = 266 + length rest"
  by (simp add: segment_file_def sample_frames_def segment_header_len_def)

lemma length_crashed_bytes [simp]: "length crashed_bytes = 271"
  by (simp add: crashed_bytes_def sealed_footer_len_def)

lemma crashed_fits: "all_fit sample_crc (sd_disk crashed_directory)"
  by (auto simp: all_fit_def crashed_directory_def fits_def split: if_splits)

lemma crashed_listed: "listed [SegmentId 0] (sd_disk crashed_directory)"
  by (auto simp: listed_def crashed_directory_def split: if_splits)

lemma crashed_stored:
  "stored sample_crc (sd_disk crashed_directory) \<lparr>addr_segment = SegmentId 0, addr_offset = ByteOffset 178\<rparr>
     (sample_frame 1)"
  unfolding stored_def
  by (rule exI [of _ Open], rule exI [of _ sample_header], rule exI [of _ "[sample_frame 0]"],
      rule exI [of _ "take 5 (encode_footer sample_crc sample_footer)"])
    (simp add: crashed_directory_def crashed_bytes_def sample_frames_def)

lemma crashed_analysis:
  "\<exists>a. analyze_bytes sample_crc (SegmentId 0) crashed_bytes = Inr a \<and> an_header a = sample_header \<and>
     frames_of (an_records a) = sample_frames \<and> an_footer a = frames_footer sample_header sample_frames"
  using analyze_torn_footer [OF sample_frames_ok, of crashed_bytes sample_crc 5 sample_footer]
  by (simp add: crashed_bytes_def)

text \<open>C34: What recovery takes from any file is genuine. If the analysis of a file succeeds,
  the bytes up to the offset it keeps are exactly one header and the canonical records of the
  frames it reports, all valid and of the header's session and target; the footer it computes
  describes those frames.\<close>

theorem analysis_sound:
  assumes "analyze_bytes crc sid bs = Inr a" and "length bs < 2 ^ 62"
  shows "sh_segment_id (an_header a) = sid \<and>
    take (unat (an_record_end a)) bs = segment_file crc (an_header a) (frames_of (an_records a)) [] \<and>
    unat (an_record_end a) \<le> length bs \<and>
    (\<forall>f \<in> set (frames_of (an_records a)). storable_frame f \<and> belongs_to (an_header a) f) \<and>
    an_footer a = frames_footer (an_header a) (frames_of (an_records a))"
  using analyze_bytes_sound [OF assms] unfolding sound_analysis_def Let_def by blast

lemma analysis_sound_witness:
  "\<exists>a. analyze_bytes sample_crc (SegmentId 0) crashed_bytes = Inr a \<and>
     take (unat (an_record_end a)) crashed_bytes = segment_file sample_crc sample_header sample_frames []"
proof -
  obtain a where a: "analyze_bytes sample_crc (SegmentId 0) crashed_bytes = Inr a"
    "an_header a = sample_header" "frames_of (an_records a) = sample_frames"
    using crashed_analysis by blast
  have "length crashed_bytes < 2 ^ 62"
    by simp
  from analysis_sound [OF a(1) this] a show ?thesis
    by auto
qed

text \<open>C3: Recovery loses no stored frame, even when it fails half-way. For every
  run of its filesystem phases, completed or stopped by a failure of any call, a frame whose record
  was complete in its segment file before is readable at the same address afterwards.\<close>

theorem recovery_keeps_frames:
  assumes "recover_files crc listing sd = (r, sd')" and "all_fit crc (sd_disk sd)"
    and "listed listing (sd_disk sd)" and "stored crc (sd_disk sd) a f"
  shows "readable crc (sd_disk sd') a f"
  using recover_files_effect [OF assms(1-3)] assms(4) stored_readable by blast

lemma recovery_keeps_frames_witness:
  "readable sample_crc (sd_disk (snd (recover_files sample_crc [SegmentId 0] crashed_directory)))
     \<lparr>addr_segment = SegmentId 0, addr_offset = ByteOffset 178\<rparr> (sample_frame 1)"
  by (rule recovery_keeps_frames [OF prod.collapse [symmetric] crashed_fits crashed_listed crashed_stored])

text \<open>C18: A recovery that completes leaves only sealed files, each of them a header,
  the complete records of valid frames and the footer of exactly those frames.\<close>

theorem recovery_normalizes:
  assumes "recover_files crc listing sd = (Inr report, sd')" and "all_fit crc (sd_disk sd)"
    and "listed listing (sd_disk sd)" and "disk_files (sd_disk sd') (sid, st) = Some bs"
  shows "st = Sealed \<and> (\<exists>hdr fs. sh_segment_id hdr = sid \<and>
    (\<forall>f \<in> set fs. storable_frame f \<and> belongs_to hdr f) \<and>
    bs = segment_file crc hdr fs (encode_footer crc (frames_footer hdr fs)))"
proof -
  have "st = Sealed \<and> normal_file crc sid bs"
    using recover_files_effect [OF assms(1-3)] assms(4) by auto
  then show ?thesis
    unfolding footer_file_def by auto
qed

text \<open>What recovery makes of the crashed directory, with no failing call.\<close>

definition recovered_bytes :: byte_string where
  "recovered_bytes = segment_file sample_crc sample_header sample_frames
     (encode_footer sample_crc (frames_footer sample_header sample_frames))"

definition recovered_directory :: segment_directory where
  "recovered_directory = crashed_directory\<lparr>sd_disk := (sd_disk crashed_directory)\<lparr>disk_files :=
     (\<lambda>_. None)((SegmentId 0, Sealed) \<mapsto> recovered_bytes)\<rparr>\<rparr>"

lemma sample_footer_wf: "wf_footer (frames_footer sample_header sample_frames)"
  by (simp add: wf_footer_def frames_footer_def sample_frames_def last_or_def sample_frame_def
      sample_metadata_def less_eq_session_time_def)

lemma recovered_settled: "settled_file sample_crc (SegmentId 0) recovered_bytes"
  unfolding settled_file_def
  using sample_frames_ok sample_footer_wf
  by (intro exI [of _ sample_header] exI [of _ sample_frames]) (simp add: recovered_bytes_def)

lemma crashed_normalized:
  assumes "analyze_bytes sample_crc (SegmentId 0) crashed_bytes = Inr a"
  shows "\<exists>ns. normalize_file sample_crc \<lparr>cd_segment_id = SegmentId 0, cd_kind = OpenCandidate\<rparr> a
      (sd_disk crashed_directory) = (Inr ns, sd_disk recovered_directory) \<and> unat (ns_bytes_truncated ns) = 5"
proof -
  obtain hdr: "an_header a = sample_header" and frames: "frames_of (an_records a) = sample_frames"
    and footer: "an_footer a = frames_footer sample_header sample_frames"
    using crashed_analysis assms by auto
  have "length crashed_bytes < 2 ^ 62"
    by simp
  note sound = analyze_bytes_sound [OF assms this, unfolded sound_analysis_def Let_def hdr frames]
  have end_: "unat (an_record_end a) = 266" and len: "unat (an_original_len a) = 271"
    using sound by simp_all
  have keep: "take 266 crashed_bytes = segment_file sample_crc sample_header sample_frames []"
    using sound unfolding end_ [symmetric] by blast
  have inexact: "\<not> an_footer_is_exact a"
  proof
    assume "an_footer_is_exact a"
    from analysis_exact_footer [OF assms this] have "length (drop 266 crashed_bytes) = sealed_footer_len"
      unfolding end_ using footer_block.dec_length by blast
    then show False
      by (simp add: sealed_footer_len_def)
  qed
  have quiet: "disk_script (sd_disk crashed_directory) = []"
    by (simp add: crashed_directory_def)
  have files: "disk_files (sd_disk crashed_directory) = (\<lambda>_. None)((SegmentId 0, Open) \<mapsto> crashed_bytes)"
    by (simp add: crashed_directory_def)
  have bytes: "take 266 crashed_bytes @ encode_footer sample_crc (frames_footer sample_header sample_frames) =
      recovered_bytes"
    unfolding keep by (simp add: recovered_bytes_def segment_file_def)
  have le: "an_record_end a \<le> an_original_len a"
    using end_ len by (simp add: word_le_nat_alt)
  have "unat (saturating_sub (an_original_len a) (an_record_end a)) = 5"
    using end_ len le by (simp add: saturating_sub_def unat_sub)
  moreover have "checked_add (an_record_end a) (word_of_nat sealed_footer_len) \<noteq> None"
    using end_ by (simp add: checked_add_def sealed_footer_len_def)
  ultimately show ?thesis
    using quiet files bytes inexact end_ footer
    by (auto simp: normalize_file_def rewrite_footer_def publish_recovered_def sync_no_script set_len_def
        no_script sys_write_def sys_rename_def append_file_def candidate_name_def open_segment_name_def
        sealed_segment_name_def normalized_of_def Let_def recovered_directory_def fun_upd_twist)
qed

lemma crashed_recovered:
  "\<exists>report. recover_files sample_crc [SegmentId 0] crashed_directory = (Inr report, recovered_directory)"
proof -
  let ?c = "\<lparr>cd_segment_id = SegmentId 0, cd_kind = OpenCandidate\<rparr>"
  let ?s = "\<lparr>cd_segment_id = SegmentId 0, cd_kind = SealedCandidate\<rparr>"
  have quiet: "disk_script (sd_disk crashed_directory) = []" "disk_script (sd_disk recovered_directory) = []"
    by (simp_all add: crashed_directory_def recovered_directory_def)
  have found: "discover [SegmentId 0] (sd_disk crashed_directory) = Inr [?c]"
    "discover [SegmentId 0] (sd_disk recovered_directory) = Inr [?s]"
    by (simp_all add: discover_def crashed_directory_def recovered_directory_def open_segment_name_def
        sealed_segment_name_def)
  obtain a where a: "analyze_bytes sample_crc (SegmentId 0) crashed_bytes = Inr a"
    using crashed_analysis by blast
  obtain ns where ns: "normalize_file sample_crc ?c a (sd_disk crashed_directory) = (Inr ns, sd_disk recovered_directory)"
    "unat (ns_bytes_truncated ns) = 5"
    using crashed_normalized [OF a] by blast
  have "analyze_file sample_crc ?c (sd_disk crashed_directory) = (Inr a, sd_disk crashed_directory)"
    using analyze_file_no_script [OF quiet(1), of ?c crashed_bytes sample_crc] a
    by (simp add: candidate_name_state crashed_directory_def)
  moreover have "\<exists>report. count_sealed ns default_report = Inr report"
    using ns(2) by (simp add: count_sealed_def count_truncated_def default_report_def checked_add_def)
  ultimately obtain report where first: "recover_candidate sample_crc count_sealed ?c (default_report, crashed_directory) =
      (Inr report, recovered_directory)"
    using ns(1) by (auto simp: recover_candidate_def recovered_directory_def)
  have "recover_candidate sample_crc count_repaired ?s (report, recovered_directory) = (Inr report, recovered_directory)"
    using recovered_settled quiet(2)
    by (intro recover_settled_file [of sample_crc ?s recovered_bytes])
      (auto simp: candidate_name_state recovered_directory_def)
  then show ?thesis
    by (simp add: recover_files_def found first)
qed

lemma recovered_times: "times_in_order sample_crc (sd_disk recovered_directory)"
  using analyze_torn_footer [OF sample_frames_ok, of recovered_bytes sample_crc sealed_footer_len
      "frames_footer sample_header sample_frames"] sample_footer_wf
  by (auto simp: times_in_order_def recovered_directory_def recovered_bytes_def sealed_footer_len_def
      split: if_splits)

lemma recovery_normalizes_witness:
  "\<exists>hdr fs. recovered_bytes = segment_file sample_crc hdr fs (encode_footer sample_crc (frames_footer hdr fs))"
proof -
  obtain report where run: "recover_files sample_crc [SegmentId 0] crashed_directory = (Inr report, recovered_directory)"
    using crashed_recovered by blast
  have "disk_files (sd_disk recovered_directory) (SegmentId 0, Sealed) = Some recovered_bytes"
    by (simp add: recovered_directory_def)
  from recovery_normalizes [OF run crashed_fits crashed_listed this] show ?thesis
    by blast
qed

text \<open>C31: A second pass over a recovered directory has nothing to do, provided the
  session times of each segment's first and last frame are in order: it returns the default report
  and changes no file.\<close>

theorem recovery_idempotent:
  assumes run: "recover_files crc listing sd = (Inr report, sd')" and fit: "all_fit crc (sd_disk sd)"
    and listed: "listed listing (sd_disk sd)" and times: "times_in_order crc (sd_disk sd')"
    and quiet: "disk_script (sd_disk sd') = []"
  shows "recover_files crc listing sd' = (Inr default_report, sd')"
proof (rule recover_files_settled [OF quiet], intro allI impI)
  fix sid st x
  assume x: "disk_files (sd_disk sd') (sid, st) = Some x"
  then have st: "st = Sealed" and normal: "normal_file crc sid x"
    using recover_files_effect [OF run fit listed] by auto
  then obtain hdr fs where hdr: "sh_segment_id hdr = sid"
    and fs: "\<forall>f \<in> set fs. storable_frame f \<and> belongs_to hdr f" "length (segment_file crc hdr fs []) \<le> 2 ^ 61"
    and bytes: "x = segment_file crc hdr fs (take sealed_footer_len (encode_footer crc (frames_footer hdr fs)))"
    unfolding footer_file_def by blast
  have "length x < 2 ^ 62"
    using fits_length [OF fits_footer [OF normal]] .
  from analyze_torn_footer [OF fs(1) bytes this] hdr obtain a where
    "analyze_bytes crc sid x = Inr a" "an_footer a = frames_footer hdr fs" by blast
  then have "wf_footer (frames_footer hdr fs)"
    using times x st unfolding times_in_order_def by metis
  then show "st = Sealed \<and> settled_file crc sid x"
    unfolding settled_file_def using st hdr fs bytes by auto
qed

lemma recovery_idempotent_witness:
  "recover_files sample_crc [SegmentId 0] recovered_directory = (Inr default_report, recovered_directory)"
proof -
  obtain report where run: "recover_files sample_crc [SegmentId 0] crashed_directory = (Inr report, recovered_directory)"
    using crashed_recovered by blast
  show ?thesis
    by (rule recovery_idempotent [OF run crashed_fits crashed_listed recovered_times])
      (simp add: recovered_directory_def crashed_directory_def)
qed

text \<open>C40: Without that proviso recovery does not settle. A sealed file with
  its own exact footer whose last frame's session time is before the first's (the writer accepts
  such frames) is counted as repaired, with its footer's 64 bytes truncated, by every pass, and
  every pass writes the same bytes again.\<close>

theorem reversed_times_repaired_again:
  assumes fs: "\<forall>f \<in> set fs. storable_frame f \<and> belongs_to hdr f"
    and size: "length (segment_file crc hdr fs []) \<le> 2 ^ 61"
    and reversed: "sf_last_session_time (frames_footer hdr fs) < sf_first_session_time (frames_footer hdr fs)"
    and sealed: "disk_files (sd_disk sd) (sh_segment_id hdr, Sealed) =
      Some (segment_file crc hdr fs (encode_footer crc (frames_footer hdr fs)))"
    and quiet: "disk_script (sd_disk sd) = []"
  shows "recover_candidate crc count_repaired \<lparr>cd_segment_id = sh_segment_id hdr, cd_kind = SealedCandidate\<rparr>
      (default_report, sd) =
    (Inr (default_report\<lparr>rp_segments_repaired := 1, rp_bytes_truncated := 64\<rparr>), sd)"
proof -
  let ?ft = "frames_footer hdr fs" and ?bs = "segment_file crc hdr fs (encode_footer crc (frames_footer hdr fs))"
  let ?c = "\<lparr>cd_segment_id = sh_segment_id hdr, cd_kind = SealedCandidate\<rparr>"
  have limit: "length ?bs < 2 ^ 62"
    using size by (simp add: segment_file_def sealed_footer_len_def)
  obtain a where a: "analyze_bytes crc (sh_segment_id hdr) ?bs = Inr a" "an_header a = hdr"
    "frames_of (an_records a) = fs" "an_footer a = ?ft"
    using analyze_torn_footer [OF fs _ limit, where k = sealed_footer_len and ft = ?ft] by auto
  have "\<not> an_footer_is_exact a"
    using analyze_sealed_exact [OF fs refl limit a(1)] reversed by (auto simp: wf_footer_def)
  moreover note sound = analyze_bytes_sound [OF a(1) limit, unfolded sound_analysis_def Let_def a(2-4)]
  have keep: "take (unat (an_record_end a)) ?bs = segment_file crc hdr fs []"
    using sound by blast
  have end_: "unat (an_record_end a) = length (segment_file crc hdr fs [])"
    "unat (an_original_len a) = unat (an_record_end a) + 64"
    using sound by (simp_all add: segment_file_def sealed_footer_len_def)
  have "unat (saturating_sub (an_original_len a) (an_record_end a)) = 64"
    using end_ by (simp add: saturating_sub_def unat_sub word_le_nat_alt)
  then have truncated: "saturating_sub (an_original_len a) (an_record_end a) = 64"
    by (simp add: word_unat_eq_iff)
  have again: "segment_file crc hdr fs [] @ encode_footer crc ?ft = ?bs"
    by (simp add: segment_file_def)
  have len: "unat (an_record_end a) \<le> length ?bs" "checked_add (an_record_end a) (word_of_nat sealed_footer_len) \<noteq> None"
    using end_(1) size by (simp_all add: segment_file_def checked_add_def sealed_footer_len_def)
  have same: "(disk_files (sd_disk sd))((sh_segment_id hdr, Sealed) \<mapsto> ?bs) = disk_files (sd_disk sd)"
    using sealed by (simp add: fun_upd_idem)
  have "rewrite_footer crc (candidate_name ?c) (unat (an_record_end a)) (an_footer a) (sd_disk sd) = (Inr (), sd_disk sd)"
    using sealed len(1) keep again same a(4)
    by (simp add: rewrite_footer_def sync_no_script [OF quiet] set_len_def no_script quiet sync_no_script
        sys_write_def append_file_def candidate_name_state)
  ultimately have "\<exists>ns. normalize_file crc ?c a (sd_disk sd) = (Inr ns, sd_disk sd) \<and> ns_repaired ns \<and>
      ns_bytes_truncated ns = 64"
    using len(2) truncated
    by (auto simp: normalize_file_def publish_recovered_def sync_no_script [OF quiet] normalized_of_def Let_def)
  moreover have "analyze_file crc ?c (sd_disk sd) = (Inr a, sd_disk sd)"
    using analyze_file_no_script [OF quiet, of ?c ?bs crc] sealed a(1) by (simp add: candidate_name_state)
  ultimately show ?thesis
    by (auto simp: recover_candidate_def count_repaired_def count_truncated_def default_report_def checked_add_def)
qed

lemma sample_session_time [simp]: "cf_session_time (ef_metadata (sample_frame n)) = SessionTime (word_of_nat n)"
  by (simp add: sample_frame_def sample_metadata_def)

definition reversed_directory :: segment_directory where
  "reversed_directory = \<lparr>sd_disk = \<lparr>disk_files = (\<lambda>_. None)((SegmentId 0, Sealed) \<mapsto>
       segment_file sample_crc sample_header [sample_frame 4, sample_frame 2]
         (encode_footer sample_crc (frames_footer sample_header [sample_frame 4, sample_frame 2]))),
     disk_script = [], disk_uuids = 1\<rparr>, sd_corrupt = (\<lambda>_. None)\<rparr>"

lemma reversed_times_repaired_again_witness:
  "recover_candidate sample_crc count_repaired \<lparr>cd_segment_id = SegmentId 0, cd_kind = SealedCandidate\<rparr>
      (default_report, reversed_directory) =
    (Inr (default_report\<lparr>rp_segments_repaired := 1, rp_bytes_truncated := 64\<rparr>), reversed_directory)"
  using reversed_times_repaired_again [of "[sample_frame 4, sample_frame 2]" sample_header sample_crc reversed_directory]
  by (simp add: reversed_directory_def less_session_time_def)
    (simp add: segment_file_def segment_header_len_def frames_footer_def last_or_def)

end
