(* ===== verification/Browser_Values.thy ===== *)
theory Browser_Values
  imports Core_Values "HOL-Library.Char_ord" "HOL-Library.List_Lexorder"
begin

text \<open>
  The browser values of \<open>crates/krometrail-core\<close>: the lifecycle tables (\<open>lifecycle.rs\<close>), page
  targets (\<open>browser/target.rs\<close>), sessions and capabilities (\<open>browser/session.rs\<close>), viewports
  (\<open>browser/viewport.rs\<close>) and page sequences (\<open>browser/contexts.rs\<close>). A Rust \<open>String\<close> is the list
  of its UTF-8 bytes as characters; the order of such lists is the byte order of \<open>str\<close>.
\<close>

section \<open>Text\<close>

text \<open>The UTF-8 encodings of the characters with the \<open>White_Space\<close> property.\<close>

definition white_space :: "string list" where
  "white_space =
     [[CHR 0x09], [CHR 0x0A], [CHR 0x0B], [CHR 0x0C], [CHR 0x0D], [CHR 0x20],
      [CHR 0xC2, CHR 0x85], [CHR 0xC2, CHR 0xA0], [CHR 0xE1, CHR 0x9A, CHR 0x80],
      [CHR 0xE2, CHR 0x80, CHR 0x80], [CHR 0xE2, CHR 0x80, CHR 0x81], [CHR 0xE2, CHR 0x80, CHR 0x82],
      [CHR 0xE2, CHR 0x80, CHR 0x83], [CHR 0xE2, CHR 0x80, CHR 0x84], [CHR 0xE2, CHR 0x80, CHR 0x85],
      [CHR 0xE2, CHR 0x80, CHR 0x86], [CHR 0xE2, CHR 0x80, CHR 0x87], [CHR 0xE2, CHR 0x80, CHR 0x88],
      [CHR 0xE2, CHR 0x80, CHR 0x89], [CHR 0xE2, CHR 0x80, CHR 0x8A], [CHR 0xE2, CHR 0x80, CHR 0xA8],
      [CHR 0xE2, CHR 0x80, CHR 0xA9], [CHR 0xE2, CHR 0x80, CHR 0xAF], [CHR 0xE2, CHR 0x81, CHR 0x9F],
      [CHR 0xE3, CHR 0x80, CHR 0x80]]"

fun starts_with :: "string \<Rightarrow> string \<Rightarrow> bool" where
  "starts_with s [] = True"
| "starts_with [] (p # ps) = False"
| "starts_with (c # s) (p # ps) = (c = p \<and> starts_with s ps)"

fun trim_with :: "string list \<Rightarrow> string \<Rightarrow> string" where
  "trim_with ws [] = []"
| "trim_with ws (c # s) =
     (case find (\<lambda>w. w \<noteq> [] \<and> starts_with (c # s) w) ws of
        None \<Rightarrow> c # s
      | Some w \<Rightarrow> trim_with ws (drop (length w - 1) s))"

definition trim :: "string \<Rightarrow> string" where
  "trim s = rev (trim_with (map rev white_space) (rev (trim_with white_space s)))"

definition ascii_lowercase :: "char \<Rightarrow> char" where
  "ascii_lowercase c =
     (let n = of_char c :: nat in if 65 \<le> n \<and> n \<le> 90 then char_of (n + 32) else c)"

definition blank :: "string \<Rightarrow> bool" where
  "blank s \<longleftrightarrow> trim s = []"

section \<open>Errors\<close>

datatype (plugins only: code) browser_error =
    TargetKeyEmpty
  | TargetTypeEmpty
  | TargetUrlEmpty
  | ZeroPageSequence
  | ViewportDimensionsOutOfRange
  | ViewportScaleTooLarge
  | ViewportScale core_error
  | CapabilityRepeated
  | CapabilityMissing
  | InvalidLifecycleTransition
  | InvalidSessionTransition
  | UnattachedInitialTargets
  | PageSequenceOverflow
  | AttachmentGenerationOverflow
  | PageTargetLimitExceeded
  | PageNotFound "target_id option"
  | PageNotAttached
  | TargetSupervisionFailed
  | BrowserProcessTerminated
  | ReconnectAttemptsExhausted
  | SupervisionCancelled
  | UnreachableInput

section \<open>Lifecycles\<close>

text \<open>One table of rows per lifecycle, as the macro declares it.\<close>

definition allows_transition :: "('l \<times> 'l list) list \<Rightarrow> 'l \<Rightarrow> 'l \<Rightarrow> bool" where
  "allows_transition transitions from next \<longleftrightarrow>
     list_ex (\<lambda>(row, allowed). row = from \<and> next \<in> set allowed) transitions"

definition transition :: "('l \<times> 'l list) list \<Rightarrow> 'l \<Rightarrow> 'l \<Rightarrow> browser_error + 'l" where
  "transition transitions from next =
     (if allows_transition transitions from next then Inr next else Inl InvalidLifecycleTransition)"

datatype session_lifecycle =
  SessionStarting | SessionRecording | SessionReconnecting | SessionStopping | SessionEnded

definition session_transitions :: "(session_lifecycle \<times> session_lifecycle list) list" where
  "session_transitions =
     [(SessionStarting, [SessionRecording, SessionReconnecting, SessionStopping]),
      (SessionRecording, [SessionReconnecting, SessionStopping]),
      (SessionReconnecting, [SessionRecording, SessionStopping]),
      (SessionStopping, [SessionEnded]),
      (SessionEnded, [])]"

datatype target_lifecycle =
  Discovered | Attached | Recording | Hidden | Suspended | Closed | Failed

definition target_transitions :: "(target_lifecycle \<times> target_lifecycle list) list" where
  "target_transitions =
     [(Discovered, [Attached, Suspended, Closed, Failed]),
      (Attached, [Recording, Hidden, Suspended, Closed, Failed]),
      (Recording, [Hidden, Suspended, Closed, Failed]),
      (Hidden, [Recording, Suspended, Closed, Failed]),
      (Suspended, [Discovered, Attached, Recording, Hidden, Closed, Failed]),
      (Closed, []),
      (Failed, [])]"

abbreviation target_transition :: "target_lifecycle \<Rightarrow> target_lifecycle \<Rightarrow> browser_error + target_lifecycle" where
  "target_transition \<equiv> transition target_transitions"

definition terminal :: "target_lifecycle \<Rightarrow> bool" where
  "terminal l \<longleftrightarrow> l = Closed \<or> l = Failed"

lemma transition_Inr_iff [result_simps]:
  "transition table l l' = Inr x \<longleftrightarrow> x = l' \<and> allows_transition table l l'"
  by (auto simp: transition_def)

lemma target_transition_iff:
  "allows_transition target_transitions l l' \<longleftrightarrow>
     \<not> terminal l \<and> l' \<noteq> l \<and>
     (l' = Discovered \<longrightarrow> l = Suspended) \<and>
     (l' = Attached \<longrightarrow> l \<in> {Discovered, Suspended}) \<and>
     (l' \<in> {Recording, Hidden} \<longrightarrow> l \<noteq> Discovered)"
  by (cases l; cases l') (simp_all add: allows_transition_def target_transitions_def terminal_def)

lemma terminal_simps [simp]:
  "terminal Closed" "terminal Failed" "\<not> terminal Discovered" "\<not> terminal Attached"
  "\<not> terminal Recording" "\<not> terminal Hidden" "\<not> terminal Suspended"
  by (simp_all add: terminal_def)

lemma transition_live [simp]:
  "\<not> terminal l \<Longrightarrow> target_transition l Failed = Inr Failed"
  "\<not> terminal l \<Longrightarrow> target_transition l Closed = Inr Closed"
  "\<not> terminal l \<Longrightarrow> l \<noteq> Suspended \<Longrightarrow> target_transition l Suspended = Inr Suspended"
  by (auto simp: transition_def target_transition_iff)

section \<open>Pages\<close>

record page_target =
  pt_id :: target_id
  pt_browser_target_key :: string
  pt_url :: string
  pt_title :: string

definition page_target_new :: "target_id \<Rightarrow> string \<Rightarrow> string \<Rightarrow> string \<Rightarrow> browser_error + page_target" where
  "page_target_new tid key url title =
     (if blank key then Inl TargetKeyEmpty
      else if blank url then Inl TargetUrlEmpty
      else Inr \<lparr>pt_id = tid, pt_browser_target_key = key, pt_url = url, pt_title = title\<rparr>)"

lemma page_target_new_Inr_iff [result_simps]:
  "page_target_new tid key url title = Inr (p :: page_target) \<longleftrightarrow>
     \<not> blank key \<and> \<not> blank url \<and>
     p = \<lparr>pt_id = tid, pt_browser_target_key = key, pt_url = url, pt_title = title\<rparr>"
  by (auto simp: page_target_new_def)

datatype target_visibility = VisibilityUnknown | Visible | VisibilityHidden

record supervised_target =
  st_target :: page_target
  st_lifecycle :: target_lifecycle
  st_visibility :: target_visibility
  st_attachment_generation :: u64

datatype page_sequence = PageSequence (sequence_value: u64)

definition page_sequence_new :: "u64 \<Rightarrow> browser_error + page_sequence" where
  "page_sequence_new value = (if value = 0 then Inl ZeroPageSequence else Inr (PageSequence value))"

lemma page_sequence_new_Inr_iff [result_simps]:
  "page_sequence_new v = Inr s \<longleftrightarrow> v \<noteq> 0 \<and> s = PageSequence v"
  by (auto simp: page_sequence_new_def)

definition max_known_page_targets :: nat where
  "max_known_page_targets = 128"

section \<open>Sessions and capabilities\<close>

datatype browser_session_state = Connecting | Ready | Reconnecting | Stopping | Ended

datatype renderer_capability =
    BrowserIdentity | TargetDiscovery | FlatTargetSessions | PageCapability | Runtime
  | Accessibility | InputCapability | Screencast

definition required_capabilities :: "renderer_capability list" where
  "required_capabilities =
     [BrowserIdentity, TargetDiscovery, FlatTargetSessions, PageCapability, Runtime,
      Accessibility, InputCapability, Screencast]"

record capability_support =
  cs_capability :: renderer_capability
  cs_available :: bool
  cs_required :: bool
  cs_detail :: "string option"

datatype browser_product = Chrome | Chromium | ElectronRenderer | OtherChromium

record browser_version =
  bv_product :: browser_product
  bv_product_version :: string
  bv_revision :: string
  bv_protocol_version :: string
  bv_user_agent :: string
  bv_js_version :: string

record browser_compatibility =
  bc_version :: browser_version
  bc_capabilities :: "capability_support list"

definition repeats_capability :: "capability_support list \<Rightarrow> bool" where
  "repeats_capability supports \<longleftrightarrow>
     list_ex (\<lambda>index. list_ex (\<lambda>prior. cs_capability prior = cs_capability (supports ! index))
         (take index supports)) [0..<length supports]"

definition compatibility_validate :: "browser_compatibility \<Rightarrow> browser_error + unit" where
  "compatibility_validate c =
     (if repeats_capability (bc_capabilities c) then Inl CapabilityRepeated
      else if list_ex (\<lambda>required. \<not> list_ex (\<lambda>support. cs_capability support = required) (bc_capabilities c))
          required_capabilities then Inl CapabilityMissing
      else Inr ())"

definition compatibility_new ::
    "browser_version \<Rightarrow> capability_support list \<Rightarrow> browser_error + browser_compatibility" where
  "compatibility_new version capabilities =
     (let c = \<lparr>bc_version = version, bc_capabilities = capabilities\<rparr> in
      and_then (compatibility_validate c) (\<lambda>_. Inr c))"

definition capability_of :: "browser_compatibility \<Rightarrow> renderer_capability \<Rightarrow> capability_support option" where
  "capability_of c capability = find (\<lambda>support. cs_capability support = capability) (bc_capabilities c)"

section \<open>Viewports\<close>

record viewport_metrics =
  vm_width :: u32
  vm_height :: u32
  vm_device_scale_factor :: device_scale_factor
  vm_mobile :: bool
  vm_touch :: bool

definition max_viewport_dimension :: u32 where
  "max_viewport_dimension = 10000"

text \<open>\<open>factor > 8.0\<close> on bit patterns: positive, above that of 8.0 and not above infinity's (a NaN).\<close>

definition f64_exceeds_8 :: "u64 \<Rightarrow> bool" where
  "f64_exceeds_8 b \<longleftrightarrow> 0x4020000000000000 < b \<and> b \<le> 0x7FF0000000000000"

definition viewport_metrics_new ::
    "u32 \<Rightarrow> u32 \<Rightarrow> u64 \<Rightarrow> bool \<Rightarrow> bool \<Rightarrow> browser_error + viewport_metrics" where
  "viewport_metrics_new width height factor mobile touch =
     (if \<not> (1 \<le> width \<and> width \<le> max_viewport_dimension) \<or>
         \<not> (1 \<le> height \<and> height \<le> max_viewport_dimension)
      then Inl ViewportDimensionsOutOfRange
      else if f64_exceeds_8 factor then Inl ViewportScaleTooLarge
      else and_then (map_err ViewportScale (device_scale_factor_new factor)) (\<lambda>scale.
        Inr \<lparr>vm_width = width, vm_height = height, vm_device_scale_factor = scale,
          vm_mobile = mobile, vm_touch = touch\<rparr>))"

datatype viewport_preset =
  ResponsiveSmall | ResponsiveTablet | ResponsiveDesktop | MobilePhone | MobileTablet

definition preset_values :: "viewport_preset \<Rightarrow> u32 \<times> u32 \<times> u64 \<times> bool \<times> bool" where
  "preset_values p = (case p of
       ResponsiveSmall \<Rightarrow> (390, 844, 0x3FF0000000000000, False, False)
     | ResponsiveTablet \<Rightarrow> (768, 1024, 0x3FF0000000000000, False, False)
     | ResponsiveDesktop \<Rightarrow> (1440, 900, 0x3FF0000000000000, False, False)
     | MobilePhone \<Rightarrow> (390, 844, 0x4008000000000000, True, True)
     | MobileTablet \<Rightarrow> (768, 1024, 0x4000000000000000, True, True))"

text \<open>The source's \<open>expect\<close> is the error here.\<close>

definition preset_materialize :: "viewport_preset \<Rightarrow> browser_error + viewport_metrics" where
  "preset_materialize p =
     (case preset_values p of (width, height, factor, mobile, touch) \<Rightarrow>
        viewport_metrics_new width height factor mobile touch)"

end
