(* ===== verification/Target_Model.thy ===== *)
theory Target_Model
  imports Browser_Values Hash_Map
begin

text \<open>
  Transport-neutral target supervision values (\<open>krometrail-cdp/src/targets/model.rs\<close>): what the
  transport reports, the supervisor's state with its views, its inputs and the effects it asks for.
  The payload of \<open>ConnectionLost\<close> and \<open>BrowserProcessTerminated\<close> only reaches the log.
\<close>

section \<open>What the transport reports\<close>

datatype transport_session_id = TransportSessionId string

record transport_target_info =
  ti_target_key :: string
  ti_target_type :: string
  ti_url :: string
  ti_title :: string
  ti_attached :: bool
  ti_browser_context_key :: "string option"
  ti_opener_target_key :: "string option"

definition target_info_new ::
    "string \<Rightarrow> string \<Rightarrow> string \<Rightarrow> string \<Rightarrow> bool \<Rightarrow> string option \<Rightarrow> browser_error + transport_target_info" where
  "target_info_new key ttype url title attached context =
     (if blank key then Inl TargetKeyEmpty
      else if blank ttype then Inl TargetTypeEmpty
      else Inr \<lparr>ti_target_key = key, ti_target_type = ttype, ti_url = url, ti_title = title,
        ti_attached = attached, ti_browser_context_key = context, ti_opener_target_key = None\<rparr>)"

definition with_opener_target_key :: "string option \<Rightarrow> transport_target_info \<Rightarrow> transport_target_info" where
  "with_opener_target_key opener info = info\<lparr>ti_opener_target_key := opener\<rparr>"

definition is_internal_url :: "string \<Rightarrow> bool" where
  "is_internal_url url =
     (let lower = map ascii_lowercase (trim url) in
      list_ex (starts_with lower)
        [''devtools://'', ''chrome://'', ''chrome-extension://'', ''edge://'',
         ''about:devtools'', ''about:inspect''])"

definition is_recordable :: "transport_target_info \<Rightarrow> bool" where
  "is_recordable info \<longleftrightarrow>
     ti_target_type info = ''page'' \<and> \<not> blank (ti_url info) \<and> \<not> is_internal_url (ti_url info)"

record reconnected_target =
  rt_info :: transport_target_info
  rt_session :: "transport_session_id option"
  rt_visibility :: target_visibility

record reconnected_snapshot =
  rs_connection_generation :: u64
  rs_compatibility :: browser_compatibility
  rs_targets :: "reconnected_target list"

section \<open>The supervisor's state\<close>

record capture_context =
  cc_target_id :: target_id
  cc_connection_generation :: u64
  cc_attachment_generation :: u64
  cc_transport_session :: transport_session_id

record viewport_context =
  vc_target_id :: target_id
  vc_target_key :: string
  vc_connection_generation :: u64
  vc_attachment_generation :: u64
  vc_transport_session :: transport_session_id

datatype capture_binding =
    BindingInactive
  | BindingUnavailable
  | BindingActive capture_context
  | BindingSuspended capture_context
  | BindingTerminal

record target_state =
  ts_target :: supervised_target
  ts_transport_session :: "transport_session_id option"
  ts_prior_to_suspension :: "target_lifecycle option"
  ts_capture_binding :: capture_binding
  ts_viewport_override :: "viewport_metrics option"
  ts_page_sequence :: page_sequence
  ts_opener_target_key :: "string option"
  ts_opener_target_id :: "target_id option"
  ts_last_visibility_observed_at :: "session_time option"

abbreviation ts_lifecycle :: "target_state \<Rightarrow> target_lifecycle" where
  "ts_lifecycle t \<equiv> st_lifecycle (ts_target t)"

abbreviation ts_id :: "target_state \<Rightarrow> target_id" where
  "ts_id t \<equiv> pt_id (st_target (ts_target t))"

abbreviation set_lifecycle :: "target_lifecycle \<Rightarrow> target_state \<Rightarrow> target_state" where
  "set_lifecycle l t \<equiv> t\<lparr>ts_target := (ts_target t)\<lparr>st_lifecycle := l\<rparr>\<rparr>"

record supervisor_state =
  ss_session_state :: browser_session_state
  ss_connection_generation :: u64
  ss_revision :: u64
  ss_compatibility :: browser_compatibility
  ss_targets_by_key :: "(string, target_state) hmap"
  ss_target_key_by_session :: "(transport_session_id, string) hmap"
  ss_pending_attached_sessions :: "(string, transport_session_id) hmap"
  ss_pending_attached_order :: "string list"
  ss_selected_target_key :: "string option"
  ss_next_page_sequence :: u64

abbreviation target_at :: "supervisor_state \<Rightarrow> string \<Rightarrow> target_state option" where
  "target_at s key \<equiv> hm_get (ss_targets_by_key s) key"

definition put_target :: "string \<Rightarrow> target_state \<Rightarrow> supervisor_state \<Rightarrow> supervisor_state" where
  "put_target key t s = s\<lparr>ss_targets_by_key := hm_insert key t (ss_targets_by_key s)\<rparr>"

definition supervisor_new :: "browser_compatibility \<Rightarrow> supervisor_state" where
  "supervisor_new compatibility =
     \<lparr>ss_session_state = Connecting, ss_connection_generation = 0, ss_revision = 0,
      ss_compatibility = compatibility, ss_targets_by_key = [], ss_target_key_by_session = [],
      ss_pending_attached_sessions = [], ss_pending_attached_order = [],
      ss_selected_target_key = None, ss_next_page_sequence = 2\<rparr>"

section \<open>Views of the state\<close>

definition live :: "target_state \<Rightarrow> bool" where
  "live t \<longleftrightarrow> \<not> terminal (ts_lifecycle t)"

datatype open_dialog_state = NoDialog | DialogUnknown

record page_status =
  ps_target :: supervised_target
  ps_selected :: bool
  ps_open_dialog :: open_dialog_state

record page_context_status =
  pcs_page :: page_status
  pcs_sequence :: page_sequence
  pcs_opener_target_id :: "target_id option"

record page_context_inventory =
  pci_cursor :: page_sequence
  pci_pages :: "page_context_status list"

definition page_context_of :: "supervisor_state \<Rightarrow> target_state \<Rightarrow> page_context_status" where
  "page_context_of s t =
     \<lparr>pcs_page = \<lparr>ps_target = ts_target t,
        ps_selected = (ss_selected_target_key s = Some (pt_browser_target_key (st_target (ts_target t)))),
        ps_open_dialog = DialogUnknown\<rparr>,
      pcs_sequence = ts_page_sequence t,
      pcs_opener_target_id = (case ts_opener_target_id t of None \<Rightarrow> None
        | Some i \<Rightarrow> if list_ex (\<lambda>(_, candidate). ts_id candidate = i \<and> live candidate)
              (ss_targets_by_key s) then Some i else None)\<rparr>"

definition page_contexts :: "supervisor_state \<Rightarrow> browser_error + page_context_inventory" where
  "page_contexts s =
     and_then (page_sequence_new (saturating_sub (ss_next_page_sequence s) 1)) (\<lambda>cursor.
       Inr \<lparr>pci_cursor = cursor,
         pci_pages = sort_key (\<lambda>page. sequence_value (pcs_sequence page))
           (map (\<lambda>(_, t). page_context_of s t)
             (filter (\<lambda>(_, t). live t) (ss_targets_by_key s)))\<rparr>)"

definition supervised_targets :: "supervisor_state \<Rightarrow> supervised_target list" where
  "supervised_targets s =
     sort_key (\<lambda>target. pt_browser_target_key (st_target target))
       (map (\<lambda>(_, t). ts_target t) (filter (\<lambda>(_, t). live t) (ss_targets_by_key s)))"

definition attached_page :: "target_state \<Rightarrow> bool" where
  "attached_page t \<longleftrightarrow>
     ts_transport_session t \<noteq> None \<and> ts_lifecycle t \<notin> {Closed, Failed, Suspended}"

definition selected_target :: "supervisor_state \<Rightarrow> target_state option" where
  "selected_target s =
     (case Option.bind (ss_selected_target_key s) (target_at s) of
        Some t \<Rightarrow> if attached_page t then Some t else None
      | None \<Rightarrow> None)"

datatype page_selection = SelectedPage | TargetPage target_id

definition resolve_selection :: "supervisor_state \<Rightarrow> page_selection \<Rightarrow> browser_error + target_state" where
  "resolve_selection s selection =
     (let context = (case selection of SelectedPage \<Rightarrow> None | TargetPage i \<Rightarrow> Some i);
          found = (case selection of
            SelectedPage \<Rightarrow> selected_target s
          | TargetPage i \<Rightarrow> map_option snd (find (\<lambda>(_, t). ts_id t = i) (ss_targets_by_key s))) in
      and_then (ok_or (PageNotFound context) found) (\<lambda>t.
        if attached_page t then Inr t else Inl PageNotAttached))"

section \<open>Inputs and effects\<close>

datatype shutdown_cause = CauseStopRequested | CauseCancelled | CauseProcessTerminated | CauseReconnectExhausted

datatype supervisor_input =
    InitialTargets "transport_target_info list"
  | InitialReconciliationCompleted
  | TargetCreated transport_target_info
  | TargetInfoChanged transport_target_info
  | AttachedInput string transport_session_id
  | UnsolicitedAttached string transport_session_id
  | TargetAttachFailed string
  | CaptureStartFailed capture_context
  | Detached transport_session_id
  | TargetDestroyed string
  | VisibilityChanged string target_visibility session_time
  | DomainSetupFailed string
  | InitialVisibilityProbeFailed string
  | CaptureVisibilityChanged target_id target_visibility session_time
  | SelectTarget string
  | ViewportOverrideApplied string "viewport_metrics option"
  | ConnectionLost
  | BrowserProcessTerminatedInput
  | Reconnected reconnected_snapshot
  | ReconnectExhausted
  | StopRequested
  | Cancelled
  | ForConnectionGeneration u64 supervisor_input

datatype session_event =
    SessionStateChanged browser_session_state
  | SessionFailed browser_error
  | TargetDiscovered supervised_target
  | TargetChanged supervised_target
  | TargetClosed target_id
  | SelectedTargetChanged "target_id option" "target_id option"
  | TargetFailed target_id browser_error

datatype supervisor_effect =
    Attach string
  | ReleaseWaitingTarget transport_session_id
  | Detach transport_session_id
  | RestoreSessionDomains string transport_session_id
  | RestoreViewport viewport_context viewport_metrics
  | ProbeInitialVisibility string transport_session_id
  | StartCapture capture_context
  | SuspendCapture capture_context
  | ResumeCapture capture_context
  | StopCapture capture_context
  | Publish session_event
  | BeginReconnect
  | Shutdown shutdown_cause

definition make_target :: "target_id \<Rightarrow> transport_target_info \<Rightarrow> target_lifecycle \<Rightarrow>
    target_visibility \<Rightarrow> u64 \<Rightarrow> browser_error + supervised_target" where
  "make_target tid info lifecycle visibility generation =
     and_then (page_target_new tid (ti_target_key info) (ti_url info) (ti_title info)) (\<lambda>target.
       Inr \<lparr>st_target = target, st_lifecycle = lifecycle, st_visibility = visibility,
         st_attachment_generation = generation\<rparr>)"

definition close_event :: "target_state \<Rightarrow> supervisor_effect" where
  "close_event t = Publish (TargetClosed (ts_id t))"

definition target_changed_event :: "target_state \<Rightarrow> supervisor_effect" where
  "target_changed_event t = Publish (TargetChanged (ts_target t))"

definition target_discovered_event :: "target_state \<Rightarrow> supervisor_effect" where
  "target_discovered_event t = Publish (TargetDiscovered (ts_target t))"

end
