(* ===== verification/Target_Reducer.thy ===== *)
theory Target_Reducer
  imports Target_Model Wire
begin

text \<open>
  The deterministic reducer of target and session state (\<open>krometrail-cdp/src/targets/reducer.rs\<close>).
  A function that mutates the state and pushes effects maps a pair of both; one that returns
  \<open>Result<()>\<close> is fallible, and the caller's \<open>?\<close> is \<open>and_then\<close>. The reducer owns its state, so on
  an error nothing of it is left.
\<close>

type_synonym reduction = "supervisor_state \<times> supervisor_effect list"

definition max_pending_attached_sessions :: nat where
  "max_pending_attached_sessions = 16"

definition push :: "supervisor_effect \<Rightarrow> reduction \<Rightarrow> reduction" where
  "push effect = (\<lambda>(s, effects). (s, effects @ [effect]))"

definition publish :: "session_event \<Rightarrow> reduction \<Rightarrow> reduction" where
  "publish event = (\<lambda>(s, effects).
     (s\<lparr>ss_revision := saturating_add (ss_revision s) 1\<rparr>, effects @ [Publish event]))"

section \<open>The session state\<close>

definition session_state_allowed :: "browser_session_state \<Rightarrow> browser_session_state \<Rightarrow> bool" where
  "session_state_allowed from next \<longleftrightarrow>
     (from, next) \<in> {(Connecting, Ready), (Connecting, Reconnecting), (Connecting, Stopping),
       (Ready, Reconnecting), (Ready, Stopping), (Reconnecting, Ready), (Reconnecting, Stopping),
       (Stopping, Ended), (Connecting, Ended)}"

definition set_session_state :: "browser_session_state \<Rightarrow> reduction \<Rightarrow> browser_error + reduction" where
  "set_session_state next = (\<lambda>(s, effects).
     if ss_session_state s = next then Inr (s, effects)
     else if \<not> session_state_allowed (ss_session_state s) next then Inl InvalidSessionTransition
     else Inr (publish (SessionStateChanged next) (s\<lparr>ss_session_state := next\<rparr>, effects)))"

definition begin_shutdown :: "shutdown_cause \<Rightarrow> reduction \<Rightarrow> browser_error + reduction" where
  "begin_shutdown cause = (\<lambda>(s, effects).
     if ss_session_state s = Ended then Inr (s, effects)
     else if ss_session_state s \<noteq> Stopping then
       and_then (set_session_state Stopping (s, effects)) (\<lambda>r. Inr (push (Shutdown cause) r))
     else Inr (s, effects))"

section \<open>Identifiers and room for a new target\<close>

text \<open>The loop over the bytes of the key: two FNV-style accumulators.\<close>

fun hash_key :: "nat \<Rightarrow> string \<Rightarrow> u64 \<times> u64 \<Rightarrow> u64 \<times> u64" where
  "hash_key index [] acc = acc"
| "hash_key index (byte # key) (hash1, hash2) =
     (let hash1 = (xor hash1 (of_char byte)) * 0x100000001b3;
          hash2 = (xor hash2 (word_rotl (index mod 63) hash1)) * 0x100000001b3 in
      hash_key (Suc index) key (hash1, hash2))"

definition target_id_bytes :: "u64 \<Rightarrow> u64 \<Rightarrow> string \<Rightarrow> byte_string" where
  "target_id_bytes revision generation key =
     (case hash_key 0 key (xor 0xcbf29ce484222325 revision, xor 0x9e3779b185ebca87 generation) of
        (hash1, hash2) \<Rightarrow>
          let bytes = to_be_bytes 8 hash1 @ to_be_bytes 8 hash2;
              bytes = bytes[6 := or (and (bytes ! 6) 0x0f) 0x40] in
          bytes[8 := or (and (bytes ! 8) 0x3f) 0x80])"

definition allocate_target_id :: "string \<Rightarrow> supervisor_state \<Rightarrow> target_id \<times> supervisor_state" where
  "allocate_target_id key s =
     (let s = s\<lparr>ss_revision := saturating_add (ss_revision s) 1\<rparr> in
      (TargetId (from_be_bytes (target_id_bytes (ss_revision s) (ss_connection_generation s) key)), s))"

definition ensure_page_target_count :: "nat \<Rightarrow> browser_error + unit" where
  "ensure_page_target_count count =
     (if count > max_known_page_targets then Inl PageTargetLimitExceeded else Inr ())"

definition live_count :: "supervisor_state \<Rightarrow> nat" where
  "live_count s = length (filter (\<lambda>(_, t). live t) (ss_targets_by_key s))"

definition prepare_page_target_slot :: "supervisor_state \<Rightarrow> browser_error + supervisor_state" where
  "prepare_page_target_slot s =
     and_then (ensure_page_target_count (live_count s + 1)) (\<lambda>_.
       if length (ss_targets_by_key s) \<ge> max_known_page_targets then
         let targets = hm_retain (\<lambda>_. live) (ss_targets_by_key s) in
         Inr (s\<lparr>ss_targets_by_key := targets,
           ss_target_key_by_session := hm_retain (\<lambda>_ key. hm_get targets key \<noteq> None)
             (ss_target_key_by_session s)\<rparr>)
       else Inr s)"

section \<open>The selected page\<close>

definition selection_candidate :: "supervisor_state \<Rightarrow> string \<Rightarrow> bool" where
  "selection_candidate s key = (case target_at s key of None \<Rightarrow> False | Some t \<Rightarrow> attached_page t)"

definition selected_id :: "supervisor_state \<Rightarrow> string option \<Rightarrow> target_id option" where
  "selected_id s key = map_option ts_id (Option.bind key (target_at s))"

definition set_selection :: "string option \<Rightarrow> reduction \<Rightarrow> reduction" where
  "set_selection selected = (\<lambda>(s, effects).
     if ss_selected_target_key s = selected then (s, effects)
     else publish
       (SelectedTargetChanged (selected_id s (ss_selected_target_key s)) (selected_id s selected))
       (s\<lparr>ss_selected_target_key := selected\<rparr>, effects))"

definition minimum :: "'a::linorder list \<Rightarrow> 'a option" where
  "minimum xs = (case xs of [] \<Rightarrow> None | x # xs \<Rightarrow> Some (fold min xs x))"

definition reconcile_selection :: "reduction \<Rightarrow> reduction" where
  "reconcile_selection = (\<lambda>(s, effects).
     if (case ss_selected_target_key s of None \<Rightarrow> False | Some key \<Rightarrow> selection_candidate s key)
     then (s, effects)
     else set_selection (minimum (filter (selection_candidate s) (hm_keys (ss_targets_by_key s))))
       (s, effects))"

definition select_target :: "string \<Rightarrow> reduction \<Rightarrow> browser_error + reduction" where
  "select_target key = (\<lambda>(s, effects).
     if \<not> selection_candidate s key then Inl TargetSupervisionFailed
     else Inr (set_selection (Some key) (s, effects)))"

section \<open>Sessions attached before their target is known\<close>

definition remove_pending_key :: "string \<Rightarrow> supervisor_state \<Rightarrow> transport_session_id option \<times> supervisor_state" where
  "remove_pending_key key s =
     (hm_get (ss_pending_attached_sessions s) key,
      s\<lparr>ss_pending_attached_order := filter (\<lambda>pending. pending \<noteq> key) (ss_pending_attached_order s),
        ss_pending_attached_sessions := hm_remove key (ss_pending_attached_sessions s)\<rparr>)"

definition remove_pending_session :: "transport_session_id \<Rightarrow> supervisor_state \<Rightarrow> supervisor_state" where
  "remove_pending_session session s =
     fold (\<lambda>key s. snd (remove_pending_key key s))
       (map fst (filter (\<lambda>(_, pending). pending = session) (ss_pending_attached_sessions s))) s"

text \<open>Drop the oldest pending sessions while there are more than the limit.\<close>

fun evict_pending :: "string list \<Rightarrow> (string, transport_session_id) hmap \<Rightarrow> supervisor_effect list \<Rightarrow>
    string list \<times> (string, transport_session_id) hmap \<times> supervisor_effect list" where
  "evict_pending [] pending effects = ([], pending, effects)"
| "evict_pending (oldest # order) pending effects =
     (if length pending > max_pending_attached_sessions then
        evict_pending order (hm_remove oldest pending)
          (effects @ (case hm_get pending oldest of None \<Rightarrow> [] | Some session \<Rightarrow> [Detach session]))
      else (oldest # order, pending, effects))"

definition attach_pending :: "string \<Rightarrow> transport_session_id \<Rightarrow> bool \<Rightarrow> reduction \<Rightarrow> reduction" where
  "attach_pending key session unsolicited = (\<lambda>(s, effects).
     let replaced = (case hm_get (ss_pending_attached_sessions s) key of
           None \<Rightarrow> [] | Some previous \<Rightarrow> [Detach previous]);
         released = (if unsolicited then [ReleaseWaitingTarget session] else []);
         order = (if key \<in> set (ss_pending_attached_order s) then ss_pending_attached_order s
           else ss_pending_attached_order s @ [key]) in
     case evict_pending order (hm_insert key session (ss_pending_attached_sessions s))
         (effects @ replaced @ released) of
       (order, pending, effects) \<Rightarrow>
         (s\<lparr>ss_pending_attached_sessions := pending, ss_pending_attached_order := order\<rparr>, effects))"

section \<open>Attachment\<close>

definition viewport_effects :: "string \<Rightarrow> transport_session_id \<Rightarrow> u64 \<Rightarrow> target_state \<Rightarrow> supervisor_effect list" where
  "viewport_effects key session connection t =
     (case ts_viewport_override t of None \<Rightarrow> []
      | Some viewport \<Rightarrow>
          [RestoreViewport \<lparr>vc_target_id = ts_id t, vc_target_key = key,
             vc_connection_generation = connection,
             vc_attachment_generation = st_attachment_generation (ts_target t),
             vc_transport_session = session\<rparr> viewport])"

definition attached_lifecycle :: "target_state \<Rightarrow> browser_error + target_lifecycle" where
  "attached_lifecycle t =
     and_then (target_transition (ts_lifecycle t)
       (case ts_prior_to_suspension t of None \<Rightarrow> Attached | Some prior \<Rightarrow> prior)) (\<lambda>l.
     if l = Discovered then target_transition l Attached else Inr l)"

definition attach_target :: "string \<Rightarrow> transport_session_id \<Rightarrow> bool \<Rightarrow> target_state \<Rightarrow> reduction \<Rightarrow>
    browser_error + reduction" where
  "attach_target key session probe_visibility t = (\<lambda>(s, effects).
     let (by_session, effects) = (case ts_transport_session t of
           None \<Rightarrow> (ss_target_key_by_session s, effects)
         | Some previous \<Rightarrow>
             (hm_remove previous (ss_target_key_by_session s), effects @ [Detach previous]));
         by_session = hm_insert session key by_session in
     and_then (ok_or AttachmentGenerationOverflow
       (checked_add (st_attachment_generation (ts_target t)) 1)) (\<lambda>generation.
     and_then (attached_lifecycle t) (\<lambda>lifecycle.
     let t = t\<lparr>ts_transport_session := Some session, ts_prior_to_suspension := None,
           ts_target := (ts_target t)\<lparr>st_lifecycle := lifecycle,
             st_attachment_generation := generation\<rparr>\<rparr> in
     Inr (put_target key t (s\<lparr>ss_target_key_by_session := by_session\<rparr>),
       effects @ [target_changed_event t] @
       viewport_effects key session (ss_connection_generation s) t @
       (if probe_visibility then [RestoreSessionDomains key session] else [])))))"

definition attach :: "string \<Rightarrow> transport_session_id \<Rightarrow> bool \<Rightarrow> bool \<Rightarrow> reduction \<Rightarrow> browser_error + reduction" where
  "attach key session probe_visibility unsolicited = (\<lambda>(s, effects).
     case target_at s key of
       None \<Rightarrow> Inr (attach_pending key session unsolicited (s, effects))
     | Some t \<Rightarrow>
         if terminal (ts_lifecycle t) \<or> ts_transport_session t = Some session then Inr (s, effects)
         else attach_target key session probe_visibility t (s, effects))"

definition adopt_pending_attachment :: "string \<Rightarrow> reduction \<Rightarrow> browser_error + reduction" where
  "adopt_pending_attachment key = (\<lambda>(s, effects).
     case remove_pending_key key s of
       (None, s) \<Rightarrow> Inr (s, effects)
     | (Some session, s) \<Rightarrow> attach key session True False (s, effects))"

section \<open>Failure and closure of a target\<close>

definition target_failed :: "target_id \<Rightarrow> reduction \<Rightarrow> reduction" where
  "target_failed tid r = reconcile_selection (publish (TargetFailed tid TargetSupervisionFailed) r)"

definition attach_failed :: "string \<Rightarrow> reduction \<Rightarrow> browser_error + reduction" where
  "attach_failed key = (\<lambda>(s, effects).
     case target_at s key of
       None \<Rightarrow> Inr (s, effects)
     | Some t \<Rightarrow>
         if terminal (ts_lifecycle t) then Inr (s, effects)
         else and_then (target_transition (ts_lifecycle t) Failed) (\<lambda>l.
           Inr (target_failed (ts_id t) (put_target key (set_lifecycle l t) s, effects))))"

definition detach_failed :: "transport_session_id \<Rightarrow> reduction \<Rightarrow> browser_error + reduction" where
  "detach_failed session = (\<lambda>(s, effects).
     case hm_get (ss_target_key_by_session s) session of
       None \<Rightarrow> Inr (s, effects)
     | Some key \<Rightarrow>
         let s = s\<lparr>ss_target_key_by_session := hm_remove session (ss_target_key_by_session s)\<rparr> in
         (case target_at s key of
            None \<Rightarrow> Inr (s, effects)
          | Some t \<Rightarrow>
              let t = t\<lparr>ts_transport_session := None\<rparr> in
              if terminal (ts_lifecycle t) then Inr (put_target key t s, effects)
              else and_then (target_transition (ts_lifecycle t) Failed) (\<lambda>l.
                Inr (target_failed (ts_id t)
                  (put_target key (set_lifecycle l (t\<lparr>ts_prior_to_suspension := None\<rparr>)) s, effects)))))"

definition domain_setup_failed :: "string \<Rightarrow> reduction \<Rightarrow> browser_error + reduction" where
  "domain_setup_failed key = (\<lambda>(s, effects).
     case target_at s key of
       None \<Rightarrow> Inr (s, effects)
     | Some t \<Rightarrow>
         if terminal (ts_lifecycle t) then Inr (s, effects)
         else
           let (s, detach) = (case ts_transport_session t of
                 None \<Rightarrow> (s, [])
               | Some session \<Rightarrow>
                   (s\<lparr>ss_target_key_by_session := hm_remove session (ss_target_key_by_session s)\<rparr>,
                    [Detach session])) in
           and_then (target_transition (ts_lifecycle t) Failed) (\<lambda>l.
             Inr (target_failed (ts_id t)
               (put_target key (set_lifecycle l (t\<lparr>ts_transport_session := None,
                  ts_prior_to_suspension := None, ts_capture_binding := BindingTerminal\<rparr>)) s,
                effects @ detach))))"

definition destroy :: "string \<Rightarrow> reduction \<Rightarrow> browser_error + reduction" where
  "destroy key = (\<lambda>(s, effects).
     case target_at s key of
       None \<Rightarrow> Inr (s, effects)
     | Some t \<Rightarrow>
         if ts_lifecycle t = Closed then Inr (s, effects)
         else
           let (s, effects) = (case ts_transport_session t of
                 None \<Rightarrow> (s, effects)
               | Some session \<Rightarrow>
                   (s\<lparr>ss_target_key_by_session := hm_remove session (ss_target_key_by_session s)\<rparr>,
                    effects @ [Detach session]));
               t = t\<lparr>ts_transport_session := None\<rparr> in
           and_then (if ts_lifecycle t \<noteq> Failed then target_transition (ts_lifecycle t) Closed
             else Inr Failed) (\<lambda>l.
           let t = set_lifecycle l t in
           Inr (reconcile_selection (put_target key t s, effects @ [close_event t]))))"

section \<open>Reconciliation with what the browser reports\<close>

definition new_target_state :: "supervised_target \<Rightarrow> page_sequence \<Rightarrow> string option \<Rightarrow> target_id option \<Rightarrow>
    target_state" where
  "new_target_state target sequence opener_key opener_id =
     \<lparr>ts_target = target, ts_transport_session = None, ts_prior_to_suspension = None,
      ts_capture_binding = BindingInactive, ts_viewport_override = None,
      ts_page_sequence = sequence, ts_opener_target_key = opener_key,
      ts_opener_target_id = opener_id, ts_last_visibility_observed_at = None\<rparr>"

definition opener_id_of :: "transport_target_info \<Rightarrow> supervisor_state \<Rightarrow> target_id option" where
  "opener_id_of info s = map_option ts_id (Option.bind (ti_opener_target_key info) (target_at s))"

text \<open>Room, an identifier, a page sequence and the record of a newly seen target.\<close>

definition create_target :: "transport_target_info \<Rightarrow> target_visibility \<Rightarrow> supervisor_state \<Rightarrow>
    browser_error + target_state \<times> supervisor_state" where
  "create_target info visibility s =
     (let opener_id = opener_id_of info s; key = ti_target_key info in
      and_then (prepare_page_target_slot s) (\<lambda>s.
      case allocate_target_id key s of (tid, s) \<Rightarrow>
      and_then (page_sequence_new (ss_next_page_sequence s)) (\<lambda>sequence.
      and_then (ok_or PageSequenceOverflow (checked_add (ss_next_page_sequence s) 1)) (\<lambda>next.
      and_then (make_target tid info Discovered visibility 0) (\<lambda>target.
      Inr (new_target_state target sequence (ti_opener_target_key info) opener_id,
        s\<lparr>ss_next_page_sequence := next\<rparr>))))))"

definition renamed :: "target_state \<Rightarrow> transport_target_info \<Rightarrow> bool" where
  "renamed t info \<longleftrightarrow>
     pt_url (st_target (ts_target t)) \<noteq> ti_url info \<or> pt_title (st_target (ts_target t)) \<noteq> ti_title info"

definition update_page :: "transport_target_info \<Rightarrow> target_state \<Rightarrow> browser_error + target_state" where
  "update_page info t =
     and_then (page_target_new (ts_id t) (ti_target_key info) (ti_url info) (ti_title info)) (\<lambda>page.
       Inr (t\<lparr>ts_target := (ts_target t)\<lparr>st_target := page\<rparr>\<rparr>))"

definition create_reported :: "transport_target_info \<Rightarrow> bool \<Rightarrow> reduction \<Rightarrow> browser_error + reduction" where
  "create_reported info creation_event = (\<lambda>(s, effects).
     let key = ti_target_key info in
     and_then (create_target info VisibilityUnknown s) (\<lambda>(t, s).
     let s = put_target key t s;
         effects = (if creation_event then effects @ [target_discovered_event t] else effects) in
     if hm_get (ss_pending_attached_sessions s) key \<noteq> None
     then adopt_pending_attachment key (s, effects)
     else Inr (s, effects @ [Attach key])))"

definition reconcile_one :: "transport_target_info \<Rightarrow> bool \<Rightarrow> reduction \<Rightarrow> browser_error + reduction" where
  "reconcile_one info creation_event = (\<lambda>(s, effects).
     let key = ti_target_key info in
     if \<not> is_recordable info then
       (if target_at s key \<noteq> None then destroy key (s, effects) else Inr (s, effects))
     else case target_at s key of
       Some t \<Rightarrow>
         if terminal (ts_lifecycle t) then
           (if creation_event then create_reported info creation_event (s, effects) else Inr (s, effects))
         else if renamed t info then
           and_then (update_page info t) (\<lambda>t.
             adopt_pending_attachment key (put_target key t s, effects @ [target_changed_event t]))
         else adopt_pending_attachment key (s, effects)
     | None \<Rightarrow> create_reported info creation_event (s, effects))"

definition reconcile_initial :: "transport_target_info list \<Rightarrow> reduction \<Rightarrow> browser_error + reduction" where
  "reconcile_initial infos = (\<lambda>(s, effects).
     let recordable = filter is_recordable infos; keys = map ti_target_key recordable in
     and_then (ensure_page_target_count (length (remdups keys))) (\<lambda>_.
     and_then (fold_result (\<lambda>r key. if key \<in> set keys then Inr r else destroy key r)
       (s, effects) (hm_keys (ss_targets_by_key s))) (\<lambda>r.
     fold_result (\<lambda>r info. reconcile_one info True r) r recordable)))"

definition complete_initial :: "reduction \<Rightarrow> browser_error + reduction" where
  "complete_initial = (\<lambda>(s, effects).
     if list_ex (\<lambda>(_, t). live t \<and> ts_transport_session t = None) (ss_targets_by_key s)
     then Inl UnattachedInitialTargets
     else set_session_state Ready (reconcile_selection (s, effects)))"

section \<open>Visibility and reconnection\<close>

definition visible_lifecycle :: "target_lifecycle \<Rightarrow> target_visibility \<Rightarrow> target_lifecycle" where
  "visible_lifecycle l v =
     (case (l, v) of
        (Attached, VisibilityHidden) \<Rightarrow> Hidden
      | (Recording, VisibilityHidden) \<Rightarrow> Hidden
      | (Hidden, Visible) \<Rightarrow> Recording
      | (l, _) \<Rightarrow> l)"

definition visibility_changed :: "string \<Rightarrow> target_visibility \<Rightarrow> session_time \<Rightarrow> reduction \<Rightarrow>
    browser_error + reduction" where
  "visibility_changed key visibility observed_at = (\<lambda>(s, effects).
     case target_at s key of
       None \<Rightarrow> Inr (s, effects)
     | Some t \<Rightarrow>
         if terminal (ts_lifecycle t) then Inr (s, effects)
         else if (case ts_last_visibility_observed_at t of None \<Rightarrow> False | Some previous \<Rightarrow> observed_at < previous)
         then Inr (s, effects)
         else
           let t = t\<lparr>ts_last_visibility_observed_at := Some observed_at,
                 ts_capture_binding := (if ts_capture_binding t = BindingUnavailable
                   then BindingInactive else ts_capture_binding t)\<rparr> in
           if st_visibility (ts_target t) = visibility then Inr (put_target key t s, effects)
           else
             let next = visible_lifecycle (ts_lifecycle t) visibility in
             and_then (if next \<noteq> ts_lifecycle t then target_transition (ts_lifecycle t) next
               else Inr (ts_lifecycle t)) (\<lambda>l.
             let t = t\<lparr>ts_target := (ts_target t)\<lparr>st_lifecycle := l, st_visibility := visibility\<rparr>\<rparr> in
             Inr (put_target key t s, effects @ [target_changed_event t])))"

definition reconcile_restored :: "reconnected_target \<Rightarrow> reduction \<Rightarrow> browser_error + reduction" where
  "reconcile_restored restored = (\<lambda>(s, effects).
     let info = rt_info restored; key = ti_target_key info in
     case target_at s key of
       None \<Rightarrow>
         and_then (create_target info (rt_visibility restored) s) (\<lambda>(t, s).
         let s = put_target key t s in
         (case rt_session restored of
            Some session \<Rightarrow> attach key session False False (s, effects)
          | None \<Rightarrow> Inr (s, effects @ [Attach key])))
     | Some t \<Rightarrow>
         let changed = renamed t info in
         and_then (if changed then update_page info t else Inr t) (\<lambda>t.
         let t = t\<lparr>ts_target := (ts_target t)\<lparr>st_visibility := rt_visibility restored\<rparr>\<rparr>;
             s = put_target key t s;
             changes = (if changed then [target_changed_event t] else []) in
         (case rt_session restored of
            Some session \<Rightarrow> attach key session False False (s, effects)
          | None \<Rightarrow>
              if ts_transport_session t = None then Inr (s, effects @ changes @ [Attach key])
              else Inr (s, effects @ changes))))"

definition resolve_unresolved_openers :: "supervisor_state \<Rightarrow> supervisor_state" where
  "resolve_unresolved_openers s =
     s\<lparr>ss_targets_by_key := hm_map_values (\<lambda>_ t.
         if ts_opener_target_id t = None
         then t\<lparr>ts_opener_target_id :=
           map_option ts_id (Option.bind (ts_opener_target_key t) (target_at s))\<rparr>
         else t) (ss_targets_by_key s)\<rparr>"

definition forget_sessions :: "supervisor_state \<Rightarrow> supervisor_state" where
  "forget_sessions s =
     s\<lparr>ss_target_key_by_session := [], ss_pending_attached_sessions := [],
       ss_pending_attached_order := []\<rparr>"

definition reconnect :: "reconnected_snapshot \<Rightarrow> reduction \<Rightarrow> browser_error + reduction" where
  "reconnect snapshot = (\<lambda>(s, effects).
     if ss_session_state s \<in> {Stopping, Ended} then Inr (s, effects)
     else if rs_connection_generation snapshot \<le> ss_connection_generation s then Inr (s, effects)
     else
       let recordable = filter (\<lambda>target. is_recordable (rt_info target)) (rs_targets snapshot);
           seen = map (\<lambda>target. ti_target_key (rt_info target)) recordable in
       and_then (ensure_page_target_count (length (remdups seen))) (\<lambda>_.
       let s = s\<lparr>ss_connection_generation := rs_connection_generation snapshot,
             ss_compatibility := rs_compatibility snapshot\<rparr> in
       and_then (fold_result (\<lambda>r key. if key \<in> set seen then Inr r else destroy key r)
         (s, effects) (hm_keys (ss_targets_by_key s))) (\<lambda>(s, effects).
       and_then (fold_result (\<lambda>r restored. reconcile_restored restored r)
         (forget_sessions s, effects) recordable) (\<lambda>(s, effects).
       set_session_state Ready (reconcile_selection (resolve_unresolved_openers s, effects))))))"

text \<open>Every live target is suspended and loses its session.\<close>

definition suspend_target :: "reduction \<Rightarrow> string \<Rightarrow> browser_error + reduction" where
  "suspend_target = (\<lambda>(s, effects) key.
     case target_at s key of
       None \<Rightarrow> Inr (s, effects)
     | Some t \<Rightarrow>
         if terminal (ts_lifecycle t) then Inr (s, effects)
         else and_then
           (if ts_lifecycle t \<noteq> Suspended then
              and_then (target_transition (ts_lifecycle t) Suspended) (\<lambda>l.
                let t' = set_lifecycle l (t\<lparr>ts_prior_to_suspension := Some (ts_lifecycle t)\<rparr>) in
                Inr (t', [Publish (TargetChanged (ts_target t'))]))
            else Inr (t, []))
           (\<lambda>(t, changes). Inr (put_target key (t\<lparr>ts_transport_session := None\<rparr>) s, effects @ changes)))"

definition connection_lost :: "reduction \<Rightarrow> browser_error + reduction" where
  "connection_lost r =
     and_then (set_session_state Reconnecting r) (\<lambda>(s, effects).
     and_then (fold_result suspend_target (s, effects) (hm_keys (ss_targets_by_key s))) (\<lambda>(s, effects).
     Inr (forget_sessions s, effects @ [BeginReconnect])))"

section \<open>Capture bindings\<close>

definition teardown_session :: "supervisor_effect \<Rightarrow> transport_session_id option" where
  "teardown_session effect = (case effect of
     StopCapture context \<Rightarrow> Some (cc_transport_session context)
   | SuspendCapture context \<Rightarrow> Some (cc_transport_session context)
   | _ \<Rightarrow> None)"

definition teardown_before :: "transport_session_id \<Rightarrow> supervisor_effect \<Rightarrow> bool" where
  "teardown_before session existing = (case existing of
     Detach detached \<Rightarrow> detached = session
   | Shutdown cause \<Rightarrow> True
   | BeginReconnect \<Rightarrow> True
   | _ \<Rightarrow> False)"

definition queue_capture_teardown :: "supervisor_effect \<Rightarrow> supervisor_effect list \<Rightarrow> supervisor_effect list" where
  "queue_capture_teardown effect effects =
     (case teardown_session effect of
        None \<Rightarrow> effects @ [effect]
      | Some session \<Rightarrow>
          takeWhile (\<lambda>e. \<not> teardown_before session e) effects @ [effect] @
          dropWhile (\<lambda>e. \<not> teardown_before session e) effects)"

definition capture_eligible :: "supervisor_state \<Rightarrow> target_state \<Rightarrow> bool" where
  "capture_eligible s t \<longleftrightarrow>
     ss_session_state s = Ready \<and> st_visibility (ts_target t) = Visible \<and>
     ts_lifecycle t \<in> {Attached, Recording} \<and> ts_transport_session t \<noteq> None"

definition current_context :: "supervisor_state \<Rightarrow> target_state \<Rightarrow> capture_context option" where
  "current_context s t =
     map_option (\<lambda>session. \<lparr>cc_target_id = ts_id t,
       cc_connection_generation = ss_connection_generation s,
       cc_attachment_generation = st_attachment_generation (ts_target t),
       cc_transport_session = session\<rparr>) (ts_transport_session t)"

text \<open>Start or resume a capture of the current attachment; an eligible target has one.\<close>

definition begin_capture :: "(capture_context \<Rightarrow> supervisor_effect) \<Rightarrow> capture_context option \<Rightarrow>
    supervisor_effect list \<Rightarrow> capture_binding \<times> supervisor_effect list" where
  "begin_capture start context effects = (BindingActive (the context), effects @ [start (the context)])"

definition next_binding :: "supervisor_state \<Rightarrow> target_state \<Rightarrow> supervisor_effect list \<Rightarrow>
    capture_binding \<times> supervisor_effect list" where
  "next_binding s t effects =
     (let over = terminal (ts_lifecycle t);
          eligible = capture_eligible s t;
          context = current_context s t in
      case ts_capture_binding t of
        BindingInactive \<Rightarrow>
          if over then (BindingTerminal, effects)
          else if eligible then begin_capture StartCapture context effects
          else (BindingInactive, effects)
      | BindingActive previous \<Rightarrow>
          if over \<or> ss_session_state s = Stopping then
            (BindingTerminal, queue_capture_teardown (StopCapture previous) effects)
          else if ss_session_state s = Reconnecting \<or> ts_transport_session t = None then
            (BindingSuspended previous, queue_capture_teardown (SuspendCapture previous) effects)
          else if context \<noteq> Some previous then
            (let effects = queue_capture_teardown (StopCapture previous) effects in
             if eligible then begin_capture StartCapture context effects
             else (BindingInactive, effects))
          else (BindingActive previous, effects)
      | BindingSuspended previous \<Rightarrow>
          if over \<or> ss_session_state s = Stopping then
            (BindingTerminal, queue_capture_teardown (StopCapture previous) effects)
          else if eligible \<and> (case context of None \<Rightarrow> False | Some current \<Rightarrow>
              cc_attachment_generation current > cc_attachment_generation previous) then
            begin_capture ResumeCapture context effects
          else (BindingSuspended previous, effects)
      | BindingUnavailable \<Rightarrow>
          if over \<or> ss_session_state s = Stopping then (BindingTerminal, effects)
          else (BindingUnavailable, effects)
      | BindingTerminal \<Rightarrow> (BindingTerminal, effects))"

definition reconcile_binding :: "string \<Rightarrow> reduction \<Rightarrow> reduction" where
  "reconcile_binding key = (\<lambda>(s, effects).
     case target_at s key of
       None \<Rightarrow> (s, effects)
     | Some t \<Rightarrow>
         (case next_binding s t effects of (next, effects) \<Rightarrow>
            (put_target key (t\<lparr>ts_capture_binding := next\<rparr>) s, effects)))"

definition reconcile_capture_bindings :: "reduction \<Rightarrow> reduction" where
  "reconcile_capture_bindings r = fold reconcile_binding (hm_keys (ss_targets_by_key (fst r))) r"

definition capture_start_failed :: "capture_context \<Rightarrow> reduction \<Rightarrow> reduction" where
  "capture_start_failed context = (\<lambda>(s, effects).
     if ss_connection_generation s \<noteq> cc_connection_generation context then (s, effects)
     else case find (\<lambda>(_, t). ts_capture_binding t = BindingActive context) (ss_targets_by_key s) of
       None \<Rightarrow> (s, effects)
     | Some (key, t) \<Rightarrow>
         if terminal (ts_lifecycle t) then (s, effects)
         else let t = t\<lparr>ts_capture_binding := BindingUnavailable\<rparr> in
           (put_target key t s, effects @ [target_changed_event t]))"

definition visibility_probe_failed :: "string \<Rightarrow> reduction \<Rightarrow> reduction" where
  "visibility_probe_failed key = (\<lambda>(s, effects).
     case target_at s key of
       None \<Rightarrow> (s, effects)
     | Some t \<Rightarrow>
         if ts_transport_session t \<noteq> None \<and> st_visibility (ts_target t) = VisibilityUnknown \<and>
            ts_capture_binding t = BindingInactive
         then (put_target key (t\<lparr>ts_capture_binding := BindingUnavailable\<rparr>) s, effects)
         else (s, effects))"

definition viewport_applied :: "string \<Rightarrow> viewport_metrics option \<Rightarrow> reduction \<Rightarrow> browser_error + reduction" where
  "viewport_applied key viewport = (\<lambda>(s, effects).
     and_then (ok_or TargetSupervisionFailed (target_at s key)) (\<lambda>t.
       if \<not> attached_page t then Inl TargetSupervisionFailed
       else Inr (put_target key (t\<lparr>ts_viewport_override := viewport\<rparr>) s, effects)))"

section \<open>One serialized input\<close>

definition handle :: "supervisor_input \<Rightarrow> reduction \<Rightarrow> browser_error + reduction" where
  "handle input = (\<lambda>(s, effects). case input of
     InitialTargets infos \<Rightarrow> reconcile_initial infos (s, effects)
   | InitialReconciliationCompleted \<Rightarrow> complete_initial (s, effects)
   | TargetCreated info \<Rightarrow> reconcile_one info True (s, effects)
   | TargetInfoChanged info \<Rightarrow> reconcile_one info False (s, effects)
   | AttachedInput key session \<Rightarrow> attach key session True False (s, effects)
   | UnsolicitedAttached key session \<Rightarrow> attach key session True True (s, effects)
   | TargetAttachFailed key \<Rightarrow> attach_failed key (s, effects)
   | CaptureStartFailed context \<Rightarrow> Inr (capture_start_failed context (s, effects))
   | Detached session \<Rightarrow> detach_failed session (remove_pending_session session s, effects)
   | TargetDestroyed key \<Rightarrow>
       (case remove_pending_key key s of (pending, s) \<Rightarrow>
          destroy key (s, effects @ (case pending of None \<Rightarrow> [] | Some session \<Rightarrow> [Detach session])))
   | VisibilityChanged key visibility observed_at \<Rightarrow>
       visibility_changed key visibility observed_at (s, effects)
   | DomainSetupFailed key \<Rightarrow> domain_setup_failed key (s, effects)
   | InitialVisibilityProbeFailed key \<Rightarrow> Inr (visibility_probe_failed key (s, effects))
   | CaptureVisibilityChanged tid visibility observed_at \<Rightarrow>
       (case find (\<lambda>(_, t). ts_id t = tid) (ss_targets_by_key s) of
          None \<Rightarrow> Inr (s, effects)
        | Some (key, _) \<Rightarrow> visibility_changed key visibility observed_at (s, effects))
   | SelectTarget key \<Rightarrow> select_target key (s, effects)
   | ViewportOverrideApplied key viewport \<Rightarrow> viewport_applied key viewport (s, effects)
   | ConnectionLost \<Rightarrow> connection_lost (s, effects)
   | BrowserProcessTerminatedInput \<Rightarrow>
       begin_shutdown CauseProcessTerminated (publish (SessionFailed BrowserProcessTerminated) (s, effects))
   | Reconnected snapshot \<Rightarrow> reconnect snapshot (s, effects)
   | ReconnectExhausted \<Rightarrow>
       begin_shutdown CauseReconnectExhausted (publish (SessionFailed ReconnectAttemptsExhausted) (s, effects))
   | StopRequested \<Rightarrow> begin_shutdown CauseStopRequested (s, effects)
   | Cancelled \<Rightarrow>
       begin_shutdown CauseCancelled (publish (SessionFailed SupervisionCancelled) (s, effects))
   | ForConnectionGeneration _ _ \<Rightarrow> Inl UnreachableInput)"

text \<open>Inputs of a transport that is gone, and the arms that return before the bindings are reconciled.\<close>

definition from_lost_transport :: "supervisor_input \<Rightarrow> bool" where
  "from_lost_transport input = (case input of
     InitialTargets _ \<Rightarrow> True | TargetCreated _ \<Rightarrow> True | TargetInfoChanged _ \<Rightarrow> True
   | AttachedInput _ _ \<Rightarrow> True | UnsolicitedAttached _ _ \<Rightarrow> True | TargetAttachFailed _ \<Rightarrow> True
   | Detached _ \<Rightarrow> True | TargetDestroyed _ \<Rightarrow> True | VisibilityChanged _ _ _ \<Rightarrow> True
   | CaptureVisibilityChanged _ _ _ \<Rightarrow> True | SelectTarget _ \<Rightarrow> True
   | ViewportOverrideApplied _ _ \<Rightarrow> True | _ \<Rightarrow> False)"

definition returns_early :: "supervisor_state \<Rightarrow> supervisor_input \<Rightarrow> bool" where
  "returns_early s input \<longleftrightarrow>
     (ss_session_state s = Reconnecting \<and> from_lost_transport input) \<or>
     (input = ConnectionLost \<and> ss_session_state s \<in> {Ended, Stopping}) \<or>
     (input = BrowserProcessTerminatedInput \<and> ss_session_state s = Ended)"

definition reduce_input :: "supervisor_state \<Rightarrow> supervisor_input \<Rightarrow> browser_error + reduction" where
  "reduce_input s input =
     (if returns_early s input then Inr (s, [])
      else and_then (handle input (s, [])) (\<lambda>r. Inr (reconcile_capture_bindings r)))"

fun reduce :: "supervisor_state \<Rightarrow> supervisor_input \<Rightarrow> browser_error + reduction" where
  "reduce s input = (case input of
     ForConnectionGeneration generation inner \<Rightarrow>
       (if generation \<noteq> ss_connection_generation s then Inr (s, []) else reduce s inner)
   | _ \<Rightarrow> reduce_input s input)"

declare reduce.simps [simp del]

end
