(* ===== verification/Target_Invariant.thy ===== *)
theory Target_Invariant
  imports Target_Reducer
begin

text \<open>
  What every operation of the target reducer preserves (\<open>sup_inv\<close>) and how the state may change
  (\<open>evolves\<close>): counters grow, a page keeps its identity, a terminal page stays terminal, and a capture
  binding is only ever dropped before the bindings are reconciled.
\<close>

section \<open>The invariant\<close>

abbreviation ts_sequence :: "target_state \<Rightarrow> u64" where
  "ts_sequence t \<equiv> sequence_value (ts_page_sequence t)"

definition lifecycle_ok :: "target_state \<Rightarrow> bool" where
  "lifecycle_ok t \<longleftrightarrow>
     (live t \<longrightarrow> (ts_transport_session t = None \<longleftrightarrow> ts_lifecycle t \<in> {Discovered, Suspended}) \<and>
       (ts_prior_to_suspension t \<noteq> None \<longleftrightarrow> ts_lifecycle t = Suspended)) \<and>
     (\<forall>l. ts_prior_to_suspension t = Some l \<longrightarrow> l \<noteq> Suspended \<and> \<not> terminal l)"

definition page_ok :: "u64 \<Rightarrow> string \<Rightarrow> target_state \<Rightarrow> bool" where
  "page_ok next key t \<longleftrightarrow>
     pt_browser_target_key (st_target (ts_target t)) = key \<and> \<not> blank key \<and>
     \<not> blank (pt_url (st_target (ts_target t))) \<and>
     0 < ts_sequence t \<and> ts_sequence t < next \<and> lifecycle_ok t"

definition targets_ok :: "supervisor_state \<Rightarrow> bool" where
  "targets_ok s \<longleftrightarrow>
     hm_inv (ss_targets_by_key s) \<and> length (ss_targets_by_key s) \<le> max_known_page_targets \<and>
     1 < ss_next_page_sequence s \<and>
     (\<forall>key t. target_at s key = Some t \<longrightarrow> page_ok (ss_next_page_sequence s) key t) \<and>
     (\<forall>key key' t t'. target_at s key = Some t \<longrightarrow> target_at s key' = Some t' \<longrightarrow>
        ts_sequence t = ts_sequence t' \<longrightarrow> key = key')"

definition sessions_ok :: "supervisor_state \<Rightarrow> bool" where
  "sessions_ok s \<longleftrightarrow>
     hm_inv (ss_target_key_by_session s) \<and>
     (\<forall>session key. hm_get (ss_target_key_by_session s) session = Some key \<longrightarrow> target_at s key \<noteq> None)"

definition pending_ok :: "string list \<Rightarrow> (string, transport_session_id) hmap \<Rightarrow> bool" where
  "pending_ok order pending \<longleftrightarrow>
     hm_inv pending \<and> distinct order \<and> set order = set (hm_keys pending)"

definition selection_valid :: "supervisor_state \<Rightarrow> bool" where
  "selection_valid s \<longleftrightarrow>
     (\<forall>key. ss_selected_target_key s = Some key \<longrightarrow> selection_candidate s key)"

definition selection_ok :: "supervisor_state \<Rightarrow> bool" where
  "selection_ok s \<longleftrightarrow> (ss_session_state s \<in> {Connecting, Ready} \<longrightarrow> selection_valid s)"

lemmas selection_defs = selection_ok_def selection_valid_def selection_candidate_def

text \<open>The invariant without the selection, which a failing page breaks until it is reconciled.\<close>

definition sup_wf :: "supervisor_state \<Rightarrow> bool" where
  "sup_wf s \<longleftrightarrow>
     targets_ok s \<and> sessions_ok s \<and>
     pending_ok (ss_pending_attached_order s) (ss_pending_attached_sessions s) \<and>
     length (ss_pending_attached_sessions s) \<le> max_pending_attached_sessions \<and>
     ss_session_state s \<noteq> Ended"

definition sup_inv :: "supervisor_state \<Rightarrow> bool" where
  "sup_inv s \<longleftrightarrow> sup_wf s \<and> selection_ok s"

section \<open>How the state may change\<close>

text \<open>No capture is running or paused for the page.\<close>

definition unstarted :: "target_state \<Rightarrow> bool" where
  "unstarted t \<longleftrightarrow> ts_capture_binding t \<in> {BindingInactive, BindingUnavailable} \<or>
     (ts_capture_binding t = BindingTerminal \<and> terminal (ts_lifecycle t))"

definition same_page :: "target_state \<Rightarrow> target_state \<Rightarrow> bool" where
  "same_page t t' \<longleftrightarrow>
     ts_page_sequence t' = ts_page_sequence t \<and> ts_id t' = ts_id t \<and>
     ts_opener_target_key t' = ts_opener_target_key t \<and>
     st_attachment_generation (ts_target t) \<le> st_attachment_generation (ts_target t') \<and>
     (terminal (ts_lifecycle t) \<longrightarrow> ts_lifecycle t' = ts_lifecycle t)"

definition page_step :: "target_state \<Rightarrow> target_state \<Rightarrow> bool" where
  "page_step t t' \<longleftrightarrow> same_page t t' \<and> (ts_capture_binding t' = ts_capture_binding t \<or> unstarted t')"

definition evolves_by :: "(target_state \<Rightarrow> target_state \<Rightarrow> bool) \<Rightarrow> (target_state \<Rightarrow> bool) \<Rightarrow>
    supervisor_state \<Rightarrow> supervisor_state \<Rightarrow> bool" where
  "evolves_by same fresh s s' \<longleftrightarrow>
     ss_next_page_sequence s \<le> ss_next_page_sequence s' \<and>
     ss_connection_generation s \<le> ss_connection_generation s' \<and>
     ss_revision s \<le> ss_revision s' \<and>
     (ss_session_state s' = Connecting \<longrightarrow> ss_session_state s = Connecting) \<and>
     (ss_session_state s = Stopping \<longrightarrow> ss_session_state s' = Stopping) \<and>
     (\<forall>key t'. target_at s' key = Some t' \<longrightarrow>
        (\<exists>t. target_at s key = Some t \<and> same t t') \<or>
        (ss_next_page_sequence s \<le> ts_sequence t' \<and> fresh t'))"

abbreviation evolves :: "supervisor_state \<Rightarrow> supervisor_state \<Rightarrow> bool" where
  "evolves \<equiv> evolves_by page_step unstarted"

lemma same_page_refl [simp]: "same_page t t"
  by (simp add: same_page_def)

lemma page_step_refl [simp]: "page_step t t"
  by (simp add: page_step_def)

lemma same_page_trans: "same_page t t' \<Longrightarrow> same_page t' t'' \<Longrightarrow> same_page t t''"
  by (auto simp: same_page_def)

lemma page_step_unstarted: "page_step t t' \<Longrightarrow> unstarted t \<Longrightarrow> unstarted t'"
  by (auto simp: page_step_def same_page_def unstarted_def)

lemma page_step_trans: "page_step t t' \<Longrightarrow> page_step t' t'' \<Longrightarrow> page_step t t''"
  using page_step_unstarted [of t' t''] same_page_trans [of t t' t'']
  by (auto simp: page_step_def)

lemma page_step_sequence: "page_step t t' \<Longrightarrow> ts_page_sequence t' = ts_page_sequence t"
  by (simp add: page_step_def same_page_def)

lemma evolves_by_page:
  assumes "evolves_by same fresh s s'" and "target_at s' key = Some t'"
  obtains (same) t where "target_at s key = Some t" "same t t'"
  | (fresh) "ss_next_page_sequence s \<le> ts_sequence t'" "fresh t'"
  using assms unfolding evolves_by_def by blast

lemma evolves_by_fields:
  assumes "evolves_by same fresh s s'"
  shows "ss_next_page_sequence s \<le> ss_next_page_sequence s'"
    and "ss_connection_generation s \<le> ss_connection_generation s'"
    and "ss_revision s \<le> ss_revision s'"
    and "ss_session_state s' = Connecting \<Longrightarrow> ss_session_state s = Connecting"
    and "ss_session_state s = Stopping \<Longrightarrow> ss_session_state s' = Stopping"
  using assms by (simp_all add: evolves_by_def)

lemma evolves_byI:
  assumes "ss_next_page_sequence s \<le> ss_next_page_sequence s'"
    and "ss_connection_generation s \<le> ss_connection_generation s'"
    and "ss_revision s \<le> ss_revision s'"
    and "ss_session_state s' = Connecting \<Longrightarrow> ss_session_state s = Connecting"
    and "ss_session_state s = Stopping \<Longrightarrow> ss_session_state s' = Stopping"
    and "\<And>key t'. target_at s' key = Some t' \<Longrightarrow> (\<exists>t. target_at s key = Some t \<and> same t t') \<or>
        (ss_next_page_sequence s \<le> ts_sequence t' \<and> fresh t')"
  shows "evolves_by same fresh s s'"
  using assms by (simp add: evolves_by_def)

lemma evolves_by_trans:
  assumes first: "evolves_by same fresh s s'" and second: "evolves_by same fresh s' s''"
    and trans: "\<And>t t' t''. same t t' \<Longrightarrow> same t' t'' \<Longrightarrow> same t t''"
    and fresh: "\<And>t t'. same t t' \<Longrightarrow> fresh t \<Longrightarrow> fresh t'"
    and sequence: "\<And>t t'. same t t' \<Longrightarrow> ts_page_sequence t' = ts_page_sequence t"
  shows "evolves_by same fresh s s''"
proof -
  have "(\<exists>t. target_at s key = Some t \<and> same t t'') \<or>
      (ss_next_page_sequence s \<le> ts_sequence t'' \<and> fresh t'')"
    if page: "target_at s'' key = Some t''" for key t''
    using second page
  proof (cases rule: evolves_by_page)
    case (same t')
    from first same(1) show ?thesis
    proof (cases rule: evolves_by_page)
      case (same t)
      then show ?thesis
        using \<open>same t' t''\<close> trans by blast
    next
      case fresh': fresh
      then show ?thesis
        using fresh [OF same(2)] sequence [OF same(2)] by simp
    qed
  next
    case fresh
    then show ?thesis
      using evolves_by_fields(1) [OF first] order_trans by blast
  qed
  moreover note evolves_by_fields [OF first] evolves_by_fields [OF second]
  ultimately show ?thesis
    by (intro evolves_byI) (blast intro: order_trans)+
qed

lemma evolves_trans: "evolves s s' \<Longrightarrow> evolves s' s'' \<Longrightarrow> evolves s s''"
  by (rule evolves_by_trans) (auto intro: page_step_trans page_step_unstarted dest: page_step_sequence)

section \<open>Steps of a reduction\<close>

text \<open>Handling an input pushes no capture effect; only the final pass does.\<close>

definition plain_effect :: "supervisor_effect \<Rightarrow> bool" where
  "plain_effect e = (case e of StartCapture _ \<Rightarrow> False | SuspendCapture _ \<Rightarrow> False
     | ResumeCapture _ \<Rightarrow> False | StopCapture _ \<Rightarrow> False | _ \<Rightarrow> True)"

definition pushes :: "supervisor_effect list \<Rightarrow> supervisor_effect list \<Rightarrow> bool" where
  "pushes effects effects' \<longleftrightarrow> (\<exists>pushed. effects' = effects @ pushed \<and> list_all plain_effect pushed)"

definition step_ok :: "reduction \<Rightarrow> reduction \<Rightarrow> bool" where
  "step_ok r r' \<longleftrightarrow> pushes (snd r) (snd r') \<and>
     (sup_inv (fst r) \<longrightarrow> sup_inv (fst r') \<and> evolves (fst r) (fst r'))"

lemma evolves_refl [simp]: "evolves s s"
  by (auto simp: evolves_by_def)

lemma pushes_refl [simp]: "pushes e e"
  by (simp add: pushes_def)

lemma pushes_trans: "pushes e e' \<Longrightarrow> pushes e' e'' \<Longrightarrow> pushes e e''"
  by (fastforce simp: pushes_def)

lemma pushes_append [simp]: "list_all plain_effect pushed \<Longrightarrow> pushes e (e @ pushed)"
  by (simp add: pushes_def)

lemma step_ok_refl [simp]: "step_ok r r"
  by (simp add: step_ok_def)

lemma step_ok_trans: "step_ok r r' \<Longrightarrow> step_ok r' r'' \<Longrightarrow> step_ok r r''"
  by (auto simp: step_ok_def intro: pushes_trans evolves_trans)

lemma step_push: "list_all plain_effect d \<Longrightarrow> step_ok (s, e) (s, e @ d)"
  by (simp add: step_ok_def)

lemma step_ok_fold:
  assumes "fold_result f r xs = Inr r'" and "\<And>r x r'. f r x = Inr r' \<Longrightarrow> step_ok r r'"
  shows "step_ok r r'"
  using assms(1)
proof (induction xs arbitrary: r)
  case Nil
  then show ?case by simp
next
  case (Cons x xs)
  then obtain r1 where "f r x = Inr r1" "fold_result f r1 xs = Inr r'"
    by (auto simp: result_simps)
  then show ?case
    using Cons.IH assms(2) step_ok_trans by blast
qed

lemma step_ok_state:
  assumes "sup_inv s \<Longrightarrow> sup_inv s' \<and> evolves s s'" and "list_all plain_effect pushed"
  shows "step_ok (s, e) (s', e @ pushed)"
  using assms by (auto simp: step_ok_def)

section \<open>Changing one page\<close>

lemma target_at_put [simp]:
  "target_at (put_target key t s) k = (if k = key then Some t else target_at s k)"
  by (simp add: put_target_def hm.get_put)

lemma put_target_simps [simp]:
  "ss_session_state (put_target key t s) = ss_session_state s"
  "ss_connection_generation (put_target key t s) = ss_connection_generation s"
  "ss_revision (put_target key t s) = ss_revision s"
  "ss_target_key_by_session (put_target key t s) = ss_target_key_by_session s"
  "ss_pending_attached_sessions (put_target key t s) = ss_pending_attached_sessions s"
  "ss_pending_attached_order (put_target key t s) = ss_pending_attached_order s"
  "ss_selected_target_key (put_target key t s) = ss_selected_target_key s"
  "ss_next_page_sequence (put_target key t s) = ss_next_page_sequence s"
  by (simp_all add: put_target_def)

lemma hm_insert_length: "length (hm_insert k w m) = (if hm_get m k = None then Suc (length m) else length m)"
  by (induction m) (auto simp: hm_insert_def hm_get_def)

lemma targets_ok_put:
  assumes "targets_ok s" and "target_at s key = Some t"
    and "page_ok (ss_next_page_sequence s) key t'" and "ts_page_sequence t' = ts_page_sequence t"
  shows "targets_ok (put_target key t' s)"
  using assms by (auto simp: targets_ok_def put_target_def hm.get_put hm.inv_put hm_insert_length)

lemma sessions_ok_put: "sessions_ok s \<Longrightarrow> sessions_ok (put_target key t s)"
  by (auto simp: sessions_ok_def)

lemma sup_wf_put:
  assumes "sup_wf s" and "target_at s key = Some t"
    and "page_ok (ss_next_page_sequence s) key t'" and "ts_page_sequence t' = ts_page_sequence t"
  shows "sup_wf (put_target key t' s)"
  using assms targets_ok_put [OF _ assms(2-4)] sessions_ok_put by (simp add: sup_wf_def)

lemma page_of_inv: "sup_wf s \<Longrightarrow> target_at s key = Some t \<Longrightarrow> page_ok (ss_next_page_sequence s) key t"
  by (simp add: sup_wf_def targets_ok_def)

lemma selection_ok_put:
  assumes "selection_ok s" and "target_at s key = Some t" and "attached_page t \<Longrightarrow> attached_page t'"
  shows "selection_ok (put_target key t' s)"
  using assms by (fastforce simp: selection_defs)

lemma evolves_put:
  assumes "target_at s key = Some t" and "page_step t t'"
  shows "evolves s (put_target key t' s)"
  using assms by (auto simp: evolves_by_def)

text \<open>A change that keeps the page attached preserves the invariant; one that does not leaves the
  selection to be reconciled.\<close>

lemma put_page:
  assumes "sup_inv s" and "target_at s key = Some t" and "page_step t t'"
    and "page_ok (ss_next_page_sequence s) key t'" and "attached_page t \<Longrightarrow> attached_page t'"
  shows "sup_inv (put_target key t' s) \<and> evolves s (put_target key t' s)"
  using assms sup_wf_put [OF _ assms(2,4)] selection_ok_put [OF _ assms(2,5)] evolves_put [OF assms(2,3)]
    page_step_sequence [OF assms(3)] by (simp add: sup_inv_def)

section \<open>Fields other than the pages\<close>

lemma evolves_fields:
  assumes "ss_targets_by_key s' = ss_targets_by_key s" and "ss_next_page_sequence s \<le> ss_next_page_sequence s'"
    and "ss_connection_generation s \<le> ss_connection_generation s'" and "ss_revision s \<le> ss_revision s'"
    and "ss_session_state s' = Connecting \<longrightarrow> ss_session_state s = Connecting"
    and "ss_session_state s = Stopping \<longrightarrow> ss_session_state s' = Stopping"
  shows "evolves s s'"
  using assms by (auto simp: evolves_by_def)

lemma sup_inv_sessions:
  assumes "sup_inv s" and "hm_inv m"
    and "\<And>session key. hm_get m session = Some key \<Longrightarrow> target_at s key \<noteq> None"
  shows "sup_inv (s\<lparr>ss_target_key_by_session := m\<rparr>)"
  using assms
  by (simp add: sup_inv_def sup_wf_def sessions_ok_def targets_ok_def selection_defs)

lemma sup_inv_pending:
  assumes "sup_inv s" and "pending_ok order pending" and "length pending \<le> max_pending_attached_sessions"
  shows "sup_inv (s\<lparr>ss_pending_attached_order := order, ss_pending_attached_sessions := pending\<rparr>)"
  using assms
  by (simp add: sup_inv_def sup_wf_def sessions_ok_def targets_ok_def selection_defs)

lemma sup_wf_revision:
  "sup_wf s \<Longrightarrow> sup_wf (s\<lparr>ss_revision := n\<rparr>)" "selection_ok s \<Longrightarrow> selection_ok (s\<lparr>ss_revision := n\<rparr>)"
  by (simp_all add: sup_wf_def sessions_ok_def targets_ok_def selection_defs)

lemma publish_simps [simp]:
  "publish ev (s, e) = (s\<lparr>ss_revision := saturating_add (ss_revision s) 1\<rparr>, e @ [Publish ev])"
  by (simp add: publish_def)

lemma plain_simps [simp]:
  "plain_effect (Publish ev)" "plain_effect (Detach x)" "plain_effect (Attach k)"
  "plain_effect (ReleaseWaitingTarget x)" "plain_effect (RestoreSessionDomains k x)"
  "plain_effect (RestoreViewport c v)" "plain_effect BeginReconnect" "plain_effect (Shutdown cause)"
  "plain_effect (target_changed_event t)" "plain_effect (target_discovered_event t)"
  "plain_effect (close_event t)"
  by (simp_all add: plain_effect_def target_changed_event_def target_discovered_event_def close_event_def)

lemma publish_step: "step_ok r (publish ev r)"
  by (cases r) (auto simp: step_ok_def sup_inv_def sup_wf_revision evolves_fields saturating_add_ge)

text \<open>Whatever the selection was, reconciling it makes it one of the attached pages.\<close>

lemma minimum_mem: "minimum xs = Some x \<Longrightarrow> x \<in> set xs"
proof -
  have "fold min ys y \<in> insert y (set ys)" for ys and y :: 'a
    by (induction ys arbitrary: y) (auto simp: min_def split: if_splits)
  then show "minimum xs = Some x \<Longrightarrow> x \<in> set xs"
    by (cases xs) (auto simp: minimum_def)
qed

lemma sup_wf_selected: "sup_wf (s\<lparr>ss_selected_target_key := k\<rparr>) \<longleftrightarrow> sup_wf s"
  by (simp add: sup_wf_def sessions_ok_def targets_ok_def)

lemma selection_choice:
  "minimum (filter (selection_candidate s) keys) = Some key \<Longrightarrow> selection_candidate s key"
  using minimum_mem by fastforce

lemma reconcile_selection_cases:
  assumes "reconcile_selection (s, e) = (s', e')"
  obtains (keep) "s' = s" "e' = e" "selection_valid s"
  | (change) ev choice where "s' = s\<lparr>ss_selected_target_key := choice, ss_revision := saturating_add (ss_revision s) 1\<rparr>"
      "e' = e @ [Publish ev]" "\<And>key. choice = Some key \<Longrightarrow> selection_candidate s key"
proof (cases "(case ss_selected_target_key s of None \<Rightarrow> False | Some key \<Rightarrow> selection_candidate s key)")
  case True
  then have "selection_valid s" "s' = s" "e' = e"
    using assms by (simp_all add: reconcile_selection_def selection_valid_def split: option.splits)
  then show thesis
    using keep by blast
next
  case False
  let ?choice = "minimum (filter (selection_candidate s) (hm_keys (ss_targets_by_key s)))"
  have run: "set_selection ?choice (s, e) = (s', e')"
    using assms False by (simp add: reconcile_selection_def)
  show thesis
  proof (cases "ss_selected_target_key s = ?choice")
    case True
    then have "s' = s" "e' = e"
      using run by (simp_all add: set_selection_def)
    moreover have "selection_valid s"
      using selection_choice True by (simp add: selection_valid_def split: option.split)
    ultimately have "selection_valid s" "s' = s" "e' = e"
      by simp_all
    then show thesis
      using keep by blast
  next
    case False
    then have "s' = s\<lparr>ss_selected_target_key := ?choice, ss_revision := saturating_add (ss_revision s) 1\<rparr>"
      and "e' = e @ [Publish (SelectedTargetChanged (selected_id s (ss_selected_target_key s)) (selected_id s ?choice))]"
      using run by (auto simp add: set_selection_def)
    then show thesis
      using selection_choice by (rule change)
  qed
qed

lemma reconcile_selection_effect:
  assumes "reconcile_selection (s, e) = (s', e')"
  shows "pushes e e' \<and> (sup_wf s \<longrightarrow> sup_inv s') \<and> evolves s s' \<and> selection_valid s'"
  using assms
proof (cases rule: reconcile_selection_cases)
  case keep
  then show ?thesis by (simp add: sup_inv_def selection_ok_def)
next
  case (change ev choice)
  have "selection_valid s'"
    using change(3) by (simp add: change(1) selection_defs)
  moreover have "sup_wf s \<Longrightarrow> sup_wf s'"
    by (simp add: change(1) sup_wf_revision sup_wf_selected)
  moreover have "evolves s s'"
    by (rule evolves_fields) (simp_all add: change(1) saturating_add_ge)
  ultimately show ?thesis
    by (simp add: change(2) sup_inv_def selection_ok_def)
qed

lemma reconcile_selection_step: "step_ok r (reconcile_selection r)"
  using reconcile_selection_effect [of "fst r" "snd r"]
  by (cases "reconcile_selection r") (auto simp: step_ok_def sup_inv_def)

section \<open>The session state\<close>

lemma set_session_state_effect:
  assumes "set_session_state next (s, e) = Inr (s', e')" and "next \<in> {Ready, Reconnecting, Stopping}"
    and "next = Ready \<Longrightarrow> selection_valid s"
  shows "pushes e e' \<and> (sup_inv s \<longrightarrow> sup_inv s') \<and> evolves s s' \<and> ss_session_state s' = next"
proof (cases "ss_session_state s = next")
  case True
  then show ?thesis
    using assms(1) by (simp add: set_session_state_def)
next
  case False
  then have s': "s' = s\<lparr>ss_session_state := next, ss_revision := saturating_add (ss_revision s) 1\<rparr>"
    and e': "e' = e @ [Publish (SessionStateChanged next)]"
    and allowed: "session_state_allowed (ss_session_state s) next"
    using assms(1) by (auto simp: set_session_state_def split: if_splits)
  have "selection_ok s'"
    using assms(2,3) by (auto simp: s' selection_defs)
  moreover have "sup_wf s \<Longrightarrow> sup_wf s'"
    using assms(2) by (auto simp: s' sup_wf_def targets_ok_def sessions_ok_def)
  moreover have "evolves s s'"
    by (rule evolves_fields)
      (use assms(2) allowed in \<open>auto simp: s' saturating_add_ge session_state_allowed_def\<close>)
  ultimately show ?thesis
    by (simp add: s' e' sup_inv_def)
qed

lemma begin_shutdown_step:
  assumes "begin_shutdown cause r = Inr r'"
  shows "step_ok r r'"
proof -
  obtain s e where r: "r = (s, e)" by (cases r)
  show ?thesis
  proof (cases "ss_session_state s \<in> {Ended, Stopping}")
    case True
    then show ?thesis
      using assms by (auto simp: r begin_shutdown_def split: if_splits)
  next
    case False
    then obtain s1 e1 where set: "set_session_state Stopping (s, e) = Inr (s1, e1)"
      and r': "r' = (s1, e1 @ [Shutdown cause])"
      using assms by (auto simp: r begin_shutdown_def push_def result_simps)
    show ?thesis
      using set_session_state_effect [OF set]
      by (auto simp: step_ok_def r r' intro: pushes_trans [OF _ pushes_append])
  qed
qed

section \<open>Pending sessions\<close>

lemma evict_pending_effect:
  assumes "evict_pending order pending e = (order', pending', e')" and "pending_ok order pending"
  shows "pending_ok order' pending' \<and> length pending' \<le> max_pending_attached_sessions"
  using assms
proof (induction order arbitrary: pending e)
  case Nil
  then have "hm_keys pending = []"
    by (simp add: pending_ok_def)
  with Nil show ?case
    by (simp add: hm_keys_def)
next
  case (Cons k order)
  show ?case
  proof (cases "length pending > max_pending_attached_sessions")
    case True
    let ?e = "e @ (case hm_get pending k of None \<Rightarrow> [] | Some session \<Rightarrow> [Detach session])"
    have "set (hm_keys (hm_remove k pending)) = set (hm_keys pending) - {k}"
      by (simp add: hm.set_keys hm.dom_del)
    then have "pending_ok order (hm_remove k pending)"
      using Cons.prems(2) by (auto simp: pending_ok_def intro: hm.inv_del)
    moreover have "evict_pending order (hm_remove k pending) ?e = (order', pending', e')"
      using Cons.prems(1) True by simp
    ultimately show ?thesis
      by (rule Cons.IH [rotated])
  next
    case False
    then show ?thesis
      using Cons.prems by auto
  qed
qed

lemma evict_pushes: "evict_pending order pending e = (order', pending', e') \<Longrightarrow> pushes e e'"
proof (induction order pending e rule: evict_pending.induct)
  case (2 k order pending e)
  have "pushes e (e @ (case hm_get pending k of None \<Rightarrow> [] | Some session \<Rightarrow> [Detach session]))"
    by (simp split: option.splits)
  with 2 show ?case
    by (auto split: if_splits intro: pushes_trans)
qed simp

lemma attach_pending_step: "step_ok r (attach_pending key session unsolicited r)"
proof -
  obtain s e where r: "r = (s, e)" by (cases r)
  let ?e = "e @ (case hm_get (ss_pending_attached_sessions s) key of None \<Rightarrow> [] | Some p \<Rightarrow> [Detach p]) @
    (if unsolicited then [ReleaseWaitingTarget session] else [])"
  let ?order = "if key \<in> set (ss_pending_attached_order s) then ss_pending_attached_order s
    else ss_pending_attached_order s @ [key]"
  let ?pending = "hm_insert key session (ss_pending_attached_sessions s)"
  obtain order pending e' where evict: "evict_pending ?order ?pending ?e = (order, pending, e')"
    by (cases "evict_pending ?order ?pending ?e") auto
  have result: "attach_pending key session unsolicited r =
      (s\<lparr>ss_pending_attached_sessions := pending, ss_pending_attached_order := order\<rparr>, e')"
    by (simp only: r attach_pending_def Let_def prod.case evict)
  have swap: "s\<lparr>ss_pending_attached_sessions := pending, ss_pending_attached_order := order\<rparr> =
      s\<lparr>ss_pending_attached_order := order, ss_pending_attached_sessions := pending\<rparr>"
    by simp
  have "pending_ok ?order ?pending" if "sup_inv s"
    using that hm.dom_put [of key session "ss_pending_attached_sessions s"]
    by (auto simp: sup_inv_def sup_wf_def pending_ok_def hm.set_keys intro: hm.inv_put)
  from evict_pending_effect [OF evict this]
  have "sup_inv s \<Longrightarrow> pending_ok order pending \<and> length pending \<le> max_pending_attached_sessions" by blast
  then have "sup_inv s \<Longrightarrow> sup_inv (s\<lparr>ss_pending_attached_order := order, ss_pending_attached_sessions := pending\<rparr>)"
    by (simp add: sup_inv_pending)
  moreover have "pushes ?e e'"
    using evict_pushes [OF evict] .
  moreover have "pushes e ?e"
    by (simp split: option.splits)
  moreover have "evolves s (s\<lparr>ss_pending_attached_order := order, ss_pending_attached_sessions := pending\<rparr>)"
    by (rule evolves_fields) simp_all
  ultimately show ?thesis
    unfolding result swap by (auto simp: step_ok_def r intro: pushes_trans)
qed

end
