(* ===== verification/Target_Steps.thy ===== *)
theory Target_Steps
  imports Target_Invariant
begin

text \<open>
  Every operation of the target reducer is a good step: it preserves the invariant, changes the state
  only as \<open>evolves\<close> allows and pushes no capture effect.
\<close>

section \<open>Attachment\<close>

lemmas page_defs = page_ok_def lifecycle_ok_def live_def attached_page_def page_step_def same_page_def

lemma page_of_sup_inv: "sup_inv s \<Longrightarrow> target_at s key = Some t \<Longrightarrow> page_ok (ss_next_page_sequence s) key t"
  by (simp add: sup_inv_def page_of_inv)

lemma sessions_of_sup_inv:
  assumes "sup_inv s"
  shows "hm_inv (ss_target_key_by_session s)"
    and "hm_get (ss_target_key_by_session s) session = Some key \<Longrightarrow> target_at s key \<noteq> None"
  using assms by (auto simp: sup_inv_def sup_wf_def sessions_ok_def)

lemma attached_lifecycle_live:
  assumes "attached_lifecycle t = Inr l" and "lifecycle_ok t"
  shows "l \<in> {Attached, Recording, Hidden}"
  using assms
  by (cases l) (auto simp: attached_lifecycle_def result_simps lifecycle_ok_def split: option.splits if_splits)

lemma checked_add_le: "checked_add a b = Some c \<Longrightarrow> a \<le> c"
  for a :: "'a::len word"
  by (auto simp: checked_add_Some_iff word_le_nat_alt)

lemma sup_inv_by_session:
  assumes "sup_inv s" and "target_at s key = Some t" and "m = hm_remove x (ss_target_key_by_session s) \<or>
      m = ss_target_key_by_session s"
  shows "sup_inv (s\<lparr>ss_target_key_by_session := m\<rparr>) \<and>
    sup_inv (s\<lparr>ss_target_key_by_session := hm_insert session key m\<rparr>)"
  using assms sessions_of_sup_inv [OF assms(1)]
  by (intro conjI sup_inv_sessions)
    (auto simp: hm.get_del hm.get_put intro: hm.inv_del hm.inv_put split: if_splits)

lemma attach_target_step:
  assumes attach: "attach_target key session probe t (s, e) = Inr (s', e')"
    and t: "target_at s key = Some t" and live: "live t"
  shows "step_ok (s, e) (s', e')"
proof -
  obtain m d generation l t' where m: "m = hm_remove (the (ts_transport_session t)) (ss_target_key_by_session s) \<or>
      m = ss_target_key_by_session s"
    and generation: "checked_add (st_attachment_generation (ts_target t)) 1 = Some generation"
    and l: "attached_lifecycle t = Inr l"
    and t': "t' = t\<lparr>ts_transport_session := Some session, ts_prior_to_suspension := None,
      ts_target := (ts_target t)\<lparr>st_lifecycle := l, st_attachment_generation := generation\<rparr>\<rparr>"
    and s': "s' = put_target key t' (s\<lparr>ss_target_key_by_session := hm_insert session key m\<rparr>)"
    and e': "e' = (e @ d) @ [target_changed_event t'] @
      viewport_effects key session (ss_connection_generation s) t' @
      (if probe then [RestoreSessionDomains key session] else [])"
    and d: "list_all plain_effect d"
  proof (cases "ts_transport_session t")
    case None
    then show thesis
      using attach that [of "ss_target_key_by_session s" _ _ _ "[]"]
      by (auto simp: attach_target_def result_simps Let_def)
  next
    case (Some previous)
    then show thesis
      using attach that [of "hm_remove previous (ss_target_key_by_session s)" _ _ _ "[Detach previous]"]
      by (auto simp: attach_target_def result_simps Let_def)
  qed
  have "pushes e e'"
    using d by (auto simp: e' viewport_effects_def pushes_def split: option.splits)
  moreover have "sup_inv s' \<and> evolves s s'" if inv: "sup_inv s"
  proof -
    have ok: "page_ok (ss_next_page_sequence s) key t"
      using page_of_sup_inv inv t by blast
    then have l': "l \<in> {Attached, Recording, Hidden}"
      using attached_lifecycle_live [OF l] by (simp add: page_ok_def)
    let ?s = "s\<lparr>ss_target_key_by_session := hm_insert session key m\<rparr>"
    have "sup_inv ?s"
      using sup_inv_by_session [OF inv t m] by blast
    moreover have "evolves s ?s"
      by (rule evolves_fields) simp_all
    moreover have "page_step t t'"
      using live checked_add_le [OF generation] by (simp add: t' page_defs)
    moreover have "page_ok (ss_next_page_sequence ?s) key t'"
      using ok l' by (auto simp: t' page_defs)
    moreover have "attached_page t'"
      using l' by (auto simp: t' attached_page_def)
    ultimately show ?thesis
      unfolding s' using put_page [of ?s key t t'] t evolves_trans by auto
  qed
  ultimately show ?thesis
    by (simp add: step_ok_def)
qed

lemma attach_step:
  assumes "attach key session probe unsolicited r = Inr r'"
  shows "step_ok r r'"
proof -
  obtain s e s' e' where r: "r = (s, e)" "r' = (s', e')" by (cases r; cases r')
  show ?thesis
  proof (cases "target_at s key")
    case None
    then show ?thesis
      using assms attach_pending_step [of "(s, e)" key session unsolicited] by (simp add: attach_def r)
  next
    case (Some t)
    then show ?thesis
      using assms attach_target_step [OF _ Some, of session probe e s' e']
      by (auto simp: attach_def r live_def split: if_splits)
  qed
qed

lemma remove_pending_key_keeps:
  assumes "remove_pending_key key s = (p, s')"
  shows "(sup_inv s \<longrightarrow> sup_inv s') \<and> evolves s s' \<and> ss_targets_by_key s' = ss_targets_by_key s \<and>
    ss_next_page_sequence s' = ss_next_page_sequence s"
proof -
  let ?order = "filter (\<lambda>pending. pending \<noteq> key) (ss_pending_attached_order s)"
  let ?pending = "hm_remove key (ss_pending_attached_sessions s)"
  have s': "s' = s\<lparr>ss_pending_attached_order := ?order, ss_pending_attached_sessions := ?pending\<rparr>"
    using assms by (simp add: remove_pending_key_def)
  have "length ?pending \<le> length (ss_pending_attached_sessions s)"
    by (simp add: hm_remove_def length_delete_le)
  moreover have "set (hm_keys ?pending) = set (hm_keys (ss_pending_attached_sessions s)) - {key}"
    by (simp add: hm.set_keys hm.dom_del)
  ultimately have "sup_inv s \<Longrightarrow> sup_inv s'"
    unfolding s'
    by (intro sup_inv_pending) (auto simp: sup_inv_def sup_wf_def pending_ok_def intro: hm.inv_del)
  moreover have "evolves s s'"
    by (rule evolves_fields) (simp_all add: s')
  ultimately show ?thesis
    by (simp add: s')
qed

lemma remove_pending_key_step: "remove_pending_key key s = (p, s') \<Longrightarrow> step_ok (s, e) (s', e)"
  using remove_pending_key_keeps by (simp add: step_ok_def)

lemma adopt_pending_step:
  assumes "adopt_pending_attachment key r = Inr r'"
  shows "step_ok r r'"
proof -
  obtain s e p s1 where r: "r = (s, e)" "remove_pending_key key s = (p, s1)"
    by (cases r; cases "remove_pending_key key (fst r)") auto
  then have "r' = (s1, e) \<or> (\<exists>session. attach key session True False (s1, e) = Inr r')"
    using assms by (cases p) (auto simp: adopt_pending_attachment_def)
  then show ?thesis
    using remove_pending_key_step [OF r(2), of e] attach_step step_ok_trans r(1) by blast
qed

lemma remove_pending_session_step: "step_ok (s, e) (remove_pending_session session s, e)"
proof -
  have "step_ok (s, e) (fold (\<lambda>key s. snd (remove_pending_key key s)) keys s, e)" for keys
  proof (induction keys arbitrary: s)
    case (Cons k keys)
    have "step_ok (s, e) (snd (remove_pending_key k s), e)"
      by (metis remove_pending_key_step prod.collapse)
    then show ?case
      using Cons.IH step_ok_trans by fastforce
  qed simp
  then show ?thesis
    by (simp add: remove_pending_session_def)
qed

section \<open>Failure and closure of a page\<close>

text \<open>A page that fails or closes loses its session; then the selection is reconciled.\<close>

lemma failed_page:
  assumes inv: "sup_inv s" and t: "target_at s key = Some t" and step: "page_step t t'"
    and ok: "page_ok (ss_next_page_sequence s) key t'"
    and m: "m = hm_remove x (ss_target_key_by_session s) \<or> m = ss_target_key_by_session s"
    and rec: "reconcile_selection (put_target key t' (s\<lparr>ss_target_key_by_session := m, ss_revision := n\<rparr>), e) = (s', e')"
    and n: "ss_revision s \<le> n"
  shows "sup_inv s' \<and> evolves s s'"
proof -
  let ?s = "s\<lparr>ss_target_key_by_session := m, ss_revision := n\<rparr>"
  have "sup_inv (s\<lparr>ss_target_key_by_session := m\<rparr>)"
    using sup_inv_by_session [OF inv t m] by blast
  then have wf: "sup_wf ?s"
    by (simp add: sup_inv_def sup_wf_revision)
  have seq: "ts_page_sequence t' = ts_page_sequence t"
    using step by (rule page_step_sequence)
  have "sup_wf (put_target key t' ?s)"
    by (rule sup_wf_put [OF wf _ _ seq]) (simp_all add: t ok)
  then have "sup_inv s'" "evolves (put_target key t' ?s) s'"
    using reconcile_selection_effect [OF rec] by blast+
  moreover have "evolves s ?s"
    by (rule evolves_fields) (simp_all add: n)
  moreover have "evolves ?s (put_target key t' ?s)"
    by (rule evolves_put [OF _ step]) (simp add: t)
  ultimately show ?thesis
    using evolves_trans by blast
qed

lemma failed_page_step:
  assumes t: "target_at s key = Some t" and step: "page_step t t'"
    and ok: "lifecycle_ok t \<Longrightarrow> lifecycle_ok t'" and page: "st_target (ts_target t') = st_target (ts_target t)"
    and m: "m = hm_remove x (ss_target_key_by_session s) \<or> m = ss_target_key_by_session s"
    and rec: "reconcile_selection (put_target key t' (s\<lparr>ss_target_key_by_session := m, ss_revision := n\<rparr>), e @ d) = r"
    and n: "ss_revision s \<le> n" and d: "list_all plain_effect d"
  shows "step_ok (s, e) r"
proof -
  obtain s' e' where r: "r = (s', e')" by (cases r)
  have "sup_inv s' \<and> evolves s s'" if inv: "sup_inv s"
  proof -
    have "page_ok (ss_next_page_sequence s) key t'"
      using page_of_sup_inv [OF inv t] ok page page_step_sequence [OF step] by (simp add: page_ok_def)
    from failed_page [OF inv t step this m rec [unfolded r] n] show ?thesis .
  qed
  moreover have "pushes e e'"
    using reconcile_selection_effect [OF rec [unfolded r]] d pushes_trans pushes_append by blast
  ultimately show ?thesis
    by (simp add: r step_ok_def)
qed

lemma target_failed_eq: "target_failed tid (s, e) =
    reconcile_selection (s\<lparr>ss_revision := saturating_add (ss_revision s) 1\<rparr>,
      e @ [Publish (TargetFailed tid TargetSupervisionFailed)])"
  by (simp add: target_failed_def)

text \<open>The forms in which the sources write the failing state.\<close>

lemma put_target_revision:
  "(put_target key t s)\<lparr>ss_revision := n\<rparr> = put_target key t (s\<lparr>ss_revision := n\<rparr>)"
  by (simp add: put_target_def)

lemma same_sessions: "s\<lparr>ss_target_key_by_session := ss_target_key_by_session s, ss_revision := n\<rparr> = s\<lparr>ss_revision := n\<rparr>"
  "s\<lparr>ss_target_key_by_session := m, ss_revision := ss_revision s\<rparr> = s\<lparr>ss_target_key_by_session := m\<rparr>"
  "s\<lparr>ss_target_key_by_session := ss_target_key_by_session s, ss_revision := ss_revision s\<rparr> = s"
  by simp_all

lemma attach_failed_step:
  assumes "attach_failed key r = Inr r'"
  shows "step_ok r r'"
proof -
  obtain s e where r: "r = (s, e)" by (cases r)
  show ?thesis
  proof (cases "\<exists>t. target_at s key = Some t \<and> \<not> terminal (ts_lifecycle t)")
    case False
    then show ?thesis
      using assms by (auto simp: r attach_failed_def split: option.splits if_splits)
  next
    case True
    then obtain t where t: "target_at s key = Some t" and live: "\<not> terminal (ts_lifecycle t)" by blast
    let ?t = "set_lifecycle Failed t"
    have run: "reconcile_selection (put_target key ?t (s\<lparr>ss_target_key_by_session := ss_target_key_by_session s,
        ss_revision := saturating_add (ss_revision s) 1\<rparr>),
        e @ [Publish (TargetFailed (ts_id t) TargetSupervisionFailed)]) = r'"
      using assms t live
      by (simp add: r attach_failed_def target_failed_eq
          put_target_revision same_sessions)
    show ?thesis
      unfolding r
      by (rule failed_page_step [OF t _ _ _ disjI2 [OF refl] run])
        (use live in \<open>auto simp: page_defs saturating_add_ge\<close>)
  qed
qed

lemma detach_failed_step:
  assumes "detach_failed session r = Inr r'"
  shows "step_ok r r'"
proof -
  obtain s e where r: "r = (s, e)" by (cases r)
  let ?m = "hm_remove session (ss_target_key_by_session s)"
  show ?thesis
  proof (cases "hm_get (ss_target_key_by_session s) session")
    case None
    then show ?thesis
      using assms by (simp add: r detach_failed_def)
  next
    case (Some key)
    show ?thesis
    proof (cases "target_at s key")
      case None
      have "r' = (s\<lparr>ss_target_key_by_session := ?m\<rparr>, e)"
        using assms Some None by (simp add: r detach_failed_def)
      moreover have "\<not> sup_inv s"
        using sessions_of_sup_inv(2) Some None by blast
      ultimately show ?thesis
        by (simp add: r step_ok_def)
    next
      case t: (Some t)
      show ?thesis
      proof (cases "terminal (ts_lifecycle t)")
        case True
        let ?t = "t\<lparr>ts_transport_session := None\<rparr>"
        have r': "r' = (put_target key ?t (s\<lparr>ss_target_key_by_session := ?m\<rparr>), e)"
          using assms Some t True by (simp add: r detach_failed_def)
        have "sup_inv (fst r') \<and> evolves s (fst r')" if inv: "sup_inv s"
        proof -
          let ?s = "s\<lparr>ss_target_key_by_session := ?m\<rparr>"
          have "sup_inv ?s" using sup_inv_by_session [OF inv t] by blast
          moreover have "evolves s ?s" by (rule evolves_fields) simp_all
          moreover have "page_ok (ss_next_page_sequence ?s) key ?t"
            using page_of_sup_inv [OF inv t] True by (simp add: page_defs)
          moreover have "page_step t ?t" "\<not> attached_page t"
            using True by (auto simp: page_defs terminal_def)
          ultimately show ?thesis
            using put_page [of ?s key t ?t] t evolves_trans by (auto simp: r')
        qed
        then show ?thesis
          by (simp add: r r' step_ok_def)
      next
        case live: False
        let ?t = "set_lifecycle Failed (t\<lparr>ts_transport_session := None, ts_prior_to_suspension := None\<rparr>)"
        have run: "reconcile_selection (put_target key ?t (s\<lparr>ss_target_key_by_session := ?m,
            ss_revision := saturating_add (ss_revision s) 1\<rparr>),
            e @ [Publish (TargetFailed (ts_id t) TargetSupervisionFailed)]) = r'"
          using assms Some t live
          by (simp add: r detach_failed_def target_failed_eq
              put_target_revision)
        show ?thesis
          unfolding r
          by (rule failed_page_step [OF t _ _ _ disjI1 [OF refl] run])
            (use live in \<open>auto simp: page_defs saturating_add_ge\<close>)
      qed
    qed
  qed
qed

lemma domain_setup_failed_step:
  assumes "domain_setup_failed key r = Inr r'"
  shows "step_ok r r'"
proof -
  obtain s e where r: "r = (s, e)" by (cases r)
  show ?thesis
  proof (cases "\<exists>t. target_at s key = Some t \<and> \<not> terminal (ts_lifecycle t)")
    case False
    then show ?thesis
      using assms by (auto simp: r domain_setup_failed_def split: option.splits if_splits)
  next
    case True
    then obtain t where t: "target_at s key = Some t" and live: "\<not> terminal (ts_lifecycle t)" by blast
    let ?t = "set_lifecycle Failed (t\<lparr>ts_transport_session := None, ts_prior_to_suspension := None,
      ts_capture_binding := BindingTerminal\<rparr>)"
    obtain m d where m: "m = hm_remove (the (ts_transport_session t)) (ss_target_key_by_session s) \<or>
        m = ss_target_key_by_session s" and d: "list_all plain_effect d"
      and run: "reconcile_selection (put_target key ?t (s\<lparr>ss_target_key_by_session := m,
        ss_revision := saturating_add (ss_revision s) 1\<rparr>),
        e @ d @ [Publish (TargetFailed (ts_id t) TargetSupervisionFailed)]) = r'"
    proof (cases "ts_transport_session t")
      case None
      then show thesis
        using assms t live that [of "ss_target_key_by_session s" "[]"]
        by (simp add: r domain_setup_failed_def target_failed_eq put_target_revision same_sessions)
    next
      case (Some session)
      then show thesis
        using assms t live that [of "hm_remove session (ss_target_key_by_session s)" "[Detach session]"]
        by (simp add: r domain_setup_failed_def target_failed_eq put_target_revision)
    qed
    show ?thesis
      unfolding r
      by (rule failed_page_step [OF t _ _ _ m run])
        (use live d in \<open>auto simp: page_defs unstarted_def saturating_add_ge\<close>)
  qed
qed

lemma destroy_step:
  assumes "destroy key r = Inr r'"
  shows "step_ok r r'"
proof -
  obtain s e where r: "r = (s, e)" by (cases r)
  show ?thesis
  proof (cases "\<exists>t. target_at s key = Some t \<and> ts_lifecycle t \<noteq> Closed")
    case False
    then show ?thesis
      using assms by (auto simp: r destroy_def split: option.splits if_splits)
  next
    case True
    then obtain t where t: "target_at s key = Some t" and open_page: "ts_lifecycle t \<noteq> Closed" by blast
    define l where "l = (if ts_lifecycle t = Failed then Failed else Closed)"
    let ?t = "set_lifecycle l (t\<lparr>ts_transport_session := None\<rparr>)"
    have closing: "(if ts_lifecycle t \<noteq> Failed then target_transition (ts_lifecycle t) Closed else Inr Failed) = Inr l"
      using open_page by (simp add: l_def terminal_def)
    obtain m d where m: "m = hm_remove (the (ts_transport_session t)) (ss_target_key_by_session s) \<or>
        m = ss_target_key_by_session s" and d: "list_all plain_effect d"
      and run: "reconcile_selection (put_target key ?t (s\<lparr>ss_target_key_by_session := m,
        ss_revision := ss_revision s\<rparr>), e @ d @ [close_event ?t]) = r'"
    proof (cases "ts_transport_session t")
      case None
      then show thesis
        using assms t open_page closing that [of "ss_target_key_by_session s" "[]"]
        by (simp add: r destroy_def same_sessions Let_def cong: if_cong)
    next
      case (Some session)
      then show thesis
        using assms t open_page closing that [of "hm_remove session (ss_target_key_by_session s)" "[Detach session]"]
        by (simp add: r destroy_def same_sessions Let_def cong: if_cong)
    qed
    show ?thesis
      unfolding r
      by (rule failed_page_step [OF t _ _ _ m run])
        (use d open_page in \<open>auto simp: page_defs l_def terminal_def\<close>)
  qed
qed

section \<open>Creation of a page\<close>

lemma hm_retain_sub: "hm_inv m \<Longrightarrow> hm_get (hm_retain P m) k = Some v \<Longrightarrow> hm_get m k = Some v \<and> P k v"
  by (auto simp: hm_get_retain split: option.splits if_splits)

lemma prepare_slot_effect:
  assumes "prepare_page_target_slot s = Inr s'" and inv: "sup_inv s"
  shows "sup_inv s' \<and> evolves s s' \<and> length (ss_targets_by_key s') < max_known_page_targets \<and>
    (\<forall>key t. target_at s' key = Some t \<longrightarrow> target_at s key = Some t) \<and>
    ss_next_page_sequence s' = ss_next_page_sequence s"
proof (cases "length (ss_targets_by_key s) \<ge> max_known_page_targets")
  case False
  then show ?thesis
    using assms by (auto simp: prepare_page_target_slot_def result_simps)
next
  case True
  let ?targets = "hm_retain (\<lambda>_. live) (ss_targets_by_key s)"
  have s': "s' = s\<lparr>ss_targets_by_key := ?targets, ss_target_key_by_session :=
      hm_retain (\<lambda>_ key. hm_get ?targets key \<noteq> None) (ss_target_key_by_session s)\<rparr>"
    and count: "live_count s + 1 \<le> max_known_page_targets"
    using assms(1) True
    by (auto simp: prepare_page_target_slot_def ensure_page_target_count_def result_simps Let_def split: if_splits)
  have hm: "hm_inv (ss_targets_by_key s)"
    using inv by (simp add: sup_inv_def sup_wf_def targets_ok_def)
  have less: "length ?targets < max_known_page_targets"
    using count by (simp add: live_count_def hm_retain_def)
  have sub: "hm_get ?targets key = Some t \<Longrightarrow> target_at s key = Some t \<and> live t" for key t
    using hm_retain_sub [OF hm] by blast
  have kept: "target_at s key = Some t \<Longrightarrow> live t \<Longrightarrow> hm_get ?targets key = Some t" for key t
    by (simp add: hm_get_retain [OF hm])
  have "targets_ok s'"
    using inv less sub
    by (auto simp: s' sup_inv_def sup_wf_def targets_ok_def hm_inv_retain)
  moreover have "sessions_ok s'"
    using inv hm_retain_sub by (fastforce simp: s' sup_inv_def sup_wf_def sessions_ok_def hm_inv_retain)
  moreover have "selection_ok s'"
    using inv kept unfolding sup_inv_def
    by (fastforce simp: s' selection_defs attached_page_def live_def terminal_def split: option.splits)
  ultimately have "sup_inv s'"
    using inv by (simp add: sup_inv_def sup_wf_def s')
  moreover have "evolves s s'"
    using sub by (auto simp: evolves_by_def s')
  ultimately show ?thesis
    using less sub by (auto simp: s')
qed

text \<open>A new page takes the next sequence number, in place of nothing or of a page that is over.\<close>

lemma put_fresh:
  assumes inv: "sup_inv s" and room: "length (ss_targets_by_key s) < max_known_page_targets"
    and seq: "ts_sequence t = ss_next_page_sequence s"
    and ok: "page_ok next key t" and succ: "checked_add (ss_next_page_sequence s) 1 = Some next"
    and free: "\<And>old. target_at s key = Some old \<Longrightarrow> \<not> attached_page old"
    and fresh: "unstarted t" and rev: "ss_revision s \<le> n"
  shows "sup_inv (put_target key t (s\<lparr>ss_revision := n, ss_next_page_sequence := next\<rparr>)) \<and>
    evolves s (put_target key t (s\<lparr>ss_revision := n, ss_next_page_sequence := next\<rparr>))"
proof -
  let ?s = "put_target key t (s\<lparr>ss_revision := n, ss_next_page_sequence := next\<rparr>)"
  have less: "ss_next_page_sequence s < next"
    using succ ok by (metis checked_add_le page_ok_def seq)
  have pages: "page_ok next k u \<and> ts_sequence u < ss_next_page_sequence s" if "target_at s k = Some u" for k u
    using page_of_sup_inv [OF inv that] less by (auto simp: page_ok_def)
  have at: "target_at ?s k = (if k = key then Some t else target_at s k)" for k
    by (simp add: put_target_def hm.get_put)
  have "targets_ok s"
    using inv by (simp add: sup_inv_def sup_wf_def)
  have "targets_ok ?s"
    unfolding targets_ok_def
  proof (intro conjI allI impI)
    show "hm_inv (ss_targets_by_key ?s)"
      using \<open>targets_ok s\<close> by (simp add: put_target_def targets_ok_def hm.inv_put)
    show "length (ss_targets_by_key ?s) \<le> max_known_page_targets"
      using room by (simp add: put_target_def hm_insert_length)
    show "1 < ss_next_page_sequence ?s"
      using \<open>targets_ok s\<close> less by (auto simp: targets_ok_def intro: order_less_trans)
    show "page_ok (ss_next_page_sequence ?s) k u" if "target_at ?s k = Some u" for k u
      using that ok pages by (simp add: at split: if_splits)
    show "k = k'" if "target_at ?s k = Some u" "target_at ?s k' = Some u'" "ts_sequence u = ts_sequence u'" for k k' u u'
    proof (cases "k = key \<or> k' = key")
      case True
      then show ?thesis
        using that pages seq unfolding at by (metis option.inject order_less_irrefl)
    next
      case False
      then show ?thesis
        using that \<open>targets_ok s\<close> unfolding at targets_ok_def by metis
    qed
  qed
  moreover have "sessions_ok ?s"
    using inv by (auto simp: sup_inv_def sup_wf_def sessions_ok_def at)
  moreover have "selection_candidate ?s k" if "selection_candidate s k" for k
    using that free by (cases "target_at s k") (auto simp: selection_candidate_def at)
  then have "selection_ok ?s"
    using inv by (simp add: sup_inv_def selection_ok_def selection_valid_def)
  ultimately have "sup_inv ?s"
    using inv by (simp add: sup_inv_def sup_wf_def)
  moreover have "evolves s ?s"
    using less rev seq fresh by (auto simp: evolves_by_def at)
  ultimately show ?thesis
    by blast
qed

lemma create_target_effect:
  assumes create: "create_target info visibility s = Inr (t, s')" and inv: "sup_inv s"
    and free: "\<And>old. target_at s (ti_target_key info) = Some old \<Longrightarrow> \<not> attached_page old"
  shows "sup_inv (put_target (ti_target_key info) t s') \<and> evolves s (put_target (ti_target_key info) t s')"
proof -
  let ?key = "ti_target_key info"
  obtain s1 tid "next" target where slot: "prepare_page_target_slot s = Inr s1"
    and succ: "checked_add (ss_next_page_sequence s1) 1 = Some next" and nz: "ss_next_page_sequence s1 \<noteq> 0"
    and target: "make_target tid info Discovered visibility 0 = Inr target"
    and t: "t = new_target_state target (PageSequence (ss_next_page_sequence s1)) (ti_opener_target_key info)
      (opener_id_of info s)"
    and s': "s' = s1\<lparr>ss_revision := saturating_add (ss_revision s1) 1, ss_next_page_sequence := next\<rparr>"
    using create by (auto simp: create_target_def Let_def result_simps allocate_target_id_def)
  have s1: "sup_inv s1" "evolves s s1" "length (ss_targets_by_key s1) < max_known_page_targets"
    and sub: "\<And>key t. target_at s1 key = Some t \<Longrightarrow> target_at s key = Some t"
    using prepare_slot_effect [OF slot inv] by auto
  have "ss_next_page_sequence s1 < next"
    using succ by (auto simp: checked_add_Some_iff word_less_nat_alt unat_plus_no_overflow)
  moreover have "1 < ss_next_page_sequence s1"
    using s1(1) by (simp add: sup_inv_def sup_wf_def targets_ok_def)
  ultimately have "page_ok next ?key t"
    using target by (auto simp: t make_target_def result_simps new_target_state_def page_defs word_less_nat_alt)
  moreover have "unstarted t" "ts_sequence t = ss_next_page_sequence s1"
    by (simp_all add: t new_target_state_def unstarted_def)
  ultimately have "sup_inv (put_target ?key t s') \<and> evolves s1 (put_target ?key t s')"
    unfolding s' using put_fresh [OF s1(1,3) _ _ succ] sub free saturating_add_ge by blast
  then show ?thesis
    using s1(2) evolves_trans by blast
qed

lemma create_reported_step:
  assumes "create_reported info creation_event (s, e) = Inr r'"
    and "\<And>old. sup_inv s \<Longrightarrow> target_at s (ti_target_key info) = Some old \<Longrightarrow> \<not> attached_page old"
  shows "step_ok (s, e) r'"
proof -
  let ?key = "ti_target_key info"
  obtain t s1 where create: "create_target info VisibilityUnknown s = Inr (t, s1)"
    using assms(1) by (auto simp: create_reported_def Let_def result_simps)
  let ?e = "if creation_event then e @ [target_discovered_event t] else e"
  have "adopt_pending_attachment ?key (put_target ?key t s1, ?e) = Inr r' \<or>
      r' = (put_target ?key t s1, ?e @ [Attach ?key])"
    using assms(1) create by (auto simp: create_reported_def Let_def result_simps split: if_splits)
  then have "step_ok (put_target ?key t s1, ?e) r'"
    using adopt_pending_step step_push [of "[Attach ?key]"] by fastforce
  moreover have "step_ok (s, e) (put_target ?key t s1, ?e)"
    using create_target_effect [OF create] assms(2) by (simp add: step_ok_def)
  ultimately show ?thesis
    using step_ok_trans by blast
qed

lemma update_page_effect:
  assumes "update_page info t = Inr t'" and "page_ok next (ti_target_key info) t"
  shows "page_step t t' \<and> page_ok next (ti_target_key info) t' \<and> (attached_page t \<longrightarrow> attached_page t') \<and>
    ts_transport_session t' = ts_transport_session t"
  using assms by (auto simp: update_page_def result_simps page_defs)

lemma put_page_step:
  assumes "target_at s key = Some t"
    and "page_ok (ss_next_page_sequence s) key t \<Longrightarrow> page_step t t' \<and>
      page_ok (ss_next_page_sequence s) key t' \<and> (attached_page t \<longrightarrow> attached_page t')"
    and "list_all plain_effect d"
  shows "step_ok (s, e) (put_target key t' s, e @ d)"
  using assms put_page [OF _ assms(1)] page_of_sup_inv [OF _ assms(1)] by (simp add: step_ok_def)

lemma reconcile_one_step:
  assumes run: "reconcile_one info creation_event r = Inr r'"
  shows "step_ok r r'"
proof -
  obtain s e where r: "r = (s, e)" by (cases r)
  let ?key = "ti_target_key info"
  show ?thesis
  proof (cases "is_recordable info")
    case False
    then show ?thesis
      using run destroy_step by (auto simp: r reconcile_one_def Let_def split: if_splits)
  next
    case True
    show ?thesis
    proof (cases "target_at s ?key")
      case None
      then show ?thesis
        using run True create_reported_step [of info creation_event s e r'] by (simp add: r reconcile_one_def Let_def)
    next
      case (Some t)
      show ?thesis
      proof (cases "terminal (ts_lifecycle t)")
        case over: True
        have "step_ok (s, e) r'" if "create_reported info creation_event (s, e) = Inr r'"
          using Some over by (intro create_reported_step [OF that]) (auto simp: attached_page_def terminal_def)
        then show ?thesis
          using run True Some over by (simp add: r reconcile_one_def Let_def split: if_splits)
      next
        case live: False
        show ?thesis
        proof (cases "renamed t info")
          case changed: True
          then obtain t' where t': "update_page info t = Inr t'"
            and adopt: "adopt_pending_attachment ?key (put_target ?key t' s, e @ [target_changed_event t']) = Inr r'"
            using run True Some live by (auto simp: r reconcile_one_def Let_def result_simps)
          have "step_ok (s, e) (put_target ?key t' s, e @ [target_changed_event t'])"
            using update_page_effect [OF t'] by (intro put_page_step [OF Some]) simp_all
          then show ?thesis
            using adopt_pending_step [OF adopt] step_ok_trans r by blast
        next
          case False
          then have "adopt_pending_attachment ?key (s, e) = Inr r'"
            using run True Some live by (simp add: r reconcile_one_def Let_def)
          then show ?thesis
            using adopt_pending_step r by blast
        qed
      qed
    qed
  qed
qed

lemma destroy_missing_step:
  "fold_result (\<lambda>r key. if key \<in> set keys then Inr r else destroy key r) r ks = Inr r' \<Longrightarrow> step_ok r r'"
  by (erule step_ok_fold) (auto split: if_splits intro: destroy_step)

lemma reconcile_initial_step:
  assumes "reconcile_initial infos r = Inr r'"
  shows "step_ok r r'"
proof -
  let ?recordable = "filter is_recordable infos"
  obtain r1 where "fold_result (\<lambda>r key. if key \<in> set (map ti_target_key ?recordable) then Inr r else destroy key r)
      r (hm_keys (ss_targets_by_key (fst r))) = Inr r1"
    and "fold_result (\<lambda>r info. reconcile_one info True r) r1 ?recordable = Inr r'"
    using assms by (cases r) (auto simp: reconcile_initial_def Let_def result_simps)
  then show ?thesis
    using destroy_missing_step step_ok_fold [of "\<lambda>r info. reconcile_one info True r"] reconcile_one_step
      step_ok_trans by blast
qed

lemma complete_initial_step:
  assumes "complete_initial r = Inr r'"
  shows "step_ok r r'"
proof -
  obtain s1 e1 where rec: "reconcile_selection r = (s1, e1)" by fastforce
  then have "set_session_state Ready (s1, e1) = Inr r'"
    using assms by (cases r) (auto simp: complete_initial_def split: if_splits)
  moreover have "selection_valid s1"
    using rec reconcile_selection_effect by (metis prod.collapse)
  ultimately have "step_ok (s1, e1) r'"
    using set_session_state_effect by (cases r') (fastforce simp: step_ok_def)
  then show ?thesis
    using reconcile_selection_step [of r] rec step_ok_trans by simp
qed

section \<open>Visibility\<close>

lemma visible_lifecycle_cases:
  "visible_lifecycle l v = l \<or> (l \<in> {Attached, Recording, Hidden} \<and> visible_lifecycle l v \<in> {Recording, Hidden})"
  by (cases l; cases v) (simp_all add: visible_lifecycle_def)

lemma visibility_changed_step:
  assumes run: "visibility_changed key v observed r = Inr r'"
  shows "step_ok r r'"
proof -
  obtain s e where r: "r = (s, e)" by (cases r)
  show ?thesis
  proof (cases "target_at s key")
    case None
    then show ?thesis
      using run by (simp add: r visibility_changed_def)
  next
    case (Some t)
    let ?t = "t\<lparr>ts_last_visibility_observed_at := Some observed,
      ts_capture_binding := (if ts_capture_binding t = BindingUnavailable then BindingInactive else ts_capture_binding t)\<rparr>"
    let ?l = "visible_lifecycle (ts_lifecycle t) v"
    let ?u = "?t\<lparr>ts_target := (ts_target t)\<lparr>st_lifecycle := ?l, st_visibility := v\<rparr>\<rparr>"
    consider "r' = r" | "\<not> terminal (ts_lifecycle t)" "r' = (put_target key ?t s, e)"
      | "\<not> terminal (ts_lifecycle t)" "r' = (put_target key ?u s, e @ [target_changed_event ?u])"
      using run Some
      by (auto simp: r visibility_changed_def Let_def result_simps transition_def split: if_splits option.splits)
    then show ?thesis
    proof cases
      case 1
      then show ?thesis by simp
    next
      case 2
      have "step_ok (s, e) (put_target key ?t s, e @ [])"
        using 2(1) by (intro put_page_step [OF Some]) (auto simp: page_defs unstarted_def)
      then show ?thesis
        using 2(2) r by simp
    next
      case 3
      have "step_ok (s, e) (put_target key ?u s, e @ [target_changed_event ?u])"
        using 3(1) visible_lifecycle_cases [of "ts_lifecycle t" v]
        by (intro put_page_step [OF Some]) (auto simp: page_defs unstarted_def)
      then show ?thesis
        using 3(2) r by simp
    qed
  qed
qed

section \<open>Connection loss and reconnection\<close>

lemma forget_sessions_step: "step_ok (s, e) (forget_sessions s, e)"
proof -
  have "sup_inv (forget_sessions s)" if "sup_inv s"
    using that by (auto simp: forget_sessions_def sup_inv_def sup_wf_def sessions_ok_def pending_ok_def
        targets_ok_def selection_defs hm_keys_def)
  moreover have "evolves s (forget_sessions s)"
    by (rule evolves_fields) (simp_all add: forget_sessions_def)
  ultimately show ?thesis
    by (simp add: step_ok_def)
qed

lemma suspend_target_step:
  assumes run: "suspend_target r key = Inr r'" and state: "ss_session_state (fst r) = Reconnecting"
  shows "step_ok r r' \<and> ss_session_state (fst r') = Reconnecting"
proof -
  obtain s e where r: "r = (s, e)" by (cases r)
  show ?thesis
  proof (cases "\<exists>t. target_at s key = Some t \<and> \<not> terminal (ts_lifecycle t)")
    case False
    then show ?thesis
      using run state by (auto simp: r suspend_target_def split: option.splits if_splits)
  next
    case True
    then obtain t where t: "target_at s key = Some t" and live: "\<not> terminal (ts_lifecycle t)" by blast
    obtain t' d where r': "r' = (put_target key t' s, e @ d)" and d: "list_all plain_effect d"
      and t': "t' = t\<lparr>ts_transport_session := None\<rparr> \<and> ts_lifecycle t = Suspended \<or>
        t' = (set_lifecycle Suspended (t\<lparr>ts_prior_to_suspension := Some (ts_lifecycle t)\<rparr>))\<lparr>ts_transport_session := None\<rparr>
          \<and> ts_lifecycle t \<noteq> Suspended"
      using run t live by (cases "ts_lifecycle t = Suspended") (auto simp: r suspend_target_def result_simps)
    have "sup_inv (put_target key t' s) \<and> evolves s (put_target key t' s)" if inv: "sup_inv s"
    proof -
      have step: "page_step t t'"
        using t' live by (auto simp: page_defs)
      have "page_ok (ss_next_page_sequence s) key t'"
        using page_of_sup_inv [OF inv t] t' live by (auto simp: page_defs)
      then have "sup_wf (put_target key t' s)"
        using inv t page_step_sequence [OF step] by (intro sup_wf_put) (auto simp: sup_inv_def)
      then show ?thesis
        using evolves_put [OF t step] state by (simp add: r sup_inv_def selection_ok_def)
    qed
    then show ?thesis
      using d state by (simp add: r r' step_ok_def)
  qed
qed

lemma connection_lost_step:
  assumes "connection_lost r = Inr r'"
  shows "step_ok r r'"
proof -
  obtain s e s1 e1 s2 e2 where r: "r = (s, e)" and set: "set_session_state Reconnecting (s, e) = Inr (s1, e1)"
    and fold: "fold_result suspend_target (s1, e1) (hm_keys (ss_targets_by_key s1)) = Inr (s2, e2)"
    and r': "r' = (forget_sessions s2, e2 @ [BeginReconnect])"
    using assms by (cases r) (auto simp: connection_lost_def result_simps)
  have s1: "step_ok (s, e) (s1, e1)" "ss_session_state s1 = Reconnecting"
    using set_session_state_effect [OF set] by (auto simp: step_ok_def)
  have "step_ok (s1, e1) (s2, e2) \<and> ss_session_state (fst (s2, e2)) = Reconnecting"
    by (rule fold_result_invariant [OF fold, where P = "\<lambda>r. step_ok (s1, e1) r \<and> ss_session_state (fst r) = Reconnecting"])
      (use s1(2) suspend_target_step step_ok_trans in \<open>auto intro: step_ok_trans\<close>)
  moreover have "step_ok (s2, e2) r'"
    unfolding r' using forget_sessions_step step_push [of "[BeginReconnect]"] step_ok_trans by fastforce
  ultimately show ?thesis
    using s1(1) step_ok_trans r by blast
qed

lemma resolve_openers_step: "step_ok (s, e) (resolve_unresolved_openers s, e)"
proof -
  let ?s = "resolve_unresolved_openers s"
  let ?f = "\<lambda>t. if ts_opener_target_id t = None
    then t\<lparr>ts_opener_target_id := map_option ts_id (Option.bind (ts_opener_target_key t) (target_at s))\<rparr> else t"
  have at: "target_at ?s key = map_option ?f (target_at s key)" for key
    by (simp add: resolve_unresolved_openers_def)
  have f: "page_step t (?f t)" "attached_page (?f t) \<longleftrightarrow> attached_page t" "page_ok n key (?f t) \<longleftrightarrow> page_ok n key t" for t n key
    by (auto simp: page_defs)
  have "sup_inv ?s" if inv: "sup_inv s"
  proof -
    have "targets_ok s" "sessions_ok s" "selection_ok s"
      using inv by (auto simp: sup_inv_def sup_wf_def)
    have "targets_ok ?s"
      unfolding targets_ok_def
    proof (intro conjI allI impI)
      show "hm_inv (ss_targets_by_key ?s)" "length (ss_targets_by_key ?s) \<le> max_known_page_targets"
        "1 < ss_next_page_sequence ?s"
        using \<open>targets_ok s\<close> by (simp_all add: resolve_unresolved_openers_def targets_ok_def hm_map_values_def [symmetric])
          (simp_all add: hm_map_values_def)
      show "page_ok (ss_next_page_sequence ?s) key t" if "target_at ?s key = Some t" for key t
        using that page_of_sup_inv [OF inv] f(3) unfolding at by (auto simp: resolve_unresolved_openers_def)
      show "key = key'" if pages: "target_at ?s key = Some t" "target_at ?s key' = Some t'"
        and same: "ts_sequence t = ts_sequence t'" for key key' t t'
      proof -
        obtain u u' where "target_at s key = Some u" "target_at s key' = Some u'" and u: "t = ?f u" "t' = ?f u'"
          using pages unfolding at map_option_eq_Some by blast
        moreover have "ts_sequence (?f w) = ts_sequence w" for w
          by simp
        then have "ts_sequence u = ts_sequence u'"
          using same unfolding u by (simp only:)
        ultimately show ?thesis
          using \<open>targets_ok s\<close> unfolding targets_ok_def by blast
      qed
    qed
    moreover have "sessions_ok ?s"
      using \<open>sessions_ok s\<close> unfolding sessions_ok_def at by (simp add: resolve_unresolved_openers_def)
    moreover have "selection_candidate ?s key \<longleftrightarrow> selection_candidate s key" for key
      unfolding selection_candidate_def at using f(2) by (cases "target_at s key") simp_all
    then have "selection_ok ?s"
      using \<open>selection_ok s\<close> by (simp add: selection_ok_def selection_valid_def) (simp add: resolve_unresolved_openers_def)
    ultimately show ?thesis
      using inv by (simp add: sup_inv_def sup_wf_def) (simp add: resolve_unresolved_openers_def)
  qed
  moreover have "evolves s ?s"
  proof (rule evolves_byI)
    show "(\<exists>t. target_at s key = Some t \<and> page_step t t') \<or> ss_next_page_sequence s \<le> ts_sequence t' \<and> unstarted t'"
      if "target_at ?s key = Some t'" for key t'
      using that f(1) unfolding at by auto
  qed (simp_all add: resolve_unresolved_openers_def)
  ultimately show ?thesis
    by (simp add: step_ok_def)
qed

lemma reconcile_restored_step:
  assumes run: "reconcile_restored restored r = Inr r'"
  shows "step_ok r r'"
proof -
  obtain s e where r: "r = (s, e)" by (cases r)
  let ?info = "rt_info restored" and ?key = "ti_target_key (rt_info restored)"
  have continue: "step_ok (s1, e) r'"
    if "(case rt_session restored of Some session \<Rightarrow> attach ?key session False False (s1, e)
      | None \<Rightarrow> Inr (s1, e @ d)) = Inr r'" and "list_all plain_effect d" for s1 d
    using that attach_step step_push by (auto split: option.splits)
  show ?thesis
  proof (cases "target_at s ?key")
    case None
    then obtain t s1 where create: "create_target ?info (rt_visibility restored) s = Inr (t, s1)"
      and rest: "(case rt_session restored of Some session \<Rightarrow> attach ?key session False False (put_target ?key t s1, e)
        | None \<Rightarrow> Inr (put_target ?key t s1, e @ [Attach ?key])) = Inr r'"
      using run by (auto simp: r reconcile_restored_def Let_def result_simps split: option.splits)
    have "step_ok (s, e) (put_target ?key t s1, e)"
      using create_target_effect [OF create] None by (simp add: step_ok_def)
    then show ?thesis
      using continue [OF rest] step_ok_trans r by simp
  next
    case (Some t)
    obtain t1 where t1: "(if renamed t ?info then update_page ?info t else Inr t) = Inr t1"
      using run Some by (auto simp: r reconcile_restored_def Let_def result_simps)
    let ?t = "t1\<lparr>ts_target := (ts_target t1)\<lparr>st_visibility := rt_visibility restored\<rparr>\<rparr>"
    let ?changes = "if renamed t ?info then [target_changed_event ?t] else []"
    have rest: "(case rt_session restored of Some session \<Rightarrow> attach ?key session False False (put_target ?key ?t s, e)
      | None \<Rightarrow> Inr (put_target ?key ?t s,
          e @ (?changes @ (if ts_transport_session ?t = None then [Attach ?key] else [])))) = Inr r'"
      using run Some t1
      by (cases "rt_session restored"; cases "ts_transport_session t1"; cases "renamed t ?info")
        (simp_all add: r reconcile_restored_def Let_def)
    have "page_step t t1 \<and> page_ok n ?key t1 \<and> (attached_page t \<longrightarrow> attached_page t1)" if "page_ok n ?key t" for n
      using t1 that update_page_effect [of ?info t t1] by (auto split: if_splits)
    moreover have "page_step t ?t \<longleftrightarrow> page_step t t1" "page_ok n ?key ?t \<longleftrightarrow> page_ok n ?key t1"
      "attached_page ?t \<longleftrightarrow> attached_page t1" for n
      by (simp_all add: page_defs unstarted_def)
    ultimately have "step_ok (s, e) (put_target ?key ?t s, e @ [])"
      by (intro put_page_step [OF Some]) simp_all
    then show ?thesis
      using continue [OF rest] step_ok_trans r by simp
  qed
qed

lemma reconnect_step:
  assumes run: "reconnect snapshot r = Inr r'"
  shows "step_ok r r'"
proof -
  obtain s e where r: "r = (s, e)" by (cases r)
  let ?recordable = "filter (\<lambda>target. is_recordable (rt_info target)) (rs_targets snapshot)"
  let ?seen = "map (\<lambda>target. ti_target_key (rt_info target)) ?recordable"
  let ?s = "s\<lparr>ss_connection_generation := rs_connection_generation snapshot,
    ss_compatibility := rs_compatibility snapshot\<rparr>"
  show ?thesis
  proof (cases "ss_session_state s \<in> {Stopping, Ended} \<or> rs_connection_generation snapshot \<le> ss_connection_generation s")
    case True
    then show ?thesis
      using run by (auto simp: r reconnect_def split: if_splits)
  next
    case False
    then obtain s1 e1 s2 e2 where destroyed: "fold_result (\<lambda>r key. if key \<in> set ?seen then Inr r else destroy key r)
        (?s, e) (hm_keys (ss_targets_by_key ?s)) = Inr (s1, e1)"
      and restored: "fold_result (\<lambda>r restored. reconcile_restored restored r) (forget_sessions s1, e1) ?recordable = Inr (s2, e2)"
      and rest: "set_session_state Ready (reconcile_selection (resolve_unresolved_openers s2, e2)) = Inr r'"
      using run by (auto simp: r reconnect_def Let_def result_simps simp del: set_map)
    obtain s3 e3 where sel: "reconcile_selection (resolve_unresolved_openers s2, e2) = (s3, e3)" by fastforce
    have "step_ok (s, e) (?s, e)"
    proof -
      have "sup_inv s \<Longrightarrow> sup_inv ?s"
        by (auto simp: sup_inv_def sup_wf_def targets_ok_def sessions_ok_def selection_defs)
      moreover have "evolves s ?s"
        by (rule evolves_fields) (use False in auto)
      ultimately show ?thesis
        by (simp add: step_ok_def)
    qed
    also have "step_ok (?s, e) (s1, e1)"
      by (rule destroy_missing_step [OF destroyed])
    finally (step_ok_trans) have "step_ok (s, e) (s1, e1)" .
    also have "step_ok (s1, e1) (forget_sessions s1, e1)"
      by (rule forget_sessions_step)
    also (step_ok_trans) have "step_ok (forget_sessions s1, e1) (s2, e2)"
      by (rule step_ok_fold [OF restored]) (rule reconcile_restored_step)
    also (step_ok_trans) have "step_ok (s2, e2) (resolve_unresolved_openers s2, e2)"
      by (rule resolve_openers_step)
    also (step_ok_trans) have "step_ok (resolve_unresolved_openers s2, e2) (s3, e3)"
      using reconcile_selection_step sel by metis
    also (step_ok_trans) have "step_ok (s3, e3) r'"
      using rest set_session_state_effect [of Ready s3 e3 "fst r'" "snd r'"]
        reconcile_selection_effect [OF sel] by (auto simp: sel step_ok_def)
    finally (step_ok_trans) show ?thesis
      by (simp add: r)
  qed
qed

section \<open>The remaining inputs\<close>

lemma put_binding_step:
  assumes "target_at s key = Some t" and "unstarted (t\<lparr>ts_capture_binding := b\<rparr>)"
    and "list_all plain_effect d"
  shows "step_ok (s, e) (put_target key (t\<lparr>ts_capture_binding := b\<rparr>) s, e @ d)"
  using assms by (intro put_page_step [OF assms(1)]) (auto simp: page_defs)

lemma capture_start_failed_step:
  assumes "hm_inv (ss_targets_by_key (fst r))"
  shows "step_ok r (capture_start_failed context r)"
proof -
  obtain s e where r: "r = (s, e)" by (cases r)
  show ?thesis
  proof (cases "ss_connection_generation s = cc_connection_generation context \<and>
      find (\<lambda>(_, t). ts_capture_binding t = BindingActive context) (ss_targets_by_key s) \<noteq> None")
    case False
    then show ?thesis
      by (cases "find (\<lambda>(_, t). ts_capture_binding t = BindingActive context) (ss_targets_by_key s)")
        (simp_all add: r capture_start_failed_def)
  next
    case True
    then obtain key t where found: "find (\<lambda>(_, t). ts_capture_binding t = BindingActive context) (ss_targets_by_key s) = Some (key, t)"
      by auto
    then have "target_at s key = Some t"
      using assms by (auto simp: r find_Some_iff intro!: hm_mem_get dest: nth_mem)
    then show ?thesis
      using True found put_binding_step [of s key t BindingUnavailable
          "[target_changed_event (t\<lparr>ts_capture_binding := BindingUnavailable\<rparr>)]" e]
      by (auto simp: r capture_start_failed_def Let_def unstarted_def)
  qed
qed

lemma visibility_probe_failed_step: "step_ok r (visibility_probe_failed key r)"
proof -
  obtain s e where r: "r = (s, e)" by (cases r)
  show ?thesis
    using put_binding_step [of s key _ BindingUnavailable "[]" e]
    by (auto simp: r visibility_probe_failed_def unstarted_def split: option.splits)
qed

lemma viewport_applied_step:
  assumes "viewport_applied key viewport r = Inr r'"
  shows "step_ok r r'"
proof -
  obtain s e where r: "r = (s, e)" by (cases r)
  obtain t where t: "target_at s key = Some t" and r': "r' = (put_target key (t\<lparr>ts_viewport_override := viewport\<rparr>) s, e)"
    using assms by (auto simp: r viewport_applied_def result_simps split: if_splits)
  have "step_ok (s, e) (put_target key (t\<lparr>ts_viewport_override := viewport\<rparr>) s, e @ [])"
    by (intro put_page_step [OF t]) (auto simp: page_defs)
  then show ?thesis
    by (simp add: r r')
qed

lemma select_target_step:
  assumes "select_target key r = Inr r'"
  shows "step_ok r r'"
proof -
  obtain s e where r: "r = (s, e)" by (cases r)
  have candidate: "selection_candidate s key" and r': "r' = set_selection (Some key) (s, e)"
    using assms by (auto simp: r select_target_def split: if_splits)
  let ?s = "s\<lparr>ss_selected_target_key := Some key\<rparr>"
  have "sup_inv s \<Longrightarrow> sup_inv ?s"
    using candidate by (simp add: sup_inv_def sup_wf_selected selection_defs)
  moreover have "evolves s ?s"
    by (rule evolves_fields) simp_all
  ultimately have "step_ok (s, e) (?s, e)"
    by (simp add: step_ok_def)
  then show ?thesis
    using publish_step step_ok_trans by (simp add: r r' set_selection_def del: publish_simps)
qed

lemma shutdown_after_publish_step:
  "begin_shutdown cause (publish ev r) = Inr r' \<Longrightarrow> step_ok r r'"
  using begin_shutdown_step publish_step step_ok_trans by blast

lemma targets_hm: "sup_inv s \<Longrightarrow> hm_inv (ss_targets_by_key s)"
  by (simp add: sup_inv_def sup_wf_def targets_ok_def)

lemma handle_step:
  assumes run: "handle input (s, e) = Inr r'" and inv: "sup_inv s"
  shows "step_ok (s, e) r'"
proof (cases input)
  case (Detached session)
  then show ?thesis
    using run detach_failed_step remove_pending_session_step step_ok_trans by (simp add: handle_def) blast
next
  case (TargetDestroyed key)
  obtain p s1 where remove: "remove_pending_key key s = (p, s1)" by fastforce
  let ?d = "case p of None \<Rightarrow> [] | Some session \<Rightarrow> [Detach session]"
  have "step_ok (s1, e @ ?d) r'"
    using run remove TargetDestroyed destroy_step by (simp add: handle_def)
  moreover have "step_ok (s1, e) (s1, e @ ?d)"
    by (rule step_push) (simp split: option.splits)
  then have "step_ok (s, e) (s1, e @ ?d)"
    using remove_pending_key_step [OF remove] step_ok_trans by blast
  ultimately show ?thesis
    using step_ok_trans by blast
next
  case (CaptureVisibilityChanged tid v observed)
  then show ?thesis
    using run by (auto simp: handle_def split: option.splits dest: visibility_changed_step)
next
  case (CaptureStartFailed c)
  then show ?thesis
    using run capture_start_failed_step [of "(s, e)" c] targets_hm [OF inv] by (simp add: handle_def)
next
  case (InitialVisibilityProbeFailed key)
  then show ?thesis
    using run visibility_probe_failed_step [of "(s, e)" key] by (simp add: handle_def)
qed (insert run, simp_all add: handle_def del: publish_simps,
  (erule reconcile_initial_step complete_initial_step reconcile_one_step attach_step attach_failed_step
    visibility_changed_step domain_setup_failed_step select_target_step viewport_applied_step
    connection_lost_step reconnect_step shutdown_after_publish_step begin_shutdown_step)+)

end
