(* ===== verification/Target_Supervision.thy ===== *)
theory Target_Supervision
  imports Target_Steps Command_Machine
begin

text \<open>
  The supervisor as a whole: what the final pass over the capture bindings establishes, one
  reduction, and the event loop that feeds inputs to the reducer (\<open>session/runtime.rs\<close>).
\<close>

section \<open>Capture bindings\<close>

text \<open>After a reduction a capture is active only for the current attachment of a live page of a ready
  session, and a page that is over has none.\<close>

definition binding_ok :: "supervisor_state \<Rightarrow> target_state \<Rightarrow> bool" where
  "binding_ok s t = (case ts_capture_binding t of
     BindingInactive \<Rightarrow> live t
   | BindingUnavailable \<Rightarrow> live t \<and> ss_session_state s \<noteq> Stopping
   | BindingActive c \<Rightarrow> live t \<and> ss_session_state s = Ready \<and> current_context s t = Some c
   | BindingSuspended _ \<Rightarrow> live t \<and> ss_session_state s \<in> {Ready, Reconnecting}
   | BindingTerminal \<Rightarrow> terminal (ts_lifecycle t) \<or> ss_session_state s = Stopping)"

definition bindings_ok :: "supervisor_state \<Rightarrow> bool" where
  "bindings_ok s \<longleftrightarrow> (\<forall>key t. target_at s key = Some t \<longrightarrow> binding_ok s t)"

abbreviation next_bound :: "supervisor_state \<Rightarrow> target_state \<Rightarrow> target_state" where
  "next_bound s t \<equiv> t\<lparr>ts_capture_binding := fst (next_binding s t [])\<rparr>"

lemma next_binding_fst: "fst (next_binding s t e) = fst (next_binding s t e')"
  by (cases "ts_capture_binding t") (simp_all add: next_binding_def Let_def begin_capture_def)

lemma next_binding_cong:
  "ss_session_state s' = ss_session_state s \<Longrightarrow> ss_connection_generation s' = ss_connection_generation s \<Longrightarrow>
    next_binding s' t e = next_binding s t e"
  by (simp add: next_binding_def capture_eligible_def current_context_def Let_def cong: capture_binding.case_cong)

lemma reconcile_binding_eq:
  "reconcile_binding key (s, e) = (case target_at s key of None \<Rightarrow> (s, e)
     | Some t \<Rightarrow> (put_target key (next_bound s t) s, snd (next_binding s t e)))"
  by (cases "target_at s key")
    (simp_all add: reconcile_binding_def case_prod_beta next_binding_fst [of s _ e "[]"])

text \<open>The pass keeps every field but the bindings, and gives each page the binding it computes.\<close>

definition same_frame :: "supervisor_state \<Rightarrow> supervisor_state \<Rightarrow> bool" where
  "same_frame s s' \<longleftrightarrow>
     ss_session_state s' = ss_session_state s \<and> ss_connection_generation s' = ss_connection_generation s \<and>
     ss_revision s' = ss_revision s \<and> ss_next_page_sequence s' = ss_next_page_sequence s \<and>
     ss_target_key_by_session s' = ss_target_key_by_session s \<and>
     ss_pending_attached_sessions s' = ss_pending_attached_sessions s \<and>
     ss_pending_attached_order s' = ss_pending_attached_order s \<and>
     ss_selected_target_key s' = ss_selected_target_key s"

lemma same_frame_fields:
  assumes "same_frame s s'"
  shows "ss_session_state s' = ss_session_state s" "ss_connection_generation s' = ss_connection_generation s"
    "ss_revision s' = ss_revision s" "ss_next_page_sequence s' = ss_next_page_sequence s"
    "ss_target_key_by_session s' = ss_target_key_by_session s"
    "ss_pending_attached_sessions s' = ss_pending_attached_sessions s"
    "ss_pending_attached_order s' = ss_pending_attached_order s"
    "ss_selected_target_key s' = ss_selected_target_key s"
  using assms by (simp_all add: same_frame_def)

definition rebinds :: "string list \<Rightarrow> supervisor_state \<Rightarrow> supervisor_state \<Rightarrow> bool" where
  "rebinds keys s s' \<longleftrightarrow> same_frame s s' \<and>
     (hm_inv (ss_targets_by_key s) \<longrightarrow> hm_inv (ss_targets_by_key s')) \<and>
     length (ss_targets_by_key s') = length (ss_targets_by_key s) \<and>
     (\<forall>key. target_at s' key = (if key \<in> set keys then map_option (next_bound s) (target_at s key)
        else target_at s key))"

lemma same_frame_trans: "same_frame s s' \<Longrightarrow> same_frame s' s'' \<Longrightarrow> same_frame s s''"
  by (simp add: same_frame_def)

lemma rebinds_put:
  assumes "rebinds keys (put_target k (next_bound s t) s) s'" and "target_at s k = Some t" and "k \<notin> set keys"
  shows "rebinds (k # keys) s s'"
proof -
  let ?s = "put_target k (next_bound s t) s"
  have bound: "next_bound ?s u = next_bound s u" for u
    using next_binding_cong [of ?s s u "[]"] by simp
  have "same_frame s ?s"
    by (simp add: same_frame_def put_target_def)
  moreover have "hm_inv (ss_targets_by_key s) \<Longrightarrow> hm_inv (ss_targets_by_key ?s)"
    "length (ss_targets_by_key ?s) = length (ss_targets_by_key s)"
    using assms(2) by (simp_all add: put_target_def hm.inv_put hm_insert_length)
  moreover have "target_at s' key = (if key \<in> set (k # keys) then map_option (next_bound s) (target_at s key)
      else target_at s key)" for key
    using assms unfolding rebinds_def bound by (cases "key = k") simp_all
  ultimately show ?thesis
    using assms(1) same_frame_trans [of s ?s s'] by (simp add: rebinds_def)
qed

lemma reconcile_keys:
  "fold reconcile_binding keys (s, e) = (s', e') \<Longrightarrow> distinct keys \<Longrightarrow> rebinds keys s s'"
proof (induction keys arbitrary: s e)
  case Nil
  then show ?case
    by (simp add: rebinds_def same_frame_def)
next
  case (Cons k keys)
  show ?case
  proof (cases "target_at s k")
    case None
    then have "rebinds keys s s'"
      using Cons by (simp add: reconcile_binding_eq)
    then show ?thesis
      using None unfolding rebinds_def by auto
  next
    case (Some t)
    then show ?thesis
      using Cons.IH [of "put_target k (next_bound s t) s"] Cons.prems
      by (intro rebinds_put [OF _ Some]) (simp_all add: reconcile_binding_eq)
  qed
qed

lemma reconcile_bindings_effect:
  assumes "reconcile_capture_bindings (s, e) = (s', e')" and "hm_inv (ss_targets_by_key s)"
  shows "same_frame s s' \<and> hm_inv (ss_targets_by_key s') \<and>
    length (ss_targets_by_key s') = length (ss_targets_by_key s) \<and>
    (\<forall>key. target_at s' key = map_option (next_bound s) (target_at s key))"
proof -
  have "distinct (hm_keys (ss_targets_by_key s))"
    using assms(2) by (rule hm.distinct_keys)
  moreover have "target_at s key = None" if "key \<notin> set (hm_keys (ss_targets_by_key s))" for key
    using that hm.in_keys_iff by metis
  moreover have "rebinds (hm_keys (ss_targets_by_key s)) s s'"
    using reconcile_keys assms calculation(1) by (simp add: reconcile_capture_bindings_def)
  ultimately have "target_at s' key = map_option (next_bound s) (target_at s key)" for key
    unfolding rebinds_def by (cases "key \<in> set (hm_keys (ss_targets_by_key s))") auto
  then show ?thesis
    using \<open>rebinds _ s s'\<close> assms(2) by (simp add: rebinds_def)
qed

text \<open>Changing bindings alone breaks nothing.\<close>

abbreviation advances :: "supervisor_state \<Rightarrow> supervisor_state \<Rightarrow> bool" where
  "advances \<equiv> evolves_by same_page (\<lambda>_. True)"

lemma advances_trans: "advances s s' \<Longrightarrow> advances s' s'' \<Longrightarrow> advances s s''"
  by (rule evolves_by_trans) (auto intro: same_page_trans simp: same_page_def)

lemma advances_refl [simp]: "advances s s"
  by (auto simp: evolves_by_def)

lemma evolves_advances: "evolves s s' \<Longrightarrow> advances s s'"
  unfolding evolves_by_def page_step_def by blast

lemma rebinding_keeps:
  assumes frame: "same_frame s s'" and hm: "hm_inv (ss_targets_by_key s')"
    and len: "length (ss_targets_by_key s') = length (ss_targets_by_key s)"
    and at: "\<And>key. target_at s' key = map_option (\<lambda>t. t\<lparr>ts_capture_binding := b t\<rparr>) (target_at s key)"
    and inv: "sup_inv s"
  shows "sup_inv s' \<and> advances s s'"
proof -
  note fields = same_frame_fields [OF frame]
  have page: "page_ok n key (t\<lparr>ts_capture_binding := c\<rparr>) \<longleftrightarrow> page_ok n key t" for n key t c
    by (simp add: page_defs)
  have "targets_ok s'"
    using inv hm len unfolding sup_inv_def sup_wf_def targets_ok_def fields at
    by (auto simp: page)
  moreover have "sessions_ok s'"
    using inv unfolding sup_inv_def sup_wf_def sessions_ok_def fields at by auto
  moreover have "selection_candidate s' key \<longleftrightarrow> selection_candidate s key" for key
    unfolding selection_candidate_def at by (cases "target_at s key") (simp_all add: attached_page_def)
  then have "selection_ok s'"
    using inv unfolding sup_inv_def selection_ok_def selection_valid_def fields by simp
  ultimately have "sup_inv s'"
    using inv by (simp add: sup_inv_def sup_wf_def fields)
  moreover have "advances s s'"
    by (rule evolves_byI) (auto simp: fields at same_page_def)
  ultimately show ?thesis ..
qed

text \<open>What handling an input leaves of the bindings is enough for the pass.\<close>

lemma next_binding_ok:
  assumes old: "bindings_ok s" and step: "evolves s s1" and ended: "ss_session_state s1 \<noteq> Ended"
    and t1: "target_at s1 key = Some t1" and frame: "same_frame s1 s'"
  shows "binding_ok s' (next_bound s1 t1)"
proof -
  note fields = same_frame_fields [OF frame]
  have carried: "unstarted t1 \<or> (\<exists>t. binding_ok s t \<and> page_step t t1 \<and>
      ts_capture_binding t1 = ts_capture_binding t)"
    using step t1
  proof (cases rule: evolves_by_page)
    case (same t)
    then show ?thesis
      using old by (auto simp: page_step_def bindings_ok_def)
  qed simp
  have started: "ss_session_state s1 \<noteq> Connecting"
    if "ts_capture_binding t1 = BindingActive c \<or> ts_capture_binding t1 = BindingSuspended c" for c
    using that carried old evolves_by_fields(4) [OF step]
    by (auto simp: unstarted_def binding_ok_def)
  have over: "terminal (ts_lifecycle t1) \<or> ss_session_state s1 = Stopping" if "ts_capture_binding t1 = BindingTerminal"
    using that carried old evolves_by_fields(5) [OF step]
    by (auto simp: unstarted_def binding_ok_def page_step_def same_page_def)
  have same_context: "current_context s' (t1\<lparr>ts_capture_binding := b\<rparr>) = current_context s1 t1" for b
    by (simp add: current_context_def fields)
  show ?thesis
    using started over ended
    by (cases "ts_capture_binding t1"; cases "ss_session_state s1")
      (auto simp: next_binding_def Let_def begin_capture_def binding_ok_def fields live_def same_context
        capture_eligible_def current_context_def terminal_def)
qed

section \<open>One reduction\<close>

definition good_state :: "supervisor_state \<Rightarrow> bool" where
  "good_state s \<longleftrightarrow> sup_inv s \<and> bindings_ok s"

lemma good_new: "good_state (supervisor_new compatibility)"
  by (simp add: good_state_def sup_inv_def sup_wf_def supervisor_new_def targets_ok_def sessions_ok_def
      pending_ok_def selection_defs bindings_ok_def hm_keys_def)

lemma reduce_input_cases:
  assumes "reduce_input s input = Inr (s', e)"
  obtains (early) "s' = s" "e = []"
  | (handled) s1 e1 where "handle input (s, []) = Inr (s1, e1)" "reconcile_capture_bindings (s1, e1) = (s', e)"
  using assms by (auto simp: reduce_input_def result_simps split: if_splits)

lemma handled_good:
  assumes run: "handle input (s, []) = Inr (s1, e1)" and pass: "reconcile_capture_bindings (s1, e1) = (s', e)"
    and good: "good_state s"
  shows "good_state s' \<and> advances s s' \<and> list_all plain_effect e1 \<and> sup_inv s1"
proof -
  have inv: "sup_inv s" and bound: "bindings_ok s"
    using good by (simp_all add: good_state_def)
  have step: "step_ok (s, []) (s1, e1)"
    using handle_step [OF run inv] .
  then have s1: "sup_inv s1" "evolves s s1" and e1: "list_all plain_effect e1"
    using inv by (auto simp: step_ok_def pushes_def)
  have pass': "same_frame s1 s'" "hm_inv (ss_targets_by_key s')"
    "length (ss_targets_by_key s') = length (ss_targets_by_key s1)"
    and at: "\<And>key. target_at s' key = map_option (next_bound s1) (target_at s1 key)"
    using reconcile_bindings_effect [OF pass targets_hm [OF s1(1)]] by auto
  have "sup_inv s' \<and> advances s1 s'"
    by (rule rebinding_keeps [OF pass' at s1(1)])
  moreover have "bindings_ok s'"
    unfolding bindings_ok_def
  proof (intro allI impI)
    fix key t
    assume "target_at s' key = Some t"
    then obtain t1 where t1: "target_at s1 key = Some t1" "t = next_bound s1 t1"
      unfolding at by auto
    moreover have "ss_session_state s1 \<noteq> Ended"
      using s1(1) by (simp add: sup_inv_def sup_wf_def)
    ultimately show "binding_ok s' t"
      using next_binding_ok [OF bound s1(2) _ _ pass'(1)] by blast
  qed
  ultimately show ?thesis
    using evolves_advances [OF s1(2)] advances_trans e1 s1(1) by (auto simp: good_state_def)
qed

lemma reduce_simps:
  "reduce s (ForConnectionGeneration g inner) =
     (if g \<noteq> ss_connection_generation s then Inr (s, []) else reduce s inner)"
  "(\<And>g inner. input \<noteq> ForConnectionGeneration g inner) \<Longrightarrow> reduce s input = reduce_input s input"
  by (subst reduce.simps, simp) (subst reduce.simps, cases input, auto)

lemma reduce_good:
  assumes "reduce s input = Inr (s', e)" and "good_state s"
  shows "good_state s' \<and> advances s s'"
  using assms
proof (induction s input rule: reduce.induct)
  case (1 s input)
  have "good_state s' \<and> advances s s'" if "reduce_input s input = Inr (s', e)"
    using that
  proof (cases rule: reduce_input_cases)
    case early
    then show ?thesis using 1 by simp
  next
    case (handled s1 e1)
    then show ?thesis using handled_good 1 by blast
  qed
  moreover have "good_state s' \<and> advances s s'" if "input = ForConnectionGeneration g inner" for g inner
    using 1 that by (auto simp: reduce_simps(1) split: if_splits)
  ultimately show ?case
    using 1(2) reduce_simps(2) by metis
qed

section \<open>The event loop\<close>

text \<open>One input of the loop (\<open>SupervisorCommand::Input\<close>): an error keeps the last committed state. The other
  callers of the reducer take the state out first, the inputs that follow from applying effects
  (\<open>apply_effects\<close>) and the page operations; theirs is \<open>commit_supervisor_input\<close> below. A run in the sense
  of the properties is a sequence of inputs of the loop.\<close>

definition supervise :: "supervisor_input \<Rightarrow> supervisor_state \<Rightarrow>
    (browser_error + supervisor_effect list) \<times> supervisor_state" where
  "supervise input s = (case reduce s input of
     Inl e \<Rightarrow> (Inl e, s)
   | Inr (s', effects) \<Rightarrow> (Inr effects, s'))"

definition supervise_all :: "supervisor_input list \<Rightarrow> supervisor_state \<Rightarrow>
    (browser_error + supervisor_effect list) list \<times> supervisor_state" where
  "supervise_all inputs s = run_steps supervise inputs s"

interpretation supervisor: command_machine supervise "\<lambda>_. True" good_state advances
proof unfold_locales
  show "good_state s'" "advances s s'" if "good_state s" "supervise c s = (r, s')" for s c r s'
    using that reduce_good [of s c s'] by (auto simp: supervise_def split: sum.splits)
qed (auto intro: advances_trans)

lemma supervised_good:
  assumes "supervise_all inputs (supervisor_new compatibility) = (replies, s)"
  shows "good_state s"
  using supervisor.run_inv [of inputs] assms good_new by (simp add: supervise_all_def list.pred_True)

lemma supervised_advances:
  assumes "supervise_all inputs s = (replies, s')" and "good_state s"
  shows "advances s s'"
  using supervisor.run_grows [of inputs] assms by (simp add: supervise_all_def list.pred_True)

text \<open>The page operations, and \<open>apply_effects\<close> for the inputs that follow from an effect, commit an input by
  taking the state out first; an error loses it. Where the reduction succeeds both ways agree.\<close>

definition commit_supervisor_input :: "browser_compatibility \<Rightarrow> supervisor_input \<Rightarrow> supervisor_state \<Rightarrow>
    (browser_error + supervisor_effect list) \<times> supervisor_state" where
  "commit_supervisor_input compatibility input s = (case reduce s input of
     Inl e \<Rightarrow> (Inl e, supervisor_new compatibility)
   | Inr (s', effects) \<Rightarrow> (Inr effects, s'))"

end
