(* ===== verification/Target_Sample.thy ===== *)
theory Target_Sample
  imports Target_Supervision
begin

text \<open>
  A run of the target supervisor on concrete inputs, for the witnesses of its properties: a page is
  created, attached, the session becomes ready and the page visible, and its capture starts. The
  page's identifier is left as the call that computes it.
\<close>

definition sample_compatibility :: browser_compatibility where
  "sample_compatibility =
     \<lparr>bc_version = \<lparr>bv_product = Chrome, bv_product_version = ''128'', bv_revision = ''r'',
        bv_protocol_version = ''1.3'', bv_user_agent = ''ua'', bv_js_version = ''js''\<rparr>,
      bc_capabilities = map (\<lambda>c. \<lparr>cs_capability = c, cs_available = True, cs_required = True,
        cs_detail = None\<rparr>) required_capabilities\<rparr>"

definition sample_info :: "string \<Rightarrow> transport_target_info" where
  "sample_info key = \<lparr>ti_target_key = key, ti_target_type = ''page'', ti_url = ''https://k'',
     ti_title = key, ti_attached = False, ti_browser_context_key = None, ti_opener_target_key = None\<rparr>"

definition sample_page :: "target_lifecycle \<Rightarrow> target_visibility \<Rightarrow> u64 \<Rightarrow> transport_session_id option \<Rightarrow>
    capture_binding \<Rightarrow> session_time option \<Rightarrow> target_state" where
  "sample_page l v generation session binding observed =
     \<lparr>ts_target = \<lparr>st_target = \<lparr>pt_id = TargetId (from_be_bytes (target_id_bytes 1 0 ''a'')),
          pt_browser_target_key = ''a'', pt_url = ''https://k'', pt_title = ''a''\<rparr>,
        st_lifecycle = l, st_visibility = v, st_attachment_generation = generation\<rparr>,
      ts_transport_session = session, ts_prior_to_suspension = None, ts_capture_binding = binding,
      ts_viewport_override = None, ts_page_sequence = PageSequence 2, ts_opener_target_key = None,
      ts_opener_target_id = None, ts_last_visibility_observed_at = observed\<rparr>"

definition sample_state :: "browser_session_state \<Rightarrow> u64 \<Rightarrow> target_state \<Rightarrow>
    (transport_session_id \<times> string) list \<Rightarrow> string option \<Rightarrow> supervisor_state" where
  "sample_state state revision page sessions selected =
     \<lparr>ss_session_state = state, ss_connection_generation = 0, ss_revision = revision,
      ss_compatibility = sample_compatibility, ss_targets_by_key = [(''a'', page)],
      ss_target_key_by_session = sessions, ss_pending_attached_sessions = [],
      ss_pending_attached_order = [], ss_selected_target_key = selected, ss_next_page_sequence = 3\<rparr>"

abbreviation sample_transport :: transport_session_id where
  "sample_transport \<equiv> TransportSessionId ''s1''"

definition sample_capture :: capture_context where
  "sample_capture = \<lparr>cc_target_id = TargetId (from_be_bytes (target_id_bytes 1 0 ''a'')),
     cc_connection_generation = 0, cc_attachment_generation = 1, cc_transport_session = sample_transport\<rparr>"

lemma sample_info_recordable [simp]: "is_recordable (sample_info ''a'')"
  by code_simp

lemma sample_info_simps [simp]:
  "ti_target_key (sample_info key) = key" "ti_url (sample_info key) = ''https://k''"
  "ti_title (sample_info key) = key" "ti_opener_target_key (sample_info key) = None"
  by (simp_all add: sample_info_def)

lemma sample_text [simp]: "\<not> blank ''a''" "\<not> blank ''https://k''"
  by code_simp+

lemmas reduction_defs = reduce_simps reduce_input_def returns_early_def from_lost_transport_def handle_def
  put_target_def hm_get_def hm_insert_def hm_remove_def hm_keys_def Let_def live_def
  reconcile_capture_bindings_def reconcile_binding_def next_binding_def capture_eligible_def

definition page_created :: target_state where
  "page_created = sample_page Discovered VisibilityUnknown 0 None BindingInactive None"

definition page_attached :: target_state where
  "page_attached = sample_page Attached VisibilityUnknown 1 (Some sample_transport) BindingInactive None"

definition page_captured :: target_state where
  "page_captured = sample_page Attached Visible 1 (Some sample_transport) (BindingActive sample_capture)
     (Some (SessionTime 1))"

lemmas sample_defs = sample_state_def sample_page_def page_created_def page_attached_def page_captured_def

lemma sample_created:
  "reduce (supervisor_new sample_compatibility) (TargetCreated (sample_info ''a'')) =
     Inr (sample_state Connecting 1 page_created [] None, [target_discovered_event page_created, Attach ''a''])"
  by (simp add: reduction_defs supervisor_new_def reconcile_one_def create_reported_def create_target_def
     prepare_page_target_slot_def ensure_page_target_count_def live_count_def max_known_page_targets_def
     allocate_target_id_def page_sequence_new_def checked_add_def saturating_add_def make_target_def page_target_new_def
     new_target_state_def opener_id_of_def sample_defs)

lemma sample_attached:
  "reduce (sample_state Connecting 1 page_created [] None) (AttachedInput ''a'' sample_transport) =
     Inr (sample_state Connecting 1 page_attached [(sample_transport, ''a'')] None,
       [target_changed_event page_attached, RestoreSessionDomains ''a'' sample_transport])"
  by (simp add: reduction_defs attach_def attach_target_def attached_lifecycle_def transition_def
     target_transition_iff checked_add_def viewport_effects_def target_changed_event_def sample_defs)

lemma sample_ready:
  "reduce (sample_state Connecting 1 page_attached [(sample_transport, ''a'')] None) InitialReconciliationCompleted =
     Inr (sample_state Ready 3 page_attached [(sample_transport, ''a'')] (Some ''a''),
       [Publish (SelectedTargetChanged None (Some (ts_id page_attached))), Publish (SessionStateChanged Ready)])"
  by (simp add: reduction_defs complete_initial_def reconcile_selection_def set_selection_def minimum_def
     selection_candidate_def attached_page_def selected_id_def set_session_state_def session_state_allowed_def
     saturating_add_def sample_defs)

lemma sample_visible:
  "reduce (sample_state Ready 3 page_attached [(sample_transport, ''a'')] (Some ''a''))
      (VisibilityChanged ''a'' Visible (SessionTime 1)) =
     Inr (sample_state Ready 3 page_captured [(sample_transport, ''a'')] (Some ''a''),
       [target_changed_event page_captured, StartCapture sample_capture])"
  by (simp add: reduction_defs visibility_changed_def visible_lifecycle_def begin_capture_def
     current_context_def sample_capture_def target_changed_event_def sample_defs)

definition sample_inputs :: "supervisor_input list" where
  "sample_inputs =
     [TargetCreated (sample_info ''a''), AttachedInput ''a'' sample_transport,
      InitialReconciliationCompleted, VisibilityChanged ''a'' Visible (SessionTime 1)]"

definition sample_session :: supervisor_state where
  "sample_session = sample_state Ready 3 page_captured [(sample_transport, ''a'')] (Some ''a'')"

definition sample_replies :: "(browser_error + supervisor_effect list) list" where
  "sample_replies = map Inr
     [[target_discovered_event page_created, Attach ''a''],
      [target_changed_event page_attached, RestoreSessionDomains ''a'' sample_transport],
      [Publish (SelectedTargetChanged None (Some (ts_id page_attached))), Publish (SessionStateChanged Ready)],
      [target_changed_event page_captured, StartCapture sample_capture]]"

lemma sample_run: "supervise_all sample_inputs (supervisor_new sample_compatibility) = (sample_replies, sample_session)"
  by (simp add: supervise_all_def sample_inputs_def supervise_def sample_created sample_attached sample_ready
      sample_visible sample_replies_def sample_session_def)

lemma sample_session_page: "target_at sample_session ''a'' = Some page_captured"
  by (simp add: sample_session_def sample_state_def hm_get_def)

text \<open>The page is destroyed, and a late report of its information changes nothing.\<close>

definition page_closed :: target_state where
  "page_closed = sample_page Closed Visible 1 None BindingTerminal (Some (SessionTime 1))"

definition closed_session :: supervisor_state where
  "closed_session = sample_state Ready 4 page_closed [] None"

definition closing_effects :: "supervisor_effect list" where
  "closing_effects = [StopCapture sample_capture, Detach sample_transport, close_event page_closed,
     Publish (SelectedTargetChanged (Some (ts_id page_closed)) None)]"

lemma sample_closed:
  "reduce sample_session (TargetDestroyed ''a'') = Inr (closed_session, closing_effects)"
  by (simp add: reduction_defs remove_pending_key_def destroy_def transition_def target_transition_iff
     reconcile_selection_def set_selection_def minimum_def selection_candidate_def attached_page_def
     selected_id_def saturating_add_def queue_capture_teardown_def teardown_session_def teardown_before_def
     close_event_def sample_capture_def closing_effects_def closed_session_def sample_session_def
     page_closed_def sample_defs)

lemma sample_late_info:
  "reduce closed_session (TargetInfoChanged (sample_info ''a'')) = Inr (closed_session, [])"
  by (simp add: reduction_defs reconcile_one_def closed_session_def page_closed_def sample_defs)

lemma closing_run:
  "supervise_all (sample_inputs @ [TargetDestroyed ''a'']) (supervisor_new sample_compatibility) =
     (sample_replies @ [Inr closing_effects], closed_session)"
  using sample_run by (simp add: supervise_all_def run_steps_append supervise_def sample_closed)

lemma after_closing_run:
  "supervise_all [TargetInfoChanged (sample_info ''a'')] closed_session = ([Inr []], closed_session)"
  by (simp add: supervise_all_def supervise_def sample_late_info)

lemma closed_session_page: "target_at closed_session ''a'' = Some page_closed"
  by (simp add: closed_session_def sample_state_def hm_get_def)

text \<open>The session is asked to stop while the page is being captured.\<close>

definition page_stopped :: target_state where
  "page_stopped = page_captured\<lparr>ts_capture_binding := BindingTerminal\<rparr>"

definition stopped_session :: supervisor_state where
  "stopped_session = sample_state Stopping 4 page_stopped [(sample_transport, ''a'')] (Some ''a'')"

definition stopping_effects :: "supervisor_effect list" where
  "stopping_effects = [Publish (SessionStateChanged Stopping), StopCapture sample_capture,
     Shutdown CauseStopRequested]"

lemma sample_stopped:
  "reduce sample_session StopRequested = Inr (stopped_session, stopping_effects)"
  by (simp add: reduction_defs begin_shutdown_def set_session_state_def session_state_allowed_def
     saturating_add_def queue_capture_teardown_def teardown_session_def teardown_before_def push_def
     sample_capture_def stopping_effects_def stopped_session_def sample_session_def page_stopped_def sample_defs)

lemma stopping_run:
  "supervise_all (sample_inputs @ [StopRequested]) (supervisor_new sample_compatibility) =
     (sample_replies @ [Inr stopping_effects], stopped_session)"
  using sample_run by (simp add: supervise_all_def run_steps_append supervise_def sample_stopped)

end
