(* ===== verification/Target_Captures.thy ===== *)
theory Target_Captures
  imports Target_Supervision
begin

text \<open>
  The captures of an event loop: an operation of the reducer leaves the capture binding of every captured
  page alone, so that a capture ends only in the final pass, which says so in the effects. The
  exceptions are named by \<open>settles_captures\<close>.
\<close>

section \<open>The pass\<close>

abbreviation capturing :: "target_state \<Rightarrow> capture_context \<Rightarrow> bool" where
  "capturing t c \<equiv> ts_capture_binding t = BindingActive c \<or> ts_capture_binding t = BindingSuspended c"

lemma queue_keeps: "set (queue_capture_teardown x e) = insert x (set e)"
proof (cases "teardown_session x")
  case (Some session)
  then have "queue_capture_teardown x e = takeWhile (\<lambda>y. \<not> teardown_before session y) e @ [x] @
      dropWhile (\<lambda>y. \<not> teardown_before session y) e"
    by (simp add: queue_capture_teardown_def)
  then show ?thesis
    by (metis (no_types) Un_insert_right list.simps(15) set_append sup_bot.right_neutral
        takeWhile_dropWhile_id append.simps)
qed (simp add: queue_capture_teardown_def)

lemma next_binding_keeps: "set e \<subseteq> set (snd (next_binding s t e))"
  by (cases "ts_capture_binding t") (auto simp: next_binding_def Let_def begin_capture_def queue_keeps)

lemma pass_keeps: "set (snd r) \<subseteq> set (snd (fold reconcile_binding keys r))"
proof (induction keys arbitrary: r)
  case (Cons k keys)
  have "set (snd r) \<subseteq> set (snd (reconcile_binding k r))"
    using next_binding_keeps by (cases r) (auto simp: reconcile_binding_eq split: option.splits)
  then show ?case
    using Cons by fastforce
qed simp

text \<open>What the effects say of a binding that the pass changes.\<close>

definition told :: "capture_binding \<Rightarrow> capture_binding \<Rightarrow> supervisor_effect set \<Rightarrow> bool" where
  "told before after effects \<longleftrightarrow> (case before of
     BindingActive c \<Rightarrow> after = before \<or> StopCapture c \<in> effects \<or> (after = BindingSuspended c \<and> SuspendCapture c \<in> effects)
   | BindingSuspended c \<Rightarrow> after = before \<or> StopCapture c \<in> effects \<or>
       (\<exists>c'. after = BindingActive c' \<and> ResumeCapture c' \<in> effects \<and>
          cc_attachment_generation c < cc_attachment_generation c')
   | _ \<Rightarrow> True)"

lemma told_mono: "told b b' E \<Longrightarrow> E \<subseteq> F \<Longrightarrow> told b b' F"
  by (auto simp: told_def split: capture_binding.splits)

lemma next_binding_tells:
  "told (ts_capture_binding t) (fst (next_binding s t e)) (set (snd (next_binding s t e)))"
  by (cases "ts_capture_binding t")
    (auto simp: told_def next_binding_def Let_def begin_capture_def queue_keeps split: option.splits)

lemma pass_tells:
  assumes "target_at s key = Some t" and "key \<in> set keys" and "distinct keys"
  shows "told (ts_capture_binding t) (fst (next_binding s t [])) (set (snd (fold reconcile_binding keys (s, e))))"
  using assms
proof (induction keys arbitrary: s e)
  case (Cons k keys)
  show ?case
  proof (cases "k = key")
    case True
    then have "told (ts_capture_binding t) (fst (next_binding s t [])) (set (snd (reconcile_binding k (s, e))))"
      using Cons.prems next_binding_tells [of t s e] by (simp add: reconcile_binding_eq next_binding_fst [of s t e "[]"])
    then show ?thesis
      using told_mono pass_keeps by (metis fold_simps(2))
  next
    case False
    obtain s1 e1 where first: "reconcile_binding k (s, e) = (s1, e1)" by fastforce
    have "target_at s1 key = Some t" "ss_session_state s1 = ss_session_state s"
      "ss_connection_generation s1 = ss_connection_generation s"
      using first False Cons.prems by (auto simp: reconcile_binding_eq put_target_def split: option.splits)
    then show ?thesis
      using Cons.IH [of s1 e1] Cons.prems False first next_binding_cong [of s1 s t "[]"] by simp
  qed
qed simp

section \<open>The operations\<close>

definition keeps_captures :: "supervisor_state \<Rightarrow> supervisor_state \<Rightarrow> bool" where
  "keeps_captures s s' \<longleftrightarrow> (\<forall>key t c. target_at s key = Some t \<and> capturing t c \<longrightarrow>
     (\<exists>t'. target_at s' key = Some t' \<and> ts_capture_binding t' = ts_capture_binding t))"

lemma keeps_refl [simp]: "ss_targets_by_key s' = ss_targets_by_key s \<Longrightarrow> keeps_captures s s'"
  by (simp add: keeps_captures_def)

lemma keeps_trans: "keeps_captures s s' \<Longrightarrow> keeps_captures s' s'' \<Longrightarrow> keeps_captures s s''"
  unfolding keeps_captures_def by metis

lemma put_targets: "ss_targets_by_key (put_target key t s) = hm_insert key t (ss_targets_by_key s)"
  by (simp add: put_target_def)

lemma selection_targets: "ss_targets_by_key (fst (reconcile_selection r)) = ss_targets_by_key (fst r)"
  by (cases r) (auto simp: reconcile_selection_def set_selection_def)

lemma attach_keeps:
  assumes "attach key session probe unsolicited (s, e) = Inr r"
  shows "keeps_captures s (fst r)"
  using assms
  by (auto simp: attach_def attach_pending_def attach_target_def result_simps Let_def keeps_captures_def
      split: prod.splits if_splits option.splits)

lemma adopt_keeps:
  assumes "adopt_pending_attachment key (s, e) = Inr r"
  shows "keeps_captures s (fst r)"
proof -
  obtain p s1 where removed: "remove_pending_key key s = (p, s1)" by fastforce
  then have "keeps_captures s s1"
    using remove_pending_key_keeps by simp
  moreover have "keeps_captures s1 (fst r)"
    using assms removed attach_keeps [of key _ True False s1 e r] by (cases p) (auto simp: adopt_pending_attachment_def)
  ultimately show ?thesis
    by (rule keeps_trans)
qed

lemma remove_pending_session_targets:
  "ss_targets_by_key (remove_pending_session session s) = ss_targets_by_key s"
proof -
  have "ss_targets_by_key (fold (\<lambda>key s. snd (remove_pending_key key s)) keys s) = ss_targets_by_key s" for keys
    by (induction keys arbitrary: s) (simp_all add: remove_pending_key_def)
  then show ?thesis
    by (simp add: remove_pending_session_def)
qed

lemma destroy_keeps:
  assumes "destroy key (s, e) = Inr r"
  shows "keeps_captures s (fst r)"
  using assms
  by (auto simp: destroy_def result_simps Let_def keeps_captures_def selection_targets put_targets hm.get_put
      split: prod.splits if_splits option.splits)

lemma failing_keeps:
  "attach_failed key (s, e) = Inr r \<Longrightarrow> keeps_captures s (fst r)"
  "detach_failed session (s, e) = Inr r \<Longrightarrow> keeps_captures s (fst r)"
  by (auto simp: attach_failed_def detach_failed_def target_failed_eq result_simps Let_def keeps_captures_def
      selection_targets put_targets hm.get_put split: prod.splits if_splits option.splits)

lemma visibility_keeps:
  assumes "visibility_changed key visibility observed_at (s, e) = Inr r"
  shows "keeps_captures s (fst r)"
  using assms
  by (auto simp: visibility_changed_def result_simps Let_def keeps_captures_def
      split: prod.splits if_splits option.splits)

lemma select_keeps: "select_target key (s, e) = Inr r \<Longrightarrow> keeps_captures s (fst r)"
  by (auto simp: select_target_def set_selection_def split: if_splits)

lemma viewport_keeps: "viewport_applied key viewport (s, e) = Inr r \<Longrightarrow> keeps_captures s (fst r)"
  by (auto simp: viewport_applied_def result_simps keeps_captures_def split: if_splits)

lemma session_keeps:
  "set_session_state state (s, e) = Inr r \<Longrightarrow> keeps_captures s (fst r)"
  "begin_shutdown cause (s', e) = Inr r \<Longrightarrow> ss_targets_by_key s' = ss_targets_by_key s \<Longrightarrow> keeps_captures s (fst r)"
  by (auto simp: set_session_state_def begin_shutdown_def push_def result_simps split: if_splits)

lemma complete_keeps: "complete_initial (s, e) = Inr r \<Longrightarrow> keeps_captures s (fst r)"
  using session_keeps(1) [of Ready "fst (reconcile_selection (s, e))" "snd (reconcile_selection (s, e))" r]
  by (auto simp: complete_initial_def keeps_captures_def selection_targets split: if_splits)

lemma suspend_keeps:
  assumes "fold_result suspend_target (s, e) keys = Inr r"
  shows "keeps_captures s (fst r)"
  using assms
proof (induction keys arbitrary: s e)
  case (Cons k keys)
  then obtain s1 e1 where first: "suspend_target (s, e) k = Inr (s1, e1)"
      and rest: "fold_result suspend_target (s1, e1) keys = Inr r"
    by (auto simp: result_simps)
  have "keeps_captures s s1"
    using first
    by (auto simp: suspend_target_def result_simps Let_def keeps_captures_def split: if_splits option.splits)
  then show ?case
    using Cons.IH [OF rest] by (rule keeps_trans)
qed auto

lemma connection_lost_keeps:
  assumes "connection_lost (s, e) = Inr r"
  shows "keeps_captures s (fst r)"
proof -
  obtain s1 e1 s2 e2 where "set_session_state Reconnecting (s, e) = Inr (s1, e1)"
    "fold_result suspend_target (s1, e1) (hm_keys (ss_targets_by_key s1)) = Inr (s2, e2)"
    "fst r = forget_sessions s2"
    using assms by (auto simp: connection_lost_def result_simps)
  then have "keeps_captures s s1" "keeps_captures s1 s2" "keeps_captures s2 (fst r)"
    using session_keeps(1) suspend_keeps by (fastforce, fastforce, simp add: forget_sessions_def)
  then show ?thesis
    using keeps_trans by blast
qed

text \<open>A new page takes the place of a page that is over, and makes room only by dropping such pages.\<close>

lemma create_keeps:
  assumes "create_reported info creation_event (s, e) = Inr r" and "sup_inv s"
    and live: "\<And>key t c. target_at s key = Some t \<Longrightarrow> capturing t c \<Longrightarrow> live t"
    and over: "\<And>t. target_at s (ti_target_key info) = Some t \<Longrightarrow> \<not> live t"
  shows "keeps_captures s (fst r)"
proof -
  let ?key = "ti_target_key info"
  obtain t s1 where create: "create_target info VisibilityUnknown s = Inr (t, s1)"
    using assms(1) by (auto simp: create_reported_def Let_def and_then_Inr_iff)
  obtain s0 where slot: "prepare_page_target_slot s = Inr s0" "ss_targets_by_key s1 = ss_targets_by_key s0"
    using create
    by (auto simp: create_target_def Let_def and_then_Inr_iff ok_or_Inr_iff allocate_target_id_def)
  have hm: "hm_inv (ss_targets_by_key s)"
    using assms(2) by (rule targets_hm)
  have "target_at s0 key = Some u" if "target_at s key = Some u" "live u" for key u
    using slot(1) that hm
    by (auto simp: prepare_page_target_slot_def and_then_Inr_iff Let_def hm_get_retain split: if_splits)
  then have first: "keeps_captures s (put_target ?key t s1)"
    using live over by (fastforce simp: keeps_captures_def slot(2))
  let ?e = "if creation_event then e @ [target_discovered_event t] else e"
  have "Inr r = (if hm_get (ss_pending_attached_sessions (put_target ?key t s1)) ?key \<noteq> None
      then adopt_pending_attachment ?key (put_target ?key t s1, ?e)
      else Inr (put_target ?key t s1, ?e @ [Attach ?key]))"
    using assms(1) create by (simp add: create_reported_def Let_def)
  then have "keeps_captures (put_target ?key t s1) (fst r)"
    using adopt_keeps [of ?key "put_target ?key t s1" ?e r] by (auto split: if_splits)
  then show ?thesis
    by (rule keeps_trans [OF first])
qed

lemma update_page_binding: "update_page info t = Inr t' \<Longrightarrow> ts_capture_binding t' = ts_capture_binding t"
  by (auto simp: update_page_def and_then_Inr_iff)

lemma reconcile_one_keeps:
  assumes "reconcile_one info creation_event (s, e) = Inr r" and "sup_inv s"
    and live: "\<And>key t c. target_at s key = Some t \<Longrightarrow> capturing t c \<Longrightarrow> live t"
  shows "keeps_captures s (fst r)"
proof -
  let ?key = "ti_target_key info"
  show ?thesis
  proof (cases "is_recordable info")
    case False
    then show ?thesis
      using assms(1) destroy_keeps by (auto simp: reconcile_one_def Let_def split: if_splits)
  next
    case True
    note run = assms(1) [unfolded reconcile_one_def Let_def] True
    show ?thesis
    proof (cases "target_at s ?key")
      case None
      then show ?thesis
        using create_keeps [OF _ assms(2) live, of info creation_event e r] run by simp
    next
      case (Some t)
      consider (over) "terminal (ts_lifecycle t)" | (renamed) "\<not> terminal (ts_lifecycle t)" "renamed t info"
        | (same) "\<not> terminal (ts_lifecycle t)" "\<not> renamed t info"
        by blast
      then show ?thesis
      proof cases
        case over
        then show ?thesis
          using create_keeps [OF _ assms(2) live, of info creation_event e r] run Some
          by (cases creation_event) (auto simp: live_def)
      next
        case renamed
        then obtain t' e' where "update_page info t = Inr t'"
          and adopt: "adopt_pending_attachment ?key (put_target ?key t' s, e') = Inr r"
          using run Some by (auto simp: and_then_Inr_iff)
        then have "keeps_captures s (put_target ?key t' s)"
          using update_page_binding Some by (auto simp: keeps_captures_def)
        then show ?thesis
          using adopt_keeps [OF adopt] keeps_trans by blast
      next
        case same
        then show ?thesis
          using adopt_keeps run Some by simp
      qed
    qed
  qed
qed

section \<open>One input\<close>

text \<open>The inputs whose handling settles a capture itself, or may drop a page that has just been closed.\<close>

fun settles_captures :: "supervisor_input \<Rightarrow> bool" where
  "settles_captures (ForConnectionGeneration _ input) = settles_captures input"
| "settles_captures (DomainSetupFailed _) = True"
| "settles_captures (CaptureStartFailed _) = True"
| "settles_captures (InitialTargets _) = True"
| "settles_captures (Reconnected _) = True"
| "settles_captures _ = False"

lemma handle_keeps:
  assumes "handle input (s, []) = Inr r" and "\<not> settles_captures input" and "good_state s"
  shows "keeps_captures s (fst r)"
proof -
  have inv: "sup_inv s"
    using assms(3) by (simp add: good_state_def)
  have live: "live t" if "target_at s key = Some t" "capturing t c" for key t c
  proof -
    have "binding_ok s t"
      using assms(3) that(1) unfolding good_state_def bindings_ok_def by blast
    then show ?thesis
      using that(2) by (auto simp: binding_ok_def)
  qed
  have removed: "keeps_captures s (fst r)" if "keeps_captures s1 (fst r)" "ss_targets_by_key s1 = ss_targets_by_key s" for s1
    using that keeps_trans keeps_refl by blast
  show ?thesis
  proof (cases input)
    case (Detached session)
    then have "keeps_captures (remove_pending_session session s) (fst r)"
      using assms(1) failing_keeps(2) by (auto simp: handle_def)
    then show ?thesis
      using removed remove_pending_session_targets by blast
  next
    case (TargetDestroyed key)
    obtain p s1 where p: "remove_pending_key key s = (p, s1)" by fastforce
    then have "keeps_captures s1 (fst r)"
      using assms(1) TargetDestroyed destroy_keeps by (auto simp: handle_def)
    then show ?thesis
      using removed remove_pending_key_keeps [OF p] by blast
  next
    case (InitialVisibilityProbeFailed key)
    then show ?thesis
      using assms(1) by (auto simp: handle_def visibility_probe_failed_def keeps_captures_def split: option.splits if_splits)
  qed (use assms(1,2) inv live in \<open>auto simp: handle_def split: option.splits
      intro: session_keeps(2) reconcile_one_keeps attach_keeps failing_keeps visibility_keeps select_keeps viewport_keeps
        complete_keeps connection_lost_keeps\<close>)
qed

lemma reduce_tells:
  assumes "reduce s input = Inr (s', e)" and "good_state s" and "\<not> settles_captures input"
    and "target_at s key = Some t" and "capturing t c"
  shows "\<exists>t'. target_at s' key = Some t' \<and> told (ts_capture_binding t) (ts_capture_binding t') (set e)"
  using assms
proof (induction s input rule: reduce.induct)
  case (1 s input)
  have "\<exists>t'. target_at s' key = Some t' \<and> told (ts_capture_binding t) (ts_capture_binding t') (set e)"
    if "reduce_input s input = Inr (s', e)"
    using that
  proof (cases rule: reduce_input_cases)
    case early
    then show ?thesis using 1 by (auto simp: told_def)
  next
    case (handled s1 e1)
    obtain t1 where t1: "target_at s1 key = Some t1" "ts_capture_binding t1 = ts_capture_binding t"
      using handle_keeps [OF handled(1) 1(4,3)] 1(5,6) by (fastforce simp: keeps_captures_def)
    have hm: "hm_inv (ss_targets_by_key s1)"
      using handled_good [OF handled 1(3)] targets_hm by blast
    have "key \<in> set (hm_keys (ss_targets_by_key s1))"
      using t1(1) hm.in_keys_iff by fastforce
    then have "told (ts_capture_binding t1) (fst (next_binding s1 t1 [])) (set e)"
      using pass_tells [OF t1(1) _ hm.distinct_keys [OF hm], of e1] handled(2)
      by (simp add: reconcile_capture_bindings_def)
    moreover have "target_at s' key = Some (next_bound s1 t1)"
      using reconcile_bindings_effect [OF handled(2) hm] t1(1) by simp
    ultimately show ?thesis
      using t1(2) by simp
  qed
  moreover have "\<exists>t'. target_at s' key = Some t' \<and> told (ts_capture_binding t) (ts_capture_binding t') (set e)"
    if "input = ForConnectionGeneration g inner" for g inner
    using 1 that by (auto simp: reduce_simps(1) told_def split: if_splits)
  ultimately show ?case
    using 1(2) reduce_simps(2) by metis
qed

end
