(* ===== verification/Target_Properties.thy ===== *)
theory Target_Properties
  imports Target_Sample Target_Captures
begin

text \<open>
  The properties of the target supervisor: bounds on what it keeps, the capture bindings, the
  selected page, identity and termination of pages, the inventory of pages, the order of effects,
  and which inputs can fail.
\<close>

text \<open>C24: Whatever the browser reports, the supervisor stays bounded. After any
  sequence of inputs it knows at most 128 page targets and holds at most 16 sessions of targets it
  does not know yet, and the eviction order lists exactly those, each once.\<close>

theorem supervisor_bounds:
  assumes "supervise_all inputs (supervisor_new compatibility) = (replies, s)"
  shows "length (ss_targets_by_key s) \<le> 128 \<and> length (ss_pending_attached_sessions s) \<le> 16 \<and>
    distinct (ss_pending_attached_order s) \<and>
    set (ss_pending_attached_order s) = set (hm_keys (ss_pending_attached_sessions s))"
  using supervised_good [OF assms]
  by (simp add: good_state_def sup_inv_def sup_wf_def targets_ok_def pending_ok_def
      max_known_page_targets_def max_pending_attached_sessions_def)

lemma supervisor_bounds_witness:
  "length (ss_targets_by_key sample_session) \<le> 128 \<and> length (ss_pending_attached_sessions sample_session) \<le> 16 \<and>
    distinct (ss_pending_attached_order sample_session) \<and>
    set (ss_pending_attached_order sample_session) = set (hm_keys (ss_pending_attached_sessions sample_session))"
  by (rule supervisor_bounds [OF sample_run])

lemma page_of_good: "good_state s \<Longrightarrow> target_at s key = Some t \<Longrightarrow> page_ok (ss_next_page_sequence s) key t"
  using page_of_sup_inv by (simp add: good_state_def)

lemma binding_of_good: "good_state s \<Longrightarrow> target_at s key = Some t \<Longrightarrow> binding_ok s t"
  by (simp add: good_state_def bindings_ok_def)

text \<open>C16: A capture is active only for what the page is now. After any
  sequence of inputs, a page with an active capture belongs to a ready session, is live and attached,
  and the capture's context names the page, its transport session and the current connection and
  attachment generations.\<close>

theorem capture_follows_attachment:
  assumes "supervise_all inputs (supervisor_new compatibility) = (replies, s)"
    and "target_at s key = Some t" and "ts_capture_binding t = BindingActive c"
  shows "ss_session_state s = Ready \<and> ts_lifecycle t \<in> {Attached, Recording, Hidden} \<and>
    ts_transport_session t = Some (cc_transport_session c) \<and> cc_target_id c = ts_id t \<and>
    cc_connection_generation c = ss_connection_generation s \<and>
    cc_attachment_generation c = st_attachment_generation (ts_target t)"
proof -
  note good = supervised_good [OF assms(1)]
  have bound: "live t" "ss_session_state s = Ready" "current_context s t = Some c"
    using binding_of_good [OF good assms(2)] assms(3) by (simp_all add: binding_ok_def)
  moreover from bound have "ts_lifecycle t \<in> {Attached, Recording, Hidden}"
    using page_of_good [OF good assms(2)]
    by (cases "ts_lifecycle t") (auto simp: page_defs current_context_def)
  ultimately show ?thesis
    by (auto simp: current_context_def)
qed

lemma capture_follows_attachment_witness:
  "ss_session_state sample_session = Ready \<and> ts_lifecycle page_captured \<in> {Attached, Recording, Hidden} \<and>
    ts_transport_session page_captured = Some (cc_transport_session sample_capture) \<and>
    cc_target_id sample_capture = ts_id page_captured \<and>
    cc_connection_generation sample_capture = ss_connection_generation sample_session \<and>
    cc_attachment_generation sample_capture = st_attachment_generation (ts_target page_captured)"
  by (rule capture_follows_attachment [OF sample_run sample_session_page]) (simp add: sample_defs)

text \<open>C25: While a session is connecting or ready, its selected page can be operated
  on: if a page is selected, resolving the selection returns that page, attached.\<close>

theorem selected_page_usable:
  assumes "supervise_all inputs (supervisor_new compatibility) = (replies, s)"
    and "ss_session_state s \<in> {Connecting, Ready}" and "ss_selected_target_key s = Some key"
  shows "\<exists>t. target_at s key = Some t \<and> resolve_selection s SelectedPage = Inr t \<and> attached_page t"
  using supervised_good [OF assms(1)] assms(2,3)
  by (auto simp: good_state_def sup_inv_def selection_defs resolve_selection_def selected_target_def
      split: option.splits)

lemma selected_page_usable_witness:
  "\<exists>t. target_at sample_session ''a'' = Some t \<and> resolve_selection sample_session SelectedPage = Inr t \<and>
    attached_page t"
  by (rule selected_page_usable [OF sample_run]) (simp_all add: sample_session_def sample_state_def)

text \<open>C17: A page target is never resurrected or renumbered. Between any two moments of a
  run, what a key names has not gone back to an earlier page; and if it is still the same page, by its
  sequence number, then it has the same identifier, its attachment generation has not decreased, and
  if it was closed or failed it still is.\<close>

theorem page_identity:
  assumes "supervise_all inputs (supervisor_new compatibility) = (replies, s)"
    and "supervise_all later s = (replies', s')"
    and "target_at s key = Some t" and "target_at s' key = Some t'"
  shows "ts_sequence t \<le> ts_sequence t' \<and> (ts_sequence t' = ts_sequence t \<longrightarrow> ts_id t' = ts_id t \<and>
    st_attachment_generation (ts_target t) \<le> st_attachment_generation (ts_target t') \<and>
    (terminal (ts_lifecycle t) \<longrightarrow> ts_lifecycle t' = ts_lifecycle t))"
proof -
  note good = supervised_good [OF assms(1)]
  have "ts_sequence t < ss_next_page_sequence s"
    using page_of_good [OF good assms(3)] by (simp add: page_ok_def)
  from supervised_advances [OF assms(2) good] assms(4) show ?thesis
  proof (cases rule: evolves_by_page)
    case (same u)
    then show ?thesis
      using assms(3) by (auto simp: same_page_def)
  next
    case fresh
    then show ?thesis
      using \<open>ts_sequence t < _\<close> by auto
  qed
qed

lemma page_identity_witness:
  "ts_sequence page_captured \<le> ts_sequence page_closed \<and> ts_id page_closed = ts_id page_captured \<and>
    st_attachment_generation (ts_target page_captured) \<le> st_attachment_generation (ts_target page_closed)"
proof -
  have "supervise_all [TargetDestroyed ''a''] sample_session = ([Inr closing_effects], closed_session)"
    by (simp add: supervise_all_def supervise_def sample_closed)
  from page_identity [OF sample_run this sample_session_page closed_session_page] show ?thesis
    by (simp add: page_captured_def page_closed_def sample_page_def)
qed

section \<open>The inventory of pages\<close>

lemma live_pages:
  assumes "hm_inv (ss_targets_by_key s)"
  shows "snd ` set (filter (\<lambda>(_, t). live t) (ss_targets_by_key s)) = {t. \<exists>key. target_at s key = Some t \<and> live t}"
proof (intro set_eqI iffI)
  fix t
  assume "t \<in> snd ` set (filter (\<lambda>(_, t). live t) (ss_targets_by_key s))"
  then obtain key where "(key, t) \<in> set (ss_targets_by_key s)" "live t"
    by auto
  then show "t \<in> {t. \<exists>key. target_at s key = Some t \<and> live t}"
    using hm_mem_get [OF assms] by blast
next
  fix t
  assume "t \<in> {t. \<exists>key. target_at s key = Some t \<and> live t}"
  then obtain key where "(key, t) \<in> set (filter (\<lambda>(_, t). live t) (ss_targets_by_key s))"
    using hm_get_mem by fastforce
  then show "t \<in> snd ` set (filter (\<lambda>(_, t). live t) (ss_targets_by_key s))"
    by (metis image_eqI snd_conv)
qed

text \<open>C26: The inventory of pages never fails. It lists exactly the live pages, in strictly
  increasing order of their sequence numbers, none of them after the cursor it returns.\<close>

theorem page_inventory:
  assumes "supervise_all inputs (supervisor_new compatibility) = (replies, s)"
  shows "\<exists>i. page_contexts s = Inr i \<and>
    set (pci_pages i) = page_context_of s ` {t. \<exists>key. target_at s key = Some t \<and> live t} \<and>
    sorted_wrt (<) (map (sequence_value \<circ> pcs_sequence) (pci_pages i)) \<and>
    (\<forall>page \<in> set (pci_pages i). sequence_value (pcs_sequence page) \<le> sequence_value (pci_cursor i))"
proof -
  note good = supervised_good [OF assms]
  let ?live = "filter (\<lambda>(_, t). live t) (ss_targets_by_key s)"
  let ?pages = "map (\<lambda>(_, t). page_context_of s t) ?live"
  let ?seq = "\<lambda>page. sequence_value (pcs_sequence page)"
  let ?sorted = "sort_key ?seq ?pages"
  have ok: "targets_ok s" and hm: "hm_inv (ss_targets_by_key s)"
    using good by (simp_all add: good_state_def sup_inv_def sup_wf_def targets_ok_def)
  have "1 < ss_next_page_sequence s"
    using ok by (simp add: targets_ok_def)
  then have less: "1 \<le> ss_next_page_sequence s" "ss_next_page_sequence s - 1 \<noteq> 0"
    by auto
  then have contexts: "page_contexts s = Inr \<lparr>pci_cursor = PageSequence (ss_next_page_sequence s - 1), pci_pages = ?sorted\<rparr>"
    by (simp add: page_contexts_def page_sequence_new_def saturating_sub_def)
  have seq: "map ?seq ?pages = map (\<lambda>(_, t). ts_sequence t) ?live"
    by (simp add: page_context_of_def comp_def case_prod_beta)
  have "distinct (map (\<lambda>(_, t). ts_sequence t) ?live)"
    unfolding distinct_map
  proof
    show "distinct ?live"
      using hm by (simp add: hm_inv_def distinct_map)
    show "inj_on (\<lambda>(_, t). ts_sequence t) (set ?live)"
      using ok hm_mem_get [OF hm] hm unfolding targets_ok_def inj_on_def
      by (auto simp: hm_inv_def) (metis option.inject)+
  qed
  then have "distinct (map ?seq ?pages)"
    by (simp only: seq)
  then have "distinct (map ?seq ?sorted)"
    by (simp only: distinct_map distinct_sort set_sort)
  moreover have "sorted (map ?seq ?sorted)"
    by simp
  ultimately have "sorted_wrt (<) (map ?seq ?sorted)"
    using strict_sorted_iff by blast
  moreover have pages: "set ?sorted = page_context_of s ` {t. \<exists>key. target_at s key = Some t \<and> live t}"
    unfolding live_pages [OF hm, symmetric] by (simp only: set_sort set_map image_image split_def)
  moreover have "?seq page \<le> ss_next_page_sequence s - 1" if page: "page \<in> set ?sorted" for page
  proof -
    obtain key t where "target_at s key = Some t" "page = page_context_of s t"
      using page unfolding pages by blast
    then have "?seq page < ss_next_page_sequence s"
      using page_of_good [OF good] by (simp add: page_ok_def page_context_of_def)
    then show ?thesis
      using less by (simp add: word_le_nat_alt word_less_nat_alt unat_sub)
  qed
  ultimately show ?thesis
    by (intro exI [of _ "\<lparr>pci_cursor = PageSequence (ss_next_page_sequence s - 1), pci_pages = ?sorted\<rparr>"])
      (simp add: contexts comp_def)
qed

lemma page_inventory_witness:
  "\<exists>i. page_contexts sample_session = Inr i \<and>
    set (pci_pages i) = page_context_of sample_session ` {t. \<exists>key. target_at sample_session key = Some t \<and> live t} \<and>
    sorted_wrt (<) (map (sequence_value \<circ> pcs_sequence) (pci_pages i))"
  using page_inventory [OF sample_run] by blast

text \<open>A cursor never misses a page. Take an inventory, let the run go on and
  take another: the cursor has not gone back, and a page of the second inventory at or before the
  first cursor was already known when the first was taken, under the same key.\<close>

lemma cursor_separates_pages:
  assumes "supervise_all inputs (supervisor_new compatibility) = (replies, s)"
    and "supervise_all later s = (replies', s')"
    and "page_contexts s = Inr i" and "page_contexts s' = Inr i'"
  shows "sequence_value (pci_cursor i) \<le> sequence_value (pci_cursor i') \<and>
    (\<forall>page \<in> set (pci_pages i'). sequence_value (pcs_sequence page) \<le> sequence_value (pci_cursor i) \<longrightarrow>
      (\<exists>t. target_at s (pt_browser_target_key (st_target (ps_target (pcs_page page)))) = Some t \<and>
        ts_page_sequence t = pcs_sequence page))"
proof -
  note good = supervised_good [OF assms(1)]
  note steps = supervised_advances [OF assms(2) good]
  have good': "good_state s'"
    using supervisor.run_inv [of later] assms(2) good by (simp add: supervise_all_def list.pred_True)
  have one: "1 \<le> ss_next_page_sequence s"
    using good unfolding good_state_def sup_inv_def sup_wf_def targets_ok_def by auto
  then have one': "1 \<le> ss_next_page_sequence s'"
    using evolves_by_fields(1) [OF steps] by (rule order_trans)
  have cursor: "sequence_value (pci_cursor i) = ss_next_page_sequence s - 1"
    "sequence_value (pci_cursor i') = ss_next_page_sequence s' - 1"
    using assms(3,4) one one' by (auto simp: page_contexts_def result_simps saturating_sub_def)
  have "\<exists>t. target_at s (pt_browser_target_key (st_target (ps_target (pcs_page page)))) = Some t \<and>
      ts_page_sequence t = pcs_sequence page"
    if page: "page \<in> set (pci_pages i')" and before: "sequence_value (pcs_sequence page) \<le> sequence_value (pci_cursor i)"
    for page
  proof -
    obtain key t' where "(key, t') \<in> set (ss_targets_by_key s')" and p: "page = page_context_of s' t'"
      using page assms(4) by (auto simp: page_contexts_def result_simps)
    then have at: "target_at s' key = Some t'"
      using good' by (simp add: good_state_def targets_hm hm_mem_get)
    then have key: "pt_browser_target_key (st_target (ts_target t')) = key"
      using page_of_good [OF good'] by (simp add: page_ok_def)
    have "ts_sequence t' < ss_next_page_sequence s"
      using before one by (simp add: p cursor page_context_of_def word_le_nat_alt word_less_nat_alt unat_sub)
    with steps at obtain t where "target_at s key = Some t" "same_page t t'"
      by (cases rule: evolves_by_page) auto
    then show ?thesis
      using key by (auto simp: p page_context_of_def same_page_def)
  qed
  moreover have "ss_next_page_sequence s - 1 \<le> ss_next_page_sequence s' - 1"
    using evolves_by_fields(1) [OF steps] one one' by (simp add: word_le_nat_alt unat_sub)
  ultimately show ?thesis
    by (simp add: cursor)
qed

section \<open>The effects of a reduction\<close>

definition teardown_first :: "supervisor_effect list \<Rightarrow> bool" where
  "teardown_first effects \<longleftrightarrow> sorted_wrt (\<lambda>earlier later. \<forall>session.
     teardown_session later = Some session \<longrightarrow> \<not> teardown_before session earlier) effects"

lemma teardown_not_before [simp]:
  "teardown_session e = Some x \<Longrightarrow> \<not> teardown_before y e"
  by (auto simp: teardown_session_def teardown_before_def split: supervisor_effect.splits)

lemma teardown_first_plain:
  assumes "list_all plain_effect e"
  shows "teardown_first e"
proof -
  have none: "teardown_session b = None" if "b \<in> set e" for b
    using assms that by (auto simp: list_all_iff plain_effect_def teardown_session_def split: supervisor_effect.splits)
  have "sorted_wrt (\<lambda>a b. teardown_session b = None) e"
    using none by (induction e) auto
  then show ?thesis
    unfolding teardown_first_def by (rule sorted_wrt_mono_rel [rotated]) auto
qed

lemma teardown_first_push: "teardown_first e \<Longrightarrow> teardown_session x = None \<Longrightarrow> teardown_first (e @ [x])"
  by (simp add: teardown_first_def sorted_wrt_append)

lemma teardown_first_insert:
  assumes "teardown_first (before @ after)" and "teardown_session x = Some session"
    and "\<And>y. y \<in> set before \<Longrightarrow> \<not> teardown_before session y"
  shows "teardown_first (before @ x # after)"
  using assms by (simp add: teardown_first_def sorted_wrt_append)

lemma teardown_first_queue:
  assumes "teardown_first e" and "teardown_session x = Some session"
  shows "teardown_first (queue_capture_teardown x e)"
proof -
  have "\<not> teardown_before session y" if "y \<in> set (takeWhile (\<lambda>y. \<not> teardown_before session y) e)" for y
    using set_takeWhileD [OF that] by simp
  then show ?thesis
    using teardown_first_insert [OF _ assms(2)] assms by (simp add: queue_capture_teardown_def)
qed

lemma next_binding_teardown:
  "teardown_first e \<Longrightarrow> teardown_first (snd (next_binding s t e))"
  by (cases "ts_capture_binding t")
    (auto simp: next_binding_def Let_def begin_capture_def teardown_session_def
      intro!: teardown_first_push teardown_first_queue)

lemma pass_teardown: "teardown_first (snd r) \<Longrightarrow> teardown_first (snd (fold reconcile_binding keys r))"
proof (induction keys arbitrary: r)
  case (Cons k keys)
  have "teardown_first (snd (reconcile_binding k r))"
    using Cons.prems by (cases r) (auto simp: reconcile_binding_eq next_binding_teardown split: option.splits)
  then show ?case
    using Cons.IH by simp
qed simp

lemma reduce_teardown:
  assumes "reduce s input = Inr (s', e)" and "good_state s"
  shows "teardown_first e"
  using assms
proof (induction s input rule: reduce.induct)
  case (1 s input)
  have "teardown_first e" if "reduce_input s input = Inr (s', e)"
    using that
  proof (cases rule: reduce_input_cases)
    case early
    then show ?thesis by (simp add: teardown_first_def)
  next
    case (handled s1 e1)
    then have "teardown_first e1"
      using handled_good 1(3) teardown_first_plain by blast
    then show ?thesis
      using handled(2) pass_teardown [of "(s1, e1)" "hm_keys (ss_targets_by_key s1)"] by (simp add: reconcile_capture_bindings_def)
  qed
  moreover have "teardown_first e" if "input = ForConnectionGeneration g inner" for g inner
    using 1 that by (auto simp: reduce_simps(1) teardown_first_def split: if_splits)
  ultimately show ?case
    using 1(2) reduce_simps(2) by metis
qed

text \<open>C21: Captures are told of their end, and in time. In the effects of any input of any
  run, no stop or suspension of a capture comes after the detachment of its own transport session, after
  the shutdown or after the start of a reconnection. And unless the input is a failed domain setup, a
  failed capture start, the initial targets or a reconnection, every page with an active or suspended
  capture is still known, and if its binding is not what it was, the effects say so: they stop that
  capture, or they suspend the active one, or they resume the suspended one under a later attachment.\<close>

theorem teardown_before_detach:
  assumes "supervise_all inputs (supervisor_new compatibility) = (replies, s)"
    and "supervise input s = (Inr effects, s')"
  shows "(\<forall>i j c. i < j \<and> j < length effects \<and> effects ! j \<in> {StopCapture c, SuspendCapture c} \<longrightarrow>
      effects ! i \<notin> {Detach (cc_transport_session c), BeginReconnect} \<and>
      (\<forall>cause. effects ! i \<noteq> Shutdown cause)) \<and>
    (\<not> settles_captures input \<longrightarrow> (\<forall>key t c. target_at s key = Some t \<and> capturing t c \<longrightarrow>
      (\<exists>t'. target_at s' key = Some t' \<and>
        (ts_capture_binding t' = ts_capture_binding t \<or> StopCapture c \<in> set effects \<or>
         (ts_capture_binding t = BindingActive c \<and> ts_capture_binding t' = BindingSuspended c \<and>
            SuspendCapture c \<in> set effects) \<or>
         (ts_capture_binding t = BindingSuspended c \<and> (\<exists>c'. ts_capture_binding t' = BindingActive c' \<and>
            ResumeCapture c' \<in> set effects \<and>
            cc_attachment_generation c < cc_attachment_generation c'))))))"
proof (intro conjI impI)
  note good = supervised_good [OF assms(1)]
  have run: "reduce s input = Inr (s', effects)"
    using assms(2) by (auto simp: supervise_def split: sum.splits)
  have first: "\<not> teardown_before (cc_transport_session c) (effects ! i)"
    if "i < j" "j < length effects" "effects ! j \<in> {StopCapture c, SuspendCapture c}" for i j c
    using reduce_teardown [OF run good] that
    by (auto simp: teardown_first_def sorted_wrt_iff_nth_less teardown_session_def)
  show "\<forall>i j c. i < j \<and> j < length effects \<and> effects ! j \<in> {StopCapture c, SuspendCapture c} \<longrightarrow>
      effects ! i \<notin> {Detach (cc_transport_session c), BeginReconnect} \<and> (\<forall>cause. effects ! i \<noteq> Shutdown cause)"
    using first by (fastforce simp: teardown_before_def)
  assume "\<not> settles_captures input"
  then show "\<forall>key t c. target_at s key = Some t \<and> capturing t c \<longrightarrow>
      (\<exists>t'. target_at s' key = Some t' \<and>
        (ts_capture_binding t' = ts_capture_binding t \<or> StopCapture c \<in> set effects \<or>
         (ts_capture_binding t = BindingActive c \<and> ts_capture_binding t' = BindingSuspended c \<and>
            SuspendCapture c \<in> set effects) \<or>
         (ts_capture_binding t = BindingSuspended c \<and> (\<exists>c'. ts_capture_binding t' = BindingActive c' \<and>
            ResumeCapture c' \<in> set effects \<and>
            cc_attachment_generation c < cc_attachment_generation c'))))"
    using reduce_tells [OF run good] by (fastforce simp: told_def)
qed

lemma sample_stops: "supervise StopRequested sample_session = (Inr stopping_effects, stopped_session)"
  by (simp add: supervise_def sample_stopped)

lemma teardown_before_detach_witness:
  "StopCapture sample_capture \<in> set stopping_effects \<and>
    stopping_effects ! 0 \<noteq> Detach (cc_transport_session sample_capture)"
proof -
  note both = teardown_before_detach [OF sample_run sample_stops]
  have captured: "ts_capture_binding page_captured = BindingActive sample_capture"
    by (simp add: page_captured_def sample_page_def)
  have over: "ts_capture_binding t = BindingTerminal" if "target_at stopped_session ''a'' = Some t" for t
    using that by (auto simp: stopped_session_def sample_state_def hm_get_def page_stopped_def sample_page_def)
  have "StopCapture sample_capture \<in> set stopping_effects"
    using conjunct2 [OF both] sample_session_page captured over by fastforce
  moreover have "stopping_effects ! 0 \<noteq> Detach (cc_transport_session sample_capture)"
    using conjunct1 [OF both, rule_format, of 0 1 sample_capture] by (simp add: stopping_effects_def)
  ultimately show ?thesis
    by blast
qed

end
