(* ===== verification/Target_Failures.thy ===== *)
theory Target_Failures
  imports Target_Properties
begin

text \<open>
  Which inputs of the target supervisor can fail and what an error costs, the teardown of captures
  when a session stops, a path that skips it, and the shape of the identifiers it allocates.
\<close>

section \<open>Inputs that cannot fail\<close>

text \<open>The inputs that are absorbed in any state: reports that something ended, failed or changed its
  visibility, lost connections and requests to stop. Reports of new or changed targets
  (\<open>TargetCreated\<close>, \<open>TargetInfoChanged\<close>, \<open>InitialTargets\<close>) and of attachments (\<open>AttachedInput\<close>,
  \<open>UnsolicitedAttached\<close>) are not among them, nor are requests on a page and snapshots: they can fail.\<close>

fun absorbs :: "supervisor_input \<Rightarrow> bool" where
  "absorbs (ForConnectionGeneration _ input) = absorbs input"
| "absorbs (TargetAttachFailed _) = True"
| "absorbs (CaptureStartFailed _) = True"
| "absorbs (Detached _) = True"
| "absorbs (TargetDestroyed _) = True"
| "absorbs (VisibilityChanged _ _ _) = True"
| "absorbs (DomainSetupFailed _) = True"
| "absorbs (InitialVisibilityProbeFailed _) = True"
| "absorbs (CaptureVisibilityChanged _ _ _) = True"
| "absorbs ConnectionLost = True"
| "absorbs BrowserProcessTerminatedInput = True"
| "absorbs ReconnectExhausted = True"
| "absorbs StopRequested = True"
| "absorbs Cancelled = True"
| "absorbs _ = False"

definition succeeds :: "'e + 'a \<Rightarrow> bool" where
  "succeeds r \<longleftrightarrow> (\<exists>a. r = Inr a)"

lemma succeeds_simps [simp]: "succeeds (Inr a)" "\<not> succeeds (Inl e)"
  by (simp_all add: succeeds_def)

lemma succeeds_and_then: "succeeds r \<Longrightarrow> (\<And>a. r = Inr a \<Longrightarrow> succeeds (f a)) \<Longrightarrow> succeeds (and_then r f)"
  by (auto simp: succeeds_def result_simps)

lemma succeeds_and_thenD: "succeeds (and_then r f) \<Longrightarrow> \<exists>a. r = Inr a \<and> succeeds (f a)"
  by (auto simp: succeeds_def result_simps)

lemma begin_shutdown_succeeds: "succeeds (begin_shutdown cause r)"
  by (cases r; cases "ss_session_state (fst r)")
    (simp_all add: begin_shutdown_def set_session_state_def session_state_allowed_def publish_def push_def)

lemma visible_lifecycle_allowed:
  "visible_lifecycle l v \<noteq> l \<Longrightarrow> target_transition l (visible_lifecycle l v) = Inr (visible_lifecycle l v)"
  by (cases l; cases v) (simp_all add: visible_lifecycle_def transition_def target_transition_iff)

lemma visibility_changed_succeeds: "succeeds (visibility_changed key v at r)"
  by (cases r) (auto simp: visibility_changed_def Let_def visible_lifecycle_allowed split: option.splits)

lemma suspend_target_succeeds: "succeeds (suspend_target r key)"
  by (cases r) (auto simp: suspend_target_def transition_def target_transition_iff Let_def split: option.splits)

lemma suspend_all_succeeds: "succeeds (fold_result suspend_target r keys)"
  by (induction keys arbitrary: r) (simp_all add: succeeds_and_then suspend_target_succeeds)

lemma connection_lost_succeeds:
  assumes "ss_session_state (fst r) \<notin> {Ended, Stopping}"
  shows "succeeds (connection_lost r)"
proof -
  have "succeeds (set_session_state Reconnecting r)"
    using assms by (cases r; cases "ss_session_state (fst r)")
      (simp_all add: set_session_state_def session_state_allowed_def publish_def push_def)
  then show ?thesis
    unfolding connection_lost_def
    by (intro succeeds_and_then) (simp_all add: case_prod_beta succeeds_and_then suspend_all_succeeds)
qed

lemma failing_target_succeeds:
  "succeeds (attach_failed key r)" "succeeds (detach_failed session r)"
  "succeeds (domain_setup_failed key r)" "succeeds (destroy key r)"
  by (cases r; auto simp: attach_failed_def detach_failed_def domain_setup_failed_def destroy_def
      transition_def target_transition_iff Let_def terminal_def split: option.splits prod.splits)+

lemma handle_succeeds:
  assumes "absorbs input" and "\<not> returns_early s input" and "\<And>g i. input \<noteq> ForConnectionGeneration g i"
  shows "succeeds (handle input (s, []))"
  using assms
  by (cases input)
    (auto simp: handle_def returns_early_def failing_target_succeeds visibility_changed_succeeds
      begin_shutdown_succeeds connection_lost_succeeds split: option.splits prod.splits)

lemma reduce_succeeds: "absorbs input \<Longrightarrow> succeeds (reduce s input)"
proof (induction s input rule: reduce.induct)
  case (1 s input)
  show ?case
  proof (cases "\<exists>g i. input = ForConnectionGeneration g i")
    case True
    then show ?thesis
      using 1 by (auto simp: reduce_simps(1))
  next
    case False
    then have "succeeds (reduce_input s input)"
      using handle_succeeds [of input s] 1(2) by (auto simp: reduce_input_def intro: succeeds_and_then)
    then show ?thesis
      using False by (subst reduce_simps(2)) auto
  qed
qed

text \<open>C27: The reports that something is over are always absorbed. Detachment,
  destruction, a failed attachment, capture start, domain setup or visibility probe, a change of
  visibility, a lost connection, exhausted reconnection, a terminated process, cancellation and a stop
  request never fail in any state, so that committing one as a page operation does, with the state
  taken out first, is the same as committing it in the event loop. Reports of new or changed targets
  and of attachments are not covered, and can fail.\<close>

theorem notifications_never_fail:
  assumes "absorbs input"
  shows "commit_supervisor_input compatibility input s = supervise input s \<and>
    (\<exists>s' effects. reduce s input = Inr (s', effects))"
  using reduce_succeeds [OF assms, of s]
  by (auto simp: commit_supervisor_input_def supervise_def succeeds_def)

lemma notifications_never_fail_witness:
  "commit_supervisor_input sample_compatibility (TargetDestroyed ''a'') sample_session =
     supervise (TargetDestroyed ''a'') sample_session \<and>
    (\<exists>s' effects. reduce sample_session (TargetDestroyed ''a'') = Inr (s', effects))"
  by (rule notifications_never_fail) simp

section \<open>A second attachment\<close>

lemma reattach_fails:
  assumes "target_at s key = Some t" and "ts_lifecycle t \<in> {Attached, Recording, Hidden}"
    and "ts_prior_to_suspension t = None" and "ts_transport_session t \<noteq> Some session"
  shows "\<not> succeeds (attach key session probe unsolicited (s, effects))"
  using assms
  by (auto simp: attach_def attach_target_def attached_lifecycle_def transition_def target_transition_iff
      terminal_def Let_def split: option.splits prod.splits dest!: succeeds_and_thenD)

text \<open>C37: The branch of \<open>attach\<close> that replaces the session of an attached
  page cannot succeed. In any run, when an attached page is attached again with another session, the
  reduction fails, since the lifecycle table has no row from an attached state to Attached; the event
  loop keeps its state, and a page operation that commits the input is left with no targets at all.\<close>

theorem reattach_loses_everything:
  assumes "supervise_all inputs (supervisor_new compatibility) = (replies, s)"
    and "ss_session_state s \<noteq> Reconnecting" and "target_at s key = Some t"
    and "ts_transport_session t = Some previous" and "ts_lifecycle t \<in> {Attached, Recording, Hidden}"
    and "session \<noteq> previous"
  shows "snd (supervise (AttachedInput key session) s) = s \<and>
    snd (commit_supervisor_input compatibility (AttachedInput key session) s) = supervisor_new compatibility"
proof -
  have "ts_prior_to_suspension t = None"
    using page_of_good [OF supervised_good [OF assms(1)] assms(3)] assms(5) by (auto simp: page_defs)
  then have "\<not> succeeds (handle (AttachedInput key session) (s, []))"
    using reattach_fails assms(3-6) by (simp add: handle_def)
  then obtain e where "handle (AttachedInput key session) (s, []) = Inl e"
    by (cases "handle (AttachedInput key session) (s, [])") auto
  then have "reduce s (AttachedInput key session) = Inl e"
    using assms(2) by (subst reduce_simps(2)) (auto simp: reduce_input_def returns_early_def)
  then show ?thesis
    by (simp add: supervise_def commit_supervisor_input_def)
qed

lemma reattach_loses_everything_witness:
  "snd (supervise (AttachedInput ''a'' (TransportSessionId ''s2'')) sample_session) = sample_session \<and>
    snd (commit_supervisor_input sample_compatibility (AttachedInput ''a'' (TransportSessionId ''s2''))
      sample_session) = supervisor_new sample_compatibility"
  by (rule reattach_loses_everything [OF sample_run _ sample_session_page, where previous = sample_transport])
    (simp_all add: sample_session_def sample_defs)

section \<open>Captures at the end\<close>

lemma next_binding_stops:
  "ss_session_state s = Stopping \<Longrightarrow> capturing t c \<Longrightarrow> StopCapture c \<in> set (snd (next_binding s t e))"
  by (auto simp: next_binding_def Let_def queue_keeps)

lemma pass_stops:
  assumes "ss_session_state s = Stopping" and "target_at s key = Some t" and "capturing t c"
    and "key \<in> set keys" and "distinct keys"
  shows "StopCapture c \<in> set (snd (fold reconcile_binding keys (s, e)))"
  using assms
proof (induction keys arbitrary: s e)
  case (Cons k keys)
  show ?case
  proof (cases "k = key")
    case True
    then have "StopCapture c \<in> set (snd (reconcile_binding k (s, e)))"
      using Cons.prems next_binding_stops by (simp add: reconcile_binding_eq)
    then show ?thesis
      using pass_keeps by (metis fold_simps(2) subsetD)
  next
    case False
    obtain s1 e1 where first: "reconcile_binding k (s, e) = (s1, e1)" by fastforce
    have "ss_session_state s1 = Stopping" "target_at s1 key = Some t"
      using first False Cons.prems by (auto simp: reconcile_binding_eq put_target_def split: option.splits)
    then show ?thesis
      using Cons.IH [of s1 e1] Cons.prems False first by simp
  qed
qed simp

lemma reduce_stop:
  assumes "good_state s"
  shows "\<exists>s' e. reduce s StopRequested = Inr (s', e) \<and> good_state s' \<and> ss_session_state s' = Stopping \<and>
    (\<forall>key t c. target_at s key = Some t \<and> capturing t c \<longrightarrow> StopCapture c \<in> set e) \<and>
    (ss_session_state s \<noteq> Stopping \<longrightarrow> Shutdown CauseStopRequested \<in> set e)"
proof -
  have "ss_session_state s \<noteq> Ended"
    using assms by (simp add: good_state_def sup_inv_def sup_wf_def)
  then obtain s1 e1 where handled: "handle StopRequested (s, []) = Inr (s1, e1)"
    and s1: "ss_session_state s1 = Stopping" "ss_targets_by_key s1 = ss_targets_by_key s"
    and e1: "ss_session_state s \<noteq> Stopping \<Longrightarrow> Shutdown CauseStopRequested \<in> set e1"
    by (cases "ss_session_state s")
      (simp_all add: handle_def begin_shutdown_def set_session_state_def session_state_allowed_def publish_def push_def)
  obtain s' e where pass: "reconcile_capture_bindings (s1, e1) = (s', e)" by fastforce
  then have red: "reduce s StopRequested = Inr (s', e)"
    using handled by (subst reduce_simps(2)) (auto simp: reduce_input_def returns_early_def from_lost_transport_def)
  have hm: "hm_inv (ss_targets_by_key s1)"
    using assms s1(2) targets_hm by (simp add: good_state_def)
  have "StopCapture c \<in> set e" if "target_at s key = Some t" "capturing t c" for key t c
  proof -
    have "key \<in> set (hm_keys (ss_targets_by_key s1))"
      using that(1) s1(2) hm.in_keys_iff [of key "ss_targets_by_key s"] by auto
    then have "StopCapture c \<in> set (snd (fold reconcile_binding (hm_keys (ss_targets_by_key s1)) (s1, e1)))"
      using pass_stops [OF s1(1) _ that(2)] that(1) s1(2) hm.distinct_keys [OF hm] by simp
    then show ?thesis
      using pass by (simp add: reconcile_capture_bindings_def)
  qed
  moreover have "Shutdown CauseStopRequested \<in> set e" if "ss_session_state s \<noteq> Stopping"
    using e1 [OF that] pass pass_keeps [of "(s1, e1)" "hm_keys (ss_targets_by_key s1)"]
    by (auto simp: reconcile_capture_bindings_def)
  moreover have "ss_session_state s' = Stopping"
    using reconcile_bindings_effect [OF pass hm] s1(1) by (simp add: same_frame_def)
  ultimately show ?thesis
    using red reduce_good [OF red assms] by blast
qed

text \<open>C22: A stop request always takes effect. In any run it succeeds, leaves the
  session stopping with no capture active or suspended, asks for the shutdown when none was asked for
  yet, and stops every capture that was active or suspended.\<close>

theorem stop_ends_captures:
  assumes "supervise_all inputs (supervisor_new compatibility) = (replies, s)"
  shows "\<exists>s' effects. supervise StopRequested s = (Inr effects, s') \<and> ss_session_state s' = Stopping \<and>
    (\<forall>key t c. target_at s' key = Some t \<longrightarrow> \<not> capturing t c) \<and>
    (\<forall>key t c. target_at s key = Some t \<and> capturing t c \<longrightarrow> StopCapture c \<in> set effects) \<and>
    (ss_session_state s \<noteq> Stopping \<longrightarrow> Shutdown CauseStopRequested \<in> set effects)"
proof -
  obtain s' e where red: "reduce s StopRequested = Inr (s', e)" "good_state s'" "ss_session_state s' = Stopping"
    and stops: "\<forall>key t c. target_at s key = Some t \<and> capturing t c \<longrightarrow> StopCapture c \<in> set e"
    and shutdown: "ss_session_state s \<noteq> Stopping \<longrightarrow> Shutdown CauseStopRequested \<in> set e"
    using reduce_stop [OF supervised_good [OF assms]] by blast
  have "\<not> capturing t c" if "target_at s' key = Some t" for key t c
    using binding_of_good [OF red(2) that] red(3) by (auto simp: binding_ok_def)
  then show ?thesis
    using red stops shutdown by (simp add: supervise_def)
qed

lemma stop_ends_captures_witness:
  "\<exists>s' effects. supervise StopRequested sample_session = (Inr effects, s') \<and> ss_session_state s' = Stopping \<and>
    StopCapture sample_capture \<in> set effects \<and> Shutdown CauseStopRequested \<in> set effects"
proof -
  have "capturing page_captured sample_capture" "ss_session_state sample_session \<noteq> Stopping"
    by (simp_all add: page_captured_def sample_page_def sample_session_def sample_state_def)
  then show ?thesis
    using stop_ends_captures [OF sample_run] sample_session_page by blast
qed

section \<open>A failed domain setup\<close>

text \<open>Captures that have nothing to stop, as the pass over the bindings sees them.\<close>

definition settled :: "supervisor_state \<Rightarrow> target_state \<Rightarrow> bool" where
  "settled s t \<longleftrightarrow> ss_session_state s \<noteq> Stopping \<and> (binding_ok s t \<or> ts_capture_binding t = BindingTerminal)"

lemma settled_next:
  "settled s t \<Longrightarrow> StopCapture c \<notin> set e \<Longrightarrow> StopCapture c \<notin> set (snd (next_binding s t e))"
  by (cases "ts_capture_binding t")
    (auto simp: settled_def binding_ok_def next_binding_def Let_def begin_capture_def queue_keeps live_def)

lemma settled_cong:
  "ss_session_state s' = ss_session_state s \<Longrightarrow> ss_connection_generation s' = ss_connection_generation s \<Longrightarrow>
    settled s' t = settled s t"
  by (auto simp: settled_def binding_ok_def current_context_def split: capture_binding.splits)

lemma settled_pass:
  assumes "\<And>key t. key \<in> set keys \<Longrightarrow> target_at s key = Some t \<Longrightarrow> settled s t"
    and "distinct keys" and "StopCapture c \<notin> set e"
  shows "StopCapture c \<notin> set (snd (fold reconcile_binding keys (s, e)))"
  using assms
proof (induction keys arbitrary: s e)
  case (Cons k keys)
  obtain s1 e1 where first: "reconcile_binding k (s, e) = (s1, e1)" by fastforce
  have frame: "ss_session_state s1 = ss_session_state s" "ss_connection_generation s1 = ss_connection_generation s"
    using first by (auto simp: reconcile_binding_eq put_target_def split: option.splits)
  have "StopCapture c \<notin> set e1"
    using first Cons.prems(1) [of k] Cons.prems(3) settled_next
    by (cases "target_at s k") (auto simp: reconcile_binding_eq)
  moreover have "settled s1 t" if "key \<in> set keys" "target_at s1 key = Some t" for key t
  proof -
    have "key \<noteq> k"
      using that(1) Cons.prems(2) by auto
    then have "target_at s key = Some t"
      using that(2) first by (auto simp: reconcile_binding_eq put_target_def split: option.splits)
    then show ?thesis
      using Cons.prems(1) [of key t] that(1) settled_cong [OF frame, of t] by simp
  qed
  ultimately show ?case
    using Cons.IH [of s1 e1] Cons.prems(2) first by simp
qed simp

lemma reconcile_selection_keeps:
  assumes "reconcile_selection (s, e) = (s', e')"
  shows "ss_targets_by_key s' = ss_targets_by_key s \<and> ss_session_state s' = ss_session_state s \<and>
    ss_connection_generation s' = ss_connection_generation s"
  using assms by (cases rule: reconcile_selection_cases) simp_all

lemma domain_setup_failed_effect:
  assumes "domain_setup_failed key (s, []) = Inr (s1, e1)" and "target_at s key = Some t" and "live t"
  shows "ss_session_state s1 = ss_session_state s \<and> ss_connection_generation s1 = ss_connection_generation s \<and>
    ss_targets_by_key s1 = hm_insert key (set_lifecycle Failed (t\<lparr>ts_transport_session := None,
       ts_prior_to_suspension := None, ts_capture_binding := BindingTerminal\<rparr>)) (ss_targets_by_key s)"
proof -
  have failing: "target_transition (ts_lifecycle t) Failed = Inr Failed" "\<not> terminal (ts_lifecycle t)"
    using assms(3) by (auto simp: live_def transition_def target_transition_iff terminal_def)
  show ?thesis
    using assms(1,2) failing
    by (cases "ts_transport_session t")
      (auto simp: domain_setup_failed_def target_failed_eq put_target_def dest!: reconcile_selection_keeps)
qed

text \<open>C38: A page whose domains cannot be set up loses its capture without
  the capture being stopped. In any run, when the domain setup of a page with an active capture fails,
  the page fails with its binding terminal, so that no later input can stop the capture, and the
  effects hold no stop for any capture; a detachment of the same session stops it.\<close>

theorem domain_setup_leaks_capture:
  assumes "supervise_all inputs (supervisor_new compatibility) = (replies, s)"
    and "target_at s key = Some t" and "capturing t c"
    and "supervise (DomainSetupFailed key) s = (Inr effects, s')"
  shows "(\<forall>c'. StopCapture c' \<notin> set effects) \<and>
    (\<exists>t'. target_at s' key = Some t' \<and> ts_lifecycle t' = Failed \<and> ts_capture_binding t' = BindingTerminal)"
proof -
  note good = supervised_good [OF assms(1)]
  have bound: "binding_ok s t" and live: "live t" and running: "ss_session_state s \<noteq> Stopping"
    using binding_of_good [OF good assms(2)] assms(3) by (auto simp: binding_ok_def)
  have "reduce s (DomainSetupFailed key) = Inr (s', effects)"
    using assms(4) by (auto simp: supervise_def split: sum.splits)
  then obtain s1 e1 where handled: "domain_setup_failed key (s, []) = Inr (s1, e1)"
    and pass: "reconcile_capture_bindings (s1, e1) = (s', effects)"
    by (subst (asm) reduce_simps(2))
      (auto simp: reduce_input_def returns_early_def from_lost_transport_def handle_def result_simps)
  have frame: "ss_session_state s1 = ss_session_state s" "ss_connection_generation s1 = ss_connection_generation s"
    and at: "target_at s1 k = (if k = key then Some (set_lifecycle Failed (t\<lparr>ts_transport_session := None,
       ts_prior_to_suspension := None, ts_capture_binding := BindingTerminal\<rparr>)) else target_at s k)" for k
    using domain_setup_failed_effect [OF handled assms(2) live] by simp_all
  have hm: "hm_inv (ss_targets_by_key s1)" and plain: "list_all plain_effect e1"
    using handled_good [OF _ pass good, of "DomainSetupFailed key"] handled targets_hm by (auto simp: handle_def)
  have "settled s1 u" if "target_at s1 k = Some u" for k u
    using that running settled_cong [OF frame] binding_of_good [OF good]
    by (auto simp: at settled_def split: if_splits)
  moreover have "StopCapture c' \<notin> set e1" for c'
    using plain by (auto simp: list_all_iff plain_effect_def)
  ultimately have "StopCapture c' \<notin> set effects" for c'
    using settled_pass [of "hm_keys (ss_targets_by_key s1)" s1, OF _ hm.distinct_keys [OF hm], of c' e1 for c'] pass
    by (simp add: reconcile_capture_bindings_def)
  moreover have "target_at s' key = map_option (next_bound s1) (target_at s1 key)"
    using reconcile_bindings_effect [OF pass hm] by simp
  ultimately show ?thesis
    by (simp add: at next_binding_def)
qed

definition page_unset :: target_state where
  "page_unset = sample_page Failed Visible 1 None BindingTerminal (Some (SessionTime 1))"

lemma sample_setup_failed:
  "supervise (DomainSetupFailed ''a'') sample_session =
     (Inr [Detach sample_transport, Publish (TargetFailed (ts_id page_unset) TargetSupervisionFailed),
        Publish (SelectedTargetChanged (Some (ts_id page_unset)) None)],
      sample_state Ready 5 page_unset [] None)"
  by (simp add: supervise_def reduction_defs domain_setup_failed_def transition_def target_transition_iff
     target_failed_eq reconcile_selection_def set_selection_def minimum_def selection_candidate_def attached_page_def
     selected_id_def saturating_add_def sample_session_def page_unset_def sample_defs)

lemma domain_setup_leaks_capture_witness:
  "(\<forall>c'. StopCapture c' \<notin> set [Detach sample_transport,
      Publish (TargetFailed (ts_id page_unset) TargetSupervisionFailed),
      Publish (SelectedTargetChanged (Some (ts_id page_unset)) None)]) \<and>
    (\<exists>t'. target_at (sample_state Ready 5 page_unset [] None) ''a'' = Some t' \<and>
      ts_lifecycle t' = Failed \<and> ts_capture_binding t' = BindingTerminal)"
  by (rule domain_setup_leaks_capture [OF sample_run sample_session_page _ sample_setup_failed,
        where c = sample_capture])
    (simp add: page_captured_def sample_page_def)

section \<open>Identifiers\<close>

text \<open>C36: Every identifier the supervisor allocates has the shape of a version 4 UUID of the
  standard variant: read as sixteen bytes, the high half of byte 6 is 4 and the two top bits of byte 8
  are 10, whatever the key, the revision and the generation.\<close>

theorem target_id_uuid:
  "drop_bit 4 (to_be_bytes 16 (target_uuid (fst (allocate_target_id key s))) ! 6) = 4 \<and>
    drop_bit 6 (to_be_bytes 16 (target_uuid (fst (allocate_target_id key s))) ! 8) = 2"
proof -
  have low: "drop_bit 4 (or (and b 0x0f) 0x40) = (4 :: 8 word)" "drop_bit 6 (or (and b 0x3f) 0x80) = (2 :: 8 word)"
    for b :: "8 word"
    by (rule bit_word_eqI; simp add: bit_simps; auto simp: bit_simps numeral_eq_Suc)+
  let ?bytes = "target_id_bytes (ss_revision (snd (allocate_target_id key s))) (ss_connection_generation s) key"
  have "length ?bytes = 16" "drop_bit 4 (?bytes ! 6) = 4" "drop_bit 6 (?bytes ! 8) = 2"
    by (auto simp: target_id_bytes_def Let_def low split: prod.splits)
  then show ?thesis
    using to_from_be_bytes [where 'a = 128, of 16 ?bytes] by (simp add: allocate_target_id_def Let_def)
qed

end
