(* ===== verification/Timeline_Values.thy ===== *)
theory Timeline_Values
  imports Core_Values Browser_Values
begin

text \<open>
  The values of \<open>crates/krometrail-core\<close> that place evidence on the session's time line: capture gaps
  (\<open>recording/gap.rs\<close>), timeline observations (\<open>timeline/observation.rs\<close>), interactions
  (\<open>browser/control.rs\<close>), the recording session as far as range resolution reads it
  (\<open>recording/session.rs\<close>), and the errors these report (\<open>error.rs\<close>).
\<close>

section \<open>Identifiers and wall-clock time\<close>

datatype interaction_id = InteractionId (interaction_uuid: uuid)
datatype navigation_id = NavigationId (navigation_uuid: uuid)
datatype marker_id = MarkerId (marker_uuid: uuid)
datatype gap_id = GapId (gap_uuid: uuid)
datatype browser_event_id = BrowserEventId (browser_event_uuid: uuid)

text \<open>A \<open>SystemTime\<close> is its distance from the epoch in nanoseconds, a \<open>Duration\<close> its length in
  nanoseconds.\<close>

type_synonym system_time = int
type_synonym time_span = nat

definition duration_since :: "system_time \<Rightarrow> system_time \<Rightarrow> time_span option" where
  "duration_since later earlier = (if later < earlier then None else Some (nat (later - earlier)))"

definition checked_mul :: "'a::len word \<Rightarrow> 'a word \<Rightarrow> 'a word option" where
  "checked_mul a b = (if unat a * unat b < 2 ^ LENGTH('a) then Some (a * b) else None)"

lemma checked_mul_Some_iff: "checked_mul a b = Some c \<longleftrightarrow> unat c = unat a * unat b"
  for a b c :: "'a::len word"
proof
  assume "checked_mul a b = Some c"
  then show "unat c = unat a * unat b"
    by (auto simp: checked_mul_def unat_word_ariths split: if_splits)
next
  assume c: "unat c = unat a * unat b"
  moreover have "unat c < 2 ^ LENGTH('a)"
    by simp
  ultimately show "checked_mul a b = Some c"
    by (simp add: checked_mul_def word_unat_eq_iff unat_word_ariths)
qed

section \<open>Ranges of session time\<close>

definition wf_range :: "session_range \<Rightarrow> bool" where
  "wf_range r \<longleftrightarrow> range_start r \<le> range_end r"

definition range_midpoint :: "session_range \<Rightarrow> session_time" where
  "range_midpoint r =
     (let start = session_nanos (range_start r);
          distance = session_nanos (range_end r) - start in
      SessionTime (start + distance div 2))"

definition clamp_time :: "session_time \<Rightarrow> session_range \<Rightarrow> session_time" where
  "clamp_time value r =
     (if session_nanos value < session_nanos (range_start r) then range_start r
      else if session_nanos value > session_nanos (range_end r) then range_end r
      else value)"

definition ranges_intersect :: "session_range \<Rightarrow> session_range \<Rightarrow> bool" where
  "ranges_intersect left right \<longleftrightarrow>
     range_start left \<le> range_end right \<and> range_start right \<le> range_end left"

lemma session_nanos_simps [simp]:
  "session_nanos s \<le> session_nanos t \<longleftrightarrow> s \<le> t" "session_nanos s < session_nanos t \<longleftrightarrow> s < t"
  by (simp_all add: less_eq_session_time_def less_session_time_def)

lemma range_contains_iff: "range_contains r t \<longleftrightarrow> range_start r \<le> t \<and> t \<le> range_end r"
  by (simp add: range_contains_def)

lemma session_range_new_Inr_iff [result_simps]:
  "session_range_new s e = Inr r \<longleftrightarrow> s \<le> e \<and> r = \<lparr>range_start = s, range_end = e\<rparr>"
  by (auto simp: session_range_new_def)

lemma clamp_contains [simp]: "wf_range r \<Longrightarrow> range_contains r (clamp_time t r)"
  by (auto simp: wf_range_def range_contains_iff clamp_time_def not_less)

lemma clamp_inside [simp]: "range_contains r t \<Longrightarrow> clamp_time t r = t"
  by (auto simp: range_contains_iff clamp_time_def)

lemma midpoint_contains [simp]:
  assumes "wf_range r"
  shows "range_contains r (range_midpoint r)"
proof -
  let ?s = "session_nanos (range_start r)" and ?e = "session_nanos (range_end r)"
  have le: "?s \<le> ?e"
    using assms by (simp add: wf_range_def)
  have bound: "unat ?e < 2 ^ LENGTH(64)"
    by (rule unsigned_less)
  have "unat ((?e - ?s) div 2) = (unat ?e - unat ?s) div 2"
    using le by (simp add: unat_div unat_sub)
  then have "unat (?s + (?e - ?s) div 2) = unat ?s + (unat ?e - unat ?s) div 2"
    using le bound by (subst unat_plus_no_overflow) (simp_all add: word_le_nat_alt)
  moreover have "unat ?s \<le> unat ?s + (unat ?e - unat ?s) div 2 \<and> unat ?s + (unat ?e - unat ?s) div 2 \<le> unat ?e"
    using le by (auto simp: word_le_nat_alt)
  ultimately show ?thesis
    by (simp add: range_contains_def range_midpoint_def Let_def word_le_nat_alt)
qed

section \<open>Errors\<close>

datatype (plugins only: code) error_code =
    CodeInvalidInput | CodeInvalidLifecycleTransition | CodeInvalidTime | CodeNotFound | CodeUnsupported
  | CodeBrowserDisconnected | CodeBrowserNotFound | CodeBrowserLaunchFailed | CodeBrowserProcessTerminated
  | CodeBrowserCompatibilityFailed | CodeProfileInUse | CodeTargetFailed | CodeTargetHidden
  | CodeStaleReference | CodeReferenceNotActionable | CodePageObservationFailed | CodeDialogOpen
  | CodeScreenshotFailed | CodeCompositorRendezvousUnobserved | CodeEvaluationFailed | CodeNavigationFailed
  | CodeInteractionFailed | CodeWaitTimedOut | CodeReconnectExhausted | CodeCancelled | CodeShutdownIncomplete
  | CodeCaptureFailed | CodeCaptureRejected | CodePersistenceFailed | CodeBudgetExhausted
  | CodeArtifactGenerationFailed | CodeVideoEncoderUnavailable | CodeVideoEncodingFailed
  | CodeEvidenceInvalidated | CodeResourceLimitExceeded | CodeInternal

datatype retry_advice = RetryNever | RetrySafe | RetryAfterRecovery

record error_context =
  ec_session_id :: "session_id option"
  ec_target_id :: "target_id option"
  ec_interaction_id :: "interaction_id option"
  ec_range :: "session_range option"

definition no_context :: error_context where
  "no_context = \<lparr>ec_session_id = None, ec_target_id = None, ec_interaction_id = None, ec_range = None\<rparr>"

text \<open>The messages range resolution reports, one constructor for each text; a storage port may report
  any other. \<open>Panicked\<close> stands for a violated \<open>expect\<close>.\<close>

datatype (plugins only: code) range_message =
    WindowTooLong | WindowNotWholeMillis | WindowExceedsTime | RangeReversed
  | WallClockReversed | EndpointsNil | AnchorNil | NonIntervalAnchor
  | ScopeNil | NoFrames | IdentifiersNilOrRepeated | NotContained | AnchorTimesMismatch | GapsMismatch
  | AnchorKindMismatch | WindowNotEchoed | EndpointsNotSourceOrder | NotMidpoint
  | CompleteButPartial | PartialWithoutWarning | WarningWithoutPartial
  | EvictedNotCoalesced | GapAfterDeclaration | GapDetailEmpty | PayloadMismatch | PayloadEmpty
  | ObservationAfterObserved | InteractionNotOrdered
  | AnchorOtherScope | WallClockBeforeSession | WallClockTooFar | NoSessionMetadata
  | EndpointNotRetained | EndpointsOtherScope | EndpointsReversed
  | NoInteractionAnchor | NoLatestInteraction | LatestInteractionOtherScope
  | NavigationNotFound | MarkerNotFound | SessionIdentityMismatch | TargetIdentityMismatch
  | FrameOtherScope | FrameOutsideRange | FrameRepeated | FrameEvicted | FramesNotOrdered
  | BoundsMissing | NotCompletelyRetained | InternalHole | BeyondEvictedEdge | BeyondCaptured
  | NoCapturedFrames | FullyEvicted "session_time option" | KnownGaps | GapLossOutside | GapNotClipped
  | PortMessage string | Panicked

datatype range_recovery = RetryWithin session_range | AnchorAfter session_time | RecoveryText string

record krometrail_error =
  re_code :: error_code
  re_message :: range_message
  re_context :: error_context
  re_retry :: retry_advice
  re_recovery :: "range_recovery option"

definition krometrail_error_new :: "error_code \<Rightarrow> range_message \<Rightarrow> krometrail_error" where
  "krometrail_error_new code message = \<lparr>re_code = code, re_message = message, re_context = no_context,
     re_retry = RetryNever, re_recovery = None\<rparr>"

definition invalid :: "range_message \<Rightarrow> krometrail_error" where
  "invalid message = krometrail_error_new CodeInvalidInput message"

definition invalid_time :: "range_message \<Rightarrow> krometrail_error" where
  "invalid_time message = krometrail_error_new CodeInvalidTime message"

definition panicked :: krometrail_error where
  "panicked = krometrail_error_new CodeInternal Panicked"

lemma message_simps [simp]:
  "re_message (krometrail_error_new c m) = m" "re_message (invalid m) = m" "re_message (invalid_time m) = m"
  "re_message panicked = Panicked"
  by (simp_all add: krometrail_error_new_def invalid_def invalid_time_def panicked_def)

definition range_new :: "session_time \<Rightarrow> session_time \<Rightarrow> krometrail_error + session_range" where
  "range_new s e = map_err (\<lambda>_. invalid_time RangeReversed) (session_range_new s e)"

lemma range_new_Inr_iff [result_simps]:
  "range_new s e = Inr r \<longleftrightarrow> s \<le> e \<and> r = \<lparr>range_start = s, range_end = e\<rparr>"
  by (auto simp: range_new_def result_simps)

section \<open>Capture gaps\<close>

datatype capture_gap_reason =
    IngestionQueueSaturated | PersistenceRejected | AcknowledgementFailed | GapTargetHidden
  | ScreencastPaused | GapBrowserDisconnected | GapCaptureStopped | FrameRejected

record capture_gap =
  gap_id :: gap_id
  gap_session_id :: session_id
  gap_target_id :: target_id
  gap_range :: session_range
  gap_observed_time :: observed_time
  gap_reason :: capture_gap_reason
  gap_estimated_missing_frames :: "u64 option"
  gap_detail :: "string option"

definition capture_gap_validate :: "capture_gap \<Rightarrow> krometrail_error + unit" where
  "capture_gap_validate gap =
     (if session_nanos (range_end (gap_range gap)) > observed_nanos (gap_observed_time gap)
      then Inl (invalid GapAfterDeclaration)
      else if (case gap_detail gap of None \<Rightarrow> False | Some detail \<Rightarrow> blank detail)
      then Inl (invalid GapDetailEmpty)
      else Inr ())"

definition capture_gap_new :: "capture_gap \<Rightarrow> krometrail_error + capture_gap" where
  "capture_gap_new gap = and_then (capture_gap_validate gap) (\<lambda>_. Inr gap)"

text \<open>What the constructors establish, the ordered range included.\<close>

definition wf_gap :: "capture_gap \<Rightarrow> bool" where
  "wf_gap gap \<longleftrightarrow> wf_range (gap_range gap) \<and> capture_gap_validate gap = Inr () \<and>
     gap_estimated_missing_frames gap \<noteq> Some 0"

section \<open>Timeline observations\<close>

datatype observation_kind =
    KindFrame | KindInteractionBoundary | KindNavigation | KindTargetLifecycle | KindVisibilityChange
  | KindCaptureGap | KindConsoleMessage | KindJavascriptException | KindNetworkLifecycle
  | KindBrowserEvent | KindMarker

datatype observation_payload =
    FramePayload frame_id | InteractionPayload interaction_id | NavigationPayload navigation_id
  | GapPayload gap_id | BrowserEventPayload browser_event_id | MarkerPayload marker_id
  | ExternalPayload string

definition matches_payload :: "observation_kind \<Rightarrow> observation_payload \<Rightarrow> bool" where
  "matches_payload kind payload = (case (kind, payload) of
     (KindFrame, FramePayload _) \<Rightarrow> True
   | (KindInteractionBoundary, InteractionPayload _) \<Rightarrow> True
   | (KindNavigation, NavigationPayload _) \<Rightarrow> True
   | (KindTargetLifecycle, ExternalPayload _) \<Rightarrow> True
   | (KindVisibilityChange, ExternalPayload _) \<Rightarrow> True
   | (KindCaptureGap, GapPayload _) \<Rightarrow> True
   | (KindConsoleMessage, ExternalPayload _) \<Rightarrow> True
   | (KindJavascriptException, ExternalPayload _) \<Rightarrow> True
   | (KindNetworkLifecycle, ExternalPayload _) \<Rightarrow> True
   | (KindBrowserEvent, BrowserEventPayload _) \<Rightarrow> True
   | (KindMarker, MarkerPayload _) \<Rightarrow> True
   | _ \<Rightarrow> False)"

record timeline_observation =
  to_session_id :: session_id
  to_target_id :: target_id
  to_session_time :: session_time
  to_source_time :: "source_time option"
  to_observed_time :: observed_time
  to_kind :: observation_kind
  to_payload :: observation_payload

definition observation_validate :: "timeline_observation \<Rightarrow> krometrail_error + unit" where
  "observation_validate observation =
     (if \<not> matches_payload (to_kind observation) (to_payload observation) then Inl (invalid PayloadMismatch)
      else if (case to_payload observation of ExternalPayload value \<Rightarrow> blank value | _ \<Rightarrow> False)
      then Inl (invalid PayloadEmpty)
      else if session_nanos (to_session_time observation) > observed_nanos (to_observed_time observation)
      then Inl (invalid ObservationAfterObserved)
      else Inr ())"

section \<open>Interactions\<close>

record interaction_timing =
  it_started_at :: session_time
  it_dispatched_at :: session_time
  it_completed_at :: session_time
  it_observed_at :: "session_time option"

definition interaction_timing_new :: "session_time \<Rightarrow> session_time \<Rightarrow> session_time \<Rightarrow> session_time option \<Rightarrow>
    krometrail_error + interaction_timing" where
  "interaction_timing_new started dispatched completed observed =
     (if started > dispatched \<or> dispatched > completed \<or>
        (case observed of None \<Rightarrow> False | Some observed \<Rightarrow> observed < completed)
      then Inl (invalid InteractionNotOrdered)
      else Inr \<lparr>it_started_at = started, it_dispatched_at = dispatched, it_completed_at = completed,
        it_observed_at = observed\<rparr>)"

definition wf_timing :: "interaction_timing \<Rightarrow> bool" where
  "wf_timing t \<longleftrightarrow> interaction_timing_new (it_started_at t) (it_dispatched_at t) (it_completed_at t)
     (it_observed_at t) = Inr t"

text \<open>The operation is its stable name; range resolution does not read it.\<close>

record interaction_anchor =
  ia_interaction_id :: interaction_id
  ia_session_id :: session_id
  ia_target_id :: target_id
  ia_operation :: string
  ia_timing :: interaction_timing

section \<open>Recording sessions\<close>

text \<open>The fields range resolution reads.\<close>

record recording_session =
  rs_id :: session_id
  rs_origin :: observed_time
  rs_started_at :: system_time
  rs_ended_at :: "system_time option"
  rs_lifecycle :: session_lifecycle

end
