(* ===== verification/Range_Model.thy ===== *)
theory Range_Model
  imports Timeline_Values
begin

text \<open>
  The vocabulary of temporal range resolution (\<open>crates/krometrail-core/src/timeline/range.rs\<close>): the
  windows and anchors a client may ask for, the policies, what storage reports of its retention, and
  the resolved range with the checks its constructor makes.
\<close>

section \<open>Windows and options\<close>

datatype range_anchor_kind =
    SessionTimeKind | WallClockKind | InteractionKind | LatestInteractionKind | NavigationKind
  | MarkerKind | SourceFrameKind

text \<open>The kind a resolver records: \<open>latest_interaction\<close> collapses to \<open>interaction\<close>.\<close>

definition resolved_kind :: "range_anchor_kind \<Rightarrow> range_anchor_kind" where
  "resolved_kind kind = (case kind of LatestInteractionKind \<Rightarrow> InteractionKind | other \<Rightarrow> other)"

record anchor_scope =
  as_session_id :: "session_id option"
  as_target_id :: "target_id option"

record interval_scope =
  is_session_id :: session_id
  is_target_id :: target_id

definition scope_context :: "anchor_scope \<Rightarrow> error_context" where
  "scope_context scope = no_context\<lparr>ec_session_id := as_session_id scope, ec_target_id := as_target_id scope\<rparr>"

definition pair_context :: "session_id \<Rightarrow> target_id \<Rightarrow> error_context" where
  "pair_context session target = no_context\<lparr>ec_session_id := Some session, ec_target_id := Some target\<rparr>"

definition interval_scope_context :: "interval_scope \<Rightarrow> error_context" where
  "interval_scope_context scope = pair_context (is_session_id scope) (is_target_id scope)"

definition not_found :: "range_message \<Rightarrow> error_context \<Rightarrow> krometrail_error" where
  "not_found message context = (krometrail_error_new CodeNotFound message)\<lparr>re_context := context\<rparr>"

definition invalid_with_context :: "range_message \<Rightarrow> error_context \<Rightarrow> krometrail_error" where
  "invalid_with_context message context = (invalid message)\<lparr>re_context := context\<rparr>"

definition persistence_range_error :: "range_message \<Rightarrow> krometrail_error" where
  "persistence_range_error message = krometrail_error_new CodePersistenceFailed message"

definition max_natural_anchor_window :: time_span where
  "max_natural_anchor_window = 120 * 1000000000"

record interaction_window =
  iw_before_millis :: u64
  iw_after_millis :: u64

definition whole_millis :: "time_span \<Rightarrow> krometrail_error + u64" where
  "whole_millis value =
     (if value > max_natural_anchor_window then Inl (invalid WindowTooLong)
      else if (value mod 1000000000) mod 1000000 \<noteq> 0 then Inl (invalid WindowNotWholeMillis)
      else if value div 1000000 < 2 ^ 64 then Inr (word_of_nat (value div 1000000))
      else Inl (invalid_time WindowExceedsTime))"

definition interaction_window_new :: "time_span \<Rightarrow> time_span \<Rightarrow> krometrail_error + interaction_window" where
  "interaction_window_new before after =
     and_then (whole_millis before) (\<lambda>before_millis.
     and_then (whole_millis after) (\<lambda>after_millis.
     Inr \<lparr>iw_before_millis = before_millis, iw_after_millis = after_millis\<rparr>))"

definition window_before :: "interaction_window \<Rightarrow> time_span" where
  "window_before window = unat (iw_before_millis window) * 1000000"

definition window_after :: "interaction_window \<Rightarrow> time_span" where
  "window_after window = unat (iw_after_millis window) * 1000000"

definition millis_to_nanos :: "u64 \<Rightarrow> krometrail_error + u64" where
  "millis_to_nanos value = ok_or (invalid_time WindowExceedsTime) (checked_mul value 1000000)"

definition window_as_nanos :: "interaction_window \<Rightarrow> krometrail_error + u64 \<times> u64" where
  "window_as_nanos window =
     and_then (millis_to_nanos (iw_before_millis window)) (\<lambda>before.
     and_then (millis_to_nanos (iw_after_millis window)) (\<lambda>after. Inr (before, after)))"

datatype retention_policy = RequireComplete | AllowPartial

datatype gap_policy = IncludeGaps | RejectGaps

record range_options =
  ro_retention :: retention_policy
  ro_capture_gaps :: gap_policy
  ro_implicit_window :: interaction_window

definition default_options :: range_options where
  "default_options = \<lparr>ro_retention = RequireComplete, ro_capture_gaps = IncludeGaps,
     ro_implicit_window = \<lparr>iw_before_millis = 150, iw_after_millis = 250\<rparr>\<rparr>"

section \<open>Anchors\<close>

datatype range_anchor =
    SessionTimeAnchor interval_scope session_range
  | WallClockAnchor interval_scope system_time system_time
  | InteractionAnchor anchor_scope interaction_id "interaction_window option"
  | LatestInteractionAnchor session_id target_id "interaction_window option"
  | NavigationAnchor anchor_scope navigation_id "interaction_window option"
  | MarkerAnchor anchor_scope marker_id "interaction_window option"
  | SourceFrameAnchor anchor_scope frame_id frame_id

definition anchor_kind :: "range_anchor \<Rightarrow> range_anchor_kind" where
  "anchor_kind anchor = (case anchor of
     SessionTimeAnchor _ _ \<Rightarrow> SessionTimeKind | WallClockAnchor _ _ _ \<Rightarrow> WallClockKind
   | InteractionAnchor _ _ _ \<Rightarrow> InteractionKind | LatestInteractionAnchor _ _ _ \<Rightarrow> LatestInteractionKind
   | NavigationAnchor _ _ _ \<Rightarrow> NavigationKind | MarkerAnchor _ _ _ \<Rightarrow> MarkerKind
   | SourceFrameAnchor _ _ _ \<Rightarrow> SourceFrameKind)"

definition window_validate :: "interaction_window option \<Rightarrow> krometrail_error + unit" where
  "window_validate window = (case window of
     None \<Rightarrow> Inr ()
   | Some window \<Rightarrow>
       and_then (interaction_window_new (window_before window) (window_after window)) (\<lambda>_. Inr ()))"

definition anchor_validate :: "range_anchor \<Rightarrow> krometrail_error + unit" where
  "anchor_validate anchor = (case anchor of
     SessionTimeAnchor _ _ \<Rightarrow> Inr ()
   | WallClockAnchor scope start end_time \<Rightarrow>
       if start > end_time then Inl (invalid_with_context WallClockReversed (interval_scope_context scope))
       else Inr ()
   | InteractionAnchor _ _ window \<Rightarrow> window_validate window
   | LatestInteractionAnchor _ _ window \<Rightarrow> window_validate window
   | NavigationAnchor _ _ window \<Rightarrow> window_validate window
   | MarkerAnchor _ _ window \<Rightarrow> window_validate window
   | SourceFrameAnchor _ start end_frame \<Rightarrow>
       if frame_uuid start = 0 \<or> frame_uuid end_frame = 0 then Inl (invalid EndpointsNil) else Inr ())"

section \<open>What storage reports\<close>

record frame_availability =
  fa_retained_bounds :: "session_range option"
  fa_evicted_ranges :: "session_range list"

fun adjacent :: "('a \<Rightarrow> 'a \<Rightarrow> bool) \<Rightarrow> 'a list \<Rightarrow> bool" where
  "adjacent P (x # y # xs) = (P x y \<or> adjacent P (y # xs))"
| "adjacent P _ = False"

definition not_coalesced :: "session_range \<Rightarrow> session_range \<Rightarrow> bool" where
  "not_coalesced first second \<longleftrightarrow>
     range_start first > range_start second \<or>
     saturating_add (session_nanos (range_end first)) 1 \<ge> session_nanos (range_start second)"

definition frame_availability_new :: "session_range option \<Rightarrow> session_range list \<Rightarrow>
    krometrail_error + frame_availability" where
  "frame_availability_new bounds evicted =
     (if adjacent not_coalesced evicted then Inl (invalid EvictedNotCoalesced)
      else Inr \<lparr>fa_retained_bounds = bounds, fa_evicted_ranges = evicted\<rparr>)"

datatype retention_warning =
    RequestedStartBeforeOldestRetained session_time session_time
  | RequestedEndAfterNewestRetained session_time session_time
  | RequestedEndNotYetElapsed session_time session_time session_time
  | PartiallyEvicted session_range session_range
  | PartiallyCaptured session_range session_range
  | EvictedRanges "session_range list"
  | InSessionTrimmingActive session_time
  | ArtifactGraceOverridden session_time

section \<open>The resolved range\<close>

datatype anchor_reference =
    IntervalReference
  | InteractionReference interaction_id
  | NavigationReference navigation_id
  | MarkerReference marker_id
  | SourceFramesReference frame_id frame_id

definition reference_validate :: "anchor_reference \<Rightarrow> krometrail_error + unit" where
  "reference_validate reference =
     (if (case reference of
           IntervalReference \<Rightarrow> True
         | InteractionReference i \<Rightarrow> interaction_uuid i \<noteq> 0
         | NavigationReference n \<Rightarrow> navigation_uuid n \<noteq> 0
         | MarkerReference m \<Rightarrow> marker_uuid m \<noteq> 0
         | SourceFramesReference first second \<Rightarrow> frame_uuid first \<noteq> 0 \<and> frame_uuid second \<noteq> 0)
      then Inr () else Inl (invalid AnchorNil))"

record resolved_anchor =
  ra_reference :: anchor_reference
  ra_requested_time :: session_time
  ra_effective_time :: session_time

definition resolved_anchor_new :: "anchor_reference \<Rightarrow> session_time \<Rightarrow> session_time \<Rightarrow>
    krometrail_error + resolved_anchor" where
  "resolved_anchor_new reference requested effective =
     and_then (reference_validate reference) (\<lambda>_.
     Inr \<lparr>ra_reference = reference, ra_requested_time = requested, ra_effective_time = effective\<rparr>)"

record resolved_range =
  rr_session_id :: session_id
  rr_target_id :: target_id
  rr_anchor_kind :: range_anchor_kind
  rr_resolved_anchor :: resolved_anchor
  rr_requested_range :: session_range
  rr_resolved_range :: session_range
  rr_frame_ids :: "frame_id list"
  rr_interaction_ids :: "interaction_id list"
  rr_navigation_ids :: "navigation_id list"
  rr_marker_ids :: "marker_id list"
  rr_gaps :: "capture_gap list"
  rr_retention_warnings :: "retention_warning list"
  rr_applied_window :: "interaction_window option"
  rr_options :: range_options

definition kind_compatible :: "range_anchor_kind \<Rightarrow> anchor_reference \<Rightarrow> bool" where
  "kind_compatible kind reference = (case (kind, reference) of
     (SessionTimeKind, IntervalReference) \<Rightarrow> True
   | (WallClockKind, IntervalReference) \<Rightarrow> True
   | (InteractionKind, InteractionReference _) \<Rightarrow> True
   | (NavigationKind, NavigationReference _) \<Rightarrow> True
   | (MarkerKind, MarkerReference _) \<Rightarrow> True
   | (SourceFrameKind, SourceFramesReference _ _) \<Rightarrow> True
   | _ \<Rightarrow> False)"

definition validate_anchor_kind :: "range_anchor_kind \<Rightarrow> anchor_reference \<Rightarrow> krometrail_error + unit" where
  "validate_anchor_kind kind reference =
     (if kind_compatible kind reference then Inr () else Inl (invalid AnchorKindMismatch))"

definition identifiers_ok :: "resolved_range \<Rightarrow> bool" where
  "identifiers_ok r \<longleftrightarrow>
     (\<forall>i \<in> set (rr_frame_ids r). frame_uuid i \<noteq> 0) \<and> (\<forall>i \<in> set (rr_interaction_ids r). interaction_uuid i \<noteq> 0) \<and>
     (\<forall>i \<in> set (rr_navigation_ids r). navigation_uuid i \<noteq> 0) \<and> (\<forall>i \<in> set (rr_marker_ids r). marker_uuid i \<noteq> 0) \<and>
     distinct (rr_frame_ids r) \<and> distinct (rr_interaction_ids r) \<and>
     distinct (rr_navigation_ids r) \<and> distinct (rr_marker_ids r)"

definition anchor_times_ok :: "resolved_range \<Rightarrow> bool" where
  "anchor_times_ok r \<longleftrightarrow>
     (let requested = ra_requested_time (rr_resolved_anchor r);
          effective = ra_effective_time (rr_resolved_anchor r) in
      range_contains (rr_requested_range r) requested \<and>
      range_contains (rr_resolved_range r) effective \<and>
      effective = clamp_time requested (rr_resolved_range r))"

definition gaps_ok :: "resolved_range \<Rightarrow> bool" where
  "gaps_ok r \<longleftrightarrow> list_all (\<lambda>gap. gap_session_id gap = rr_session_id r \<and> gap_target_id gap = rr_target_id r \<and>
     ranges_intersect (gap_range gap) (rr_resolved_range r)) (rr_gaps r)"

definition endpoints_ok :: "resolved_range \<Rightarrow> bool" where
  "endpoints_ok r = (case ra_reference (rr_resolved_anchor r) of
     SourceFramesReference first second \<Rightarrow>
       rr_frame_ids r \<noteq> [] \<and> hd (rr_frame_ids r) = first \<and> last (rr_frame_ids r) = second
   | _ \<Rightarrow> True)"

definition uses_midpoint :: "range_anchor_kind \<Rightarrow> bool" where
  "uses_midpoint kind \<longleftrightarrow> kind \<in> {SessionTimeKind, WallClockKind, SourceFrameKind}"

definition check :: "bool \<Rightarrow> range_message \<Rightarrow> krometrail_error + unit" where
  "check condition message = (if condition then Inr () else Inl (invalid message))"

definition resolved_range_validate :: "resolved_range \<Rightarrow> krometrail_error + unit" where
  "resolved_range_validate r =
     (let partial = rr_resolved_range r \<noteq> rr_requested_range r in
      and_then (check (session_uuid (rr_session_id r) \<noteq> 0 \<and> target_uuid (rr_target_id r) \<noteq> 0) ScopeNil) (\<lambda>_.
      and_then (reference_validate (ra_reference (rr_resolved_anchor r))) (\<lambda>_.
      and_then (check (rr_frame_ids r \<noteq> []) NoFrames) (\<lambda>_.
      and_then (check (identifiers_ok r) IdentifiersNilOrRepeated) (\<lambda>_.
      and_then (check (range_start (rr_requested_range r) \<le> range_start (rr_resolved_range r) \<and>
        range_end (rr_resolved_range r) \<le> range_end (rr_requested_range r)) NotContained) (\<lambda>_.
      and_then (check (anchor_times_ok r) AnchorTimesMismatch) (\<lambda>_.
      and_then (check (gaps_ok r) GapsMismatch) (\<lambda>_.
      and_then (validate_anchor_kind (rr_anchor_kind r) (ra_reference (rr_resolved_anchor r))) (\<lambda>_.
      and_then (window_validate (rr_applied_window r)) (\<lambda>_.
      and_then (check ((rr_anchor_kind r = InteractionKind) = (rr_applied_window r \<noteq> None)) WindowNotEchoed) (\<lambda>_.
      and_then (check (endpoints_ok r) EndpointsNotSourceOrder) (\<lambda>_.
      and_then (check (uses_midpoint (rr_anchor_kind r) \<longrightarrow>
        ra_requested_time (rr_resolved_anchor r) = range_midpoint (rr_requested_range r)) NotMidpoint) (\<lambda>_.
      and_then (check (\<not> (partial \<and> ro_retention (rr_options r) = RequireComplete)) CompleteButPartial) (\<lambda>_.
      and_then (check (\<not> (partial \<and> rr_retention_warnings r = [])) PartialWithoutWarning) (\<lambda>_.
      check (\<not> (\<not> partial \<and> rr_retention_warnings r \<noteq> [])) WarningWithoutPartial)))))))))))))))"

definition resolved_range_new_with_anchor :: "resolved_range \<Rightarrow> krometrail_error + resolved_range" where
  "resolved_range_new_with_anchor r = and_then (resolved_range_validate r) (\<lambda>_. Inr r)"

text \<open>The constructor for explicit intervals.\<close>

definition resolved_range_new :: "resolved_range \<Rightarrow> krometrail_error + resolved_range" where
  "resolved_range_new r =
     (if rr_anchor_kind r \<in> {SessionTimeKind, WallClockKind} then
        let requested = range_midpoint (rr_requested_range r) in
        and_then (resolved_anchor_new IntervalReference requested
          (clamp_time requested (rr_resolved_range r))) (\<lambda>anchor.
        resolved_range_new_with_anchor (r\<lparr>rr_resolved_anchor := anchor, rr_applied_window := None\<rparr>))
      else Inl (invalid NonIntervalAnchor))"

section \<open>The ranges around an anchor\<close>

definition interaction_range :: "interaction_anchor \<Rightarrow> interaction_window \<Rightarrow> krometrail_error + session_range" where
  "interaction_range anchor window =
     and_then (window_as_nanos window) (\<lambda>(before, after).
     let start = saturating_sub (session_nanos (it_started_at (ia_timing anchor))) before;
         end_base = session_nanos (case it_observed_at (ia_timing anchor) of
           Some observed \<Rightarrow> observed | None \<Rightarrow> it_completed_at (ia_timing anchor)) in
     and_then (ok_or (invalid_time WindowExceedsTime) (checked_add end_base after)) (\<lambda>end_nanos.
     range_new (SessionTime start) (SessionTime end_nanos)))"

definition zero_window :: interaction_window where
  "zero_window = \<lparr>iw_before_millis = 0, iw_after_millis = 0\<rparr>"

definition point_range :: "session_time \<Rightarrow> interaction_window option \<Rightarrow> krometrail_error + session_range" where
  "point_range at window =
     and_then (window_as_nanos (case window of Some window \<Rightarrow> window | None \<Rightarrow> zero_window)) (\<lambda>(before, after).
     let start = saturating_sub (session_nanos at) before in
     and_then (ok_or (invalid_time WindowExceedsTime) (checked_add (session_nanos at) after)) (\<lambda>end_nanos.
     range_new (SessionTime start) (SessionTime end_nanos)))"

end
