(* ===== verification/Range_Resolver.thy ===== *)
theory Range_Resolver
  imports Range_Model
begin

text \<open>
  The temporal range resolver (\<open>timeline/range.rs\<close>, \<open>timeline/query.rs\<close>). Storage is reached through
  ports: the record \<open>range_ports\<close> holds what each lookup answers during one resolution. A resolution
  turns an anchor into a seed, the requested range with where it came from, and finalises the seed
  against what is retained.
\<close>

section \<open>The storage ports\<close>

record range_ports =
  rp_session :: "session_id \<Rightarrow> krometrail_error + recording_session option"
  rp_target :: "session_id \<Rightarrow> target_id \<Rightarrow> krometrail_error + page_target option"
  rp_frame_metadata_by_id :: "frame_id list \<Rightarrow> krometrail_error + captured_frame list"
  rp_frame_metadata_in_range :: "session_id \<Rightarrow> target_id \<Rightarrow> session_range \<Rightarrow> krometrail_error + captured_frame list"
  rp_frame_metadata_in_ordinal_range :: "session_id \<Rightarrow> target_id \<Rightarrow> capture_ordinal \<Rightarrow> capture_ordinal \<Rightarrow>
    krometrail_error + captured_frame list"
  rp_frame_availability :: "session_id \<Rightarrow> target_id \<Rightarrow> krometrail_error + frame_availability"
  rp_gaps :: "session_id \<Rightarrow> target_id \<Rightarrow> session_range \<Rightarrow> krometrail_error + capture_gap list"
  rp_timeline_range :: "session_id \<Rightarrow> target_id \<Rightarrow> session_range \<Rightarrow> krometrail_error + timeline_observation list"
  rp_observation_for_payload :: "anchor_scope \<Rightarrow> observation_kind \<Rightarrow> observation_payload \<Rightarrow>
    krometrail_error + timeline_observation option"
  rp_interaction_anchor :: "interaction_id \<Rightarrow> krometrail_error + interaction_anchor option"
  rp_latest_interaction_anchor :: "session_id \<Rightarrow> target_id \<Rightarrow> krometrail_error + interaction_anchor option"
  rp_now :: observed_time

record range_seed =
  sd_session_id :: session_id
  sd_target_id :: target_id
  sd_requested_range :: session_range
  sd_anchor_kind :: range_anchor_kind
  sd_anchor_reference :: anchor_reference
  sd_requested_anchor_time :: session_time
  sd_applied_window :: "interaction_window option"
  sd_preloaded_frames :: "captured_frame list option"

section \<open>Errors\<close>

definition seed_context :: "range_seed \<Rightarrow> session_range \<Rightarrow> error_context" where
  "seed_context seed interval = (pair_context (sd_session_id seed) (sd_target_id seed))\<lparr>ec_range := Some interval\<rparr>"

definition range_not_found :: "range_message \<Rightarrow> range_seed \<Rightarrow> session_range \<Rightarrow> session_range option \<Rightarrow> krometrail_error" where
  "range_not_found message seed interval bounds =
     (let error = not_found message (seed_context seed interval) in
      case bounds of
        Some bounds \<Rightarrow>
          if range_start interval < range_start bounds \<or> range_end interval > range_end bounds
          then error\<lparr>re_retry := RetryAfterRecovery, re_recovery := Some (RetryWithin bounds)\<rparr>
          else error
      | None \<Rightarrow> error)"

definition fully_evicted_range_not_found :: "range_seed \<Rightarrow> session_range \<Rightarrow> session_range option \<Rightarrow> krometrail_error" where
  "fully_evicted_range_not_found seed interval bounds = (case bounds of
     None \<Rightarrow> range_not_found (FullyEvicted None) seed interval None
   | Some bounds \<Rightarrow>
       (not_found (FullyEvicted (Some (range_start bounds))) (seed_context seed interval))
         \<lparr>re_retry := RetryNever, re_recovery := Some (AnchorAfter (range_start bounds))\<rparr>)"

definition validate_scope_match :: "anchor_scope \<Rightarrow> session_id \<Rightarrow> target_id \<Rightarrow> krometrail_error + unit" where
  "validate_scope_match scope session target =
     (if (case as_session_id scope of None \<Rightarrow> False | Some value \<Rightarrow> value \<noteq> session) \<or>
         (case as_target_id scope of None \<Rightarrow> False | Some value \<Rightarrow> value \<noteq> target)
      then Inl (invalid_with_context AnchorOtherScope (scope_context scope))
      else Inr ())"

section \<open>Seeds\<close>

definition wall_clock_offset :: "system_time \<Rightarrow> system_time \<Rightarrow> interval_scope \<Rightarrow> krometrail_error + session_time" where
  "wall_clock_offset value started_at scope =
     and_then (ok_or (not_found WallClockBeforeSession (interval_scope_context scope))
       (duration_since value started_at)) (\<lambda>duration.
     if duration < 2 ^ 64 then Inr (SessionTime (word_of_nat duration))
     else Inl (invalid_time WallClockTooFar))"

definition seed_from_interaction :: "interaction_anchor \<Rightarrow> interaction_window \<Rightarrow> range_anchor_kind \<Rightarrow>
    krometrail_error + range_seed" where
  "seed_from_interaction interaction window kind =
     and_then (interaction_range interaction window) (\<lambda>interval.
     Inr \<lparr>sd_session_id = ia_session_id interaction, sd_target_id = ia_target_id interaction,
       sd_requested_range = interval, sd_anchor_kind = kind,
       sd_anchor_reference = InteractionReference (ia_interaction_id interaction),
       sd_requested_anchor_time = it_dispatched_at (ia_timing interaction),
       sd_applied_window = Some window, sd_preloaded_frames = None\<rparr>)"

definition seed_from_observation :: "timeline_observation \<Rightarrow> anchor_scope \<Rightarrow> interaction_window option \<Rightarrow>
    range_anchor_kind \<Rightarrow> anchor_reference \<Rightarrow> krometrail_error + range_seed" where
  "seed_from_observation observation scope window kind reference =
     and_then (validate_scope_match scope (to_session_id observation) (to_target_id observation)) (\<lambda>_.
     and_then (point_range (to_session_time observation) window) (\<lambda>interval.
     Inr \<lparr>sd_session_id = to_session_id observation, sd_target_id = to_target_id observation,
       sd_requested_range = interval, sd_anchor_kind = kind, sd_anchor_reference = reference,
       sd_requested_anchor_time = to_session_time observation,
       sd_applied_window = None, sd_preloaded_frames = None\<rparr>))"

definition interval_seed :: "session_id \<Rightarrow> target_id \<Rightarrow> session_range \<Rightarrow> range_anchor_kind \<Rightarrow> range_seed" where
  "interval_seed session target interval kind =
     \<lparr>sd_session_id = session, sd_target_id = target, sd_requested_range = interval, sd_anchor_kind = kind,
      sd_anchor_reference = IntervalReference, sd_requested_anchor_time = range_midpoint interval,
      sd_applied_window = None, sd_preloaded_frames = None\<rparr>"

definition validate_catalog_scope :: "range_ports \<Rightarrow> session_id \<Rightarrow> target_id \<Rightarrow> krometrail_error + unit" where
  "validate_catalog_scope ports session_id target_id =
     and_then (rp_session ports session_id) (\<lambda>session.
     if (case session of None \<Rightarrow> False | Some session \<Rightarrow> rs_id session \<noteq> session_id)
     then Inl (invalid SessionIdentityMismatch)
     else and_then (rp_target ports session_id target_id) (\<lambda>target.
     if (case target of None \<Rightarrow> False | Some target \<Rightarrow> pt_id target \<noteq> target_id)
     then Inl (invalid TargetIdentityMismatch)
     else Inr ()))"

definition seed_wall_clock :: "range_ports \<Rightarrow> interval_scope \<Rightarrow> system_time \<Rightarrow> system_time \<Rightarrow>
    krometrail_error + range_seed" where
  "seed_wall_clock ports scope start_time end_time =
     (if start_time > end_time
      then Inl (invalid_with_context WallClockReversed (interval_scope_context scope))
      else and_then (rp_session ports (is_session_id scope)) (\<lambda>session.
      and_then (ok_or (not_found NoSessionMetadata (interval_scope_context scope)) session) (\<lambda>session.
      and_then (wall_clock_offset start_time (rs_started_at session) scope) (\<lambda>s.
      and_then (wall_clock_offset end_time (rs_started_at session) scope) (\<lambda>e.
      and_then (range_new s e) (\<lambda>interval.
      and_then (validate_catalog_scope ports (is_session_id scope) (is_target_id scope)) (\<lambda>_.
      Inr (interval_seed (is_session_id scope) (is_target_id scope) interval WallClockKind))))))))"

definition seed_source_frames :: "range_ports \<Rightarrow> anchor_scope \<Rightarrow> frame_id \<Rightarrow> frame_id \<Rightarrow> krometrail_error + range_seed" where
  "seed_source_frames ports scope start_frame end_frame =
     and_then (rp_frame_metadata_by_id ports [start_frame, end_frame]) (\<lambda>metadata.
     if length metadata \<noteq> 2 then Inl (not_found EndpointNotRetained (scope_context scope))
     else let first = metadata ! 0; second = metadata ! 1 in
     if cf_session_id first \<noteq> cf_session_id second \<or> cf_target_id first \<noteq> cf_target_id second
     then Inl (invalid_with_context EndpointsOtherScope (scope_context scope))
     else and_then (validate_scope_match scope (cf_session_id first) (cf_target_id first)) (\<lambda>_.
     if ordinal_value (cf_capture_ordinal first) > ordinal_value (cf_capture_ordinal second)
     then Inl (invalid_with_context EndpointsReversed (scope_context scope))
     else and_then (range_new (cf_session_time first) (cf_session_time second)) (\<lambda>interval.
     and_then (rp_frame_metadata_in_ordinal_range ports (cf_session_id first) (cf_target_id first)
       (cf_capture_ordinal first) (cf_capture_ordinal second)) (\<lambda>frames.
     Inr ((interval_seed (cf_session_id first) (cf_target_id first) interval SourceFrameKind)
       \<lparr>sd_anchor_reference := SourceFramesReference start_frame end_frame,
        sd_preloaded_frames := Some frames\<rparr>)))))"

definition the_window :: "interaction_window option \<Rightarrow> range_options \<Rightarrow> interaction_window" where
  "the_window window options = (case window of Some window \<Rightarrow> window | None \<Rightarrow> ro_implicit_window options)"

definition seed_interaction :: "range_ports \<Rightarrow> anchor_scope \<Rightarrow> interaction_id \<Rightarrow> interaction_window \<Rightarrow>
    krometrail_error + range_seed" where
  "seed_interaction ports scope interaction_id window =
     and_then (rp_interaction_anchor ports interaction_id) (\<lambda>found.
     and_then (ok_or (not_found NoInteractionAnchor
       ((scope_context scope)\<lparr>ec_interaction_id := Some interaction_id\<rparr>)) found) (\<lambda>interaction.
     and_then (validate_scope_match scope (ia_session_id interaction) (ia_target_id interaction)) (\<lambda>_.
     seed_from_interaction interaction window InteractionKind)))"

definition seed_latest_interaction :: "range_ports \<Rightarrow> session_id \<Rightarrow> target_id \<Rightarrow> interaction_window \<Rightarrow>
    krometrail_error + range_seed" where
  "seed_latest_interaction ports session_id target_id window =
     and_then (rp_latest_interaction_anchor ports session_id target_id) (\<lambda>found.
     and_then (ok_or (not_found NoLatestInteraction (pair_context session_id target_id)) found) (\<lambda>interaction.
     if ia_session_id interaction \<noteq> session_id \<or> ia_target_id interaction \<noteq> target_id
     then Inl (invalid_with_context LatestInteractionOtherScope (pair_context session_id target_id))
     else seed_from_interaction interaction window InteractionKind))"

definition seed_payload :: "range_ports \<Rightarrow> anchor_scope \<Rightarrow> interaction_window option \<Rightarrow> observation_kind \<Rightarrow>
    observation_payload \<Rightarrow> range_message \<Rightarrow> range_anchor_kind \<Rightarrow> anchor_reference \<Rightarrow> krometrail_error + range_seed" where
  "seed_payload ports scope window kind payload missing resolved reference =
     and_then (rp_observation_for_payload ports scope kind payload) (\<lambda>found.
     and_then (ok_or (not_found missing (scope_context scope)) found) (\<lambda>observation.
     seed_from_observation observation scope window resolved reference))"

definition seed_of :: "range_ports \<Rightarrow> range_anchor \<Rightarrow> range_options \<Rightarrow> krometrail_error + range_seed" where
  "seed_of ports anchor options = (case anchor of
     SessionTimeAnchor scope interval \<Rightarrow>
       and_then (validate_catalog_scope ports (is_session_id scope) (is_target_id scope)) (\<lambda>_.
       Inr (interval_seed (is_session_id scope) (is_target_id scope) interval SessionTimeKind))
   | WallClockAnchor scope start_time end_time \<Rightarrow> seed_wall_clock ports scope start_time end_time
   | SourceFrameAnchor scope start_frame end_frame \<Rightarrow> seed_source_frames ports scope start_frame end_frame
   | InteractionAnchor scope i window \<Rightarrow> seed_interaction ports scope i (the_window window options)
   | LatestInteractionAnchor session target window \<Rightarrow>
       seed_latest_interaction ports session target (the_window window options)
   | NavigationAnchor scope n window \<Rightarrow>
       seed_payload ports scope window KindNavigation (NavigationPayload n) NavigationNotFound
         NavigationKind (NavigationReference n)
   | MarkerAnchor scope m window \<Rightarrow>
       seed_payload ports scope window KindMarker (MarkerPayload m) MarkerNotFound
         MarkerKind (MarkerReference m))"

section \<open>The clock of a live session\<close>

definition live_session_now :: "range_ports \<Rightarrow> session_id \<Rightarrow> frame_availability \<Rightarrow>
    krometrail_error + session_time option" where
  "live_session_now ports session_id availability =
     and_then (rp_session ports session_id) (\<lambda>found. case found of
       None \<Rightarrow> Inr None
     | Some session \<Rightarrow>
         if rs_ended_at session \<noteq> None \<or>
            rs_lifecycle session \<notin> {SessionStarting, SessionRecording, SessionReconnecting} then Inr None
         else case normalize_time \<lparr>origin_observed = rs_origin session\<rparr> (rp_now ports) of
           Inl _ \<Rightarrow> Inr None
         | Inr session_now \<Rightarrow>
             (case fa_retained_bounds availability of
                None \<Rightarrow> Inr None
              | Some retained \<Rightarrow>
                  if session_now < range_end retained then Inr None else Inr (Some session_now)))"

section \<open>Retention\<close>

text \<open>The loop over the frames: the error of the first frame that fails a check.\<close>

fun validate_each :: "range_seed \<Rightarrow> session_range list \<Rightarrow> frame_id list \<Rightarrow> captured_frame list \<Rightarrow>
    krometrail_error + unit" where
  "validate_each seed evicted ids [] = Inr ()"
| "validate_each seed evicted ids (frame # frames) =
     (if cf_session_id frame \<noteq> sd_session_id seed \<or> cf_target_id frame \<noteq> sd_target_id seed
      then Inl (persistence_range_error FrameOtherScope)
      else if \<not> range_contains (sd_requested_range seed) (cf_session_time frame)
      then Inl (persistence_range_error FrameOutsideRange)
      else if cf_id frame \<in> set ids then Inl (persistence_range_error FrameRepeated)
      else if list_ex (\<lambda>interval. range_contains interval (cf_session_time frame)) evicted
      then Inl (persistence_range_error FrameEvicted)
      else validate_each seed evicted (cf_id frame # ids) frames)"

definition validate_frame_metadata :: "range_seed \<Rightarrow> captured_frame list \<Rightarrow> session_range list \<Rightarrow>
    krometrail_error + unit" where
  "validate_frame_metadata seed frames evicted =
     and_then (validate_each seed evicted [] frames) (\<lambda>_.
     if adjacent (\<lambda>first second. ordinal_value (cf_capture_ordinal first) \<ge>
         ordinal_value (cf_capture_ordinal second)) frames
     then Inl (persistence_range_error FramesNotOrdered) else Inr ())"

definition intersection :: "session_range \<Rightarrow> session_range \<Rightarrow> krometrail_error + session_range" where
  "intersection left right =
     map_err (\<lambda>_. panicked) (session_range_new (max (range_start left) (range_start right))
       (min (range_end left) (range_end right)))"

definition clamp_partial_range :: "session_range \<Rightarrow> session_range \<Rightarrow> range_options \<Rightarrow>
    krometrail_error + session_range option" where
  "clamp_partial_range candidate retained options =
     (if ro_retention options \<noteq> AllowPartial \<or> \<not> ranges_intersect candidate retained then Inr None
      else and_then (intersection candidate retained) (\<lambda>r. Inr (Some r)))"

definition candidate_range :: "range_seed \<Rightarrow> captured_frame list \<Rightarrow> session_range list \<Rightarrow> session_range \<Rightarrow>
    krometrail_error + session_range" where
  "candidate_range seed frames intersecting retained =
     (let requested = sd_requested_range seed;
          left_evicted = list_ex (\<lambda>interval. range_contains interval (range_start requested)) intersecting;
          right_evicted = list_ex (\<lambda>interval. range_contains interval (range_end requested)) intersecting in
      map_err (\<lambda>_. fully_evicted_range_not_found seed requested (Some retained))
        (session_range_new
          (if left_evicted then cf_session_time (hd frames) else range_start requested)
          (if right_evicted then cf_session_time (last frames) else range_end requested)))"

definition retention_warnings :: "session_range \<Rightarrow> session_range \<Rightarrow> session_range \<Rightarrow> session_range list \<Rightarrow>
    session_time option \<Rightarrow> retention_warning list" where
  "retention_warnings requested candidate resolved intersecting session_now =
     (if range_start resolved > range_start requested
      then [RequestedStartBeforeOldestRetained (range_start requested) (range_start resolved)] else []) @
     (if range_end resolved < range_end requested then
        RequestedEndAfterNewestRetained (range_end requested) (range_end resolved) #
        (case session_now of
           None \<Rightarrow> []
         | Some now \<Rightarrow>
             if now \<ge> range_end resolved \<and> range_end requested > now
             then [RequestedEndNotYetElapsed (range_end requested) (range_end resolved) now] else [])
      else []) @
     (if intersecting \<noteq> [] then [PartiallyEvicted requested resolved] else []) @
     (if resolved \<noteq> candidate then [PartiallyCaptured requested resolved] else []) @
     (if intersecting \<noteq> [] then [EvictedRanges intersecting] else [])"

definition fit_to_bounds :: "range_seed \<Rightarrow> session_range \<Rightarrow> session_range \<Rightarrow> bool \<Rightarrow> range_options \<Rightarrow>
    krometrail_error + session_range" where
  "fit_to_bounds seed candidate retained has_evictions options =
     (if range_start retained > range_start candidate \<or> range_end retained < range_end candidate
      then and_then (clamp_partial_range candidate retained options) (\<lambda>clamped.
        ok_or (range_not_found (if has_evictions then BeyondEvictedEdge else BeyondCaptured) seed
          (sd_requested_range seed) (if has_evictions then None else Some retained)) clamped)
      else Inr candidate)"

definition classify_retention :: "range_seed \<Rightarrow> captured_frame list \<Rightarrow> frame_availability \<Rightarrow> range_options \<Rightarrow>
    session_time option \<Rightarrow> krometrail_error + session_range \<times> retention_warning list" where
  "classify_retention seed frames availability options session_now =
     (let requested = sd_requested_range seed in
      and_then (ok_or (persistence_range_error BoundsMissing) (fa_retained_bounds availability)) (\<lambda>retained.
      and_then (collect_results (\<lambda>interval. intersection interval requested)
        (filter (\<lambda>interval. ranges_intersect interval requested) (fa_evicted_ranges availability))) (\<lambda>intersecting.
      let has_evictions = intersecting \<noteq> [] in
      if has_evictions \<and> ro_retention options = RequireComplete
      then Inl (range_not_found NotCompletelyRetained seed requested None)
      else if list_ex (\<lambda>interval. \<not> range_contains interval (range_start requested) \<and>
        \<not> range_contains interval (range_end requested)) intersecting
      then Inl (range_not_found InternalHole seed requested None)
      else and_then (candidate_range seed frames intersecting retained) (\<lambda>candidate.
      and_then (fit_to_bounds seed candidate retained has_evictions options) (\<lambda>resolved.
      if list_ex (\<lambda>interval. ranges_intersect interval resolved) intersecting
      then Inl (range_not_found InternalHole seed requested None)
      else Inr (resolved, retention_warnings requested candidate resolved intersecting session_now))))))"

section \<open>Gaps\<close>

definition clip_gap :: "session_range \<Rightarrow> capture_gap \<Rightarrow> krometrail_error + capture_gap option" where
  "clip_gap interval gap =
     (if \<not> ranges_intersect (gap_range gap) interval then
        (if gap_estimated_missing_frames gap \<noteq> None then Inl (persistence_range_error GapLossOutside)
         else Inr None)
      else and_then (map_err (\<lambda>_. panicked) (session_range_new
          (SessionTime (max (session_nanos (range_start (gap_range gap))) (session_nanos (range_start interval))))
          (SessionTime (min (session_nanos (range_end (gap_range gap))) (session_nanos (range_end interval))))))
        (\<lambda>clipped. map_err (\<lambda>_. persistence_range_error GapNotClipped)
          (and_then (capture_gap_new (gap\<lparr>gap_range := clipped\<rparr>)) (\<lambda>gap. Inr (Some gap)))))"

definition clip_capture_gaps :: "capture_gap list \<Rightarrow> session_range \<Rightarrow> krometrail_error + capture_gap list" where
  "clip_capture_gaps gaps interval =
     and_then (collect_results (clip_gap interval) gaps) (\<lambda>clipped.
     Inr (List.map_filter id clipped))"

section \<open>Finalising\<close>

definition push_unique :: "'a \<Rightarrow> 'a list \<Rightarrow> 'a list" where
  "push_unique value values = (if value \<in> set values then values else values @ [value])"

definition interactions_of :: "timeline_observation list \<Rightarrow> interaction_id list" where
  "interactions_of observations = fold (\<lambda>observation ids. case to_payload observation of
     InteractionPayload i \<Rightarrow> push_unique i ids | _ \<Rightarrow> ids) observations []"

definition navigations_of :: "timeline_observation list \<Rightarrow> navigation_id list" where
  "navigations_of observations = fold (\<lambda>observation ids. case to_payload observation of
     NavigationPayload n \<Rightarrow> push_unique n ids | _ \<Rightarrow> ids) observations []"

definition markers_of :: "timeline_observation list \<Rightarrow> marker_id list" where
  "markers_of observations = fold (\<lambda>observation ids. case to_payload observation of
     MarkerPayload m \<Rightarrow> push_unique m ids | _ \<Rightarrow> ids) observations []"

definition frames_of_seed :: "range_ports \<Rightarrow> range_seed \<Rightarrow> krometrail_error + captured_frame list" where
  "frames_of_seed ports seed = (case sd_preloaded_frames seed of
     Some frames \<Rightarrow> Inr frames
   | None \<Rightarrow> rp_frame_metadata_in_range ports (sd_session_id seed) (sd_target_id seed) (sd_requested_range seed))"

definition no_frames_error :: "range_seed \<Rightarrow> frame_availability \<Rightarrow> krometrail_error" where
  "no_frames_error seed availability =
     (if list_ex (\<lambda>interval. ranges_intersect interval (sd_requested_range seed)) (fa_evicted_ranges availability)
      then fully_evicted_range_not_found seed (sd_requested_range seed) (fa_retained_bounds availability)
      else range_not_found NoCapturedFrames seed (sd_requested_range seed) (fa_retained_bounds availability))"

text \<open>The second half: gaps and observations of the resolved range, and the result.\<close>

definition conclude_range :: "range_ports \<Rightarrow> range_seed \<Rightarrow> range_options \<Rightarrow> frame_availability \<Rightarrow>
    captured_frame list \<Rightarrow> session_range \<Rightarrow> retention_warning list \<Rightarrow> krometrail_error + resolved_range" where
  "conclude_range ports seed options availability frames resolved warnings =
     (let session = sd_session_id seed; target = sd_target_id seed;
          retained = filter (\<lambda>frame. range_contains resolved (cf_session_time frame)) frames in
      if retained = [] then
        Inl (fully_evicted_range_not_found seed resolved (fa_retained_bounds availability))
      else and_then (rp_gaps ports session target resolved) (\<lambda>gaps.
      and_then (clip_capture_gaps gaps resolved) (\<lambda>gaps.
      if ro_capture_gaps options = RejectGaps \<and> gaps \<noteq> []
      then Inl (range_not_found KnownGaps seed resolved None)
      else and_then (rp_timeline_range ports session target resolved) (\<lambda>observations.
      and_then (resolved_anchor_new (sd_anchor_reference seed) (sd_requested_anchor_time seed)
        (clamp_time (sd_requested_anchor_time seed) resolved)) (\<lambda>anchor.
      resolved_range_new_with_anchor
        \<lparr>rr_session_id = session, rr_target_id = target, rr_anchor_kind = sd_anchor_kind seed,
         rr_resolved_anchor = anchor, rr_requested_range = sd_requested_range seed,
         rr_resolved_range = resolved, rr_frame_ids = map cf_id retained,
         rr_interaction_ids = interactions_of observations,
         rr_navigation_ids = navigations_of observations, rr_marker_ids = markers_of observations,
         rr_gaps = gaps, rr_retention_warnings = warnings, rr_applied_window = sd_applied_window seed,
         rr_options = options\<rparr>)))))"

definition finalize_range :: "range_ports \<Rightarrow> range_seed \<Rightarrow> range_options \<Rightarrow> krometrail_error + resolved_range" where
  "finalize_range ports seed options =
     and_then (rp_frame_availability ports (sd_session_id seed) (sd_target_id seed)) (\<lambda>availability.
     and_then (live_session_now ports (sd_session_id seed) availability) (\<lambda>session_now.
     and_then (frames_of_seed ports seed) (\<lambda>frames.
     and_then (validate_frame_metadata seed frames (fa_evicted_ranges availability)) (\<lambda>_.
     if frames = [] then Inl (no_frames_error seed availability)
     else and_then (classify_retention seed frames availability options session_now) (\<lambda>(resolved, warnings).
     conclude_range ports seed options availability frames resolved warnings)))))"

definition resolve :: "range_ports \<Rightarrow> range_anchor \<Rightarrow> range_options \<Rightarrow> krometrail_error + resolved_range" where
  "resolve ports anchor options =
     and_then (anchor_validate anchor) (\<lambda>_.
     and_then (seed_of ports anchor options) (\<lambda>seed.
     finalize_range ports seed options))"

section \<open>Requests\<close>

record query_request =
  qr_anchor :: range_anchor
  qr_retention :: retention_policy
  qr_capture_gaps :: gap_policy

definition query_request_new :: "range_anchor \<Rightarrow> retention_policy \<Rightarrow> gap_policy \<Rightarrow> krometrail_error + query_request" where
  "query_request_new anchor retention gaps =
     and_then (anchor_validate anchor) (\<lambda>_.
     Inr \<lparr>qr_anchor = anchor, qr_retention = retention, qr_capture_gaps = gaps\<rparr>)"

definition query_strict :: "range_anchor \<Rightarrow> krometrail_error + query_request" where
  "query_strict anchor = query_request_new anchor RequireComplete IncludeGaps"

definition query_options :: "query_request \<Rightarrow> range_options" where
  "query_options request = default_options\<lparr>ro_retention := qr_retention request,
     ro_capture_gaps := qr_capture_gaps request\<rparr>"

definition resolve_range :: "range_ports \<Rightarrow> query_request \<Rightarrow> krometrail_error + resolved_range" where
  "resolve_range ports request = resolve ports (qr_anchor request) (query_options request)"

end
