(* ===== verification/Browser_Events.thy ===== *)
theory Browser_Events
  imports Timeline_Values
begin

text \<open>
  Browser events as the store handles them (\<open>crates/krometrail-core/src/browser/events.rs\<close>,
  \<open>ports/browser_events.rs\<close>): the envelope of an event with its checks, batches, selectors, cursors and
  the record of events no longer available. Of a payload the store only uses the results of its methods,
  and its JSON text; the record \<open>event_payload\<close> holds those.
\<close>

section \<open>Severities, classes and kinds\<close>

datatype (plugins only: code) event_severity = SeverityDebug | SeverityInfo | SeverityWarning | SeverityError

definition severity_rank :: "event_severity \<Rightarrow> nat" where
  "severity_rank severity = (case severity of
     SeverityDebug \<Rightarrow> 0 | SeverityInfo \<Rightarrow> 1 | SeverityWarning \<Rightarrow> 2 | SeverityError \<Rightarrow> 3)"

instantiation event_severity :: linorder
begin

definition less_eq_event_severity :: "event_severity \<Rightarrow> event_severity \<Rightarrow> bool" where
  "s \<le> t \<longleftrightarrow> severity_rank s \<le> severity_rank t"

definition less_event_severity :: "event_severity \<Rightarrow> event_severity \<Rightarrow> bool" where
  "s < t \<longleftrightarrow> severity_rank s < severity_rank t"

instance
  by standard (auto simp: less_eq_event_severity_def less_event_severity_def severity_rank_def
      split: event_severity.splits)

end

datatype (plugins only: code) event_class =
    ConsoleClass | ExceptionClass | NetworkClass | NavigationClass | LifecycleClass | TargetClass
  | DialogClass | CaptureClass | OperationalClass

definition class_rank :: "event_class \<Rightarrow> nat" where
  "class_rank cls = (case cls of
     ConsoleClass \<Rightarrow> 0 | ExceptionClass \<Rightarrow> 1 | NetworkClass \<Rightarrow> 2 | NavigationClass \<Rightarrow> 3 | LifecycleClass \<Rightarrow> 4
   | TargetClass \<Rightarrow> 5 | DialogClass \<Rightarrow> 6 | CaptureClass \<Rightarrow> 7 | OperationalClass \<Rightarrow> 8)"

lemma class_rank_inject [simp]: "class_rank c = class_rank d \<longleftrightarrow> c = d"
  by (simp add: class_rank_def split: event_class.splits)

instantiation event_class :: linorder
begin

definition less_eq_event_class :: "event_class \<Rightarrow> event_class \<Rightarrow> bool" where
  "c \<le> d \<longleftrightarrow> class_rank c \<le> class_rank d"

definition less_event_class :: "event_class \<Rightarrow> event_class \<Rightarrow> bool" where
  "c < d \<longleftrightarrow> class_rank c < class_rank d"

instance
  by standard (auto simp: less_eq_event_class_def less_event_class_def)

end

datatype (plugins only: code) event_kind =
    ConsoleMessageEvent | JavascriptExceptionEvent | NetworkRequestStartedEvent | NetworkResponseReceivedEvent
  | NetworkRequestFinishedEvent | NetworkRequestFailedEvent | NavigationEvent | PageLifecycleEvent
  | TargetLifecycleEvent | TargetVisibilityEvent | DialogOpenedEvent | DialogClosedEvent
  | CaptureStatusChangedEvent | CollectionStateChangedEvent | CollectionGapEvent

definition event_kind_class :: "event_kind \<Rightarrow> event_class" where
  "event_kind_class kind = (case kind of
     ConsoleMessageEvent \<Rightarrow> ConsoleClass | JavascriptExceptionEvent \<Rightarrow> ExceptionClass
   | NetworkRequestStartedEvent \<Rightarrow> NetworkClass | NetworkResponseReceivedEvent \<Rightarrow> NetworkClass
   | NetworkRequestFinishedEvent \<Rightarrow> NetworkClass | NetworkRequestFailedEvent \<Rightarrow> NetworkClass
   | NavigationEvent \<Rightarrow> NavigationClass | PageLifecycleEvent \<Rightarrow> LifecycleClass
   | TargetLifecycleEvent \<Rightarrow> TargetClass | TargetVisibilityEvent \<Rightarrow> TargetClass
   | DialogOpenedEvent \<Rightarrow> DialogClass | DialogClosedEvent \<Rightarrow> DialogClass
   | CaptureStatusChangedEvent \<Rightarrow> CaptureClass | CollectionStateChangedEvent \<Rightarrow> OperationalClass
   | CollectionGapEvent \<Rightarrow> OperationalClass)"

definition event_kind_name :: "event_kind \<Rightarrow> string" where
  "event_kind_name kind = (case kind of
     ConsoleMessageEvent \<Rightarrow> ''console_message'' | JavascriptExceptionEvent \<Rightarrow> ''javascript_exception''
   | NetworkRequestStartedEvent \<Rightarrow> ''network_request_started''
   | NetworkResponseReceivedEvent \<Rightarrow> ''network_response_received''
   | NetworkRequestFinishedEvent \<Rightarrow> ''network_request_finished''
   | NetworkRequestFailedEvent \<Rightarrow> ''network_request_failed'' | NavigationEvent \<Rightarrow> ''navigation''
   | PageLifecycleEvent \<Rightarrow> ''page_lifecycle'' | TargetLifecycleEvent \<Rightarrow> ''target_lifecycle''
   | TargetVisibilityEvent \<Rightarrow> ''target_visibility'' | DialogOpenedEvent \<Rightarrow> ''dialog_opened''
   | DialogClosedEvent \<Rightarrow> ''dialog_closed'' | CaptureStatusChangedEvent \<Rightarrow> ''capture_status_changed''
   | CollectionStateChangedEvent \<Rightarrow> ''collection_state_changed'' | CollectionGapEvent \<Rightarrow> ''collection_gap'')"

section \<open>Events\<close>

datatype (plugins only: code) source_clock = CdpMonotonic | UnixEpoch

record source_timestamp =
  st_clock :: source_clock
  st_time :: source_time
  st_rounded :: bool

definition source_timestamp_new :: "source_clock \<Rightarrow> source_time \<Rightarrow> bool \<Rightarrow> krometrail_error + source_timestamp" where
  "source_timestamp_new clock time rounded =
     (if sint (source_nanos time) < 0 then Inl (invalid (PortMessage ''browser source timestamp must not be negative''))
      else Inr \<lparr>st_clock = clock, st_time = time, st_rounded = rounded\<rparr>)"

datatype event_ordinal = EventOrdinal (event_ordinal_value: u64)

definition event_ordinal_new :: "u64 \<Rightarrow> krometrail_error + event_ordinal" where
  "event_ordinal_new value =
     (if value = 0 then Inl (invalid (PortMessage ''browser event ordinal must be non-zero''))
      else Inr (EventOrdinal value))"

text \<open>The range of events a collector could not record, and the status of a target's capture without its
  statistics.\<close>

datatype (plugins only: code) gap_reason =
    GapInvalidPayload | GapPayloadLimit | GapQueueSaturated | GapFanoutLag | GapPersistenceRejected
  | GapSubscriptionClosed | GapSourceUnavailable | GapReconnectBoundary

record collection_gap =
  cg_reason :: gap_reason
  cg_affected_class :: "event_class option"
  cg_range :: session_range
  cg_first_ordinal :: event_ordinal
  cg_last_ordinal :: event_ordinal
  cg_count :: u64
  cg_ledger_merged :: bool

datatype (plugins only: code) capture_stream_state =
    StreamStarting | StreamCapturing | StreamPausedBudget | StreamHidden | StreamSuspended | StreamDraining
  | StreamStopped | StreamFailed

record target_capture_status =
  ts_target_id :: target_id
  ts_attachment_generation :: u64
  ts_state :: capture_stream_state

text \<open>A payload: its kind and the results of its methods \<open>validate\<close>, \<open>expected_severity\<close> and
  \<open>compact_priority\<close>, its JSON text in UTF-8, and its content where it is a collection gap or a capture
  status.\<close>

record event_payload =
  ep_kind :: event_kind
  ep_contract :: "krometrail_error + unit"
  ep_severity :: event_severity
  ep_priority :: nat
  ep_json :: string
  ep_gap :: "collection_gap option"
  ep_capture_status :: "target_capture_status option"

record browser_event =
  be_id :: browser_event_id
  be_session_id :: session_id
  be_target_id :: target_id
  be_attachment_generation :: u64
  be_ordinal :: event_ordinal
  be_session_time :: session_time
  be_source_time :: "source_timestamp option"
  be_observed_time :: observed_time
  be_severity :: event_severity
  be_payload :: event_payload

definition max_event_payload_bytes :: nat where "max_event_payload_bytes = 8 * 1024"
definition max_event_batch_rows :: nat where "max_event_batch_rows = 128"
definition max_event_batch_bytes :: nat where "max_event_batch_bytes = 256 * 1024"

definition event_message :: "string \<Rightarrow> krometrail_error" where
  "event_message message = invalid (PortMessage message)"

definition event_validate :: "browser_event \<Rightarrow> krometrail_error + unit" where
  "event_validate event =
     (if browser_event_uuid (be_id event) = 0 \<or> session_uuid (be_session_id event) = 0 \<or>
         target_uuid (be_target_id event) = 0
      then Inl (event_message ''browser event scope IDs must not be nil'')
      else if session_nanos (be_session_time event) > observed_nanos (be_observed_time event)
      then Inl (event_message ''browser event session time must not exceed observed time'')
      else if (case be_source_time event of None \<Rightarrow> False | Some t \<Rightarrow> sint (source_nanos (st_time t)) < 0)
      then Inl (event_message ''browser source timestamp must not be negative'')
      else and_then (ep_contract (be_payload event)) (\<lambda>_.
      if be_severity event \<noteq> ep_severity (be_payload event)
      then Inl (event_message ''browser event severity does not agree with its payload'')
      else if (case ep_capture_status (be_payload event) of None \<Rightarrow> False
        | Some status \<Rightarrow> ts_target_id status \<noteq> be_target_id event \<or>
            ts_attachment_generation status \<noteq> be_attachment_generation event)
      then Inl (event_message ''capture status scope does not agree with its browser event'')
      else if (case ep_gap (be_payload event) of None \<Rightarrow> False
        | Some gap \<Rightarrow> \<not> range_contains (cg_range gap) (be_session_time event))
      then Inl (event_message ''browser collection gap range must contain its event time'')
      else if length (ep_json (be_payload event)) > max_event_payload_bytes
      then Inl (event_message ''browser event payload exceeds its serialized byte limit'')
      else Inr ()))"

definition browser_event_new :: "browser_event \<Rightarrow> krometrail_error + browser_event" where
  "browser_event_new event =
     (if be_attachment_generation event = 0
      then Inl (event_message ''browser event attachment generation must be non-zero'')
      else and_then (event_validate event) (\<lambda>_. Inr event))"

definition affected_range :: "browser_event \<Rightarrow> session_range" where
  "affected_range event = (case ep_gap (be_payload event) of
     Some gap \<Rightarrow> cg_range gap
   | None \<Rightarrow> \<lparr>range_start = be_session_time event, range_end = be_session_time event\<rparr>)"

section \<open>Batches\<close>

record event_batch =
  eb_session_id :: session_id
  eb_events :: "browser_event list"

text \<open>The loop of the constructor: the identifiers seen, the last ordinal of each target, the bytes so far.
  \<open>event_bytes\<close> is the length of an event in JSON.\<close>

fun batch_check :: "(browser_event \<Rightarrow> nat) \<Rightarrow> session_id \<Rightarrow> browser_event_id list \<Rightarrow>
    (target_id \<rightharpoonup> event_ordinal) \<Rightarrow> nat \<Rightarrow> browser_event list \<Rightarrow> krometrail_error + unit" where
  "batch_check event_bytes session ids ordinals bytes [] = Inr ()"
| "batch_check event_bytes session ids ordinals bytes (event # events) =
     and_then (event_validate event) (\<lambda>_.
     if be_session_id event \<noteq> session then Inl (event_message ''browser event batch contains another session'')
     else if be_id event \<in> set ids then Inl (event_message ''browser event batch contains a duplicate event ID'')
     else if (case ordinals (be_target_id event) of None \<Rightarrow> False
       | Some previous \<Rightarrow> event_ordinal_value (be_ordinal event) \<le> event_ordinal_value previous)
     then Inl (event_message ''browser event batch ordinals must increase strictly per target'')
     else if bytes + event_bytes event > max_event_batch_bytes
     then Inl (event_message ''browser event batch exceeds its serialized byte limit'')
     else batch_check event_bytes session (be_id event # ids)
       (ordinals(be_target_id event \<mapsto> be_ordinal event)) (bytes + event_bytes event) events)"

definition event_batch_new :: "(browser_event \<Rightarrow> nat) \<Rightarrow> session_id \<Rightarrow> browser_event list \<Rightarrow>
    krometrail_error + event_batch" where
  "event_batch_new event_bytes session events =
     (if session_uuid session = 0 then Inl (event_message ''browser event batch session ID must not be nil'')
      else if events = [] then Inl (event_message ''browser event batch must contain at least one row'')
      else if length events > max_event_batch_rows
      then Inl (event_message ''browser event batch exceeds its row limit'')
      else and_then (batch_check event_bytes session [] Map.empty 0 events) (\<lambda>_.
        Inr \<lparr>eb_session_id = session, eb_events = events\<rparr>))"

section \<open>Queries\<close>

record event_selector =
  es_session_id :: session_id
  es_target_id :: target_id
  es_range :: session_range
  es_classes :: "event_class list"
  es_minimum_severity :: event_severity

definition event_selector_new :: "session_id \<Rightarrow> target_id \<Rightarrow> session_range \<Rightarrow> event_class list \<Rightarrow> event_severity \<Rightarrow>
    krometrail_error + event_selector" where
  "event_selector_new session target interval classes severity =
     (if session_uuid session = 0 \<or> target_uuid target = 0
      then Inl (event_message ''browser event selector scope IDs must not be nil'')
      else if \<not> distinct classes then Inl (event_message ''browser event selector classes must be unique'')
      else Inr \<lparr>es_session_id = session, es_target_id = target, es_range = interval,
        es_classes = sort classes, es_minimum_severity = severity\<rparr>)"

record event_cursor =
  cu_selector :: event_selector
  cu_session_time :: session_time
  cu_ordinal :: event_ordinal
  cu_event_id :: browser_event_id

definition event_cursor_new :: "event_selector \<Rightarrow> session_time \<Rightarrow> event_ordinal \<Rightarrow> browser_event_id \<Rightarrow>
    krometrail_error + event_cursor" where
  "event_cursor_new selector at ordinal i =
     (if \<not> range_contains (es_range selector) at \<or> browser_event_uuid i = 0
      then Inl (event_message ''browser event cursor is outside its selector'')
      else Inr \<lparr>cu_selector = selector, cu_session_time = at, cu_ordinal = ordinal, cu_event_id = i\<rparr>)"

definition max_event_page_rows :: nat where "max_event_page_rows = 1000"

definition event_page_limit_new :: "nat \<Rightarrow> krometrail_error + nat" where
  "event_page_limit_new value =
     (if value = 0 \<or> value > max_event_page_rows
      then Inl (event_message ''browser event page limit is out of range'') else Inr value)"

section \<open>Events no longer available\<close>

datatype (plugins only: code) unavailable_reason = RetentionEvicted | CorruptDiscarded

record unavailable_range =
  ur_session_id :: session_id
  ur_target_id :: target_id
  ur_range :: session_range
  ur_ordinals :: "(event_ordinal \<times> event_ordinal) option"
  ur_event_count :: u64
  ur_reason :: unavailable_reason

text \<open>The first and last ordinal are stored together or not at all, as the table requires.\<close>

definition unavailable_range_new :: "unavailable_range \<Rightarrow> krometrail_error + unavailable_range" where
  "unavailable_range_new r =
     (if session_uuid (ur_session_id r) = 0 \<or> target_uuid (ur_target_id r) = 0
      then Inl (event_message ''browser event unavailable scope IDs must not be nil'')
      else if (case ur_ordinals r of None \<Rightarrow> False
        | Some (lowest, highest) \<Rightarrow> event_ordinal_value lowest > event_ordinal_value highest)
      then Inl (event_message ''browser event unavailable ordinal range is invalid'')
      else Inr r)"

end
