(* ===== verification/Index_Tables.thy ===== *)
theory Index_Tables
  imports Segment_Writer Range_Resolver Browser_Events "HOL-Library.Product_Lexorder"
begin

text \<open>
  The metadata index (\<open>crates/krometrail-store/src/index/\<close>): its tables, the encoding of their columns
  and the constraints of \<open>schema.rs\<close>. A table is the list of its rows in insertion order. A column of
  eight or sixteen big-endian bytes holds the value it encodes: \<open>u64_blob_order\<close> shows that SQLite's
  byte order on such a column is the numeric order. A statement that SQLite itself fails rolls its
  transaction back, so the only errors that remain are the code's own and the constraints.
\<close>

section \<open>Columns\<close>

definition codec_id :: "uuid \<Rightarrow> byte_string" where
  "codec_id value = be_encode 16 (unat value)"

definition u64_blob :: "u64 \<Rightarrow> byte_string" where
  "u64_blob value = be_encode 8 (unat value)"

definition persistence_error :: "string \<Rightarrow> krometrail_error" where
  "persistence_error message = krometrail_error_new CodePersistenceFailed (PortMessage message)"

definition decode_u64 :: "byte_string \<Rightarrow> krometrail_error + u64" where
  "decode_u64 value =
     (if length value \<noteq> 8 then Inl (persistence_error ''stored unsigned value is malformed'')
      else Inr (word_of_nat (be_decode value)))"

definition decode_id :: "byte_string \<Rightarrow> krometrail_error + uuid" where
  "decode_id value =
     (if length value \<noteq> 16 then Inl (persistence_error ''stored identifier is malformed'')
      else Inr (word_of_nat (be_decode value)))"

lemma codec_round_trip: "decode_u64 (u64_blob v) = Inr v" "decode_id (codec_id i) = Inr i"
proof -
  have "unat v < 256 ^ 8" "unat i < 256 ^ 16"
    using unsigned_less [of v] unsigned_less [of i] by simp_all
  then show "decode_u64 (u64_blob v) = Inr v" "decode_id (codec_id i) = Inr i"
    by (simp_all add: decode_u64_def u64_blob_def decode_id_def codec_id_def be_decode_encode)
qed

lemma append_less_iff:
  "length xs = length ys \<Longrightarrow>
    xs @ [x] < ys @ [y] \<longleftrightarrow> xs < ys \<or> xs = ys \<and> x < (y :: 'a::linorder)"
  by (induction xs ys rule: list_induct2) auto

lemma less_digits:
  fixes k :: nat
  assumes "ra < k" and "rb < k"
  shows "k * qa + ra < k * qb + rb \<longleftrightarrow> qa < qb \<or> qa = qb \<and> ra < rb"
proof -
  have carry: "k * p + r < k * q + s" if "p < q" "r < k" for p q r s
    using mult_le_mono2 [of "Suc p" q k] that by simp
  show ?thesis
    using carry [of qa qb ra rb] carry [of qb qa rb ra] assms by (cases qa qb rule: linorder_cases) auto
qed

lemma be_encode_less:
  "a < 256 ^ n \<Longrightarrow> b < 256 ^ n \<Longrightarrow> be_encode n a < be_encode n b \<longleftrightarrow> a < b"
proof (induction n arbitrary: a b)
  case (Suc n)
  have inj: "be_encode n (a div 256) = be_encode n (b div 256) \<longleftrightarrow> a div 256 = b div 256"
    using Suc.prems by (metis be_decode_encode less_mult_imp_div_less mult.commute power_Suc)
  have "be_encode n (a div 256) < be_encode n (b div 256) \<longleftrightarrow> a div 256 < b div 256"
    using Suc.prems by (intro Suc.IH) (simp_all add: less_mult_imp_div_less mult.commute)
  moreover have "(word_of_nat (a mod 256) :: u8) < word_of_nat (b mod 256) \<longleftrightarrow> a mod 256 < b mod 256"
    by (simp add: word_less_nat_alt unat_byte_mod)
  moreover have "a < b \<longleftrightarrow> a div 256 < b div 256 \<or> a div 256 = b div 256 \<and> a mod 256 < b mod 256"
    using less_digits [of "a mod 256" 256 "b mod 256" "a div 256" "b div 256"] by simp
  ultimately show ?case
    by (simp add: append_less_iff inj)
qed simp

lemma u64_blob_order: "u64_blob v < u64_blob w \<longleftrightarrow> v < w" "codec_id i < codec_id j \<longleftrightarrow> i < j"
proof -
  have "unat v < 256 ^ 8" "unat w < 256 ^ 8" "unat i < 256 ^ 16" "unat j < 256 ^ 16"
    using unsigned_less [of v] unsigned_less [of w] unsigned_less [of i] unsigned_less [of j] by simp_all
  then show "u64_blob v < u64_blob w \<longleftrightarrow> v < w" "codec_id i < codec_id j \<longleftrightarrow> i < j"
    by (simp_all add: u64_blob_def codec_id_def be_encode_less word_less_nat_alt)
qed

section \<open>Rows\<close>

datatype artifact_id = ArtifactId (artifact_uuid: uuid)

record segment_row =
  sg_registration :: segment_registration
  sg_retention_sequence :: nat
  sg_created_unix_ms :: int

record frame_row =
  fw_metadata :: captured_frame
  fw_segment_id :: segment_id
  fw_byte_offset :: byte_offset

record timeline_row =
  tl_observation_id :: nat
  tl_observation :: timeline_observation
  tl_capture_ordinal :: "capture_ordinal option"

record pin_row =
  pn_pin_id :: nat
  pn_session_id :: session_id
  pn_target_id :: target_id
  pn_range :: session_range

text \<open>Of an artifact, the columns that staging, retention and deletion read.\<close>

datatype artifact_state = Staging | Ready

record artifact_row =
  at_artifact_id :: artifact_id
  at_session_id :: session_id
  at_target_id :: target_id
  at_state :: artifact_state
  at_start_time :: session_time
  at_byte_len :: u64
  at_cache_key :: byte_string
  at_created_unix_ms :: int

datatype usage_class = UsageSegment | UsageIndex | UsageBrowserEvent | UsageArtifact

record usage_row =
  us_class :: usage_class
  us_object_key :: byte_string
  us_session_id :: "session_id option"
  us_byte_len :: u64

record evicted_row =
  ev_eviction_id :: nat
  ev_session_id :: session_id
  ev_target_id :: target_id
  ev_range :: session_range

datatype deletion_kind = Eviction | SessionDeletion
datatype deletion_state = Prepared | MetadataRemoved
datatype deletion_object_kind = SegmentObject segment_id | ArtifactObject artifact_id

text \<open>The file of an object is named by its identifier; the record keeps the identifier only.\<close>

record deletion_object =
  do_kind :: deletion_object_kind
  do_byte_len :: u64
  do_session_id :: session_id

record deletion_batch =
  db_batch_id :: uuid
  db_kind :: deletion_kind
  db_session_id :: "session_id option"
  db_state :: deletion_state
  db_objects :: "deletion_object list"

text \<open>A row of browser events holds the event whole; its other columns are projections of it.\<close>

record event_row =
  er_event :: browser_event
  er_accounted_bytes :: u64
  er_retention_sequence :: nat

record unavailable_row =
  un_id :: nat
  un_range :: unavailable_range

text \<open>The interaction table without its detail record.\<close>

type_synonym interaction_row = interaction_anchor

record metadata_index =
  ix_sessions :: "session_id \<rightharpoonup> recording_session option"
  ix_targets :: "session_id \<times> target_id \<rightharpoonup> page_target option"
  ix_segments :: "segment_row list"
  ix_frames :: "frame_row list"
  ix_timeline :: "timeline_row list"
  ix_gaps :: "capture_gap list"
  ix_pins :: "pin_row list"
  ix_pin_segments :: "(nat \<times> segment_id) list"
  ix_artifacts :: "artifact_row list"
  ix_artifact_frames :: "(artifact_id \<times> nat \<times> frame_id) list"
  ix_usage :: "usage_row list"
  ix_next_sequence :: nat
  ix_batches :: "deletion_batch list"
  ix_interactions :: "interaction_row list"
  ix_evicted :: "evicted_row list"
  ix_events :: "event_row list"
  ix_unavailable :: "unavailable_row list"
  ix_terminal_overrides :: "session_id \<rightharpoonup> recording_session"

definition empty_index :: metadata_index where
  "empty_index = \<lparr>ix_sessions = Map.empty, ix_targets = Map.empty, ix_segments = [], ix_frames = [],
     ix_timeline = [], ix_gaps = [], ix_pins = [], ix_pin_segments = [], ix_artifacts = [],
     ix_artifact_frames = [], ix_usage = [], ix_next_sequence = 1, ix_batches = [], ix_interactions = [],
     ix_evicted = [], ix_events = [], ix_unavailable = [], ix_terminal_overrides = Map.empty\<rparr>"

section \<open>Statements\<close>

text \<open>An \<open>INTEGER PRIMARY KEY\<close> takes the largest value in use plus one.\<close>

definition next_rowid :: "('r \<Rightarrow> nat) \<Rightarrow> 'r list \<Rightarrow> nat" where
  "next_rowid key rows = Suc (foldr (\<lambda>row. max (key row)) rows 0)"

lemma next_rowid_greater: "row \<in> set rows \<Longrightarrow> key row < next_rowid key rows"
  by (induction rows) (auto simp: next_rowid_def less_Suc_eq_le max.coboundedI2)

text \<open>\<open>LIMIT 1\<close> of an ordered selection.\<close>

definition first_by :: "('r \<Rightarrow> 'k::linorder) \<Rightarrow> 'r list \<Rightarrow> 'r option" where
  "first_by key rows = (case sort_key key rows of [] \<Rightarrow> None | row # _ \<Rightarrow> Some row)"

definition last_by :: "('r \<Rightarrow> 'k::linorder) \<Rightarrow> 'r list \<Rightarrow> 'r option" where
  "last_by key rows = (case sort_key key rows of [] \<Rightarrow> None | row # rows \<Rightarrow> Some (last (row # rows)))"

lemma first_by_Some:
  assumes "rows \<noteq> []"
  obtains row where "first_by key rows = Some row" "row \<in> set rows" "\<forall>r \<in> set rows. key row \<le> key r"
proof (cases "sort_key key rows")
  case Nil
  have "set rows = set (sort_key key rows)"
    by simp
  then show thesis
    using Nil assms by simp
next
  case (Cons row others)
  have "set rows = set (row # others)" "sorted (map key (row # others))"
    unfolding Cons [symmetric] by simp_all
  then show thesis
    using that [of row] Cons by (auto simp: first_by_def)
qed

lemma sorted_last: "sorted (map key ys) \<Longrightarrow> r \<in> set ys \<Longrightarrow> key r \<le> key (last ys)"
  by (induction ys) auto

lemma last_by_Some:
  assumes "rows \<noteq> []"
  obtains row where "last_by key rows = Some row" "row \<in> set rows" "\<forall>r \<in> set rows. key r \<le> key row"
proof -
  let ?ys = "sort_key key rows"
  have rows: "set rows = set ?ys"
    by simp
  then have "?ys \<noteq> []"
    using assms by (metis set_empty)
  moreover from this have "last_by key rows = Some (last ?ys)"
    by (auto simp: last_by_def split: list.split)
  moreover have "last ?ys \<in> set rows"
    unfolding rows by (rule last_in_set) fact
  moreover have "\<forall>r \<in> set rows. key r \<le> key (last ?ys)"
    using sorted_last [of key ?ys] by simp
  ultimately show thesis
    using that by blast
qed

definition ensure_session :: "session_id \<Rightarrow> metadata_index \<Rightarrow> metadata_index" where
  "ensure_session session ix =
     (if ix_sessions ix session = None then ix\<lparr>ix_sessions := (ix_sessions ix)(session \<mapsto> None)\<rparr> else ix)"

definition ensure_identity :: "session_id \<Rightarrow> target_id \<Rightarrow> metadata_index \<Rightarrow> metadata_index" where
  "ensure_identity session target ix =
     (let ix = ensure_session session ix in
      if ix_targets ix (session, target) = None
      then ix\<lparr>ix_targets := (ix_targets ix)((session, target) \<mapsto> None)\<rparr> else ix)"

definition upsert_usage :: "usage_row \<Rightarrow> usage_row list \<Rightarrow> usage_row list" where
  "upsert_usage row rows =
     (if \<exists>r \<in> set rows. us_class r = us_class row \<and> us_object_key r = us_object_key row
      then map (\<lambda>r. if us_class r = us_class row \<and> us_object_key r = us_object_key row then row else r) rows
      else rows @ [row])"

end
