(* ===== verification/Index_Evictions.thy ===== *)
theory Index_Evictions
  imports Index_Tables
begin

text \<open>
  The evicted frame ranges of the index (\<open>index/range.rs\<close>). A range recorded for an evicted segment is
  merged with the ranges it overlaps or adjoins in one pass over the stored ones, in their order; the
  stored ranges of a scope stay disjoint with a free instant between any two.
\<close>

section \<open>Model\<close>

text \<open>The condition of the loop: the ranges overlap or are adjacent.\<close>

definition ranges_touch :: "session_range \<Rightarrow> session_range \<Rightarrow> bool" where
  "ranges_touch existing current \<longleftrightarrow>
     session_nanos (range_start existing) \<le> saturating_add (session_nanos (range_end current)) 1 \<and>
     session_nanos (range_start current) \<le> saturating_add (session_nanos (range_end existing)) 1"

definition hull :: "session_range \<Rightarrow> session_range \<Rightarrow> session_range" where
  "hull existing current = \<lparr>range_start = min (range_start current) (range_start existing),
     range_end = max (range_end current) (range_end existing)\<rparr>"

fun coalesce_rows :: "evicted_row list \<Rightarrow> session_range \<Rightarrow> nat list \<Rightarrow> session_range \<times> nat list" where
  "coalesce_rows [] current merged_ids = (current, merged_ids)"
| "coalesce_rows (row # rows) current merged_ids =
     (if ranges_touch (ev_range row) current
      then coalesce_rows rows (hull (ev_range row) current) (merged_ids @ [ev_eviction_id row])
      else coalesce_rows rows current merged_ids)"

definition evicted_key :: "evicted_row \<Rightarrow> u64 \<times> u64 \<times> nat" where
  "evicted_key row = (session_nanos (range_start (ev_range row)), session_nanos (range_end (ev_range row)),
     ev_eviction_id row)"

definition in_scope :: "session_id \<Rightarrow> target_id \<Rightarrow> evicted_row \<Rightarrow> bool" where
  "in_scope session target row \<longleftrightarrow> ev_session_id row = session \<and> ev_target_id row = target"

definition evicted_rows :: "session_id \<Rightarrow> target_id \<Rightarrow> evicted_row list \<Rightarrow> evicted_row list" where
  "evicted_rows session target rows = sort_key evicted_key (filter (in_scope session target) rows)"

definition insert_evicted :: "session_id \<Rightarrow> target_id \<Rightarrow> session_range \<Rightarrow> evicted_row list \<Rightarrow> evicted_row list" where
  "insert_evicted session target interval rows =
     (if list_ex (\<lambda>row. in_scope session target row \<and> ev_range row = interval) rows then rows
      else rows @ [\<lparr>ev_eviction_id = next_rowid ev_eviction_id rows, ev_session_id = session,
        ev_target_id = target, ev_range = interval\<rparr>])"

definition record_evicted_frame_range :: "session_id \<Rightarrow> target_id \<Rightarrow> session_range \<Rightarrow> metadata_index \<Rightarrow>
    krometrail_error + metadata_index" where
  "record_evicted_frame_range session target interval ix =
     (case coalesce_rows (evicted_rows session target (ix_evicted ix)) interval [] of (current, merged_ids) \<Rightarrow>
        if ix_targets ix (session, target) = None
        then Inl (persistence_error ''could not persist eviction range'')
        else Inr (ix\<lparr>ix_evicted := insert_evicted session target current
          (filter (\<lambda>row. ev_eviction_id row \<notin> set merged_ids) (ix_evicted ix))\<rparr>))"

definition evicted_ranges :: "session_id \<Rightarrow> target_id \<Rightarrow> metadata_index \<Rightarrow> krometrail_error + session_range list" where
  "evicted_ranges session target ix =
     collect_results (\<lambda>row. map_err (\<lambda>_. persistence_error ''stored eviction range is invalid'')
       (session_range_new (range_start (ev_range row)) (range_end (ev_range row))))
     (evicted_rows session target (ix_evicted ix))"

section \<open>Ranges as sets of instants\<close>

definition instants :: "session_range \<Rightarrow> session_time set" where
  "instants r = {t. range_contains r t}"

lemma at_most_next: "a \<le> saturating_add b 1 \<longleftrightarrow> unat a \<le> unat b + 1" for a b :: u64
proof -
  have "unat a < 2 ^ 64"
    using unsigned_less [of a] by simp
  then show ?thesis
    by (simp add: word_le_nat_alt unat_saturating_add min_def)
qed

definition lo :: "session_range \<Rightarrow> nat" where "lo r = unat (session_nanos (range_start r))"
definition hi :: "session_range \<Rightarrow> nat" where "hi r = unat (session_nanos (range_end r))"

lemma session_time_unat: "s \<le> t \<longleftrightarrow> unat (session_nanos s) \<le> unat (session_nanos t)"
  by (simp add: less_eq_session_time_def word_le_nat_alt)

lemma interval_nat:
  "ranges_touch a b \<longleftrightarrow> lo a \<le> hi b + 1 \<and> lo b \<le> hi a + 1"
  "wf_range a \<longleftrightarrow> lo a \<le> hi a"
  "t \<in> instants a \<longleftrightarrow> lo a \<le> unat (session_nanos t) \<and> unat (session_nanos t) \<le> hi a"
  "lo (hull a b) = min (lo b) (lo a)" "hi (hull a b) = max (hi b) (hi a)"
  by (auto simp: ranges_touch_def at_most_next lo_def hi_def wf_range_def session_time_unat instants_def
      range_contains_iff hull_def min_def max_def)

lemma not_coalesced_nat: "not_coalesced a b \<longleftrightarrow> lo b < lo a \<or> lo b \<le> hi a + 1"
  by (simp add: not_coalesced_def at_most_next lo_def hi_def less_session_time_def word_less_nat_alt)

lemma instants_hull:
  assumes "ranges_touch a b" and "wf_range a" and "wf_range b"
  shows "instants (hull a b) = instants a \<union> instants b"
  using assms by (auto simp: interval_nat)

lemma hull_wf: "wf_range a \<Longrightarrow> wf_range (hull a b)"
  by (auto simp: interval_nat)

section \<open>One pass is enough\<close>

definition separated :: "evicted_row list \<Rightarrow> bool" where
  "separated rows \<longleftrightarrow> sorted_wrt (\<lambda>p r. hi (ev_range p) + 1 < lo (ev_range r)) rows \<and>
     (\<forall>row \<in> set rows. wf_range (ev_range row))"

lemma coalesce_keeps_apart:
  assumes "\<not> ranges_touch p current" and "lo p \<le> hi p" and "separated rows"
    and "\<forall>row \<in> set rows. hi p + 1 < lo (ev_range row)" and "wf_range current"
  shows "\<not> ranges_touch p (fst (coalesce_rows rows current ids))"
  using assms
proof (induction rows arbitrary: current ids)
  case (Cons row rows)
  show ?case
  proof (cases "ranges_touch (ev_range row) current")
    case True
    have "\<not> ranges_touch p (hull (ev_range row) current)"
      using True Cons.prems by (auto simp: interval_nat separated_def)
    moreover have "wf_range (hull (ev_range row) current)"
      using Cons.prems by (simp add: hull_wf separated_def)
    ultimately show ?thesis
      using True Cons.prems Cons.IH [of "hull (ev_range row) current" "ids @ [ev_eviction_id row]"]
      by (simp add: separated_def)
  qed (use Cons.prems Cons.IH [of current ids] in \<open>simp add: separated_def\<close>)
qed simp

text \<open>The pass merges exactly the rows that touch the result, and adds no instant.\<close>

lemma coalesce_spec:
  assumes "separated rows" and "wf_range current" and "distinct (map ev_eviction_id rows)"
    and "coalesce_rows rows current ids = (out, merged)"
  shows "wf_range out \<and> set ids \<subseteq> set merged \<and> set merged \<subseteq> set ids \<union> ev_eviction_id ` set rows \<and>
    (\<forall>row \<in> set rows. ev_eviction_id row \<notin> set merged \<longrightarrow> \<not> ranges_touch (ev_range row) out) \<and>
    (ev_eviction_id ` set rows \<inter> set ids = {} \<longrightarrow>
      instants out = instants current \<union> \<Union> (instants ` ev_range ` {row \<in> set rows. ev_eviction_id row \<in> set merged}))"
  using assms
proof (induction rows arbitrary: current ids)
  case (Cons row rows)
  have rest: "separated rows" "distinct (map ev_eviction_id rows)" "ev_eviction_id row \<notin> ev_eviction_id ` set rows"
    "wf_range (ev_range row)" "\<forall>r \<in> set rows. hi (ev_range row) + 1 < lo (ev_range r)"
    using Cons.prems by (auto simp: separated_def)
  show ?case
  proof (cases "ranges_touch (ev_range row) current")
    case True
    have out: "coalesce_rows rows (hull (ev_range row) current) (ids @ [ev_eviction_id row]) = (out, merged)"
      using True Cons.prems by simp
    note ih = Cons.IH [OF rest(1) hull_wf [OF rest(4)] rest(2) out]
    have "instants (hull (ev_range row) current) = instants (ev_range row) \<union> instants current"
      by (rule instants_hull [OF True rest(4) Cons.prems(2)])
    moreover have "{r \<in> set (row # rows). ev_eviction_id r \<in> set merged} =
      insert row {r \<in> set rows. ev_eviction_id r \<in> set merged}"
      using ih by auto
    ultimately show ?thesis
      using ih rest(3) by auto
  next
    case False
    have out: "coalesce_rows rows current ids = (out, merged)"
      using False Cons.prems by simp
    note ih = Cons.IH [OF rest(1) Cons.prems(2) rest(2) out]
    have "\<not> ranges_touch (ev_range row) out"
      using coalesce_keeps_apart [of "ev_range row" current rows ids] False rest Cons.prems(2) out
      by (simp add: interval_nat)
    moreover have "ev_eviction_id row \<notin> set ids \<Longrightarrow>
      {r \<in> set (row # rows). ev_eviction_id r \<in> set merged} = {r \<in> set rows. ev_eviction_id r \<in> set merged}"
      using ih rest(3) by auto
    ultimately show ?thesis
      using ih by auto
  qed
qed simp

section \<open>The stored ranges of a scope\<close>

definition scope_separated :: "session_id \<Rightarrow> target_id \<Rightarrow> evicted_row list \<Rightarrow> bool" where
  "scope_separated session target rows \<longleftrightarrow> separated (evicted_rows session target rows)"

text \<open>The rows as a whole: identifiers are unique and every scope is coalesced.\<close>

definition evicted_ok :: "evicted_row list \<Rightarrow> bool" where
  "evicted_ok rows \<longleftrightarrow> distinct (map ev_eviction_id rows) \<and>
     (\<forall>session target. scope_separated session target rows)"

text \<open>What the rows say, abstractly: the evicted instants of a scope.\<close>

definition evicted_instants :: "session_id \<Rightarrow> target_id \<Rightarrow> evicted_row list \<Rightarrow> session_time set" where
  "evicted_instants session target rows = \<Union> (instants ` ev_range ` {row \<in> set rows. in_scope session target row})"

lemma set_evicted_rows [simp]: "set (evicted_rows session target rows) = {row \<in> set rows. in_scope session target row}"
  by (simp add: evicted_rows_def)

lemma apart_symmetric: "ranges_touch a b \<longleftrightarrow> ranges_touch b a"
  by (auto simp: interval_nat)

lemma key_le_lo: "evicted_key a \<le> evicted_key b \<Longrightarrow> lo (ev_range a) \<le> lo (ev_range b)"
  by (auto simp: evicted_key_def lo_def word_le_nat_alt word_less_nat_alt less_eq_prod_def
      simp del: session_nanos_simps)

text \<open>For rows sorted by their start, being separated is not touching pairwise.\<close>

lemma sorted_apart:
  assumes "sorted_wrt (\<lambda>a b. \<not> ranges_touch (ev_range a) (ev_range b)) rows"
    and "sorted (map evicted_key rows)" and "\<forall>row \<in> set rows. wf_range (ev_range row)"
  shows "separated rows"
  using assms
proof (induction rows)
  case (Cons row rows)
  have "hi (ev_range row) + 1 < lo (ev_range r)" if r: "r \<in> set rows" for r
  proof -
    have "lo (ev_range row) \<le> lo (ev_range r)"
      using Cons.prems(2) r by (auto intro: key_le_lo)
    moreover have "\<not> ranges_touch (ev_range row) (ev_range r)" "wf_range (ev_range r)"
      using Cons.prems r by auto
    ultimately show ?thesis
      by (auto simp: interval_nat)
  qed
  then show ?case
    using Cons by (simp add: separated_def)
qed (simp add: separated_def)

lemma separated_apart:
  assumes "separated rows" and "a \<in> set rows" and "b \<in> set rows" and "a \<noteq> b"
  shows "\<not> ranges_touch (ev_range a) (ev_range b)"
  using assms
proof (induction rows)
  case (Cons row rows)
  have "\<not> ranges_touch (ev_range row) (ev_range r)" if "r \<in> set rows" for r
    using Cons.prems(1) that by (auto simp: separated_def interval_nat)
  then show ?case
    using Cons apart_symmetric by (auto simp: separated_def)
qed simp

lemma distinct_sorted_wrt:
  "distinct xs \<Longrightarrow> (\<And>a b. a \<in> set xs \<Longrightarrow> b \<in> set xs \<Longrightarrow> a \<noteq> b \<Longrightarrow> P a b) \<Longrightarrow> sorted_wrt P xs"
  by (induction xs) auto

lemma scope_separated_iff:
  assumes "distinct (map ev_eviction_id rows)"
  shows "scope_separated session target rows \<longleftrightarrow>
    (\<forall>a \<in> set rows. in_scope session target a \<longrightarrow> wf_range (ev_range a) \<and>
      (\<forall>b \<in> set rows. in_scope session target b \<and> a \<noteq> b \<longrightarrow> \<not> ranges_touch (ev_range a) (ev_range b)))"
    (is "_ \<longleftrightarrow> ?apart")
proof
  assume "scope_separated session target rows"
  then show ?apart
    using separated_apart by (fastforce simp: scope_separated_def separated_def)
next
  assume ?apart
  have "distinct (evicted_rows session target rows)"
    using assms by (simp add: evicted_rows_def distinct_map)
  then have "sorted_wrt (\<lambda>a b. \<not> ranges_touch (ev_range a) (ev_range b)) (evicted_rows session target rows)"
    using \<open>?apart\<close> by (intro distinct_sorted_wrt) auto
  then show "scope_separated session target rows"
    unfolding scope_separated_def using \<open>?apart\<close>
    by (intro sorted_apart) (simp_all add: evicted_rows_def)
qed

lemma insert_evicted_ok:
  assumes ids: "distinct (map ev_eviction_id rows)" and ok: "\<And>s t. scope_separated s t rows"
    and wf: "wf_range out"
    and apart: "\<forall>row \<in> set rows. in_scope session target row \<longrightarrow> \<not> ranges_touch (ev_range row) out"
  shows "evicted_ok (insert_evicted session target out rows)"
    "evicted_instants session target (insert_evicted session target out rows) =
      evicted_instants session target rows \<union> instants out"
    "(s, t) \<noteq> (session, target) \<Longrightarrow>
      evicted_instants s t (insert_evicted session target out rows) = evicted_instants s t rows"
proof -
  have "\<not> list_ex (\<lambda>row. in_scope session target row \<and> ev_range row = out) rows"
    using apart wf by (auto simp: list_ex_iff interval_nat)
  then have insert: "insert_evicted session target out rows =
      rows @ [\<lparr>ev_eviction_id = next_rowid ev_eviction_id rows, ev_session_id = session,
        ev_target_id = target, ev_range = out\<rparr>]" (is "_ = rows @ [?row]")
    by (simp add: insert_evicted_def)
  have fresh: "distinct (map ev_eviction_id (rows @ [?row]))"
    using ids next_rowid_greater [of _ rows ev_eviction_id] by fastforce
  show "evicted_ok (insert_evicted session target out rows)"
    unfolding insert evicted_ok_def scope_separated_iff [OF fresh]
    using ok wf apart apart_symmetric fresh by (auto simp: scope_separated_iff [OF ids] in_scope_def)
  have "in_scope session target ?row"
    by (simp add: in_scope_def)
  then have "{row \<in> set (rows @ [?row]). in_scope session target row} =
      insert ?row {row \<in> set rows. in_scope session target row}"
    by auto
  then show "evicted_instants session target (insert_evicted session target out rows) =
      evicted_instants session target rows \<union> instants out"
    by (simp add: insert evicted_instants_def Un_commute)
  have "(s, t) \<noteq> (session, target) \<Longrightarrow> \<not> in_scope s t ?row"
    by (auto simp: in_scope_def)
  then have "(s, t) \<noteq> (session, target) \<Longrightarrow>
      {row \<in> set (rows @ [?row]). in_scope s t row} = {row \<in> set rows. in_scope s t row}"
    by auto
  then show "(s, t) \<noteq> (session, target) \<Longrightarrow>
      evicted_instants s t (insert_evicted session target out rows) = evicted_instants s t rows"
    by (simp add: insert evicted_instants_def)
qed

lemma record_evicted_effect:
  assumes ok: "evicted_ok (ix_evicted ix)" and wf: "wf_range interval"
    and run: "record_evicted_frame_range session target interval ix = Inr ix'"
  shows "evicted_ok (ix_evicted ix')" "ix' = ix\<lparr>ix_evicted := ix_evicted ix'\<rparr>"
    "evicted_instants session target (ix_evicted ix') =
      evicted_instants session target (ix_evicted ix) \<union> instants interval"
    "(s, t) \<noteq> (session, target) \<Longrightarrow>
      evicted_instants s t (ix_evicted ix') = evicted_instants s t (ix_evicted ix)"
proof -
  let ?rows = "ix_evicted ix" and ?scope = "evicted_rows session target (ix_evicted ix)"
  obtain out merged where pass: "coalesce_rows ?scope interval [] = (out, merged)"
    by fastforce
  let ?kept = "filter (\<lambda>row. ev_eviction_id row \<notin> set merged) ?rows"
  have ix': "ix' = ix\<lparr>ix_evicted := insert_evicted session target out ?kept\<rparr>"
    using run pass by (auto simp: record_evicted_frame_range_def split: if_splits)
  have ids: "distinct (map ev_eviction_id ?rows)" and sep: "separated ?scope"
    using ok by (simp_all add: evicted_ok_def scope_separated_def)
  have "distinct (map ev_eviction_id ?scope)"
    using ids by (simp add: evicted_rows_def distinct_map inj_on_def)
  note spec = coalesce_spec [OF sep wf this pass]
  have one: "a = b" if "a \<in> set ?rows" "b \<in> set ?rows" "ev_eviction_id a = ev_eviction_id b" for a b
    using ids that by (auto simp: distinct_map dest: inj_onD)
  have in_merged: "in_scope session target row" if "row \<in> set ?rows" "ev_eviction_id row \<in> set merged" for row
  proof -
    have "ev_eviction_id row \<in> ev_eviction_id ` set ?scope"
      using spec that(2) by auto
    then obtain r where "r \<in> set ?rows" "in_scope session target r" "ev_eviction_id r = ev_eviction_id row"
      by auto
    then show ?thesis
      using one [of r row] that(1) by simp
  qed
  have kept_ids: "distinct (map ev_eviction_id ?kept)"
    using ids by (simp add: distinct_map_filter)
  have kept_ok: "scope_separated s t ?kept" for s t
    unfolding scope_separated_iff [OF kept_ids] using ok ids by (simp add: evicted_ok_def scope_separated_iff)
  have wf_out: "wf_range out"
    and apart: "\<forall>row \<in> set ?kept. in_scope session target row \<longrightarrow> \<not> ranges_touch (ev_range row) out"
    using spec by auto
  note inserted = insert_evicted_ok [OF kept_ids kept_ok wf_out apart]
  show "evicted_ok (ix_evicted ix')" "ix' = ix\<lparr>ix_evicted := ix_evicted ix'\<rparr>"
    using inserted(1) by (simp_all add: ix')
  have "instants out = instants interval \<union>
      \<Union> (instants ` ev_range ` {row \<in> set ?scope. ev_eviction_id row \<in> set merged})"
    using spec by auto
  then show "evicted_instants session target (ix_evicted ix') = evicted_instants session target ?rows \<union> instants interval"
    by (auto simp: ix' inserted(2)) (auto simp: evicted_instants_def)
  show "(s, t) \<noteq> (session, target) \<Longrightarrow> evicted_instants s t (ix_evicted ix') = evicted_instants s t ?rows"
    using in_merged by (auto simp: ix' inserted(3)) (auto simp: evicted_instants_def in_scope_def)
qed

text \<open>The stored ranges satisfy the constructor of the availability a resolver reads.\<close>

lemma adjacent_separated:
  "sorted_wrt (\<lambda>p r. hi p + 1 < lo r) ranges \<Longrightarrow> \<forall>r \<in> set ranges. wf_range r \<Longrightarrow> \<not> adjacent not_coalesced ranges"
  by (induction not_coalesced ranges rule: adjacent.induct) (auto simp: not_coalesced_nat interval_nat)

lemma collect_ranges:
  "\<forall>row \<in> set rows. wf_range (ev_range row) \<Longrightarrow>
    collect_results (\<lambda>row. map_err h (session_range_new (range_start (ev_range row)) (range_end (ev_range row)))) rows =
      Inr (map ev_range rows)"
  by (induction rows) (auto simp: session_range_new_def wf_range_def)

lemma evicted_ranges_total:
  assumes "evicted_ok (ix_evicted ix)"
  shows "evicted_ranges session target ix = Inr (map ev_range (evicted_rows session target (ix_evicted ix)))"
    "\<not> adjacent not_coalesced (map ev_range (evicted_rows session target (ix_evicted ix)))"
proof -
  have sep: "separated (evicted_rows session target (ix_evicted ix))"
    using assms by (simp add: evicted_ok_def scope_separated_def)
  show "evicted_ranges session target ix = Inr (map ev_range (evicted_rows session target (ix_evicted ix)))"
    unfolding evicted_ranges_def by (rule collect_ranges) (use sep in \<open>simp add: separated_def\<close>)
  show "\<not> adjacent not_coalesced (map ev_range (evicted_rows session target (ix_evicted ix)))"
    using sep by (intro adjacent_separated) (simp_all add: separated_def sorted_wrt_map)
qed

end
