(* ===== verification/Index_Frames.thy ===== *)
theory Index_Frames
  imports Index_Evictions
begin

text \<open>
  Writing and reading evidence in the metadata index: segment registration (\<open>index/segments.rs\<close>),
  timeline observations (\<open>index/timeline.rs\<close>), frames (\<open>index/frames.rs\<close>), capture gaps
  (\<open>index/gaps.rs\<close>), interactions (\<open>index/interactions.rs\<close>) and the catalog (\<open>index/catalog.rs\<close>).
  Each writer is one transaction: it returns the new index or an error, and then nothing has changed.
\<close>

section \<open>Segments\<close>

record usage_delta =
  ud_removed :: u64
  ud_added :: u64

definition from_transition :: "u64 option \<Rightarrow> u64 \<Rightarrow> usage_delta" where
  "from_transition before after = (case before of
     Some before \<Rightarrow>
       if before \<ge> after then \<lparr>ud_removed = before - after, ud_added = 0\<rparr>
       else \<lparr>ud_removed = 0, ud_added = after - before\<rparr>
   | None \<Rightarrow> \<lparr>ud_removed = 0, ud_added = after\<rparr>)"

definition combine :: "usage_delta \<Rightarrow> usage_delta \<Rightarrow> krometrail_error + usage_delta" where
  "combine self other =
     and_then (ok_or (persistence_error ''segment usage delta overflow'')
       (checked_add (ud_removed self) (ud_removed other))) (\<lambda>removed.
     and_then (ok_or (persistence_error ''segment usage delta overflow'')
       (checked_add (ud_added self) (ud_added other))) (\<lambda>added.
     Inr \<lparr>ud_removed = removed, ud_added = added\<rparr>))"

definition segment_key :: "segment_id \<Rightarrow> byte_string" where
  "segment_key segment = codec_id (segment_uuid segment)"

definition find_segment :: "segment_id \<Rightarrow> metadata_index \<Rightarrow> segment_row option" where
  "find_segment segment ix = List.find (\<lambda>row. sr_segment_id (sg_registration row) = segment) (ix_segments ix)"

definition find_usage :: "usage_class \<Rightarrow> byte_string \<Rightarrow> metadata_index \<Rightarrow> usage_row option" where
  "find_usage cls key ix = List.find (\<lambda>row. us_class row = cls \<and> us_object_key row = key) (ix_usage ix)"

text \<open>The columns an \<open>ON CONFLICT\<close> update leaves: identity, start time, sequence and creation.\<close>

definition update_segment :: "segment_registration \<Rightarrow> segment_row \<Rightarrow> segment_row" where
  "update_segment reg row = row\<lparr>sg_registration := (sg_registration row)
     \<lparr>sr_state := sr_state reg, sr_end_time := sr_end_time reg,
      sr_file_bytes := sr_file_bytes reg, sr_payload_bytes := sr_payload_bytes reg,
      sr_record_count := sr_record_count reg\<rparr>\<rparr>"

definition upsert_segment :: "int \<Rightarrow> segment_registration \<Rightarrow> metadata_index \<Rightarrow> metadata_index" where
  "upsert_segment now reg ix =
     (case find_segment (sr_segment_id reg) ix of
        Some _ \<Rightarrow> ix\<lparr>ix_segments := map (\<lambda>row.
          if sr_segment_id (sg_registration row) = sr_segment_id reg
          then update_segment reg row else row) (ix_segments ix)\<rparr>
      | None \<Rightarrow> ix\<lparr>ix_next_sequence := ix_next_sequence ix + 1,
          ix_segments := ix_segments ix @ [\<lparr>sg_registration = reg,
            sg_retention_sequence = ix_next_sequence ix, sg_created_unix_ms = now\<rparr>]\<rparr>)"

definition register_segment_tx :: "int \<Rightarrow> segment_registration \<Rightarrow> metadata_index \<Rightarrow>
    usage_delta \<times> metadata_index" where
  "register_segment_tx now reg ix =
     (let ix = ensure_identity (sr_session_id reg) (sr_target_id reg) ix;
          key = segment_key (sr_segment_id reg);
          previous = map_option us_byte_len (find_usage UsageSegment key ix);
          ix = upsert_segment now reg ix;
          ix = ix\<lparr>ix_usage := upsert_usage \<lparr>us_class = UsageSegment, us_object_key = key,
            us_session_id = Some (sr_session_id reg),
            us_byte_len = sr_file_bytes reg\<rparr> (ix_usage ix)\<rparr> in
      (from_transition previous (sr_file_bytes reg), ix))"

section \<open>Timeline observations\<close>

definition kind_name :: "observation_kind \<Rightarrow> string" where
  "kind_name kind = (case kind of
     KindFrame \<Rightarrow> ''frame'' | KindInteractionBoundary \<Rightarrow> ''interaction_boundary''
   | KindNavigation \<Rightarrow> ''navigation'' | KindTargetLifecycle \<Rightarrow> ''target_lifecycle''
   | KindVisibilityChange \<Rightarrow> ''visibility_change'' | KindCaptureGap \<Rightarrow> ''capture_gap''
   | KindConsoleMessage \<Rightarrow> ''console_message'' | KindJavascriptException \<Rightarrow> ''javascript_exception''
   | KindNetworkLifecycle \<Rightarrow> ''network_lifecycle'' | KindBrowserEvent \<Rightarrow> ''browser_event''
   | KindMarker \<Rightarrow> ''marker'')"

definition payload_sort_key :: "observation_payload \<Rightarrow> byte_string" where
  "payload_sort_key payload = (case payload of
     FramePayload v \<Rightarrow> codec_id (frame_uuid v)
   | InteractionPayload v \<Rightarrow> codec_id (interaction_uuid v)
   | NavigationPayload v \<Rightarrow> codec_id (navigation_uuid v)
   | GapPayload v \<Rightarrow> codec_id (gap_uuid v)
   | MarkerPayload v \<Rightarrow> codec_id (marker_uuid v)
   | BrowserEventPayload v \<Rightarrow> codec_id (browser_event_uuid v)
   | ExternalPayload v \<Rightarrow> map of_char v)"

text \<open>Constructing and decoding an observation validate it.\<close>

definition observation_new :: "timeline_observation \<Rightarrow> krometrail_error + timeline_observation" where
  "observation_new observation = and_then (observation_validate observation) (\<lambda>_. Inr observation)"

definition decode_observation :: "timeline_row \<Rightarrow> krometrail_error + timeline_observation" where
  "decode_observation row =
     map_err (\<lambda>_. persistence_error ''stored timeline observation is invalid'')
       (observation_new (tl_observation row))"

text \<open>An interaction boundary is identified by its instant too, a navigation or a marker is not.\<close>

definition same_evidence :: "timeline_observation \<Rightarrow> timeline_row \<Rightarrow> bool" where
  "same_evidence observation row \<longleftrightarrow>
     to_kind (tl_observation row) = to_kind observation \<and>
     payload_sort_key (to_payload (tl_observation row)) = payload_sort_key (to_payload observation) \<and>
     (to_kind observation = KindInteractionBoundary \<longrightarrow>
       to_session_time (tl_observation row) = to_session_time observation)"

text \<open>The unique index on browser-event references.\<close>

definition violates_reference :: "timeline_observation \<Rightarrow> metadata_index \<Rightarrow> bool" where
  "violates_reference observation ix \<longleftrightarrow> to_kind observation = KindBrowserEvent \<and>
     list_ex (same_evidence observation) (ix_timeline ix)"

definition append_observation_tx :: "timeline_observation \<Rightarrow> capture_ordinal option \<Rightarrow> metadata_index \<Rightarrow>
    krometrail_error + metadata_index" where
  "append_observation_tx observation ordinal ix =
     (let ix = ensure_identity (to_session_id observation) (to_target_id observation) ix;
          insert = (if violates_reference observation ix
            then Inl (persistence_error ''could not persist timeline metadata'')
            else Inr (ix\<lparr>ix_timeline := ix_timeline ix @
              [\<lparr>tl_observation_id = next_rowid tl_observation_id (ix_timeline ix),
                tl_observation = observation, tl_capture_ordinal = ordinal\<rparr>]\<rparr>)) in
      if to_kind observation \<in> {KindInteractionBoundary, KindNavigation, KindMarker} then
        (case List.find (same_evidence observation) (ix_timeline ix) of
           Some existing \<Rightarrow>
             and_then (decode_observation existing) (\<lambda>stored.
             if stored = observation then Inr ix
             else Inl (persistence_error ''timeline evidence identity conflicts with its durable value''))
         | None \<Rightarrow> insert)
      else insert)"

definition timeline_append :: "timeline_observation \<Rightarrow> metadata_index \<Rightarrow> krometrail_error + metadata_index" where
  "timeline_append observation ix =
     (if to_kind observation \<in> {KindFrame, KindCaptureGap, KindBrowserEvent}
      then Inl (krometrail_error_new CodeInvalidInput (PortMessage
        ''frame, capture-gap, and browser-event observations require their authoritative persistence path''))
      else append_observation_tx observation None ix)"

definition in_timeline_range :: "session_id \<Rightarrow> target_id \<Rightarrow> session_range \<Rightarrow> timeline_row \<Rightarrow> bool" where
  "in_timeline_range session target interval row \<longleftrightarrow>
     to_session_id (tl_observation row) = session \<and> to_target_id (tl_observation row) = target \<and>
     range_start interval \<le> to_session_time (tl_observation row) \<and>
     to_session_time (tl_observation row) \<le> range_end interval"

type_synonym timeline_order = "u64 \<times> nat \<times> u64 \<times> u64 \<times> string \<times> byte_string \<times> nat"

definition timeline_key :: "timeline_row \<Rightarrow> timeline_order" where
  "timeline_key row =
     (session_nanos (to_session_time (tl_observation row)),
      (if tl_capture_ordinal row = None then 1 else 0),
      (case tl_capture_ordinal row of None \<Rightarrow> 0 | Some ordinal \<Rightarrow> ordinal_value ordinal),
      observed_nanos (to_observed_time (tl_observation row)),
      kind_name (to_kind (tl_observation row)),
      payload_sort_key (to_payload (tl_observation row)),
      tl_observation_id row)"

definition timeline_range :: "session_id \<Rightarrow> target_id \<Rightarrow> session_range \<Rightarrow> metadata_index \<Rightarrow>
    krometrail_error + timeline_observation list" where
  "timeline_range session target interval ix =
     collect_results decode_observation
       (sort_key timeline_key (filter (in_timeline_range session target interval) (ix_timeline ix)))"

section \<open>Frames\<close>

definition frame_conflict :: "captured_frame \<Rightarrow> frame_address \<Rightarrow> frame_row \<Rightarrow> bool" where
  "frame_conflict frame address row \<longleftrightarrow>
     cf_id (fw_metadata row) = cf_id frame \<or>
     (fw_segment_id row = addr_segment address \<and> fw_byte_offset row = addr_offset address) \<or>
     (cf_session_id (fw_metadata row) = cf_session_id frame \<and>
      cf_target_id (fw_metadata row) = cf_target_id frame \<and>
      cf_capture_ordinal (fw_metadata row) = cf_capture_ordinal frame)"

definition frame_observation :: "captured_frame \<Rightarrow> timeline_observation" where
  "frame_observation frame = \<lparr>to_session_id = cf_session_id frame, to_target_id = cf_target_id frame,
     to_session_time = cf_session_time frame, to_source_time = cf_source_time frame,
     to_observed_time = cf_observed_time frame, to_kind = KindFrame, to_payload = FramePayload (cf_id frame)\<rparr>"

definition new_frame_row :: "captured_frame \<Rightarrow> frame_address \<Rightarrow> frame_row" where
  "new_frame_row frame address = \<lparr>fw_metadata = frame, fw_segment_id = addr_segment address,
     fw_byte_offset = addr_offset address\<rparr>"

definition register_commit :: "int \<Rightarrow> frame_write_commit \<Rightarrow> metadata_index \<Rightarrow>
    krometrail_error + usage_delta \<times> metadata_index" where
  "register_commit now commit ix =
     (let (sealed, ix) = (case fc_sealed_segment commit of
            None \<Rightarrow> (Inr \<lparr>ud_removed = 0, ud_added = 0\<rparr>, ix)
          | Some reg \<Rightarrow> (case register_segment_tx now reg ix of
              (delta, ix) \<Rightarrow> (combine \<lparr>ud_removed = 0, ud_added = 0\<rparr> delta, ix)));
          (delta, ix) = register_segment_tx now (fc_active_segment commit) ix in
      and_then sealed (\<lambda>sealed.
      and_then (combine sealed delta) (\<lambda>delta. Inr (delta, ix))))"

definition index_frame_tx :: "int \<Rightarrow> encoded_frame \<Rightarrow> frame_write_commit \<Rightarrow> metadata_index \<Rightarrow>
    krometrail_error + usage_delta \<times> metadata_index" where
  "index_frame_tx now frame commit ix =
     and_then (register_commit now commit ix) (\<lambda>(delta, ix).
     let metadata = ef_metadata frame; active = fc_active_segment commit; address = fc_address commit in
     if sr_segment_id active \<noteq> addr_segment address \<or> sr_session_id active \<noteq> cf_session_id metadata \<or>
        sr_target_id active \<noteq> cf_target_id metadata
     then Inl (persistence_error ''segment append result does not match frame metadata'')
     else if list_ex (frame_conflict metadata address) (ix_frames ix)
     then Inl (persistence_error ''could not index frame metadata'')
     else
       let ix = ix\<lparr>ix_frames := ix_frames ix @ [new_frame_row metadata address]\<rparr> in
       and_then (map_err (\<lambda>_. persistence_error ''frame cannot form a timeline observation'')
         (observation_new (frame_observation metadata))) (\<lambda>observation.
       and_then (append_observation_tx observation (Some (cf_capture_ordinal metadata)) ix) (\<lambda>ix.
       Inr (delta, ix))))"

definition decode_metadata :: "frame_row \<Rightarrow> krometrail_error + captured_frame" where
  "decode_metadata row =
     map_err (\<lambda>_. persistence_error ''stored frame metadata is invalid'') (captured_frame_new (fw_metadata row))"

definition of_scope :: "session_id \<Rightarrow> target_id \<Rightarrow> frame_row \<Rightarrow> bool" where
  "of_scope session target row \<longleftrightarrow>
     cf_session_id (fw_metadata row) = session \<and> cf_target_id (fw_metadata row) = target"

definition frame_metadata_in_range :: "session_id \<Rightarrow> target_id \<Rightarrow> session_range \<Rightarrow> metadata_index \<Rightarrow>
    krometrail_error + captured_frame list" where
  "frame_metadata_in_range session target interval ix =
     collect_results decode_metadata
       (sort_key (\<lambda>row. (session_nanos (cf_session_time (fw_metadata row)),
           ordinal_value (cf_capture_ordinal (fw_metadata row))))
         (filter (\<lambda>row. of_scope session target row \<and>
            range_start interval \<le> cf_session_time (fw_metadata row) \<and>
            cf_session_time (fw_metadata row) \<le> range_end interval) (ix_frames ix)))"

definition frame_metadata_in_ordinal_range :: "session_id \<Rightarrow> target_id \<Rightarrow> capture_ordinal \<Rightarrow> capture_ordinal \<Rightarrow>
    metadata_index \<Rightarrow> krometrail_error + captured_frame list" where
  "frame_metadata_in_ordinal_range session target first second ix =
     (if ordinal_value first > ordinal_value second
      then Inl (krometrail_error_new CodeInvalidInput
        (PortMessage ''frame ordinal range start must not exceed its end''))
      else collect_results decode_metadata
        (sort_key (\<lambda>row. (ordinal_value (cf_capture_ordinal (fw_metadata row)),
            session_nanos (cf_session_time (fw_metadata row)), frame_uuid (cf_id (fw_metadata row))))
          (filter (\<lambda>row. of_scope session target row \<and>
             ordinal_value first \<le> ordinal_value (cf_capture_ordinal (fw_metadata row)) \<and>
             ordinal_value (cf_capture_ordinal (fw_metadata row)) \<le> ordinal_value second) (ix_frames ix))))"

text \<open>The frames of a list of identifiers, each looked up in turn.\<close>

definition frame_metadata_by_id :: "frame_id list \<Rightarrow> metadata_index \<Rightarrow> krometrail_error + captured_frame list" where
  "frame_metadata_by_id ids ix =
     collect_results (\<lambda>i. and_then (ok_or (krometrail_error_new CodeNotFound (PortMessage ''requested frame is not retained''))
       (List.find (\<lambda>row. cf_id (fw_metadata row) = i) (ix_frames ix))) decode_metadata) ids"

definition frame_time :: "frame_row \<Rightarrow> u64" where
  "frame_time row = session_nanos (cf_session_time (fw_metadata row))"

definition index_frame_availability :: "session_id \<Rightarrow> target_id \<Rightarrow> metadata_index \<Rightarrow>
    krometrail_error + frame_availability" where
  "index_frame_availability session target ix =
     (let rows = filter (of_scope session target) (ix_frames ix);
          first = map_option frame_time (first_by frame_time rows);
          newest = map_option frame_time (last_by frame_time rows) in
      and_then (case (first, newest) of
          (Some s, Some e) \<Rightarrow>
            and_then (map_err (\<lambda>_. persistence_error ''stored frame availability is invalid'')
              (session_range_new (SessionTime s) (SessionTime e))) (\<lambda>r. Inr (Some r))
        | (None, None) \<Rightarrow> Inr None
        | _ \<Rightarrow> Inl (persistence_error ''stored frame availability is malformed'')) (\<lambda>bounds.
      and_then (evicted_ranges session target ix) (\<lambda>evicted.
      map_err (\<lambda>_. persistence_error ''stored frame availability is invalid'')
        (frame_availability_new bounds evicted))))"

end
