(* ===== verification/Index_Catalog.thy ===== *)
theory Index_Catalog
  imports Index_Frames
begin

text \<open>
  The rest of what range resolution reads of the index: capture gaps (\<open>index/gaps.rs\<close>), interactions
  (\<open>index/interactions.rs\<close>), sessions and targets (\<open>index/catalog.rs\<close>) and the observation an anchor
  names (\<open>index/range.rs\<close>). \<open>index_ports\<close> answers every port of the resolver from one index.
\<close>

section \<open>Capture gaps\<close>

definition gap_observation :: "capture_gap \<Rightarrow> timeline_observation" where
  "gap_observation gap = \<lparr>to_session_id = gap_session_id gap, to_target_id = gap_target_id gap,
     to_session_time = range_start (gap_range gap), to_source_time = None,
     to_observed_time = gap_observed_time gap, to_kind = KindCaptureGap, to_payload = GapPayload (gap_id gap)\<rparr>"

definition append_gap :: "capture_gap \<Rightarrow> metadata_index \<Rightarrow> krometrail_error + metadata_index" where
  "append_gap gap ix =
     (let ix = ensure_identity (gap_session_id gap) (gap_target_id gap) ix in
      if list_ex (\<lambda>row. gap_id row = gap_id gap) (ix_gaps ix)
      then Inl (persistence_error ''could not persist capture-gap metadata'')
      else
        let ix = ix\<lparr>ix_gaps := ix_gaps ix @ [gap]\<rparr> in
        and_then (map_err (\<lambda>_. persistence_error ''capture gap cannot form a timeline observation'')
          (observation_new (gap_observation gap))) (\<lambda>observation.
        append_observation_tx observation None ix))"

definition decode_gap :: "capture_gap \<Rightarrow> krometrail_error + capture_gap" where
  "decode_gap row =
     and_then (map_err (\<lambda>_. persistence_error ''stored capture-gap range is invalid'')
       (session_range_new (range_start (gap_range row)) (range_end (gap_range row)))) (\<lambda>interval.
     map_err (\<lambda>_. persistence_error ''stored capture gap is invalid'')
       (capture_gap_new (row\<lparr>gap_range := interval,
          gap_estimated_missing_frames := (case gap_estimated_missing_frames row of
             None \<Rightarrow> None | Some n \<Rightarrow> if n = 0 then None else Some n)\<rparr>)))"

definition index_gaps :: "session_id \<Rightarrow> target_id \<Rightarrow> session_range \<Rightarrow> metadata_index \<Rightarrow>
    krometrail_error + capture_gap list" where
  "index_gaps session target interval ix =
     collect_results decode_gap
       (sort_key (\<lambda>gap. (session_nanos (range_start (gap_range gap)), session_nanos (range_end (gap_range gap)),
           gap_uuid (gap_id gap)))
         (filter (\<lambda>gap. gap_session_id gap = session \<and> gap_target_id gap = target \<and>
            range_start (gap_range gap) \<le> range_end interval \<and>
            range_end (gap_range gap) \<ge> range_start interval) (ix_gaps ix)))"

section \<open>Interactions\<close>

text \<open>The instants of an interaction, each once and in order.\<close>

definition boundary_times :: "interaction_timing \<Rightarrow> session_time list" where
  "boundary_times timing = map SessionTime (sort (remdups (map session_nanos
     ([it_started_at timing, it_dispatched_at timing, it_completed_at timing] @
      (case it_observed_at timing of None \<Rightarrow> [] | Some observed \<Rightarrow> [observed])))))"

definition boundary_observation :: "interaction_anchor \<Rightarrow> observed_time \<Rightarrow> session_time \<Rightarrow> timeline_observation" where
  "boundary_observation anchor persisted_at at = \<lparr>to_session_id = ia_session_id anchor,
     to_target_id = ia_target_id anchor, to_session_time = at, to_source_time = None,
     to_observed_time = persisted_at, to_kind = KindInteractionBoundary,
     to_payload = InteractionPayload (ia_interaction_id anchor)\<rparr>"

definition navigation_observation :: "interaction_anchor \<Rightarrow> observed_time \<Rightarrow> navigation_id \<Rightarrow> timeline_observation" where
  "navigation_observation anchor persisted_at navigation = \<lparr>to_session_id = ia_session_id anchor,
     to_target_id = ia_target_id anchor, to_session_time = it_completed_at (ia_timing anchor),
     to_source_time = None, to_observed_time = persisted_at, to_kind = KindNavigation,
     to_payload = NavigationPayload navigation\<rparr>"

definition find_interaction :: "interaction_id \<Rightarrow> metadata_index \<Rightarrow> interaction_row option" where
  "find_interaction i ix = List.find (\<lambda>row. ia_interaction_id row = i) (ix_interactions ix)"

definition decode_interaction :: "interaction_row \<Rightarrow> krometrail_error + interaction_anchor" where
  "decode_interaction row =
     (let timing = ia_timing row in
      and_then (map_err (\<lambda>_. persistence_error ''stored interaction timing is invalid'')
        (interaction_timing_new (it_started_at timing) (it_dispatched_at timing) (it_completed_at timing)
          (it_observed_at timing))) (\<lambda>timing. Inr (row\<lparr>ia_timing := timing\<rparr>)))"

definition insert_interaction :: "interaction_anchor \<Rightarrow> metadata_index \<Rightarrow> krometrail_error + metadata_index" where
  "insert_interaction anchor ix = (case find_interaction (ia_interaction_id anchor) ix of
     Some existing \<Rightarrow>
       and_then (decode_interaction existing) (\<lambda>stored.
       if stored \<noteq> anchor
       then Inl (persistence_error ''interaction identity conflicts with durable evidence'')
       else Inr ix)
   | None \<Rightarrow> Inr (ix\<lparr>ix_interactions := ix_interactions ix @ [anchor]\<rparr>))"

definition append_boundary :: "interaction_anchor \<Rightarrow> observed_time \<Rightarrow> metadata_index \<Rightarrow> session_time \<Rightarrow>
    krometrail_error + metadata_index" where
  "append_boundary anchor persisted_at ix at =
     and_then (map_err (\<lambda>_. persistence_error ''interaction boundary evidence is invalid'')
       (observation_new (boundary_observation anchor persisted_at at))) (\<lambda>observation.
     append_observation_tx observation None ix)"

definition append_navigation :: "interaction_anchor \<Rightarrow> observed_time \<Rightarrow> navigation_id option \<Rightarrow>
    metadata_index \<Rightarrow> krometrail_error + metadata_index" where
  "append_navigation anchor persisted_at navigation ix = (case navigation of
     None \<Rightarrow> Inr ix
   | Some navigation \<Rightarrow>
       and_then (map_err (\<lambda>_. persistence_error ''navigation evidence is invalid'')
         (observation_new (navigation_observation anchor persisted_at navigation))) (\<lambda>observation.
       append_observation_tx observation None ix))"

definition append_operation_evidence :: "interaction_anchor \<Rightarrow> observed_time \<Rightarrow> navigation_id option \<Rightarrow>
    metadata_index \<Rightarrow> krometrail_error + metadata_index" where
  "append_operation_evidence anchor persisted_at navigation ix =
     and_then (insert_interaction anchor (ensure_identity (ia_session_id anchor) (ia_target_id anchor) ix)) (\<lambda>ix.
     and_then (fold_result (append_boundary anchor persisted_at) ix (boundary_times (ia_timing anchor))) (\<lambda>ix.
     append_navigation anchor persisted_at navigation ix))"

definition index_interaction_anchor :: "interaction_id \<Rightarrow> metadata_index \<Rightarrow>
    krometrail_error + interaction_anchor option" where
  "index_interaction_anchor i ix = (case find_interaction i ix of
     None \<Rightarrow> Inr None
   | Some row \<Rightarrow> and_then (decode_interaction row) (\<lambda>anchor. Inr (Some anchor)))"

definition latest_key :: "interaction_row \<Rightarrow> u64 \<times> u64 \<times> u64 \<times> u64 \<times> uuid" where
  "latest_key row =
     (let timing = ia_timing row in
      (session_nanos (case it_observed_at timing of Some observed \<Rightarrow> observed | None \<Rightarrow> it_completed_at timing),
       session_nanos (it_completed_at timing), session_nanos (it_dispatched_at timing),
       session_nanos (it_started_at timing), interaction_uuid (ia_interaction_id row)))"

definition index_latest_interaction :: "session_id \<Rightarrow> target_id \<Rightarrow> metadata_index \<Rightarrow>
    krometrail_error + interaction_anchor option" where
  "index_latest_interaction session target ix =
     (case last_by latest_key (filter (\<lambda>row. ia_session_id row = session \<and> ia_target_id row = target)
         (ix_interactions ix)) of
        None \<Rightarrow> Inr None
      | Some row \<Rightarrow> and_then (decode_interaction row) (\<lambda>anchor. Inr (Some anchor)))"

section \<open>Sessions and targets\<close>

definition put_session :: "recording_session \<Rightarrow> metadata_index \<Rightarrow> metadata_index" where
  "put_session session ix = ix\<lparr>ix_sessions := (ix_sessions ix)(rs_id session \<mapsto> Some session),
     ix_terminal_overrides := (ix_terminal_overrides ix)(rs_id session := None)\<rparr>"

definition note_terminal_session :: "recording_session \<Rightarrow> metadata_index \<Rightarrow> metadata_index" where
  "note_terminal_session session ix =
     (if rs_lifecycle session \<noteq> SessionEnded then ix
      else ix\<lparr>ix_terminal_overrides := (ix_terminal_overrides ix)(rs_id session \<mapsto> session)\<rparr>)"

definition put_target :: "session_id \<Rightarrow> page_target \<Rightarrow> metadata_index \<Rightarrow> metadata_index" where
  "put_target session target ix =
     (let ix = ensure_session session ix in
      ix\<lparr>ix_targets := (ix_targets ix)((session, pt_id target) \<mapsto> Some target)\<rparr>)"

definition index_session :: "session_id \<Rightarrow> metadata_index \<Rightarrow> krometrail_error + recording_session option" where
  "index_session session ix = (case ix_terminal_overrides ix session of
     Some row \<Rightarrow> Inr (Some row)
   | None \<Rightarrow> (case Option.bind (ix_sessions ix session) id of
       None \<Rightarrow> Inr None
     | Some row \<Rightarrow>
         if rs_id row \<noteq> session
         then Inl (persistence_error ''stored session metadata has the wrong identity'')
         else Inr (Some row)))"

definition index_target :: "session_id \<Rightarrow> target_id \<Rightarrow> metadata_index \<Rightarrow> krometrail_error + page_target option" where
  "index_target session target ix = (case Option.bind (ix_targets ix (session, target)) id of
     None \<Rightarrow> Inr None
   | Some row \<Rightarrow>
       if pt_id row \<noteq> target then Inl (persistence_error ''stored target metadata has the wrong identity'')
       else Inr (Some row))"

section \<open>The observation an anchor names\<close>

definition observation_for_payload :: "anchor_scope \<Rightarrow> observation_kind \<Rightarrow> observation_payload \<Rightarrow>
    metadata_index \<Rightarrow> krometrail_error + timeline_observation option" where
  "observation_for_payload scope kind payload ix =
     (if kind \<notin> {KindMarker, KindNavigation}
      then Inl (krometrail_error_new CodeInvalidInput
        (PortMessage ''range anchor lookup supports only marker and navigation observations''))
      else if \<not> matches_payload kind payload
      then Inl (krometrail_error_new CodeInvalidInput
        (PortMessage ''range anchor payload does not match its observation kind''))
      else case first_by (\<lambda>row. (session_nanos (to_session_time (tl_observation row)),
            observed_nanos (to_observed_time (tl_observation row)), tl_observation_id row))
          (filter (\<lambda>row. to_kind (tl_observation row) = kind \<and> to_payload (tl_observation row) = payload)
            (ix_timeline ix)) of
          None \<Rightarrow> Inr None
        | Some row \<Rightarrow> and_then (decode_observation row) (\<lambda>observation. Inr (Some observation)))"

definition index_ports :: "metadata_index \<Rightarrow> observed_time \<Rightarrow> range_ports" where
  "index_ports ix now =
     \<lparr>rp_session = (\<lambda>session. index_session session ix),
      rp_target = (\<lambda>session target. index_target session target ix),
      rp_frame_metadata_by_id = (\<lambda>ids. frame_metadata_by_id ids ix),
      rp_frame_metadata_in_range = (\<lambda>session target interval. frame_metadata_in_range session target interval ix),
      rp_frame_metadata_in_ordinal_range =
        (\<lambda>session target first second. frame_metadata_in_ordinal_range session target first second ix),
      rp_frame_availability = (\<lambda>session target. index_frame_availability session target ix),
      rp_gaps = (\<lambda>session target interval. index_gaps session target interval ix),
      rp_timeline_range = (\<lambda>session target interval. timeline_range session target interval ix),
      rp_observation_for_payload = (\<lambda>scope kind payload. observation_for_payload scope kind payload ix),
      rp_interaction_anchor = (\<lambda>i. index_interaction_anchor i ix),
      rp_latest_interaction_anchor = (\<lambda>session target. index_latest_interaction session target ix),
      rp_now = now\<rparr>"

end
