(* ===== verification/Index_Deletion.thy ===== *)
theory Index_Deletion
  imports Index_Catalog
begin

text \<open>
  Deletion in the metadata index (\<open>index/deletion.rs\<close>, \<open>index/maintenance.rs\<close>): a batch is journalled,
  its metadata is removed in one transaction that records what an eviction loses, and the journal is
  closed. Foreign keys restrict a deletion or cascade it as \<open>schema.rs\<close> declares them. The counters of
  removed rows are natural numbers.
\<close>

section \<open>The deletion journal\<close>

definition object_usage :: "deletion_object_kind \<Rightarrow> usage_class \<times> byte_string" where
  "object_usage kind = (case kind of
     SegmentObject i \<Rightarrow> (UsageSegment, segment_key i)
   | ArtifactObject i \<Rightarrow> (UsageArtifact, codec_id (artifact_uuid i)))"

definition prepare_deletion :: "uuid \<Rightarrow> deletion_kind \<Rightarrow> session_id option \<Rightarrow> deletion_object list \<Rightarrow>
    metadata_index \<Rightarrow> krometrail_error + deletion_batch \<times> metadata_index" where
  "prepare_deletion batch_id kind session objects ix =
     (if objects = [] \<and> kind \<noteq> SessionDeletion
      then Inl (persistence_error ''eviction deletion batch must not be empty'')
      else if (kind = SessionDeletion) \<noteq> (session \<noteq> None)
      then Inl (persistence_error ''session deletion batch identity is inconsistent'')
      else if list_ex (\<lambda>batch. db_batch_id batch = batch_id) (ix_batches ix)
      then Inl (persistence_error ''could not create deletion batch'')
      else if \<not> distinct (map do_kind objects)
      then Inl (persistence_error ''could not record deletion object'')
      else
        let batch = \<lparr>db_batch_id = batch_id, db_kind = kind, db_session_id = session,
          db_state = Prepared, db_objects = objects\<rparr> in
        Inr (batch, ix\<lparr>ix_batches := ix_batches ix @ [batch]\<rparr>))"

definition deletion_batches :: "metadata_index \<Rightarrow> deletion_batch list" where
  "deletion_batches ix = sort_key db_batch_id (ix_batches ix)"

section \<open>Removing the metadata of a batch\<close>

definition delete_artifacts :: "(artifact_row \<Rightarrow> bool) \<Rightarrow> metadata_index \<Rightarrow> nat \<times> metadata_index" where
  "delete_artifacts P ix =
     (let gone = filter P (ix_artifacts ix) in
      (length gone,
       ix\<lparr>ix_artifacts := filter (\<lambda>row. \<not> P row) (ix_artifacts ix),
          ix_artifact_frames := filter (\<lambda>(artifact, _, _). artifact \<notin> at_artifact_id ` set gone)
            (ix_artifact_frames ix)\<rparr>))"

definition frames_of_segment :: "segment_id \<Rightarrow> metadata_index \<Rightarrow> frame_row list" where
  "frames_of_segment segment ix = filter (\<lambda>row. fw_segment_id row = segment) (ix_frames ix)"

text \<open>The first group of the \<open>GROUP BY\<close> with its earliest and latest instant.\<close>

definition removed_range :: "segment_id \<Rightarrow> metadata_index \<Rightarrow> (session_id \<times> target_id \<times> session_range) option" where
  "removed_range segment ix =
     (let rows = frames_of_segment segment ix in
      case first_by (\<lambda>row. (session_uuid (cf_session_id (fw_metadata row)),
          target_uuid (cf_target_id (fw_metadata row)))) rows of
        None \<Rightarrow> None
      | Some row \<Rightarrow>
          let session = cf_session_id (fw_metadata row); target = cf_target_id (fw_metadata row);
              times = map frame_time (filter (of_scope session target) rows) in
          Some (session, target, \<lparr>range_start = SessionTime (Min (set times)),
            range_end = SessionTime (Max (set times))\<rparr>))"

definition delete_frame_references :: "frame_id list \<Rightarrow> metadata_index \<Rightarrow> metadata_index" where
  "delete_frame_references ids ix = ix\<lparr>ix_timeline := filter (\<lambda>row.
     \<not> (to_kind (tl_observation row) = KindFrame \<and>
        payload_sort_key (to_payload (tl_observation row)) \<in> set (map (\<lambda>i. codec_id (frame_uuid i)) ids)))
     (ix_timeline ix)\<rparr>"

definition referenced_frames :: "metadata_index \<Rightarrow> frame_id set" where
  "referenced_frames ix = set (map (\<lambda>(_, _, frame). frame) (ix_artifact_frames ix))"

definition delete_frames :: "(frame_row \<Rightarrow> bool) \<Rightarrow> metadata_index \<Rightarrow> krometrail_error + metadata_index" where
  "delete_frames P ix =
     (if list_ex (\<lambda>row. P row \<and> cf_id (fw_metadata row) \<in> referenced_frames ix) (ix_frames ix)
      then Inl (persistence_error ''could not remove frame metadata'')
      else Inr (ix\<lparr>ix_frames := filter (\<lambda>row. \<not> P row) (ix_frames ix)\<rparr>))"

text \<open>Deleting a segment row cascades to its pin links and is refused while frames refer to it.\<close>

definition delete_segment :: "segment_id \<Rightarrow> metadata_index \<Rightarrow> krometrail_error + nat \<times> metadata_index" where
  "delete_segment segment ix =
     (if frames_of_segment segment ix \<noteq> []
      then Inl (persistence_error ''could not remove segment metadata'')
      else Inr (length (filter (\<lambda>row. sr_segment_id (sg_registration row) = segment) (ix_segments ix)),
        ix\<lparr>ix_segments := filter (\<lambda>row. sr_segment_id (sg_registration row) \<noteq> segment) (ix_segments ix),
           ix_pin_segments := filter (\<lambda>(_, s). s \<noteq> segment) (ix_pin_segments ix)\<rparr>))"

record removal_counts =
  rc_segments :: nat
  rc_frames :: nat
  rc_artifacts :: nat

definition remove_segment_object :: "deletion_kind \<Rightarrow> segment_id \<Rightarrow> removal_counts \<times> metadata_index \<Rightarrow>
    krometrail_error + removal_counts \<times> metadata_index" where
  "remove_segment_object kind segment = (\<lambda>(counts, ix).
     and_then (if kind = Eviction then
         (case removed_range segment ix of
            None \<Rightarrow> Inr ix
          | Some (session, target, interval) \<Rightarrow> record_evicted_frame_range session target interval ix)
       else Inr ix) (\<lambda>ix.
     let rows = frames_of_segment segment ix;
         ix = delete_frame_references (map (\<lambda>row. cf_id (fw_metadata row)) rows) ix in
     and_then (delete_frames (\<lambda>row. fw_segment_id row = segment) ix) (\<lambda>ix.
     and_then (delete_segment segment ix) (\<lambda>(removed, ix).
     Inr (counts\<lparr>rc_segments := rc_segments counts + removed,
       rc_frames := rc_frames counts + length rows\<rparr>, ix)))))"

definition remove_object :: "deletion_kind \<Rightarrow> removal_counts \<times> metadata_index \<Rightarrow> deletion_object \<Rightarrow>
    krometrail_error + removal_counts \<times> metadata_index" where
  "remove_object kind = (\<lambda>(counts, ix) object. case do_kind object of
     ArtifactObject artifact \<Rightarrow>
       (case delete_artifacts (\<lambda>row. at_artifact_id row = artifact) ix of (removed, ix) \<Rightarrow>
         Inr (counts\<lparr>rc_artifacts := rc_artifacts counts + removed\<rparr>, ix))
   | SegmentObject segment \<Rightarrow> remove_segment_object kind segment (counts, ix))"

definition target_in_use :: "session_id \<Rightarrow> metadata_index \<Rightarrow> bool" where
  "target_in_use session ix \<longleftrightarrow>
     list_ex (\<lambda>row. sr_session_id (sg_registration row) = session) (ix_segments ix) \<or>
     list_ex (\<lambda>row. cf_session_id (fw_metadata row) = session) (ix_frames ix)"

text \<open>Deleting the pins of a session cascades to their links, deleting its targets to its interactions,
  evictions and browser events; a segment or a frame restricts it.\<close>

definition drop_session_evidence :: "session_id \<Rightarrow> metadata_index \<Rightarrow> metadata_index" where
  "drop_session_evidence session ix = ix\<lparr>ix_gaps := filter (\<lambda>gap. gap_session_id gap \<noteq> session) (ix_gaps ix),
     ix_timeline := filter (\<lambda>row. to_session_id (tl_observation row) \<noteq> session) (ix_timeline ix),
     ix_pin_segments := filter (\<lambda>(pin, _). \<not> list_ex (\<lambda>row. pn_pin_id row = pin \<and>
       pn_session_id row = session) (ix_pins ix)) (ix_pin_segments ix),
     ix_pins := filter (\<lambda>row. pn_session_id row \<noteq> session) (ix_pins ix)\<rparr>"

definition drop_session_identity :: "session_id \<Rightarrow> metadata_index \<Rightarrow> metadata_index" where
  "drop_session_identity session ix = ix\<lparr>
     ix_targets := (\<lambda>(s, t). if s = session then None else ix_targets ix (s, t)),
     ix_interactions := filter (\<lambda>row. ia_session_id row \<noteq> session) (ix_interactions ix),
     ix_evicted := filter (\<lambda>row. ev_session_id row \<noteq> session) (ix_evicted ix),
     ix_events := filter (\<lambda>row. be_session_id (er_event row) \<noteq> session) (ix_events ix),
     ix_unavailable := filter (\<lambda>row. ur_session_id (un_range row) \<noteq> session) (ix_unavailable ix),
     ix_sessions := (ix_sessions ix)(session := None)\<rparr>"

definition delete_session_rows :: "session_id \<Rightarrow> metadata_index \<Rightarrow> krometrail_error + metadata_index" where
  "delete_session_rows session ix =
     (let ix = drop_session_evidence session (snd (delete_artifacts (\<lambda>row. at_session_id row = session) ix)) in
      if target_in_use session ix then Inl (persistence_error ''could not remove session targets'')
      else Inr (drop_session_identity session ix))"

definition mark_metadata_removed :: "uuid \<Rightarrow> metadata_index \<Rightarrow> metadata_index" where
  "mark_metadata_removed batch_id ix = ix\<lparr>ix_batches := map (\<lambda>batch.
     if db_batch_id batch = batch_id then batch\<lparr>db_state := MetadataRemoved\<rparr> else batch) (ix_batches ix)\<rparr>"

definition remove_deletion_metadata :: "deletion_batch \<Rightarrow> metadata_index \<Rightarrow>
    krometrail_error + removal_counts \<times> metadata_index" where
  "remove_deletion_metadata batch ix =
     (let none = \<lparr>rc_segments = 0, rc_frames = 0, rc_artifacts = 0\<rparr> in
      if db_state batch = MetadataRemoved then Inr (none, ix)
      else and_then (fold_result (remove_object (db_kind batch)) (none, ix) (db_objects batch)) (\<lambda>(counts, ix).
      and_then (case db_session_id batch of
          None \<Rightarrow> Inr ix
        | Some session \<Rightarrow> delete_session_rows session ix) (\<lambda>ix.
      Inr (counts, mark_metadata_removed (db_batch_id batch) ix))))"

definition finalize_deletion :: "deletion_batch \<Rightarrow> metadata_index \<Rightarrow> metadata_index" where
  "finalize_deletion batch ix = ix\<lparr>
     ix_usage := filter (\<lambda>row. (us_class row, us_object_key row) \<notin>
         set (map (\<lambda>object. object_usage (do_kind object)) (db_objects batch)) \<and>
       (db_session_id batch = None \<or> us_session_id row \<noteq> db_session_id batch)) (ix_usage ix),
     ix_batches := filter (\<lambda>row. db_batch_id row \<noteq> db_batch_id batch) (ix_batches ix)\<rparr>"

section \<open>Recovery maintenance\<close>

definition purge_artifacts_for_segment :: "segment_id \<Rightarrow> metadata_index \<Rightarrow> metadata_index" where
  "purge_artifacts_for_segment segment ix =
     (let frames = set (map (\<lambda>row. cf_id (fw_metadata row)) (frames_of_segment segment ix));
          ids = set (map (\<lambda>(artifact, _, _). artifact)
            (filter (\<lambda>(_, _, frame). frame \<in> frames) (ix_artifact_frames ix)));
          ix = ix\<lparr>ix_usage := filter (\<lambda>row. \<not> (us_class row = UsageArtifact \<and>
            us_object_key row \<in> (\<lambda>i. codec_id (artifact_uuid i)) ` ids)) (ix_usage ix)\<rparr> in
      snd (delete_artifacts (\<lambda>row. at_artifact_id row \<in> ids) ix))"

definition remove_frame_rows :: "segment_id \<Rightarrow> byte_offset option \<Rightarrow> metadata_index \<Rightarrow>
    krometrail_error + frame_id list \<times> metadata_index" where
  "remove_frame_rows segment from_offset ix =
     (let ix = purge_artifacts_for_segment segment ix;
          chosen = (\<lambda>row. fw_segment_id row = segment \<and>
            (case from_offset of None \<Rightarrow> True | Some at \<Rightarrow> fw_byte_offset row \<ge> at));
          ids = map (\<lambda>row. cf_id (fw_metadata row))
            (sort_key (\<lambda>row. (offset_value (fw_byte_offset row), frame_uuid (cf_id (fw_metadata row))))
              (filter chosen (ix_frames ix)));
          ix = delete_frame_references ids ix in
      and_then (delete_frames (\<lambda>row. cf_id (fw_metadata row) \<in> set ids) ix) (\<lambda>ix. Inr (ids, ix)))"

definition remove_segment :: "segment_id \<Rightarrow> metadata_index \<Rightarrow> krometrail_error + metadata_index" where
  "remove_segment segment ix = and_then (delete_segment segment ix) (\<lambda>(_, ix). Inr ix)"

end
