(* ===== verification/Index_Retention.thy ===== *)
theory Index_Retention
  imports Index_Deletion
begin

text \<open>
  Retention in the metadata index (\<open>index/retention.rs\<close>, \<open>index/artifacts.rs\<close>): pins and the segments
  they protect, the selection of what may be reclaimed next, and the artifacts derived from frames.
\<close>

section \<open>Pins\<close>

record retention_range =
  rg_session_id :: session_id
  rg_target_id :: target_id
  rg_range :: session_range

record retention_pin_request =
  rq_request :: retention_range
  rq_expected_frame_ids :: "frame_id list"

definition pin_not_found :: "retention_range \<Rightarrow> krometrail_error" where
  "pin_not_found request = (krometrail_error_new CodeNotFound
     (PortMessage ''resolved range source frames are not completely retained''))
     \<lparr>re_context := (pair_context (rg_session_id request) (rg_target_id request))
       \<lparr>ec_range := Some (rg_range request)\<rparr>\<rparr>"

definition is_sealed :: "segment_id \<Rightarrow> metadata_index \<Rightarrow> bool" where
  "is_sealed segment ix = (case find_segment segment ix of
     None \<Rightarrow> False | Some row \<Rightarrow> sr_state (sg_registration row) = Sealed)"

definition sealed_range_frames :: "retention_range \<Rightarrow> metadata_index \<Rightarrow> frame_id list" where
  "sealed_range_frames request ix =
     map (\<lambda>row. cf_id (fw_metadata row))
       (sort_key (\<lambda>row. (ordinal_value (cf_capture_ordinal (fw_metadata row)), frame_time row,
           frame_uuid (cf_id (fw_metadata row))))
         (filter (\<lambda>row. of_scope (rg_session_id request) (rg_target_id request) row \<and>
            range_contains (rg_range request) (cf_session_time (fw_metadata row)) \<and>
            is_sealed (fw_segment_id row) ix) (ix_frames ix)))"

definition pin_matches :: "retention_range \<Rightarrow> pin_row \<Rightarrow> bool" where
  "pin_matches request row \<longleftrightarrow> pn_session_id row = rg_session_id request \<and>
     pn_target_id row = rg_target_id request \<and> pn_range row = rg_range request"

definition exact_pin_id :: "retention_range \<Rightarrow> metadata_index \<Rightarrow> nat option" where
  "exact_pin_id request ix = map_option pn_pin_id (List.find (pin_matches request) (ix_pins ix))"

text \<open>\<open>INSERT OR IGNORE\<close>: an equal pin is kept, a missing target is refused.\<close>

definition insert_pin :: "retention_range \<Rightarrow> metadata_index \<Rightarrow> krometrail_error + bool \<times> metadata_index" where
  "insert_pin request ix =
     (if exact_pin_id request ix \<noteq> None then Inr (False, ix)
      else if ix_targets ix (rg_session_id request, rg_target_id request) = None
      then Inl (persistence_error ''could not create range pin'')
      else Inr (True, ix\<lparr>ix_pins := ix_pins ix @ [\<lparr>pn_pin_id = next_rowid pn_pin_id (ix_pins ix),
        pn_session_id = rg_session_id request, pn_target_id = rg_target_id request,
        pn_range = rg_range request\<rparr>]\<rparr>))"

text \<open>The sealed segments of the scope whose recorded interval meets the range.\<close>

definition covers_range :: "retention_range \<Rightarrow> segment_registration \<Rightarrow> bool" where
  "covers_range request reg \<longleftrightarrow>
     sr_session_id reg = rg_session_id request \<and> sr_target_id reg = rg_target_id request \<and>
     sr_state reg = Sealed \<and> sr_start_time reg \<le> range_end (rg_range request) \<and>
     (case sr_end_time reg of None \<Rightarrow> False | Some end_time \<Rightarrow> end_time \<ge> range_start (rg_range request))"

definition link_pin :: "nat \<Rightarrow> retention_range \<Rightarrow> metadata_index \<Rightarrow> metadata_index" where
  "link_pin pin request ix =
     (let segments = map (\<lambda>row. sr_segment_id (sg_registration row))
        (filter (\<lambda>row. covers_range request (sg_registration row)) (ix_segments ix)) in
      ix\<lparr>ix_pin_segments := ix_pin_segments ix @
        filter (\<lambda>link. link \<notin> set (ix_pin_segments ix)) (map (\<lambda>s. (pin, s)) segments)\<rparr>)"

definition pin_segments :: "nat \<Rightarrow> metadata_index \<Rightarrow> segment_id list" where
  "pin_segments pin ix = sort (map snd (filter (\<lambda>(p, _). p = pin) (ix_pin_segments ix)))"

definition pin_resolved_range :: "retention_pin_request \<Rightarrow> metadata_index \<Rightarrow> krometrail_error + bool \<times> metadata_index" where
  "pin_resolved_range request ix =
     (let scope = rq_request request in
      if sealed_range_frames scope ix \<noteq> rq_expected_frame_ids request then Inl (pin_not_found scope)
      else and_then (insert_pin scope ix) (\<lambda>(changed, ix).
      and_then (ok_or (persistence_error ''exact resolved range pin disappeared during mutation'')
        (exact_pin_id scope ix)) (\<lambda>pin.
      let ix = link_pin pin scope ix in
      if pin_segments pin ix = []
      then Inl (persistence_error ''resolved range pin did not protect a sealed source segment'')
      else Inr (changed, ix))))"

definition delete_pins :: "(pin_row \<Rightarrow> bool) \<Rightarrow> metadata_index \<Rightarrow> metadata_index" where
  "delete_pins P ix = ix\<lparr>
     ix_pin_segments := filter (\<lambda>(pin, _). \<not> list_ex (\<lambda>row. pn_pin_id row = pin \<and> P row) (ix_pins ix))
       (ix_pin_segments ix),
     ix_pins := filter (\<lambda>row. \<not> P row) (ix_pins ix)\<rparr>"

definition unpin_resolved_range :: "retention_range \<Rightarrow> metadata_index \<Rightarrow> bool \<times> metadata_index" where
  "unpin_resolved_range request ix =
     (length (filter (pin_matches request) (ix_pins ix)) = 1, delete_pins (pin_matches request) ix)"

text \<open>The stored bytes of the pinned segments, each segment once.\<close>

definition checked_sum :: "u64 list \<Rightarrow> krometrail_error + u64" where
  "checked_sum values = fold_result (\<lambda>total value.
     ok_or (persistence_error ''usage sum overflow'') (checked_add total value)) 0 values"

definition is_pinned :: "segment_id \<Rightarrow> metadata_index \<Rightarrow> bool" where
  "is_pinned segment ix \<longleftrightarrow> list_ex (\<lambda>(_, s). s = segment) (ix_pin_segments ix)"

definition pinned_usage :: "metadata_index \<Rightarrow> krometrail_error + u64" where
  "pinned_usage ix = checked_sum (map (\<lambda>row. sr_file_bytes (sg_registration row))
     (filter (\<lambda>row. is_pinned (sr_segment_id (sg_registration row)) ix) (ix_segments ix)))"

definition pin_range :: "retention_range \<Rightarrow> metadata_index \<Rightarrow>
    krometrail_error + (segment_id list \<times> u64) \<times> metadata_index" where
  "pin_range request ix =
     and_then (insert_pin request ix) (\<lambda>(_, ix).
     and_then (ok_or (persistence_error ''could not read range pin'') (exact_pin_id request ix)) (\<lambda>pin.
     let ix = link_pin pin request ix in
     and_then (pinned_usage ix) (\<lambda>bytes. Inr ((pin_segments pin ix, bytes), ix))))"

definition unpin_range :: "retention_range \<Rightarrow> metadata_index \<Rightarrow>
    krometrail_error + (segment_id list \<times> u64) \<times> metadata_index" where
  "unpin_range request ix =
     (let pin = exact_pin_id request ix;
          protected = (case pin of None \<Rightarrow> [] | Some pin \<Rightarrow> pin_segments pin ix);
          ix = (case pin of None \<Rightarrow> ix | Some pin \<Rightarrow> delete_pins (\<lambda>row. pn_pin_id row = pin) ix) in
      and_then (pinned_usage ix) (\<lambda>bytes. Inr ((protected, bytes), ix)))"

section \<open>What may be reclaimed next\<close>

record reclaim_filter =
  rf_created_before :: "int option"
  rf_artifact_grace_since :: "int option"

definition default_filter :: reclaim_filter where
  "default_filter = \<lparr>rf_created_before = None, rf_artifact_grace_since = None\<rparr>"

definition artifacts_of_segment :: "segment_id \<Rightarrow> metadata_index \<Rightarrow> artifact_row list" where
  "artifacts_of_segment segment ix =
     (let frames = set (map (\<lambda>row. cf_id (fw_metadata row)) (frames_of_segment segment ix));
          ids = set (map (\<lambda>(artifact, _, _). artifact)
            (filter (\<lambda>(_, _, frame). frame \<in> frames) (ix_artifact_frames ix))) in
      filter (\<lambda>row. at_artifact_id row \<in> ids) (ix_artifacts ix))"

definition reclaimable_segment :: "reclaim_filter \<Rightarrow> metadata_index \<Rightarrow> segment_row \<Rightarrow> bool" where
  "reclaimable_segment rf ix row \<longleftrightarrow>
     sr_state (sg_registration row) = Sealed \<and>
     \<not> is_pinned (sr_segment_id (sg_registration row)) ix \<and>
     (case rf_created_before rf of None \<Rightarrow> True | Some cutoff \<Rightarrow> sg_created_unix_ms row < cutoff) \<and>
     (case rf_artifact_grace_since rf of None \<Rightarrow> True | Some since \<Rightarrow>
       \<not> list_ex (\<lambda>artifact. at_created_unix_ms artifact \<ge> since)
         (artifacts_of_segment (sr_segment_id (sg_registration row)) ix))"

definition oldest_reclaimable_segment :: "reclaim_filter \<Rightarrow> metadata_index \<Rightarrow> segment_row option" where
  "oldest_reclaimable_segment rf ix =
     first_by (\<lambda>row. (sg_retention_sequence row, segment_uuid (sr_segment_id (sg_registration row))))
       (filter (reclaimable_segment rf ix) (ix_segments ix))"

definition oldest_unpinned_segment :: "metadata_index \<Rightarrow> segment_row option" where
  "oldest_unpinned_segment ix = oldest_reclaimable_segment default_filter ix"

definition artifacts_for_segment :: "segment_id \<Rightarrow> metadata_index \<Rightarrow> artifact_row list" where
  "artifacts_for_segment segment ix =
     sort_key (\<lambda>row. artifact_uuid (at_artifact_id row)) (artifacts_of_segment segment ix)"

definition oldest_reclaimable_artifact :: "artifact_id option \<Rightarrow> int option \<Rightarrow> int option \<Rightarrow> metadata_index \<Rightarrow>
    artifact_row option" where
  "oldest_reclaimable_artifact excluded created_before grace_since ix =
     first_by (\<lambda>row. (session_nanos (at_start_time row), artifact_uuid (at_artifact_id row)))
       (filter (\<lambda>row. (excluded = None \<or> Some (at_artifact_id row) \<noteq> excluded) \<and>
          (case created_before of None \<Rightarrow> True | Some cutoff \<Rightarrow> at_created_unix_ms row < cutoff) \<and>
          (case grace_since of None \<Rightarrow> True | Some since \<Rightarrow> at_created_unix_ms row < since)) (ix_artifacts ix))"

definition expired_object_count :: "int \<Rightarrow> metadata_index \<Rightarrow> nat" where
  "expired_object_count cutoff ix =
     length (filter (\<lambda>row. sr_state (sg_registration row) = Sealed \<and> sg_created_unix_ms row < cutoff \<and>
       \<not> is_pinned (sr_segment_id (sg_registration row)) ix) (ix_segments ix)) +
     length (filter (\<lambda>row. at_created_unix_ms row < cutoff) (ix_artifacts ix))"

definition session_segments :: "session_id \<Rightarrow> metadata_index \<Rightarrow> segment_row list" where
  "session_segments session ix =
     sort_key (\<lambda>row. (sg_retention_sequence row, segment_uuid (sr_segment_id (sg_registration row))))
       (filter (\<lambda>row. sr_session_id (sg_registration row) = session \<and> sr_state (sg_registration row) = Sealed)
         (ix_segments ix))"

definition session_artifacts :: "session_id \<Rightarrow> metadata_index \<Rightarrow> artifact_row list" where
  "session_artifacts session ix = sort_key (\<lambda>row. artifact_uuid (at_artifact_id row))
     (filter (\<lambda>row. at_session_id row = session) (ix_artifacts ix))"

section \<open>Artifacts\<close>

record artifact_parts =
  ap_artifact_id :: artifact_id
  ap_session_id :: session_id
  ap_target_id :: target_id
  ap_start_time :: session_time
  ap_sources :: "frame_id list"
  ap_cache_key :: byte_string
  ap_byte_len :: u64

definition source_lost_error :: "session_id \<Rightarrow> target_id \<Rightarrow> krometrail_error" where
  "source_lost_error session target = (krometrail_error_new CodeNotFound
     (PortMessage ''artifact source evidence is no longer retained''))\<lparr>re_context := pair_context session target\<rparr>"

definition validate_source_ids :: "session_id \<Rightarrow> target_id \<Rightarrow> frame_id list \<Rightarrow> metadata_index \<Rightarrow>
    krometrail_error + unit" where
  "validate_source_ids session target sources ix =
     (if sources = [] then Inl (persistence_error ''artifact source links are empty'')
      else fold_result (\<lambda>_ source.
        and_then (ok_or (source_lost_error session target)
          (List.find (\<lambda>row. cf_id (fw_metadata row) = source) (ix_frames ix))) (\<lambda>row.
        if of_scope session target row then Inr ()
        else Inl (persistence_error ''artifact source belongs to another session or target''))) () sources)"

datatype stage_artifact = Staged artifact_row | Existing artifact_row

definition stage_artifact_parts :: "int \<Rightarrow> artifact_parts \<Rightarrow> metadata_index \<Rightarrow>
    krometrail_error + stage_artifact \<times> metadata_index" where
  "stage_artifact_parts now parts ix =
     (case List.find (\<lambda>row. at_cache_key row = ap_cache_key parts) (ix_artifacts ix) of
        Some existing \<Rightarrow> Inr (Existing existing, ix)
      | None \<Rightarrow>
     and_then (validate_source_ids (ap_session_id parts) (ap_target_id parts) (ap_sources parts) ix) (\<lambda>_.
     if list_ex (\<lambda>row. at_artifact_id row = ap_artifact_id parts) (ix_artifacts ix) \<or>
        ix_targets ix (ap_session_id parts, ap_target_id parts) = None
     then Inl (persistence_error ''could not create artifact staging metadata'')
     else if \<not> distinct (ap_sources parts)
     then Inl (persistence_error ''could not link artifact source frames'')
     else if find_usage UsageArtifact (codec_id (artifact_uuid (ap_artifact_id parts))) ix \<noteq> None
     then Inl (persistence_error ''could not reserve artifact usage'')
     else
       let row = \<lparr>at_artifact_id = ap_artifact_id parts, at_session_id = ap_session_id parts,
             at_target_id = ap_target_id parts, at_state = Staging, at_start_time = ap_start_time parts,
             at_byte_len = ap_byte_len parts, at_cache_key = ap_cache_key parts, at_created_unix_ms = now\<rparr>;
           links = map (\<lambda>(position, frame). (ap_artifact_id parts, position, frame)) (enumerate 0 (ap_sources parts)) in
       Inr (Staged row, ix\<lparr>ix_artifacts := ix_artifacts ix @ [row],
         ix_artifact_frames := ix_artifact_frames ix @ links,
         ix_usage := ix_usage ix @ [\<lparr>us_class = UsageArtifact,
           us_object_key = codec_id (artifact_uuid (ap_artifact_id parts)),
           us_session_id = Some (ap_session_id parts), us_byte_len = ap_byte_len parts\<rparr>]\<rparr>)))"

definition finalize_artifact :: "artifact_id \<Rightarrow> byte_string \<Rightarrow> session_id \<Rightarrow> target_id \<Rightarrow> frame_id list \<Rightarrow>
    metadata_index \<Rightarrow> krometrail_error + bool \<times> metadata_index" where
  "finalize_artifact artifact key session target sources ix =
     and_then (ok_or (persistence_error ''artifact staging metadata disappeared'')
       (List.find (\<lambda>row. at_artifact_id row = artifact) (ix_artifacts ix))) (\<lambda>row.
     if at_state row \<noteq> Staging \<or> at_cache_key row \<noteq> key \<or> at_session_id row \<noteq> session \<or> at_target_id row \<noteq> target
     then Inl (persistence_error ''artifact staging metadata changed before finalization'')
     else and_then (validate_source_ids session target sources ix) (\<lambda>_.
     let chosen = (\<lambda>row. at_artifact_id row = artifact \<and> at_state row = Staging \<and> at_cache_key row = key) in
     Inr (length (filter chosen (ix_artifacts ix)) = 1,
       ix\<lparr>ix_artifacts := map (\<lambda>row. if chosen row then row\<lparr>at_state := Ready\<rparr> else row) (ix_artifacts ix)\<rparr>)))"

end
