(* ===== verification/Index_Events.thy ===== *)
theory Index_Events
  imports Index_Retention
begin

text \<open>
  Browser events in the metadata index (\<open>crates/krometrail-store/src/index/browser_events.rs\<close>): writing a
  batch within the disk budget, evicting the oldest events and recording what went, repairing the table
  at startup, and the queries of \<open>BrowserEventSource\<close>. A row holds its event whole; the projected columns
  are functions of the event and are compared where the code compares them with something else.
\<close>

section \<open>Rows\<close>

definition event_row_allowance_bytes :: nat where "event_row_allowance_bytes = 256"
definition max_event_eviction_rows :: nat where "max_event_eviction_rows = 256"
definition max_event_eviction_bytes :: u64 where "max_event_eviction_bytes = 1024 * 1024"
definition recovery_chunk_rows :: nat where "recovery_chunk_rows = 128"

definition class_name :: "event_class \<Rightarrow> string" where
  "class_name cls = (case cls of
     ConsoleClass \<Rightarrow> ''console'' | ExceptionClass \<Rightarrow> ''exception'' | NetworkClass \<Rightarrow> ''network''
   | NavigationClass \<Rightarrow> ''navigation'' | LifecycleClass \<Rightarrow> ''lifecycle'' | TargetClass \<Rightarrow> ''target''
   | DialogClass \<Rightarrow> ''dialog'' | CaptureClass \<Rightarrow> ''capture'' | OperationalClass \<Rightarrow> ''operational'')"

definition source_clock_name :: "source_clock \<Rightarrow> string" where
  "source_clock_name clock = (case clock of CdpMonotonic \<Rightarrow> ''cdp_monotonic'' | UnixEpoch \<Rightarrow> ''unix_epoch'')"

definition event_key :: "browser_event_id \<Rightarrow> byte_string" where
  "event_key i = codec_id (browser_event_uuid i)"

definition event_class_of :: "browser_event \<Rightarrow> event_class" where
  "event_class_of event = event_kind_class (ep_kind (be_payload event))"

text \<open>What a row counts against the budget: its payload, its projections and a fixed allowance.\<close>

definition projection_bytes :: "browser_event \<Rightarrow> nat" where
  "projection_bytes event =
     (let (clock_bytes, time_bytes) = (case be_source_time event of
            None \<Rightarrow> (0, 0) | Some source \<Rightarrow> (length (source_clock_name (st_clock source)), 16)) in
      16 * 3 + 8 * 7 + 8 * 4 + time_bytes + length (event_kind_name (ep_kind (be_payload event))) +
      length (class_name (event_class_of event)) + clock_bytes)"

definition accounted_bytes :: "browser_event \<Rightarrow> nat \<Rightarrow> krometrail_error + u64" where
  "accounted_bytes event payload_bytes =
     ok_or (persistence_error ''browser event accounted bytes overflow'')
       (if payload_bytes + projection_bytes event + event_row_allowance_bytes < 2 ^ 64
        then Some (word_of_nat (payload_bytes + projection_bytes event + event_row_allowance_bytes)) else None)"

record event_scope =
  sc_event_id :: browser_event_id
  sc_session_id :: session_id
  sc_target_id :: target_id
  sc_ordinal :: event_ordinal
  sc_session_time :: session_time

definition decode_scope :: "event_row \<Rightarrow> krometrail_error + event_scope" where
  "decode_scope row =
     (let event = er_event row; affected = affected_range event in
      and_then (map_err (\<lambda>_. persistence_error ''stored browser event ordinal is malformed'')
        (event_ordinal_new (event_ordinal_value (be_ordinal event)))) (\<lambda>ordinal.
      if browser_event_uuid (be_id event) = 0 \<or> session_uuid (be_session_id event) = 0 \<or>
         target_uuid (be_target_id event) = 0 \<or> be_attachment_generation event = 0 \<or>
         observed_nanos (be_observed_time event) < session_nanos (be_session_time event) \<or>
         range_start affected > range_end affected \<or>
         be_session_time event < range_start affected \<or> be_session_time event > range_end affected
      then Inl (persistence_error ''stored browser event identity or time is malformed'')
      else Inr \<lparr>sc_event_id = be_id event, sc_session_id = be_session_id event,
        sc_target_id = be_target_id event, sc_ordinal = ordinal, sc_session_time = be_session_time event\<rparr>))"

text \<open>Parsing the payload validates it, building the event validates it whole.\<close>

definition decode_event :: "event_row \<Rightarrow> krometrail_error + browser_event" where
  "decode_event row =
     (let event = er_event row in
      and_then (decode_scope row) (\<lambda>_.
      and_then (case be_source_time event of None \<Rightarrow> Inr None
        | Some source \<Rightarrow> map_err (\<lambda>_. persistence_error ''stored browser source timestamp is malformed'')
            (map_sum id Some (source_timestamp_new (st_clock source) (st_time source) (st_rounded source)))) (\<lambda>source.
      and_then (map_err (\<lambda>_. persistence_error ''stored browser event payload is malformed'')
        (ep_contract (be_payload event))) (\<lambda>_.
      and_then (map_err (\<lambda>_. persistence_error ''stored browser event is invalid'')
        (browser_event_new (event\<lparr>be_source_time := source\<rparr>))) (\<lambda>event.
      and_then (accounted_bytes event (length (ep_json (be_payload event)))) (\<lambda>bytes.
      if er_accounted_bytes row \<noteq> bytes
      then Inl (persistence_error ''stored browser event projection is inconsistent'')
      else if er_retention_sequence row = 0
      then Inl (persistence_error ''stored retention sequence is malformed'')
      else Inr event))))))"

section \<open>Dependent rows\<close>

definition event_observation :: "browser_event \<Rightarrow> timeline_observation" where
  "event_observation event = \<lparr>to_session_id = be_session_id event, to_target_id = be_target_id event,
     to_session_time = be_session_time event, to_source_time = map_option st_time (be_source_time event),
     to_observed_time = be_observed_time event, to_kind = KindBrowserEvent,
     to_payload = BrowserEventPayload (be_id event)\<rparr>"

definition timeline_observation_of :: "browser_event \<Rightarrow> krometrail_error + timeline_observation" where
  "timeline_observation_of event =
     map_err (\<lambda>_. persistence_error ''browser event timeline projection is invalid'')
       (observation_new (event_observation event))"

definition references_event :: "browser_event_id \<Rightarrow> timeline_row \<Rightarrow> bool" where
  "references_event i row \<longleftrightarrow> to_kind (tl_observation row) = KindBrowserEvent \<and>
     payload_sort_key (to_payload (tl_observation row)) = event_key i"

definition validate_timeline_reference :: "metadata_index \<Rightarrow> browser_event \<Rightarrow> krometrail_error + unit" where
  "validate_timeline_reference ix event =
     (if length (filter (\<lambda>row. tl_observation row = event_observation event) (ix_timeline ix)) \<noteq> 1
      then Inl (persistence_error ''browser event timeline reference disagrees with its row'')
      else Inr ())"

definition ensure_timeline_tx :: "browser_event \<Rightarrow> metadata_index \<Rightarrow> krometrail_error + metadata_index" where
  "ensure_timeline_tx event ix =
     (if list_ex (references_event (be_id event)) (ix_timeline ix)
      then and_then (validate_timeline_reference ix event) (\<lambda>_. Inr ix)
      else and_then (timeline_observation_of event) (\<lambda>observation.
        append_observation_tx observation None ix))"

definition event_usage :: "browser_event \<Rightarrow> u64 \<Rightarrow> usage_row" where
  "event_usage event bytes = \<lparr>us_class = UsageBrowserEvent, us_object_key = event_key (be_id event),
     us_session_id = Some (be_session_id event), us_byte_len = bytes\<rparr>"

definition ensure_usage_tx :: "browser_event \<Rightarrow> u64 \<Rightarrow> metadata_index \<Rightarrow> krometrail_error + metadata_index" where
  "ensure_usage_tx event bytes ix = (case find_usage UsageBrowserEvent (event_key (be_id event)) ix of
     Some existing \<Rightarrow>
       if us_session_id existing = Some (be_session_id event) \<and> us_byte_len existing = bytes then Inr ix
       else Inl (persistence_error ''browser event usage disagrees with its row'')
   | None \<Rightarrow> Inr (ix\<lparr>ix_usage := ix_usage ix @ [event_usage event bytes]\<rparr>))"

definition ensure_event_dependents_tx :: "browser_event \<Rightarrow> u64 \<Rightarrow> metadata_index \<Rightarrow>
    krometrail_error + metadata_index" where
  "ensure_event_dependents_tx event bytes ix =
     and_then (ensure_timeline_tx event ix) (ensure_usage_tx event bytes)"

section \<open>Writing\<close>

definition event_conflict :: "browser_event \<Rightarrow> event_row \<Rightarrow> bool" where
  "event_conflict event row \<longleftrightarrow> be_id (er_event row) = be_id event \<or>
     (be_session_id (er_event row) = be_session_id event \<and> be_target_id (er_event row) = be_target_id event \<and>
      be_ordinal (er_event row) = be_ordinal event)"

definition conflicting_rows :: "browser_event \<Rightarrow> metadata_index \<Rightarrow> event_row list" where
  "conflicting_rows event ix =
     sort_key (\<lambda>row. browser_event_uuid (be_id (er_event row))) (filter (event_conflict event) (ix_events ix))"

text \<open>The table's own checks on a new row.\<close>

definition event_row_refused :: "event_row \<Rightarrow> metadata_index \<Rightarrow> bool" where
  "event_row_refused row ix \<longleftrightarrow>
     (let event = er_event row; payload = be_payload event in
      length (ep_json payload) < 2 \<or> 8192 < length (ep_json payload) \<or> 255 < ep_priority payload \<or>
      er_retention_sequence row = 0 \<or>
      list_ex (\<lambda>r. er_retention_sequence r = er_retention_sequence row) (ix_events ix) \<or>
      range_start (affected_range event) > range_end (affected_range event))"

definition insert_event :: "browser_event \<Rightarrow> metadata_index \<Rightarrow> krometrail_error + u64 \<times> metadata_index" where
  "insert_event event ix =
     and_then (accounted_bytes event (length (ep_json (be_payload event)))) (\<lambda>bytes.
     let row = \<lparr>er_event = event, er_accounted_bytes = bytes, er_retention_sequence = ix_next_sequence ix\<rparr>;
         ix = ix\<lparr>ix_next_sequence := ix_next_sequence ix + 1\<rparr> in
     if event_row_refused row ix then Inl (persistence_error ''could not persist browser event'')
     else and_then (ensure_event_dependents_tx event bytes (ix\<lparr>ix_events := ix_events ix @ [row]\<rparr>)) (\<lambda>ix.
       Inr (bytes, ix)))"

definition append_event_tx :: "browser_event \<Rightarrow> metadata_index \<Rightarrow> krometrail_error + u64 \<times> metadata_index" where
  "append_event_tx event ix =
     (let ix = ensure_identity (be_session_id event) (be_target_id event) ix;
          conflicts = conflicting_rows event ix;
          conflict = Inl (persistence_error ''browser event identity conflicts with its durable value'') in
      case conflicts of
        [] \<Rightarrow> insert_event event ix
      | [row] \<Rightarrow> and_then (decode_event row) (\<lambda>stored.
          if stored = event
          then and_then (ensure_event_dependents_tx event (er_accounted_bytes row) ix) (\<lambda>ix. Inr (0, ix))
          else conflict)
      | _ \<Rightarrow> conflict)"

section \<open>Eviction\<close>

definition remove_event_dependents_tx :: "browser_event_id \<Rightarrow> metadata_index \<Rightarrow> metadata_index" where
  "remove_event_dependents_tx i ix = ix\<lparr>
     ix_timeline := filter (\<lambda>row. \<not> references_event i row) (ix_timeline ix),
     ix_usage := filter (\<lambda>row. \<not> (us_class row = UsageBrowserEvent \<and> us_object_key row = event_key i)) (ix_usage ix)\<rparr>"

definition delete_event :: "browser_event_id \<Rightarrow> metadata_index \<Rightarrow> metadata_index" where
  "delete_event i ix = (remove_event_dependents_tx i ix)
     \<lparr>ix_events := filter (\<lambda>row. be_id (er_event row) \<noteq> i) (ix_events ix)\<rparr>"

definition unavailable_of :: "session_id \<Rightarrow> target_id \<Rightarrow> unavailable_reason \<Rightarrow> unavailable_row \<Rightarrow> bool" where
  "unavailable_of session target reason row \<longleftrightarrow> ur_session_id (un_range row) = session \<and>
     ur_target_id (un_range row) = target \<and> ur_reason (un_range row) = reason"

definition unavailable_tail :: "session_id \<Rightarrow> target_id \<Rightarrow> unavailable_reason \<Rightarrow> unavailable_row list \<Rightarrow>
    unavailable_row option" where
  "unavailable_tail session target reason rows =
     last_by (\<lambda>row. (session_nanos (range_end (ur_range (un_range row))), un_id row))
       (filter (unavailable_of session target reason) rows)"

text \<open>The newest record of the scope and reason takes in what touches it in time or in ordinals; the table
  requires both ordinals or none, and the target it names.\<close>

definition continues_range :: "unavailable_range \<Rightarrow> unavailable_range \<Rightarrow> bool" where
  "continues_range kept new \<longleftrightarrow>
     ((case (ur_ordinals kept, ur_ordinals new) of
         (Some (_, old), Some (lowest, _)) \<Rightarrow> saturating_add (event_ordinal_value old) 1 \<ge> event_ordinal_value lowest
       | _ \<Rightarrow> False) \<or>
      saturating_add (session_nanos (range_end (ur_range kept))) 1 \<ge> session_nanos (range_start (ur_range new))) \<and>
     (ur_ordinals kept = None \<longleftrightarrow> ur_ordinals new = None)"

definition merge_unavailable :: "unavailable_range \<Rightarrow> unavailable_range \<Rightarrow> u64 \<Rightarrow> unavailable_range" where
  "merge_unavailable kept new merged = kept\<lparr>
     ur_range := \<lparr>range_start = min (range_start (ur_range kept)) (range_start (ur_range new)),
       range_end = max (range_end (ur_range kept)) (range_end (ur_range new))\<rparr>,
     ur_ordinals := (case (ur_ordinals kept, ur_ordinals new) of
         (Some (low, high), Some (lowest, highest)) \<Rightarrow>
           Some (EventOrdinal (min (event_ordinal_value low) (event_ordinal_value lowest)),
             EventOrdinal (max (event_ordinal_value high) (event_ordinal_value highest)))
       | _ \<Rightarrow> None),
     ur_event_count := merged\<rparr>"

definition record_unavailable_tx :: "unavailable_range \<Rightarrow> metadata_index \<Rightarrow> krometrail_error + metadata_index" where
  "record_unavailable_tx new ix =
     (let fresh = (if ur_event_count new = 0
            then Inl (persistence_error ''browser event unavailable count must be non-zero'')
            else and_then (map_err (\<lambda>_. persistence_error ''browser event unavailable range is invalid'')
              (unavailable_range_new new)) (\<lambda>new.
            if ix_targets ix (ur_session_id new, ur_target_id new) = None
            then Inl (persistence_error ''could not record browser event unavailable range'')
            else Inr (ix\<lparr>ix_unavailable := ix_unavailable ix @
              [\<lparr>un_id = next_rowid un_id (ix_unavailable ix), un_range = new\<rparr>]\<rparr>))) in
      case unavailable_tail (ur_session_id new) (ur_target_id new) (ur_reason new) (ix_unavailable ix) of
        None \<Rightarrow> fresh
      | Some tail \<Rightarrow>
          if continues_range (un_range tail) new
          then and_then (ok_or (persistence_error ''browser event unavailable count overflow'')
            (checked_add (ur_event_count (un_range tail)) (ur_event_count new))) (\<lambda>merged.
            Inr (ix\<lparr>ix_unavailable := map (\<lambda>row. if un_id row = un_id tail
              then row\<lparr>un_range := merge_unavailable (un_range tail) new merged\<rparr> else row) (ix_unavailable ix)\<rparr>))
          else fresh)"

text \<open>The record of one event.\<close>

definition unavailable_event :: "event_scope \<Rightarrow> unavailable_reason \<Rightarrow> unavailable_range" where
  "unavailable_event scope reason = \<lparr>ur_session_id = sc_session_id scope, ur_target_id = sc_target_id scope,
     ur_range = \<lparr>range_start = sc_session_time scope, range_end = sc_session_time scope\<rparr>,
     ur_ordinals = Some (sc_ordinal scope, sc_ordinal scope), ur_event_count = 1, ur_reason = reason\<rparr>"

definition evict_event :: "event_row \<Rightarrow> metadata_index \<Rightarrow> krometrail_error + metadata_index" where
  "evict_event row ix =
     and_then (decode_scope row) (\<lambda>scope.
     record_unavailable_tx (unavailable_event scope RetentionEvicted) (delete_event (sc_event_id scope) ix))"

fun evict_rows :: "u64 \<Rightarrow> u64 option \<Rightarrow> u64 \<Rightarrow> event_row list \<Rightarrow> metadata_index \<Rightarrow>
    krometrail_error + u64 \<times> metadata_index" where
  "evict_rows max_bytes required removed [] ix = Inr (removed, ix)"
| "evict_rows max_bytes required removed (row # rows) ix =
     (if removed > 0 \<and> saturating_add removed (er_accounted_bytes row) > max_bytes then Inr (removed, ix)
      else and_then (evict_event row ix) (\<lambda>ix.
      and_then (ok_or (persistence_error ''browser event eviction byte count overflow'')
        (checked_add removed (er_accounted_bytes row))) (\<lambda>removed.
      if (case required of None \<Rightarrow> False | Some needed \<Rightarrow> removed \<ge> needed) then Inr (removed, ix)
      else evict_rows max_bytes required removed rows ix)))"

definition retention_order :: "event_row \<Rightarrow> nat \<times> uuid" where
  "retention_order row = (er_retention_sequence row, browser_event_uuid (be_id (er_event row)))"

definition eviction_candidates :: "nat option \<Rightarrow> nat \<Rightarrow> metadata_index \<Rightarrow> event_row list" where
  "eviction_candidates before max_rows ix =
     take max_rows (sort_key retention_order (filter (\<lambda>row. case before of None \<Rightarrow> True
       | Some sequence \<Rightarrow> er_retention_sequence row < sequence) (ix_events ix)))"

definition evict_events_tx :: "nat option \<Rightarrow> nat \<Rightarrow> u64 \<Rightarrow> u64 option \<Rightarrow> metadata_index \<Rightarrow>
    krometrail_error + u64 \<times> metadata_index" where
  "evict_events_tx before max_rows max_bytes required ix =
     (if (case before of None \<Rightarrow> False | Some sequence \<Rightarrow> sequence \<ge> 2 ^ 63)
      then Inl (persistence_error ''retention sequence exceeds SQLite limits'')
      else evict_rows max_bytes required 0 (eviction_candidates before max_rows ix) ix)"

definition oldest_browser_event :: "metadata_index \<Rightarrow> nat option" where
  "oldest_browser_event ix = map_option er_retention_sequence (first_by retention_order (ix_events ix))"

definition evict_oldest_browser_events :: "nat option \<Rightarrow> metadata_index \<Rightarrow> krometrail_error + u64 \<times> metadata_index" where
  "evict_oldest_browser_events before =
     evict_events_tx before max_event_eviction_rows max_event_eviction_bytes None"

definition append_valid_event :: "u64 \<times> metadata_index \<Rightarrow> browser_event \<Rightarrow> krometrail_error + u64 \<times> metadata_index" where
  "append_valid_event = (\<lambda>(inserted, ix) event.
     and_then (map_err (\<lambda>_. persistence_error ''browser event is invalid'') (event_validate event)) (\<lambda>_.
     and_then (append_event_tx event ix) (\<lambda>(bytes, ix).
     and_then (ok_or (persistence_error ''browser event batch usage overflow'') (checked_add inserted bytes)) (\<lambda>inserted.
     Inr (inserted, ix)))))"

text \<open>\<open>batch_bytes\<close> is the length of the batch in JSON, \<open>usage_before\<close> the managed usage before it.\<close>

definition append_browser_event_batch :: "nat \<Rightarrow> u64 \<Rightarrow> u64 \<Rightarrow> event_batch \<Rightarrow> metadata_index \<Rightarrow>
    krometrail_error + metadata_index" where
  "append_browser_event_batch batch_bytes budget usage_before batch ix =
     (if eb_events batch = [] \<or> length (eb_events batch) > max_event_batch_rows \<or> batch_bytes > max_event_batch_bytes
      then Inl (persistence_error ''browser event batch exceeds its bounded contract'')
      else and_then (fold_result append_valid_event (0, ix) (eb_events batch)) (\<lambda>(inserted, ix).
      and_then (ok_or (persistence_error ''managed usage overflow'') (checked_add usage_before inserted)) (\<lambda>total.
      and_then (if total > budget
        then and_then (evict_events_tx None max_event_eviction_rows max_event_eviction_bytes (Some (total - budget)) ix)
          (\<lambda>(removed, ix). Inr (saturating_sub total removed, ix))
        else Inr (total, ix)) (\<lambda>(total, ix).
      if total > budget
      then Inl (krometrail_error_new CodeBudgetExhausted
        (PortMessage ''disk budget cannot retain the browser event batch''))
      else Inr ix))))"

section \<open>What the writers leave alone\<close>

lemma ensure_identity_fields [simp]:
  "ix_events (ensure_identity s t ix) = ix_events ix" "ix_usage (ensure_identity s t ix) = ix_usage ix"
  "ix_timeline (ensure_identity s t ix) = ix_timeline ix" "ix_unavailable (ensure_identity s t ix) = ix_unavailable ix"
  "ix_next_sequence (ensure_identity s t ix) = ix_next_sequence ix"
  by (simp_all add: ensure_identity_def ensure_session_def Let_def)

lemma append_observation_frame:
  assumes "append_observation_tx observation ordinal ix = Inr ix'"
  shows "ix_events ix' = ix_events ix \<and> ix_usage ix' = ix_usage ix \<and> ix_unavailable ix' = ix_unavailable ix \<and>
    ix_next_sequence ix' = ix_next_sequence ix"
  using assms by (auto simp: append_observation_tx_def Let_def and_then_Inr_iff split: option.splits if_splits)

lemma record_unavailable_fields:
  assumes "record_unavailable_tx new ix = Inr ix'"
  shows "ix' = ix\<lparr>ix_unavailable := ix_unavailable ix'\<rparr>"
  using assms by (auto simp: record_unavailable_tx_def Let_def and_then_Inr_iff split: option.splits if_splits)

lemma delete_event_fields [simp]:
  "ix_events (delete_event i ix) = filter (\<lambda>row. be_id (er_event row) \<noteq> i) (ix_events ix)"
  "ix_unavailable (delete_event i ix) = ix_unavailable ix"
  by (simp_all add: delete_event_def remove_event_dependents_tx_def)

lemma record_unavailable_others [simp]:
  assumes "record_unavailable_tx new ix = Inr ix'"
  shows "ix_events ix' = ix_events ix" "ix_timeline ix' = ix_timeline ix" "ix_usage ix' = ix_usage ix"
    "ix_next_sequence ix' = ix_next_sequence ix"
  by (subst record_unavailable_fields [OF assms], simp)+

lemma record_unavailable_cases:
  assumes "record_unavailable_tx new ix = Inr ix'"
  obtains (fresh) "ix_unavailable ix' =
      ix_unavailable ix @ [\<lparr>un_id = next_rowid un_id (ix_unavailable ix), un_range = new\<rparr>]"
  | (merged) tail merged where
      "unavailable_tail (ur_session_id new) (ur_target_id new) (ur_reason new) (ix_unavailable ix) = Some tail"
      "continues_range (un_range tail) new" "unat merged = unat (ur_event_count (un_range tail)) + unat (ur_event_count new)"
      "ix_unavailable ix' = map (\<lambda>row. if un_id row = un_id tail
        then row\<lparr>un_range := merge_unavailable (un_range tail) new merged\<rparr> else row) (ix_unavailable ix)"
  using assms by (auto simp: record_unavailable_tx_def Let_def and_then_Inr_iff unavailable_range_new_def
      ok_or_Inr_iff checked_add_Some_iff split: option.splits if_splits)

lemma next_rowid_fresh: "next_rowid key rows \<notin> key ` set rows"
  by (metis imageE less_irrefl next_rowid_greater)

lemma record_unavailable_distinct:
  assumes "record_unavailable_tx new ix = Inr ix'" and "distinct (map un_id (ix_unavailable ix))"
  shows "distinct (map un_id (ix_unavailable ix'))"
  using assms(1)
proof (cases rule: record_unavailable_cases)
  case fresh
  then show ?thesis
    using assms(2) next_rowid_fresh [of un_id "ix_unavailable ix"] by simp
next
  case (merged tail merged)
  have "map un_id (ix_unavailable ix') = map un_id (ix_unavailable ix)"
    by (simp add: merged(4))
  then show ?thesis
    using assms(2) by (simp only:)
qed

end
