(* ===== verification/Index_Event_Queries.thy ===== *)
theory Index_Event_Queries
  imports Index_Events
begin

text \<open>
  The reading half of \<open>index/browser_events.rs\<close>, \<open>BrowserEventSource\<close> of the index: counting, pages in
  time order, candidates by priority and around instants, the record of unavailable events and the samples
  of the capture status. Every event read is decoded and its timeline reference checked.
\<close>

definition invalid_query :: "string \<Rightarrow> krometrail_error" where
  "invalid_query message = krometrail_error_new CodeInvalidInput (PortMessage message)"

definition selector_matches :: "event_selector \<Rightarrow> browser_event \<Rightarrow> bool" where
  "selector_matches selector event \<longleftrightarrow>
     be_session_id event = es_session_id selector \<and> be_target_id event = es_target_id selector \<and>
     be_session_time event \<ge> range_start (es_range selector) \<and>
     be_session_time event \<le> range_end (es_range selector) \<and>
     severity_rank (be_severity event) \<ge> severity_rank (es_minimum_severity selector) \<and>
     (es_classes selector = [] \<or> event_class_of event \<in> set (es_classes selector))"

type_synonym event_order_key = "u64 \<times> u64 \<times> uuid"

definition event_order :: "browser_event \<Rightarrow> event_order_key" where
  "event_order event = (session_nanos (be_session_time event), event_ordinal_value (be_ordinal event),
     browser_event_uuid (be_id event))"

definition row_order :: "event_row \<Rightarrow> event_order_key" where
  "row_order row = event_order (er_event row)"

definition matching_rows :: "event_selector \<Rightarrow> metadata_index \<Rightarrow> event_row list" where
  "matching_rows selector ix = filter (\<lambda>row. selector_matches selector (er_event row)) (ix_events ix)"

definition read_event :: "metadata_index \<Rightarrow> event_row \<Rightarrow> krometrail_error + browser_event" where
  "read_event ix row =
     and_then (decode_event row) (\<lambda>event.
     and_then (validate_timeline_reference ix event) (\<lambda>_. Inr event))"

definition query_events :: "metadata_index \<Rightarrow> event_row list \<Rightarrow> krometrail_error + browser_event list" where
  "query_events ix rows = collect_results (read_event ix) rows"

definition count_events :: "event_selector \<Rightarrow> metadata_index \<Rightarrow> nat" where
  "count_events selector ix = length (matching_rows selector ix)"

definition cursor_order :: "event_cursor \<Rightarrow> event_order_key" where
  "cursor_order cursor = (session_nanos (cu_session_time cursor), event_ordinal_value (cu_ordinal cursor),
     browser_event_uuid (cu_event_id cursor))"

text \<open>The three-way condition on time, ordinal and identifier after the cursor.\<close>

definition after_cursor :: "event_cursor \<Rightarrow> event_row \<Rightarrow> bool" where
  "after_cursor cursor row \<longleftrightarrow>
     (let event = er_event row; time = be_session_time event; ordinal = event_ordinal_value (be_ordinal event) in
      time > cu_session_time cursor \<or>
      time = cu_session_time cursor \<and> ordinal > event_ordinal_value (cu_ordinal cursor) \<or>
      time = cu_session_time cursor \<and> ordinal = event_ordinal_value (cu_ordinal cursor) \<and>
        browser_event_uuid (be_id event) > browser_event_uuid (cu_event_id cursor))"

definition chronological_events :: "event_selector \<Rightarrow> event_cursor option \<Rightarrow> nat \<Rightarrow> metadata_index \<Rightarrow>
    krometrail_error + browser_event list" where
  "chronological_events selector cursor limit ix =
     (if (case cursor of None \<Rightarrow> False | Some cursor \<Rightarrow> cu_selector cursor \<noteq> selector)
      then Inl (invalid_query ''browser event cursor does not match its selector'')
      else query_events ix (take limit (sort_key row_order
        (filter (\<lambda>row. case cursor of None \<Rightarrow> True | Some cursor \<Rightarrow> after_cursor cursor row)
          (matching_rows selector ix)))))"

definition max_event_candidate_rows :: nat where "max_event_candidate_rows = 256"

definition event_candidate_limit_new :: "nat \<Rightarrow> krometrail_error + nat" where
  "event_candidate_limit_new value =
     (if value = 0 \<or> value > max_event_candidate_rows
      then Inl (event_message ''browser event candidate limit is out of range'') else Inr value)"

definition priority_candidates :: "event_selector \<Rightarrow> nat \<Rightarrow> metadata_index \<Rightarrow>
    krometrail_error + browser_event list" where
  "priority_candidates selector limit ix =
     query_events ix (take limit (sort_key (\<lambda>row. (ep_priority (be_payload (er_event row)), row_order row))
       (matching_rows selector ix)))"

text \<open>Up to \<open>each_side\<close> events at or before an instant, newest first, and as many at or after it.\<close>

definition nearest_rows :: "event_selector \<Rightarrow> nat \<Rightarrow> session_time \<Rightarrow> metadata_index \<Rightarrow> event_row list list" where
  "nearest_rows selector each_side focus ix =
     [take each_side (rev (sort_key row_order
        (filter (\<lambda>row. be_session_time (er_event row) \<le> focus) (matching_rows selector ix)))),
      take each_side (sort_key row_order
        (filter (\<lambda>row. be_session_time (er_event row) \<ge> focus) (matching_rows selector ix)))]"

text \<open>The map by identifier: a later event replaces an equal key.\<close>

definition insert_by_id :: "browser_event list \<Rightarrow> browser_event \<Rightarrow> browser_event list" where
  "insert_by_id events event = filter (\<lambda>e. be_id e \<noteq> be_id event) events @ [event]"

definition collect_nearest :: "metadata_index \<Rightarrow> browser_event list \<Rightarrow> event_row list \<Rightarrow>
    krometrail_error + browser_event list" where
  "collect_nearest ix events rows =
     and_then (query_events ix rows) (\<lambda>read. Inr (foldl insert_by_id events read))"

definition nearest_candidates :: "event_selector \<Rightarrow> session_time list \<Rightarrow> nat \<Rightarrow> metadata_index \<Rightarrow>
    krometrail_error + browser_event list" where
  "nearest_candidates selector focus_times each_side ix =
     (if focus_times = [] \<or> length focus_times > 16 \<or> each_side < 1 \<or> each_side > 2 \<or>
         list_ex (\<lambda>time. \<not> range_contains (es_range selector) time) focus_times
      then Inl (invalid_query ''browser event nearest request is out of range'')
      else and_then (fold_result (collect_nearest ix) []
        (concat (map (\<lambda>focus. nearest_rows selector each_side focus ix) focus_times))) (\<lambda>events.
      Inr (sort_key event_order events)))"

definition max_event_unavailable_ranges :: nat where "max_event_unavailable_ranges = 1000"

definition decode_unavailable :: "unavailable_row \<Rightarrow> krometrail_error + unavailable_range" where
  "decode_unavailable row =
     (let stored_range = un_range row in
      and_then (map_err (\<lambda>_. persistence_error ''stored browser event unavailable range is malformed'')
        (session_range_new (range_start (ur_range stored_range)) (range_end (ur_range stored_range)))) (\<lambda>interval.
      and_then (map_err (\<lambda>_. persistence_error ''stored browser event unavailable ordinal is malformed'')
        (case ur_ordinals stored_range of None \<Rightarrow> Inr None
         | Some (lowest, highest) \<Rightarrow>
             and_then (event_ordinal_new (event_ordinal_value lowest)) (\<lambda>lowest.
             and_then (event_ordinal_new (event_ordinal_value highest)) (\<lambda>highest.
             Inr (Some (lowest, highest)))))) (\<lambda>ordinals.
      if ur_event_count stored_range = 0
      then Inl (persistence_error ''stored browser event unavailable count is malformed'')
      else map_err (\<lambda>_. persistence_error ''stored browser event unavailable range is invalid'')
        (unavailable_range_new (stored_range\<lparr>ur_range := interval, ur_ordinals := ordinals\<rparr>)))))"

definition unavailable_ranges :: "session_id \<Rightarrow> target_id \<Rightarrow> session_range \<Rightarrow> nat \<Rightarrow> metadata_index \<Rightarrow>
    krometrail_error + unavailable_range list" where
  "unavailable_ranges session target interval limit ix =
     (if session_uuid session = 0 \<or> target_uuid target = 0 \<or> limit = 0 \<or> limit > max_event_unavailable_ranges
      then Inl (invalid_query ''browser event unavailable request is out of range'')
      else collect_results decode_unavailable (take limit
        (sort_key (\<lambda>row. (session_nanos (range_start (ur_range (un_range row))),
            session_nanos (range_end (ur_range (un_range row))), un_id row))
          (filter (\<lambda>row. ur_session_id (un_range row) = session \<and> ur_target_id (un_range row) = target \<and>
             range_start (ur_range (un_range row)) \<le> range_end interval \<and>
             range_end (ur_range (un_range row)) \<ge> range_start interval) (ix_unavailable ix)))))"

definition max_capture_status_samples :: nat where "max_capture_status_samples = 128"

record capture_status_samples =
  cs_at_or_before :: "browser_event option"
  cs_in_range :: "browser_event list"

definition is_capture_status :: "browser_event \<Rightarrow> bool" where
  "is_capture_status event \<longleftrightarrow> ep_kind (be_payload event) = CaptureStatusChangedEvent"

definition capture_status_samples_new :: "browser_event option \<Rightarrow> browser_event list \<Rightarrow>
    krometrail_error + capture_status_samples" where
  "capture_status_samples_new before within =
     (if length within > max_capture_status_samples \<or>
         list_ex (\<lambda>event. \<not> is_capture_status event) (case before of None \<Rightarrow> within | Some event \<Rightarrow> event # within)
      then Inl (event_message ''capture status samples are invalid'')
      else Inr \<lparr>cs_at_or_before = before, cs_in_range = within\<rparr>)"

definition capture_status_of :: "session_id \<Rightarrow> target_id \<Rightarrow> metadata_index \<Rightarrow> event_row list" where
  "capture_status_of session target ix = filter (\<lambda>row. be_session_id (er_event row) = session \<and>
     be_target_id (er_event row) = target \<and> is_capture_status (er_event row)) (ix_events ix)"

definition index_capture_status :: "session_id \<Rightarrow> target_id \<Rightarrow> session_range \<Rightarrow> nat \<Rightarrow> metadata_index \<Rightarrow>
    krometrail_error + capture_status_samples" where
  "index_capture_status session target interval limit ix =
     (if session_uuid session = 0 \<or> target_uuid target = 0 \<or> limit = 0 \<or> limit > max_capture_status_samples
      then Inl (invalid_query ''capture status sample request is out of range'')
      else
        and_then (query_events ix (take 1 (rev (sort_key row_order
          (filter (\<lambda>row. be_session_time (er_event row) \<le> range_start interval)
            (capture_status_of session target ix)))))) (\<lambda>before.
        and_then (query_events ix (take limit (sort_key row_order
          (filter (\<lambda>row. be_session_time (er_event row) \<ge> range_start interval \<and>
             be_session_time (er_event row) \<le> range_end interval) (capture_status_of session target ix))))) (\<lambda>within.
        map_err (\<lambda>_. persistence_error ''stored capture status samples are invalid'')
          (capture_status_samples_new (case before of [] \<Rightarrow> None | event # _ \<Rightarrow> Some event) within))))"

end
