(* ===== verification/Index_Event_Recovery.thy ===== *)
theory Index_Event_Recovery
  imports Index_Events
begin

text \<open>
  Repairing the browser events at startup (\<open>recover_browser_events\<close> of \<open>index/browser_events.rs\<close>). The
  table is walked in chunks, each one transaction: an error ends the walk with the index the last
  transaction left, so a step returns the index beside its result. The loops end because a chunk moves past
  the rows it saw or deletes them.
\<close>

record event_recovery_report =
  rp_timeline_rows_repaired :: nat
  rp_usage_rows_repaired :: nat
  rp_corrupt_rows_discarded :: nat
  rp_orphan_timeline_rows_discarded :: nat
  rp_orphan_usage_rows_removed :: nat

definition empty_recovery_report :: event_recovery_report where
  "empty_recovery_report = \<lparr>rp_timeline_rows_repaired = 0, rp_usage_rows_repaired = 0,
     rp_corrupt_rows_discarded = 0, rp_orphan_timeline_rows_discarded = 0, rp_orphan_usage_rows_removed = 0\<rparr>"

definition reconcile_timeline_tx :: "browser_event \<Rightarrow> metadata_index \<Rightarrow> krometrail_error + bool \<times> metadata_index" where
  "reconcile_timeline_tx event ix =
     (let present = list_ex (references_event (be_id event)) (ix_timeline ix) in
      if present \<and> validate_timeline_reference ix event = Inr () then Inr (False, ix)
      else
        let ix = (if present
          then ix\<lparr>ix_timeline := filter (\<lambda>row. \<not> references_event (be_id event) row) (ix_timeline ix)\<rparr> else ix) in
        and_then (timeline_observation_of event) (\<lambda>observation.
        and_then (append_observation_tx observation None ix) (\<lambda>ix. Inr (True, ix))))"

definition reconcile_usage_tx :: "browser_event \<Rightarrow> u64 \<Rightarrow> metadata_index \<Rightarrow> bool \<times> metadata_index" where
  "reconcile_usage_tx event bytes ix =
     (if (case find_usage UsageBrowserEvent (event_key (be_id event)) ix of None \<Rightarrow> False
       | Some existing \<Rightarrow> us_session_id existing = Some (be_session_id event) \<and> us_byte_len existing = bytes)
      then (False, ix)
      else (True, ix\<lparr>ix_usage := upsert_usage (event_usage event bytes) (ix_usage ix)\<rparr>))"

definition recover_row :: "event_recovery_report \<times> metadata_index \<Rightarrow> event_row \<Rightarrow>
    krometrail_error + event_recovery_report \<times> metadata_index" where
  "recover_row = (\<lambda>(report, ix) row.
     and_then (decode_scope row) (\<lambda>scope.
     case decode_event row of
       Inr event \<Rightarrow>
         and_then (reconcile_timeline_tx event ix) (\<lambda>(repaired, ix).
         let usage = reconcile_usage_tx event (er_accounted_bytes row) ix in
         Inr (report\<lparr>rp_timeline_rows_repaired := rp_timeline_rows_repaired report + of_bool repaired,
           rp_usage_rows_repaired := rp_usage_rows_repaired report + of_bool (fst usage)\<rparr>, snd usage))
     | Inl _ \<Rightarrow>
         and_then (record_unavailable_tx (unavailable_event scope CorruptDiscarded)
           (delete_event (sc_event_id scope) ix)) (\<lambda>ix.
         Inr (report\<lparr>rp_corrupt_rows_discarded := rp_corrupt_rows_discarded report + 1\<rparr>, ix))))"

definition row_uuid :: "event_row \<Rightarrow> uuid" where
  "row_uuid row = browser_event_uuid (be_id (er_event row))"

definition raw_rows_after :: "uuid option \<Rightarrow> nat \<Rightarrow> metadata_index \<Rightarrow> event_row list" where
  "raw_rows_after after limit ix =
     take limit (sort_key row_uuid (filter (\<lambda>row. case after of None \<Rightarrow> True | Some i \<Rightarrow> row_uuid row > i) (ix_events ix)))"

definition rows_left :: "uuid option \<Rightarrow> metadata_index \<Rightarrow> uuid set" where
  "rows_left after ix = {i \<in> row_uuid ` set (ix_events ix). case after of None \<Rightarrow> True | Some j \<Rightarrow> i > j}"

section \<open>The walk over the events\<close>

lemma reconcile_timeline_fields:
  assumes "reconcile_timeline_tx event ix = Inr (b, ix')"
  shows "ix_events ix' = ix_events ix \<and> ix_usage ix' = ix_usage ix"
  using assms by (auto simp: reconcile_timeline_tx_def Let_def and_then_Inr_iff
      dest!: append_observation_frame split: if_splits)

lemma reconcile_usage_fields [simp]:
  "ix_events (snd (reconcile_usage_tx event bytes ix)) = ix_events ix"
  "ix_timeline (snd (reconcile_usage_tx event bytes ix)) = ix_timeline ix"
  by (simp_all add: reconcile_usage_tx_def)

lemma recover_row_cases:
  assumes "recover_row (report, ix) row = Inr (report', ix')"
  obtains (decoded) scope event repaired ix1 where "decode_scope row = Inr scope" "decode_event row = Inr event"
      "reconcile_timeline_tx event ix = Inr (repaired, ix1)"
      "ix' = snd (reconcile_usage_tx event (er_accounted_bytes row) ix1)"
  | (corrupt) scope e where "decode_scope row = Inr scope" "decode_event row = Inl e"
      "record_unavailable_tx (unavailable_event scope CorruptDiscarded) (delete_event (sc_event_id scope) ix) = Inr ix'"
  using assms by (cases "decode_event row") (auto simp: recover_row_def Let_def and_then_Inr_iff)

lemma recover_row_subset:
  assumes "recover_row (report, ix) row = Inr (report', ix')"
  shows "set (ix_events ix') \<subseteq> set (ix_events ix)"
  using assms by (cases rule: recover_row_cases) (auto dest!: reconcile_timeline_fields)

lemma recover_rows_subset:
  assumes "fold_result recover_row (report, ix) rows = Inr (report', ix')"
  shows "set (ix_events ix') \<subseteq> set (ix_events ix)"
proof -
  have "set (ix_events (snd (report', ix'))) \<subseteq> set (ix_events ix)"
    using assms by (rule fold_result_invariant) (use recover_row_subset in \<open>force+\<close>)
  then show ?thesis
    by simp
qed

function (sequential) recover_chunks :: "uuid option \<Rightarrow> event_recovery_report \<Rightarrow> metadata_index \<Rightarrow>
    (krometrail_error + event_recovery_report) \<times> metadata_index" where
  "recover_chunks after report ix =
     (let rows = raw_rows_after after recovery_chunk_rows ix in
      if rows = [] then (Inr report, ix)
      else case fold_result recover_row (report, ix) rows of
        Inl e \<Rightarrow> (Inl e, ix)
      | Inr (report', ix') \<Rightarrow>
          if length rows < recovery_chunk_rows then (Inr report', ix')
          else recover_chunks (Some (row_uuid (last rows))) report' ix')"
  by pat_completeness auto

lemma raw_rows_in:
  assumes "row \<in> set (raw_rows_after after limit ix)"
  shows "row \<in> set (ix_events ix) \<and> (case after of None \<Rightarrow> True | Some i \<Rightarrow> row_uuid row > i)"
  using assms by (auto simp: raw_rows_after_def dest!: in_set_takeD)

lemma rows_left_less:
  assumes "fold_result recover_row (report, ix) (raw_rows_after after limit ix) = Inr (report', ix')"
    and "raw_rows_after after limit ix \<noteq> []"
  shows "rows_left (Some (row_uuid (last (raw_rows_after after limit ix)))) ix' \<subset> rows_left after ix"
proof -
  let ?rows = "raw_rows_after after limit ix"
  have "last ?rows \<in> set ?rows"
    using assms(2) by simp
  then have row: "last ?rows \<in> set (ix_events ix)"
    "case after of None \<Rightarrow> True | Some i \<Rightarrow> row_uuid (last ?rows) > i"
    using raw_rows_in by simp_all
  have "rows_left (Some (row_uuid (last ?rows))) ix' \<subseteq> rows_left after ix"
    using recover_rows_subset [OF assms(1)] row(2) by (auto simp: rows_left_def split: option.splits)
  moreover have "row_uuid (last ?rows) \<in> rows_left after ix - rows_left (Some (row_uuid (last ?rows))) ix'"
    using row by (auto simp: rows_left_def)
  ultimately show ?thesis
    by blast
qed

termination recover_chunks
proof (relation "measure (\<lambda>(after, _, ix). card (rows_left after ix))")
  fix after report ix rows p report' ix'
  assume rows: "rows = raw_rows_after after recovery_chunk_rows ix" "rows \<noteq> []"
    and run: "fold_result recover_row (report, ix) rows = Inr p" and p: "(report', ix') = p"
  have "rows_left (Some (row_uuid (last rows))) ix' \<subset> rows_left after ix"
    using rows_left_less [of report ix after recovery_chunk_rows report' ix'] rows run p by simp
  moreover have "finite (rows_left after ix)"
    by (rule finite_subset [of _ "row_uuid ` set (ix_events ix)"]) (auto simp: rows_left_def)
  ultimately show "((Some (row_uuid (last rows)), report', ix'), after, report, ix)
      \<in> measure (\<lambda>(after, _, ix). card (rows_left after ix))"
    by (simp add: psubset_card_mono)
qed simp

section \<open>Orphans\<close>

definition orphan_references :: "nat \<Rightarrow> metadata_index \<Rightarrow> timeline_row list" where
  "orphan_references limit ix = take limit (sort_key tl_observation_id (filter (\<lambda>row.
     to_kind (tl_observation row) = KindBrowserEvent \<and>
     \<not> list_ex (\<lambda>event. event_key (be_id (er_event event)) = payload_sort_key (to_payload (tl_observation row)))
       (ix_events ix)) (ix_timeline ix)))"

definition unavailable_orphan :: "timeline_observation \<Rightarrow> unavailable_range" where
  "unavailable_orphan observation = \<lparr>ur_session_id = to_session_id observation, ur_target_id = to_target_id observation,
     ur_range = \<lparr>range_start = to_session_time observation, range_end = to_session_time observation\<rparr>,
     ur_ordinals = None, ur_event_count = 1, ur_reason = CorruptDiscarded\<rparr>"

definition discard_reference :: "event_recovery_report \<times> metadata_index \<Rightarrow> timeline_row \<Rightarrow>
    krometrail_error + event_recovery_report \<times> metadata_index" where
  "discard_reference = (\<lambda>(report, ix) row. let observation = tl_observation row in
     and_then (decode_id (payload_sort_key (to_payload observation))) (\<lambda>event.
     if session_uuid (to_session_id observation) = 0 \<or> target_uuid (to_target_id observation) = 0 \<or> event = 0
     then Inl (persistence_error ''stored orphan event timeline identity is malformed'')
     else and_then (record_unavailable_tx (unavailable_orphan observation) ix) (\<lambda>ix.
       Inr (report\<lparr>rp_orphan_timeline_rows_discarded := rp_orphan_timeline_rows_discarded report + 1\<rparr>,
         ix\<lparr>ix_timeline := filter (\<lambda>r. tl_observation_id r \<noteq> tl_observation_id row) (ix_timeline ix)\<rparr>))))"

lemma discard_reference_timeline:
  assumes "discard_reference (report, ix) row = Inr (report', ix')"
  shows "ix_timeline ix' = filter (\<lambda>r. tl_observation_id r \<noteq> tl_observation_id row) (ix_timeline ix)"
    "ix_events ix' = ix_events ix" "ix_usage ix' = ix_usage ix"
  using assms by (auto simp: discard_reference_def Let_def and_then_Inr_iff split: if_splits)

lemma discard_references_timeline:
  assumes "fold_result discard_reference (report, ix) rows = Inr (report', ix')"
  shows "ix_timeline ix' = filter (\<lambda>r. tl_observation_id r \<notin> tl_observation_id ` set rows) (ix_timeline ix) \<and>
    ix_events ix' = ix_events ix \<and> ix_usage ix' = ix_usage ix"
  using assms
proof (induction rows arbitrary: report ix)
  case (Cons row rows)
  then obtain report1 ix1 where step: "discard_reference (report, ix) row = Inr (report1, ix1)"
    and rest: "fold_result discard_reference (report1, ix1) rows = Inr (report', ix')"
    by (auto simp: and_then_Inr_iff)
  show ?case
    using Cons.IH [OF rest] discard_reference_timeline [OF step] by (simp add: conj_commute)
qed simp

function (sequential) recover_orphan_timeline :: "event_recovery_report \<Rightarrow> metadata_index \<Rightarrow>
    (krometrail_error + event_recovery_report) \<times> metadata_index" where
  "recover_orphan_timeline report ix =
     (let rows = orphan_references recovery_chunk_rows ix in
      case fold_result discard_reference (report, ix) rows of
        Inl e \<Rightarrow> (Inl e, ix)
      | Inr (report', ix') \<Rightarrow>
          if length rows < recovery_chunk_rows then (Inr report', ix')
          else recover_orphan_timeline report' ix')"
  by pat_completeness auto

termination recover_orphan_timeline
proof (relation "measure (\<lambda>(_, ix). length (ix_timeline ix))")
  fix report ix rows p report' ix'
  assume rows: "rows = orphan_references recovery_chunk_rows ix" and run: "fold_result discard_reference (report, ix) rows = Inr p"
    and p: "(report', ix') = p" and full: "\<not> length rows < recovery_chunk_rows"
  have "rows \<noteq> []"
    using full by (auto simp: recovery_chunk_rows_def)
  then have "last rows \<in> set rows"
    by simp
  moreover from this have "last rows \<in> set (ix_timeline ix)"
    unfolding rows by (auto simp: orphan_references_def dest!: in_set_takeD)
  ultimately obtain row where row: "row \<in> set rows" "row \<in> set (ix_timeline ix)"
    by blast
  then have "length (filter (\<lambda>r. tl_observation_id r \<notin> tl_observation_id ` set rows) (ix_timeline ix)) < length (ix_timeline ix)"
    by (intro length_filter_less [of row]) auto
  then show "((report', ix'), report, ix) \<in> measure (\<lambda>(_, ix). length (ix_timeline ix))"
    using discard_references_timeline [of report ix rows report' ix'] run p [symmetric] by simp
qed simp

definition orphan_usage :: "nat \<Rightarrow> metadata_index \<Rightarrow> byte_string list" where
  "orphan_usage limit ix = take limit (sort (map us_object_key (filter (\<lambda>row. us_class row = UsageBrowserEvent \<and>
     \<not> list_ex (\<lambda>event. event_key (be_id (er_event event)) = us_object_key row) (ix_events ix)) (ix_usage ix))))"

definition discard_usage :: "byte_string list \<Rightarrow> metadata_index \<Rightarrow> metadata_index" where
  "discard_usage keys ix = ix\<lparr>ix_usage := filter (\<lambda>row. \<not> (us_class row = UsageBrowserEvent \<and>
     us_object_key row \<in> set keys)) (ix_usage ix)\<rparr>"

function (sequential) recover_orphan_usage :: "event_recovery_report \<Rightarrow> metadata_index \<Rightarrow>
    event_recovery_report \<times> metadata_index" where
  "recover_orphan_usage report ix =
     (let keys = orphan_usage recovery_chunk_rows ix;
          report' = report\<lparr>rp_orphan_usage_rows_removed := rp_orphan_usage_rows_removed report + length keys\<rparr>;
          ix' = discard_usage keys ix in
      if length keys < recovery_chunk_rows then (report', ix') else recover_orphan_usage report' ix')"
  by pat_completeness auto

lemma orphan_usage_rows:
  "key \<in> set (orphan_usage limit ix) \<Longrightarrow> \<exists>row \<in> set (ix_usage ix). us_class row = UsageBrowserEvent \<and> us_object_key row = key"
  by (auto simp: orphan_usage_def dest!: in_set_takeD)

termination recover_orphan_usage
proof (relation "measure (\<lambda>(_, ix). length (ix_usage ix))")
  fix report ix keys report' ix'
  assume keys: "keys = orphan_usage recovery_chunk_rows ix" and ix': "ix' = discard_usage keys ix"
    and full: "\<not> length keys < recovery_chunk_rows"
  have "keys \<noteq> []"
    using full by (auto simp: recovery_chunk_rows_def)
  then obtain key where key: "key \<in> set keys"
    by (cases keys) auto
  then obtain row where "row \<in> set (ix_usage ix)" "us_class row = UsageBrowserEvent" "us_object_key row = key"
    using orphan_usage_rows keys by metis
  then show "((report', ix'), report, ix) \<in> measure (\<lambda>(_, ix). length (ix_usage ix))"
    using key by (auto simp: ix' discard_usage_def intro!: length_filter_less)
qed simp

definition recover_browser_events :: "metadata_index \<Rightarrow>
    (krometrail_error + event_recovery_report) \<times> metadata_index" where
  "recover_browser_events ix = (case recover_chunks None empty_recovery_report ix of
     (Inl e, ix) \<Rightarrow> (Inl e, ix)
   | (Inr report, ix) \<Rightarrow> (case recover_orphan_timeline report ix of
       (Inl e, ix) \<Rightarrow> (Inl e, ix)
     | (Inr report, ix) \<Rightarrow> (case recover_orphan_usage report ix of (report, ix) \<Rightarrow> (Inr report, ix))))"

end
