(* ===== verification/Event_Consistency.thy ===== *)
theory Event_Consistency
  imports Index_Event_Queries Index_Event_Recovery "HOL-Library.Multiset"
begin

text \<open>
  The browser-event tables agree with each other: every stored event decodes to itself and the timeline
  holds exactly one reference to it and none to another event. Every transaction on events keeps this, so
  reading an event never fails.
\<close>

section \<open>Consistent tables\<close>

text \<open>What the types of an event's fields promise.\<close>

definition event_typed :: "browser_event \<Rightarrow> bool" where
  "event_typed event \<longleftrightarrow> be_attachment_generation event \<noteq> 0 \<and> event_ordinal_value (be_ordinal event) \<noteq> 0 \<and>
     wf_range (affected_range event) \<and>
     (ep_kind (be_payload event) = CollectionGapEvent \<longleftrightarrow> ep_gap (be_payload event) \<noteq> None) \<and>
     (ep_kind (be_payload event) = CaptureStatusChangedEvent \<longleftrightarrow> ep_capture_status (be_payload event) \<noteq> None)"

definition event_row_ok :: "event_row \<Rightarrow> bool" where
  "event_row_ok row \<longleftrightarrow> event_typed (er_event row) \<and> event_validate (er_event row) = Inr () \<and>
     accounted_bytes (er_event row) (length (ep_json (be_payload (er_event row)))) = Inr (er_accounted_bytes row) \<and>
     er_retention_sequence row \<noteq> 0"

definition event_references :: "metadata_index \<Rightarrow> timeline_observation list" where
  "event_references ix = filter (\<lambda>observation. to_kind observation = KindBrowserEvent) (map tl_observation (ix_timeline ix))"

definition event_id_of :: "event_row \<Rightarrow> browser_event_id" where
  "event_id_of row = be_id (er_event row)"

definition observation_of_row :: "event_row \<Rightarrow> timeline_observation" where
  "observation_of_row row = event_observation (er_event row)"

definition events_ok :: "metadata_index \<Rightarrow> bool" where
  "events_ok ix \<longleftrightarrow> distinct (map event_id_of (ix_events ix)) \<and> (\<forall>row \<in> set (ix_events ix). event_row_ok row) \<and>
     mset (event_references ix) = mset (map observation_of_row (ix_events ix)) \<and> 0 < ix_next_sequence ix \<and>
     distinct (map un_id (ix_unavailable ix))"

lemma event_validate_facts:
  assumes "event_validate event = Inr ()"
  shows "browser_event_uuid (be_id event) \<noteq> 0" "session_uuid (be_session_id event) \<noteq> 0"
    "target_uuid (be_target_id event) \<noteq> 0"
    "session_nanos (be_session_time event) \<le> observed_nanos (be_observed_time event)"
    "ep_contract (be_payload event) = Inr ()"
    "range_contains (affected_range event) (be_session_time event)"
  using assms by (auto simp: event_validate_def affected_range_def and_then_Inr_iff range_contains_def not_less
      split: if_splits option.splits)

lemma decode_scope_ok:
  assumes "event_row_ok row"
  shows "decode_scope row = Inr \<lparr>sc_event_id = be_id (er_event row), sc_session_id = be_session_id (er_event row),
    sc_target_id = be_target_id (er_event row), sc_ordinal = be_ordinal (er_event row),
    sc_session_time = be_session_time (er_event row)\<rparr>"
proof -
  let ?e = "er_event row"
  have typed: "event_typed ?e" and valid: "event_validate ?e = Inr ()"
    using assms by (simp_all add: event_row_ok_def)
  have "event_ordinal_new (event_ordinal_value (be_ordinal ?e)) = Inr (be_ordinal ?e)"
    using typed by (simp add: event_ordinal_new_def event_typed_def)
  moreover have "\<not> (range_start (affected_range ?e) > range_end (affected_range ?e))"
      "\<not> be_session_time ?e < range_start (affected_range ?e)" "\<not> be_session_time ?e > range_end (affected_range ?e)"
    using typed event_validate_facts(6) [OF valid]
    by (simp_all add: event_typed_def wf_range_def range_contains_iff not_less)
  moreover have "\<not> observed_nanos (be_observed_time ?e) < session_nanos (be_session_time ?e)"
    using event_validate_facts(4) [OF valid] by (simp add: not_less)
  ultimately show ?thesis
    using typed event_validate_facts(1-3) [OF valid] by (simp add: decode_scope_def event_typed_def Let_def)
qed

lemma decode_event_ok:
  assumes "event_row_ok row"
  shows "decode_event row = Inr (er_event row)"
proof -
  let ?e = "er_event row"
  have typed: "event_typed ?e" and valid: "event_validate ?e = Inr ()"
    using assms by (simp_all add: event_row_ok_def)
  have "(case be_source_time ?e of None \<Rightarrow> Inr None
        | Some source \<Rightarrow> map_err (\<lambda>_. persistence_error ''stored browser source timestamp is malformed'')
            (map_sum id Some (source_timestamp_new (st_clock source) (st_time source) (st_rounded source)))) =
      Inr (be_source_time ?e)"
    using valid by (auto simp: event_validate_def source_timestamp_new_def split: option.splits if_splits)
  moreover have "browser_event_new (?e\<lparr>be_source_time := be_source_time ?e\<rparr>) = Inr ?e"
    using valid typed by (simp add: browser_event_new_def event_typed_def)
  ultimately show ?thesis
    using assms decode_scope_ok [OF assms] event_validate_facts(5) [OF valid]
    by (simp add: decode_event_def Let_def event_row_ok_def)
qed

lemma event_observation_inject:
  "event_observation a = event_observation b \<Longrightarrow> be_id a = be_id b"
  by (simp add: event_observation_def)

lemma event_observation_kind [simp]: "to_kind (event_observation event) = KindBrowserEvent"
  "to_payload (event_observation event) = BrowserEventPayload (be_id event)"
  "to_session_id (event_observation event) = be_session_id event"
  by (simp_all add: event_observation_def)

lemma count_distinct_image:
  assumes "distinct (map f xs)" and "x \<in> set xs" and "\<And>a b. g a = g b \<Longrightarrow> f a = f b"
  shows "count (mset (map g xs)) (g x) = 1"
proof -
  have "distinct (map g xs)"
    using assms(1,3) unfolding distinct_map inj_on_def by blast
  then have "count (mset (map g xs)) (g x) = (if g x \<in> set (map g xs) then 1 else 0)"
    unfolding distinct_count_atmost_1 by blast
  then show ?thesis
    using assms(2) by simp
qed

lemma reference_count:
  assumes "to_kind observation = KindBrowserEvent"
  shows "length (filter (\<lambda>row. tl_observation row = observation) (ix_timeline ix)) =
    count (mset (event_references ix)) observation"
proof -
  have "length (filter (\<lambda>row. tl_observation row = observation) rows) =
      count (mset (filter (\<lambda>x. to_kind x = KindBrowserEvent) (map tl_observation rows))) observation" for rows
    using assms by (induction rows) auto
  then show ?thesis
    unfolding event_references_def .
qed

lemma reference_valid:
  assumes "events_ok ix" and "row \<in> set (ix_events ix)"
  shows "validate_timeline_reference ix (er_event row) = Inr ()"
proof -
  have "count (mset (map observation_of_row (ix_events ix))) (observation_of_row row) = 1"
    using assms by (intro count_distinct_image [where f = event_id_of])
      (auto simp: events_ok_def event_id_of_def observation_of_row_def dest: event_observation_inject)
  then show ?thesis
    using assms(1) by (simp add: validate_timeline_reference_def reference_count events_ok_def observation_of_row_def)
qed

lemma read_event_ok:
  assumes "events_ok ix" and "row \<in> set (ix_events ix)"
  shows "read_event ix row = Inr (er_event row)"
  using assms decode_event_ok [of row] reference_valid [OF assms]
  by (simp add: read_event_def events_ok_def)

lemma query_events_ok:
  assumes "events_ok ix" and "set rows \<subseteq> set (ix_events ix)"
  shows "query_events ix rows = Inr (map er_event rows)"
  using assms(2) by (induction rows) (simp_all add: query_events_def read_event_ok [OF assms(1)])

section \<open>Deleting events\<close>

lemma event_key_inject [simp]: "event_key i = event_key j \<longleftrightarrow> i = j"
proof
  assume "event_key i = event_key j"
  then have "decode_id (event_key i) = decode_id (event_key j)"
    by simp
  then show "i = j"
    by (simp add: event_key_def codec_round_trip browser_event_id.expand)
qed simp

lemma payload_key_event [simp]: "payload_sort_key (BrowserEventPayload i) = event_key i"
  by (simp add: payload_sort_key_def event_key_def)

lemma events_ok_filter:
  assumes ok: "events_ok ix" and events: "ix_events ix' = filter P (ix_events ix)"
    and refs: "event_references ix' = filter Q (event_references ix)"
    and same: "\<And>row. row \<in> set (ix_events ix) \<Longrightarrow> Q (observation_of_row row) \<longleftrightarrow> P row"
    and pos: "0 < ix_next_sequence ix'" and records: "distinct (map un_id (ix_unavailable ix'))"
  shows "events_ok ix'"
proof -
  have "mset (event_references ix') = filter_mset Q (mset (map observation_of_row (ix_events ix)))"
    using ok by (simp add: refs events_ok_def)
  also have "\<dots> = mset (filter Q (map observation_of_row (ix_events ix)))"
    by (rule mset_filter [symmetric])
  also have "filter Q (map observation_of_row (ix_events ix)) = map observation_of_row (filter P (ix_events ix))"
    unfolding filter_map o_def by (rule arg_cong [where f = "map observation_of_row"], rule filter_cong) (use same in auto)
  finally have "mset (event_references ix') = mset (map observation_of_row (ix_events ix'))"
    by (simp only: events)
  moreover have "distinct (map event_id_of (ix_events ix'))" "\<forall>row \<in> set (ix_events ix'). event_row_ok row"
    using ok by (auto simp: events events_ok_def distinct_map_filter)
  ultimately show ?thesis
    using pos records by (simp add: events_ok_def)
qed

lemma delete_event_references:
  "event_references (delete_event i ix) =
    filter (\<lambda>observation. payload_sort_key (to_payload observation) \<noteq> event_key i) (event_references ix)"
proof -
  have "filter (\<lambda>x. to_kind x = KindBrowserEvent) (map tl_observation (filter (\<lambda>row. \<not> references_event i row) rows)) =
      filter (\<lambda>x. payload_sort_key (to_payload x) \<noteq> event_key i)
        (filter (\<lambda>x. to_kind x = KindBrowserEvent) (map tl_observation rows))" for rows
    by (induction rows) (auto simp: references_event_def)
  then show ?thesis
    by (simp add: event_references_def delete_event_def remove_event_dependents_tx_def)
qed

lemma delete_event_ok:
  assumes "events_ok ix"
  shows "events_ok (delete_event i ix)"
  using assms by (rule events_ok_filter [OF _ _ delete_event_references])
    (use assms in \<open>simp_all add: observation_of_row_def events_ok_def delete_event_def remove_event_dependents_tx_def\<close>)

text \<open>Tables that agree on events and references.\<close>

definition same_event_tables :: "metadata_index \<Rightarrow> metadata_index \<Rightarrow> bool" where
  "same_event_tables ix ix' \<longleftrightarrow> ix_events ix' = ix_events ix \<and> event_references ix' = event_references ix \<and>
     ix_next_sequence ix \<le> ix_next_sequence ix' \<and>
     (distinct (map un_id (ix_unavailable ix)) \<longrightarrow> distinct (map un_id (ix_unavailable ix')))"

lemma same_event_tables_trans [trans]:
  "same_event_tables a b \<Longrightarrow> same_event_tables b c \<Longrightarrow> same_event_tables a c"
  by (simp add: same_event_tables_def)

lemma same_event_tables_refl [simp]: "same_event_tables ix ix"
  by (simp add: same_event_tables_def)

lemma same_event_tables_ok: "same_event_tables ix ix' \<Longrightarrow> events_ok ix \<Longrightarrow> events_ok ix'"
  by (simp add: same_event_tables_def events_ok_def)

lemma record_unavailable_same: "record_unavailable_tx new ix = Inr ix' \<Longrightarrow> same_event_tables ix ix'"
  by (simp add: same_event_tables_def event_references_def record_unavailable_distinct)

lemma evict_event_ok: "evict_event row ix = Inr ix' \<Longrightarrow> events_ok ix \<Longrightarrow> events_ok ix'"
  by (auto simp: evict_event_def and_then_Inr_iff intro: same_event_tables_ok record_unavailable_same delete_event_ok)

lemma evict_rows_ok:
  "evict_rows max_bytes required removed rows ix = Inr (freed, ix') \<Longrightarrow> events_ok ix \<Longrightarrow> events_ok ix'"
  by (induction max_bytes required removed rows ix rule: evict_rows.induct)
    (auto simp: and_then_Inr_iff evict_event_ok split: if_splits)

lemma evict_events_ok:
  "evict_events_tx before max_rows max_bytes required ix = Inr (freed, ix') \<Longrightarrow> events_ok ix \<Longrightarrow> events_ok ix'"
  by (auto simp: evict_events_tx_def evict_rows_ok split: if_splits)

section \<open>Writing events\<close>

lemma append_event_observation:
  assumes "append_observation_tx (event_observation event) ordinal ix = Inr ix'"
  shows "event_references ix' = event_references ix @ [event_observation event]"
  using assms by (auto simp: append_observation_tx_def Let_def event_references_def split: if_splits)

lemma timeline_observation_of_Inr: "timeline_observation_of event = Inr observation \<Longrightarrow> observation = event_observation event"
  by (auto simp: timeline_observation_of_def observation_new_def and_then_Inr_iff map_err_Inr_iff)

lemma ensure_timeline_frame:
  assumes "ensure_timeline_tx event ix = Inr ix'"
  shows "ix_events ix' = ix_events ix \<and> ix_usage ix' = ix_usage ix \<and> ix_unavailable ix' = ix_unavailable ix \<and>
    ix_next_sequence ix' = ix_next_sequence ix \<and>
    event_references ix' = event_references ix @
      (if list_ex (references_event (be_id event)) (ix_timeline ix) then [] else [event_observation event])"
  using assms by (auto simp: ensure_timeline_tx_def and_then_Inr_iff
      dest!: timeline_observation_of_Inr dest: append_observation_frame append_event_observation split: if_splits)

lemma ensure_usage_frame:
  assumes "ensure_usage_tx event bytes ix = Inr ix'"
  shows "ix_events ix' = ix_events ix \<and> ix_timeline ix' = ix_timeline ix \<and> ix_unavailable ix' = ix_unavailable ix \<and>
    ix_next_sequence ix' = ix_next_sequence ix"
  using assms by (auto simp: ensure_usage_tx_def split: option.splits if_splits)

lemma ensure_dependents_frame:
  assumes "ensure_event_dependents_tx event bytes ix = Inr ix'"
  shows "ix_events ix' = ix_events ix \<and> ix_unavailable ix' = ix_unavailable ix \<and>
    ix_next_sequence ix' = ix_next_sequence ix \<and>
    event_references ix' = event_references ix @
      (if list_ex (references_event (be_id event)) (ix_timeline ix) then [] else [event_observation event])"
  using assms by (auto simp: ensure_event_dependents_tx_def and_then_Inr_iff event_references_def
      dest!: ensure_timeline_frame ensure_usage_frame)

lemma reference_iff:
  assumes "events_ok ix"
  shows "list_ex (references_event i) (ix_timeline ix) \<longleftrightarrow> i \<in> event_id_of ` set (ix_events ix)"
proof -
  have "list_ex (references_event i) (ix_timeline ix) \<longleftrightarrow>
      (\<exists>observation \<in> set (event_references ix). payload_sort_key (to_payload observation) = event_key i)"
    by (auto simp: list_ex_iff event_references_def references_event_def)
  also have "set (event_references ix) = observation_of_row ` set (ix_events ix)"
    using assms by (metis events_ok_def list.set_map set_mset_mset)
  finally show ?thesis
    by (auto simp: observation_of_row_def event_id_of_def)
qed

text \<open>An event that is there already is only checked; another one is added with its reference.\<close>

lemma append_event_cases:
  assumes run: "append_event_tx event ix = Inr (bytes, ix')" and ok: "events_ok ix"
  obtains (replayed) row where "row \<in> set (ix_events ix)" "er_event row = event" "bytes = 0"
      "ix_events ix' = ix_events ix" "event_references ix' = event_references ix"
      "ix_unavailable ix' = ix_unavailable ix" "ix_next_sequence ix' = ix_next_sequence ix"
  | (inserted) "be_id event \<notin> event_id_of ` set (ix_events ix)"
      "accounted_bytes event (length (ep_json (be_payload event))) = Inr bytes"
      "ix_events ix' = ix_events ix @ [\<lparr>er_event = event, er_accounted_bytes = bytes, er_retention_sequence = ix_next_sequence ix\<rparr>]"
      "event_references ix' = event_references ix @ [event_observation event]"
      "ix_unavailable ix' = ix_unavailable ix" "ix_next_sequence ix' = ix_next_sequence ix + 1"
proof -
  let ?ix = "ensure_identity (be_session_id event) (be_target_id event) ix"
  have ok': "events_ok ?ix"
    using ok by (simp add: events_ok_def event_references_def)
  have conflicts: "set (conflicting_rows event ?ix) = {row \<in> set (ix_events ix). event_conflict event row}"
    by (simp add: conflicting_rows_def)
  consider (none) "conflicting_rows event ?ix = []" "insert_event event ?ix = Inr (bytes, ix')"
    | (one) row where "conflicting_rows event ?ix = [row]" "decode_event row = Inr event" "bytes = 0"
        "ensure_event_dependents_tx event (er_accounted_bytes row) ?ix = Inr ix'"
    using run by (auto simp: append_event_tx_def Let_def and_then_Inr_iff split: list.splits if_splits)
  then show thesis
  proof cases
    case none
    have new: "be_id event \<notin> event_id_of ` set (ix_events ix)"
      using none(1) conflicts by (auto simp: event_conflict_def event_id_of_def)
    let ?row = "\<lparr>er_event = event, er_accounted_bytes = bytes, er_retention_sequence = ix_next_sequence ix\<rparr>"
    let ?start = "(?ix\<lparr>ix_next_sequence := ix_next_sequence ix + 1, ix_events := ix_events ix @ [?row]\<rparr>)"
    have bytes: "accounted_bytes event (length (ep_json (be_payload event))) = Inr bytes"
      and deps: "ensure_event_dependents_tx event bytes ?start = Inr ix'"
      using none(2) by (auto simp: insert_event_def Let_def and_then_Inr_iff split: if_splits)
    have "\<not> list_ex (references_event (be_id event)) (ix_timeline ?start)"
      using reference_iff [OF ok'] new by simp
    then show thesis
      using ensure_dependents_frame [OF deps] new bytes by (intro inserted) (simp_all add: event_references_def)
  next
    case one
    have row: "row \<in> set (ix_events ix)"
      using one(1) conflicts by auto
    then have "er_event row = event"
      using one(2) ok decode_event_ok [of row] by (simp add: events_ok_def)
    moreover have "list_ex (references_event (be_id event)) (ix_timeline ?ix)"
      using reference_iff [OF ok'] row calculation by (force simp: event_id_of_def)
    ultimately show thesis
      using ensure_dependents_frame [OF one(4)] row one(3)
      by (intro replayed [of row]) (simp_all add: event_references_def)
  qed
qed

lemma append_event_ok:
  assumes run: "append_event_tx event ix = Inr (bytes, ix')" and ok: "events_ok ix"
    and event: "event_typed event" "event_validate event = Inr ()"
  shows "events_ok ix'"
  using run ok
proof (cases rule: append_event_cases)
  case (replayed row)
  then show ?thesis
    using ok by (simp add: events_ok_def)
next
  case inserted
  then show ?thesis
    using ok event by (simp add: events_ok_def event_row_ok_def event_id_of_def observation_of_row_def)
qed

lemma append_valid_event_ok:
  assumes "append_valid_event (inserted, ix) event = Inr (inserted', ix')" and "events_ok ix" and "event_typed event"
  shows "events_ok ix'"
  using assms by (auto simp: append_valid_event_def and_then_Inr_iff map_err_Inr_iff intro: append_event_ok)

lemma append_batch_ok:
  assumes run: "append_browser_event_batch batch_bytes budget usage batch ix = Inr ix'" and ok: "events_ok ix"
    and typed: "\<forall>event \<in> set (eb_events batch). event_typed event"
  shows "events_ok ix'"
proof -
  obtain inserted ix1 where written: "fold_result append_valid_event (0, ix) (eb_events batch) = Inr (inserted, ix1)"
    and rest: "ix' = ix1 \<or> (\<exists>needed freed. evict_events_tx None max_event_eviction_rows max_event_eviction_bytes
      (Some needed) ix1 = Inr (freed, ix'))"
    using run by (auto simp: append_browser_event_batch_def and_then_Inr_iff split: if_splits)
  have "events_ok (snd (inserted, ix1))"
    using written
    by (rule fold_result_invariant) (use ok typed append_valid_event_ok in \<open>auto split: prod.splits\<close>)
  then show ?thesis
    using rest evict_events_ok by auto
qed

end
