(* ===== verification/Range_Correct.thy ===== *)
theory Range_Correct
  imports Range_Resolver
begin

text \<open>
  What the steps of a resolution establish: the frames that pass validation, the range retention
  leaves of the requested one, the warnings, the clipped gaps, and the parts of a finished resolution.
\<close>

section \<open>Ranges and lists\<close>

abbreviation within :: "session_range \<Rightarrow> session_range \<Rightarrow> bool" where
  "within inner outer \<equiv> range_start outer \<le> range_start inner \<and> range_end inner \<le> range_end outer"

lemma intersection_Inr_iff [result_simps]:
  "intersection left right = Inr r \<longleftrightarrow>
     max (range_start left) (range_start right) \<le> min (range_end left) (range_end right) \<and>
     r = \<lparr>range_start = max (range_start left) (range_start right),
          range_end = min (range_end left) (range_end right)\<rparr>"
  by (auto simp: intersection_def result_simps)

lemma collect_results_all2: "collect_results f xs = Inr ys \<longleftrightarrow> list_all2 (\<lambda>x y. f x = Inr y) xs ys"
  by (induction xs arbitrary: ys) (auto simp: result_simps list_all2_Cons1)

lemma range_expand: "range_start r = range_start q \<Longrightarrow> range_end r = range_end q \<Longrightarrow> r = (q :: session_range)"
  by simp

lemma validate_each_Inr:
  "validate_each seed evicted ids frames = Inr () \<longleftrightarrow>
     (\<forall>frame \<in> set frames. cf_session_id frame = sd_session_id seed \<and> cf_target_id frame = sd_target_id seed \<and>
        range_contains (sd_requested_range seed) (cf_session_time frame) \<and> cf_id frame \<notin> set ids \<and>
        (\<forall>e \<in> set evicted. \<not> range_contains e (cf_session_time frame))) \<and>
     distinct (map cf_id frames)"
  by (induction frames arbitrary: ids) (auto simp: list_ex_iff, metis image_eqI)

lemma validate_frames_Inr:
  "validate_frame_metadata seed frames evicted = Inr () \<longleftrightarrow>
     (\<forall>frame \<in> set frames. cf_session_id frame = sd_session_id seed \<and> cf_target_id frame = sd_target_id seed \<and>
        range_contains (sd_requested_range seed) (cf_session_time frame) \<and>
        (\<forall>e \<in> set evicted. \<not> range_contains e (cf_session_time frame))) \<and>
     distinct (map cf_id frames) \<and>
     \<not> adjacent (\<lambda>first second. ordinal_value (cf_capture_ordinal first) \<ge> ordinal_value (cf_capture_ordinal second)) frames"
  by (auto simp: validate_frame_metadata_def result_simps validate_each_Inr)

section \<open>Retention\<close>

lemma fit_to_bounds_Inr:
  "fit_to_bounds seed candidate retained has_evictions options = Inr resolved \<longleftrightarrow>
     (if range_start retained > range_start candidate \<or> range_end retained < range_end candidate
      then ro_retention options = AllowPartial \<and> ranges_intersect candidate retained \<and>
        intersection candidate retained = Inr resolved
      else resolved = candidate)"
  by (auto simp: fit_to_bounds_def clamp_partial_range_def and_then_Inr_iff ok_or_Inr_iff)

lemma classify_cases:
  assumes "classify_retention seed frames availability options now = Inr (resolved, warnings)"
  obtains retained intersecting candidate where
    "fa_retained_bounds availability = Some retained"
    "list_all2 (\<lambda>e i. intersection e (sd_requested_range seed) = Inr i)
       (filter (\<lambda>e. ranges_intersect e (sd_requested_range seed)) (fa_evicted_ranges availability)) intersecting"
    "intersecting = [] \<or> ro_retention options \<noteq> RequireComplete"
    "candidate_range seed frames intersecting retained = Inr candidate"
    "fit_to_bounds seed candidate retained (intersecting \<noteq> []) options = Inr resolved"
    "\<forall>i \<in> set intersecting. \<not> ranges_intersect i resolved"
    "warnings = retention_warnings (sd_requested_range seed) candidate resolved intersecting now"
  using assms
  by (auto simp: classify_retention_def Let_def and_then_Inr_iff ok_or_Inr_iff collect_results_all2 list_ex_iff
      split: if_split_asm)

lemma candidate_within:
  assumes "candidate_range seed frames intersecting retained = Inr candidate"
    and "\<forall>frame \<in> set frames. range_contains (sd_requested_range seed) (cf_session_time frame)"
    and "frames \<noteq> []"
  shows "within candidate (sd_requested_range seed) \<and> wf_range candidate"
  using assms
  by (auto simp: candidate_range_def Let_def result_simps range_contains_iff wf_range_def)

lemma fit_within:
  assumes "fit_to_bounds seed candidate retained has_evictions options = Inr resolved" and "wf_range candidate"
  shows "within resolved candidate \<and> wf_range resolved \<and> within resolved retained \<and>
    (ro_retention options = RequireComplete \<longrightarrow> resolved = candidate)"
  using assms by (auto simp: fit_to_bounds_Inr intersection_Inr_iff wf_range_def not_less split: if_splits)

lemma list_all2_member:
  assumes "list_all2 P xs ys"
  shows "x \<in> set xs \<Longrightarrow> \<exists>y \<in> set ys. P x y" "y \<in> set ys \<Longrightarrow> \<exists>x \<in> set xs. P x y"
  using assms by (induction rule: list_all2_induct) auto

lemma warnings_empty:
  "retention_warnings requested candidate resolved intersecting now = [] \<longleftrightarrow>
     range_start resolved \<le> range_start requested \<and> range_end requested \<le> range_end resolved \<and>
     intersecting = [] \<and> resolved = candidate"
  by (auto simp: retention_warnings_def not_less)

text \<open>What is left of a requested range, and why.\<close>

lemma classify_effect:
  assumes "classify_retention seed frames availability options now = Inr (resolved, warnings)"
    and "validate_frame_metadata seed frames (fa_evicted_ranges availability) = Inr ()" and "frames \<noteq> []"
  shows "within resolved (sd_requested_range seed)" "wf_range resolved"
    "\<exists>retained. fa_retained_bounds availability = Some retained \<and> within resolved retained"
    "\<forall>e \<in> set (fa_evicted_ranges availability). \<not> ranges_intersect e resolved"
    "ro_retention options = RequireComplete \<Longrightarrow> resolved = sd_requested_range seed"
    "warnings = [] \<longleftrightarrow> resolved = sd_requested_range seed"
proof -
  let ?requested = "sd_requested_range seed"
  obtain retained intersecting candidate where bounds: "fa_retained_bounds availability = Some retained"
    and inter: "list_all2 (\<lambda>e i. intersection e ?requested = Inr i)
       (filter (\<lambda>e. ranges_intersect e ?requested) (fa_evicted_ranges availability)) intersecting"
    and complete: "intersecting = [] \<or> ro_retention options \<noteq> RequireComplete"
    and cand: "candidate_range seed frames intersecting retained = Inr candidate"
    and fit: "fit_to_bounds seed candidate retained (intersecting \<noteq> []) options = Inr resolved"
    and clear: "\<forall>i \<in> set intersecting. \<not> ranges_intersect i resolved"
    and warn: "warnings = retention_warnings ?requested candidate resolved intersecting now"
    by (rule classify_cases [OF assms(1)])
  have candidate: "within candidate ?requested" "wf_range candidate"
    using candidate_within [OF cand _ assms(3)] assms(2) by (simp_all add: validate_frames_Inr)
  note fitted = fit_within [OF fit candidate(2)]
  show within: "within resolved ?requested" and "wf_range resolved"
    using fitted candidate(1) by auto
  show "\<exists>retained. fa_retained_bounds availability = Some retained \<and> within resolved retained"
    using bounds fitted by blast
  show "\<forall>e \<in> set (fa_evicted_ranges availability). \<not> ranges_intersect e resolved"
  proof (intro ballI notI)
    fix e
    assume e: "e \<in> set (fa_evicted_ranges availability)" "ranges_intersect e resolved"
    then have "ranges_intersect e ?requested"
      using within by (auto simp: ranges_intersect_def)
    then obtain i where "i \<in> set intersecting" "intersection e ?requested = Inr i"
      using list_all2_member(1) [OF inter, of e] e(1) by auto
    moreover from this have "ranges_intersect i resolved"
      using e(2) within fitted by (auto simp: intersection_Inr_iff ranges_intersect_def wf_range_def)
    ultimately show False
      using clear by blast
  qed
  have whole: "candidate = ?requested" if "intersecting = []"
    using cand that by (simp add: candidate_range_def Let_def result_simps)
  show "ro_retention options = RequireComplete \<Longrightarrow> resolved = ?requested"
    using complete whole fitted by auto
  show "warnings = [] \<longleftrightarrow> resolved = ?requested"
  proof
    assume "resolved = ?requested"
    moreover have "ranges_intersect i ?requested" if i: "i \<in> set intersecting" for i
    proof -
      obtain e where "intersection e ?requested = Inr i"
        using list_all2_member(2) [OF inter i] by blast
      then show ?thesis
        by (auto simp: intersection_Inr_iff ranges_intersect_def)
    qed
    ultimately have "intersecting = []"
      using clear by (cases intersecting) auto
    then show "warnings = []"
      using whole \<open>resolved = ?requested\<close> by (simp add: warn warnings_empty)
  next
    assume "warnings = []"
    then have "intersecting = []" "resolved = candidate"
      unfolding warn warnings_empty by blast+
    then show "resolved = ?requested"
      using whole by simp
  qed
qed

section \<open>Gaps\<close>

definition clipped_gap :: "session_range \<Rightarrow> capture_gap \<Rightarrow> capture_gap" where
  "clipped_gap interval gap = gap\<lparr>gap_range :=
     \<lparr>range_start = max (range_start (gap_range gap)) (range_start interval),
      range_end = min (range_end (gap_range gap)) (range_end interval)\<rparr>\<rparr>"

lemma session_time_max_min:
  "SessionTime (max (session_nanos s) (session_nanos t)) = max s t"
  "SessionTime (min (session_nanos s) (session_nanos t)) = min s t"
  by (simp_all add: max_def min_def)

lemma clip_gap_Inr:
  "clip_gap interval gap = Inr out \<Longrightarrow>
    (if ranges_intersect (gap_range gap) interval then out = Some (clipped_gap interval gap)
     else out = None \<and> gap_estimated_missing_frames gap = None)"
  by (auto simp: clip_gap_def result_simps capture_gap_new_def clipped_gap_def session_time_max_min split: if_splits)

lemma clip_gaps_Inr:
  assumes "clip_capture_gaps gaps interval = Inr clipped"
  shows "clipped = map (clipped_gap interval) (filter (\<lambda>gap. ranges_intersect (gap_range gap) interval) gaps)"
proof -
  obtain outs where "collect_results (clip_gap interval) gaps = Inr outs" "clipped = List.map_filter id outs"
    using assms by (auto simp: clip_capture_gaps_def result_simps)
  moreover from this(1) have "List.map_filter id outs =
      map (clipped_gap interval) (filter (\<lambda>gap. ranges_intersect (gap_range gap) interval) gaps)"
  proof (induction gaps arbitrary: outs)
    case (Cons gap gaps)
    then obtain out rest where "clip_gap interval gap = Inr out" "collect_results (clip_gap interval) gaps = Inr rest"
      "outs = out # rest"
      by (auto simp: result_simps)
    then show ?case
      using clip_gap_Inr [of interval gap out] Cons.IH [of rest]
      by (cases "ranges_intersect (gap_range gap) interval") (simp_all add: map_filter_simps)
  qed (simp add: map_filter_simps)
  ultimately show ?thesis
    by simp
qed

lemma clip_gap_total:
  assumes "wf_gap gap" and "wf_range interval"
    and "ranges_intersect (gap_range gap) interval \<or> gap_estimated_missing_frames gap = None"
  shows "\<exists>out. clip_gap interval gap = Inr out"
proof (cases "ranges_intersect (gap_range gap) interval")
  case True
  let ?s = "max (range_start (gap_range gap)) (range_start interval)"
  let ?e = "min (range_end (gap_range gap)) (range_end interval)"
  have "?s \<le> ?e"
    using True assms(1,2) by (simp add: ranges_intersect_def wf_gap_def wf_range_def)
  moreover have "session_nanos ?e \<le> session_nanos (range_end (gap_range gap))"
    by simp
  then have "capture_gap_validate (gap\<lparr>gap_range := \<lparr>range_start = ?s, range_end = ?e\<rparr>\<rparr>) = Inr ()"
    using assms(1) by (auto simp: wf_gap_def capture_gap_validate_def not_less simp del: session_nanos_simps
        split: if_splits intro: order_trans)
  ultimately show ?thesis
    using True by (simp add: clip_gap_def session_time_max_min session_range_new_def capture_gap_new_def not_less
        del: max.bounded_iff min.bounded_iff)
qed (use assms in \<open>simp add: clip_gap_def\<close>)

section \<open>A finished resolution\<close>

lemma conclude_Inr:
  assumes "conclude_range ports seed options availability frames resolved warnings = Inr r"
  shows "(\<exists>gaps. rp_gaps ports (sd_session_id seed) (sd_target_id seed) resolved = Inr gaps \<and>
      clip_capture_gaps gaps resolved = Inr (rr_gaps r))"
    "ro_capture_gaps options = RejectGaps \<Longrightarrow> rr_gaps r = []"
    "rr_resolved_range r = resolved" "rr_session_id r = sd_session_id seed" "rr_target_id r = sd_target_id seed"
    "rr_requested_range r = sd_requested_range seed" "rr_anchor_kind r = sd_anchor_kind seed"
    "rr_frame_ids r = map cf_id (filter (\<lambda>frame. range_contains resolved (cf_session_time frame)) frames)"
    "rr_retention_warnings r = warnings" "rr_options r = options" "rr_frame_ids r \<noteq> []"
    "resolved_range_validate r = Inr ()"
    "\<exists>observations. rp_timeline_range ports (sd_session_id seed) (sd_target_id seed) resolved = Inr observations \<and>
      rr_interaction_ids r = interactions_of observations \<and>
      rr_navigation_ids r = navigations_of observations \<and> rr_marker_ids r = markers_of observations"
  using assms
  by (auto simp: conclude_range_def resolved_range_new_with_anchor_def Let_def and_then_Inr_iff split: if_split_asm)

lemma finalize_cases:
  assumes "finalize_range ports seed options = Inr r"
  obtains availability now frames where
    "rp_frame_availability ports (sd_session_id seed) (sd_target_id seed) = Inr availability"
    "live_session_now ports (sd_session_id seed) availability = Inr now"
    "frames_of_seed ports seed = Inr frames" "frames \<noteq> []"
    "validate_frame_metadata seed frames (fa_evicted_ranges availability) = Inr ()"
    "classify_retention seed frames availability options now = Inr (rr_resolved_range r, rr_retention_warnings r)"
    "conclude_range ports seed options availability frames (rr_resolved_range r) (rr_retention_warnings r) = Inr r"
proof -
  obtain availability now frames resolved warnings where
    "rp_frame_availability ports (sd_session_id seed) (sd_target_id seed) = Inr availability"
    "live_session_now ports (sd_session_id seed) availability = Inr now"
    "frames_of_seed ports seed = Inr frames" "frames \<noteq> []"
    "validate_frame_metadata seed frames (fa_evicted_ranges availability) = Inr ()"
    "classify_retention seed frames availability options now = Inr (resolved, warnings)"
    "conclude_range ports seed options availability frames resolved warnings = Inr r"
    using assms by (auto simp: finalize_range_def and_then_Inr_iff split: if_split_asm)
  then show thesis
    using that conclude_Inr(3,9) by metis
qed

end
