(* ===== verification/Index_Steps.thy ===== *)
theory Index_Steps
  imports Event_Consistency Range_Correct
begin

text \<open>
  The life of a metadata index: the transactions the store runs on it, one after another, from the empty
  index. Beside the index runs the list of captured frames: those indexed, less those of a deleted
  session and those whose rows recovery removed. The invariant ties the two together.
\<close>

section \<open>Transactions\<close>

datatype (plugins only: code) index_op =
    IndexFrame int encoded_frame frame_write_commit
  | RegisterSegment int segment_registration
  | AppendGap capture_gap
  | AppendObservation timeline_observation
  | AppendEvidence interaction_anchor observed_time "navigation_id option"
  | PutSession recording_session
  | NoteTerminalSession recording_session
  | PutTarget session_id page_target
  | PinResolvedRange retention_pin_request
  | UnpinResolvedRange retention_range
  | PinRange retention_range
  | UnpinRange retention_range
  | StageArtifact int artifact_parts
  | FinalizeArtifact artifact_id byte_string session_id target_id "frame_id list"
  | PrepareDeletion uuid deletion_kind "session_id option" "deletion_object list"
  | RemoveDeletionMetadata deletion_batch
  | FinalizeDeletion deletion_batch
  | RemoveFrameRows segment_id "byte_offset option"
  | RemoveSegment segment_id
  | AppendEvents nat u64 u64 event_batch
  | EvictEvents "nat option"
  | RecoverEvents

definition apply_op :: "index_op \<Rightarrow> metadata_index \<Rightarrow> krometrail_error + metadata_index" where
  "apply_op op ix = (case op of
     IndexFrame now frame commit \<Rightarrow> map_sum id snd (index_frame_tx now frame commit ix)
   | RegisterSegment now reg \<Rightarrow> Inr (snd (register_segment_tx now reg ix))
   | AppendGap gap \<Rightarrow> append_gap gap ix
   | AppendObservation observation \<Rightarrow> timeline_append observation ix
   | AppendEvidence anchor at navigation \<Rightarrow> append_operation_evidence anchor at navigation ix
   | PutSession session \<Rightarrow> Inr (put_session session ix)
   | NoteTerminalSession session \<Rightarrow> Inr (note_terminal_session session ix)
   | PutTarget session target \<Rightarrow> Inr (put_target session target ix)
   | PinResolvedRange request \<Rightarrow> map_sum id snd (pin_resolved_range request ix)
   | UnpinResolvedRange request \<Rightarrow> Inr (snd (unpin_resolved_range request ix))
   | PinRange request \<Rightarrow> map_sum id snd (pin_range request ix)
   | UnpinRange request \<Rightarrow> map_sum id snd (unpin_range request ix)
   | StageArtifact now parts \<Rightarrow> map_sum id snd (stage_artifact_parts now parts ix)
   | FinalizeArtifact i key session target sources \<Rightarrow>
       map_sum id snd (finalize_artifact i key session target sources ix)
   | PrepareDeletion i kind session objects \<Rightarrow> map_sum id snd (prepare_deletion i kind session objects ix)
   | RemoveDeletionMetadata batch \<Rightarrow> map_sum id snd (remove_deletion_metadata batch ix)
   | FinalizeDeletion batch \<Rightarrow> Inr (finalize_deletion batch ix)
   | RemoveFrameRows segment at \<Rightarrow> map_sum id snd (remove_frame_rows segment at ix)
   | RemoveSegment segment \<Rightarrow> remove_segment segment ix
   | AppendEvents bytes budget usage batch \<Rightarrow> append_browser_event_batch bytes budget usage batch ix
   | EvictEvents before \<Rightarrow> map_sum id snd (evict_oldest_browser_events before ix)
   | RecoverEvents \<Rightarrow> Inr (snd (recover_browser_events ix)))"

text \<open>
  What the callers keep to: a frame is one the constructors build, a segment holds the frames of one
  session and target, and a session's deletion lists segments of that session (\<open>delete_session\<close> takes
  them from \<open>session_segments\<close>), an eviction names no session, and an event has the values its types
  allow.
\<close>

definition commit_ok :: "encoded_frame \<Rightarrow> frame_write_commit \<Rightarrow> metadata_index \<Rightarrow> bool" where
  "commit_ok frame commit ix \<longleftrightarrow> wf_encoded_frame frame \<and>
     list_all (\<lambda>row. fw_segment_id row = addr_segment (fc_address commit) \<longrightarrow>
       of_scope (cf_session_id (ef_metadata frame)) (cf_target_id (ef_metadata frame)) row) (ix_frames ix)"

definition batch_ok :: "deletion_batch \<Rightarrow> metadata_index \<Rightarrow> bool" where
  "batch_ok batch ix \<longleftrightarrow> (case db_session_id batch of
     None \<Rightarrow> db_kind batch = Eviction
   | Some session \<Rightarrow> db_kind batch = SessionDeletion \<and>
       list_all (\<lambda>object. case do_kind object of
           ArtifactObject _ \<Rightarrow> True
         | SegmentObject segment \<Rightarrow> list_all (\<lambda>row. cf_session_id (fw_metadata row) = session)
             (frames_of_segment segment ix)) (db_objects batch))"

definition op_ok :: "index_op \<Rightarrow> metadata_index \<Rightarrow> bool" where
  "op_ok op ix = (case op of
     IndexFrame now frame commit \<Rightarrow> commit_ok frame commit ix
   | RemoveDeletionMetadata batch \<Rightarrow> batch_ok batch ix
   | AppendEvents bytes budget usage batch \<Rightarrow> \<forall>event \<in> set (eb_events batch). event_typed event
   | _ \<Rightarrow> True)"

definition captured_after :: "index_op \<Rightarrow> metadata_index \<Rightarrow> captured_frame list \<Rightarrow> captured_frame list" where
  "captured_after op ix captured = (case op of
     IndexFrame now frame commit \<Rightarrow> captured @ [ef_metadata frame]
   | RemoveDeletionMetadata batch \<Rightarrow>
       (case db_session_id batch of
          None \<Rightarrow> captured
        | Some session \<Rightarrow>
            if db_state batch = MetadataRemoved then captured
            else filter (\<lambda>frame. cf_session_id frame \<noteq> session) captured)
   | RemoveFrameRows segment at \<Rightarrow>
       (case remove_frame_rows segment at ix of
          Inl _ \<Rightarrow> captured
        | Inr (ids, _) \<Rightarrow> filter (\<lambda>frame. cf_id frame \<notin> set ids) captured)
   | _ \<Rightarrow> captured)"

inductive index_history :: "metadata_index \<Rightarrow> captured_frame list \<Rightarrow> bool" where
  opened: "index_history empty_index []"
| applied: "index_history ix captured \<Longrightarrow> op_ok op ix \<Longrightarrow> apply_op op ix = Inr ix' \<Longrightarrow>
    index_history ix' (captured_after op ix captured)"

section \<open>Invariant\<close>

text \<open>A stored session or target is stored under its own identifier.\<close>

definition catalog_ok :: "metadata_index \<Rightarrow> bool" where
  "catalog_ok ix \<longleftrightarrow>
     (\<forall>s r. ix_sessions ix s = Some (Some r) \<longrightarrow> rs_id r = s) \<and>
     (\<forall>s t r. ix_targets ix (s, t) = Some (Some r) \<longrightarrow> pt_id r = t) \<and>
     (\<forall>s r. ix_terminal_overrides ix s = Some r \<longrightarrow> rs_id r = s)"

definition one_scope :: "frame_row list \<Rightarrow> bool" where
  "one_scope rows \<longleftrightarrow> (\<forall>a \<in> set rows. \<forall>b \<in> set rows. fw_segment_id a = fw_segment_id b \<longrightarrow>
     of_scope (cf_session_id (fw_metadata a)) (cf_target_id (fw_metadata a)) b)"

definition frames_ok :: "frame_row list \<Rightarrow> bool" where
  "frames_ok rows \<longleftrightarrow>
     distinct (map (\<lambda>row. cf_id (fw_metadata row)) rows) \<and>
     distinct (map (\<lambda>row. (cf_session_id (fw_metadata row), cf_target_id (fw_metadata row),
       cf_capture_ordinal (fw_metadata row))) rows) \<and>
     (\<forall>row \<in> set rows. wf_captured_frame (fw_metadata row)) \<and> one_scope rows"

text \<open>Every captured frame is still there or its instant is recorded as evicted.\<close>

definition accounted :: "captured_frame list \<Rightarrow> metadata_index \<Rightarrow> bool" where
  "accounted captured ix \<longleftrightarrow> (\<forall>frame \<in> set captured.
     (\<exists>row \<in> set (ix_frames ix). fw_metadata row = frame) \<or>
     cf_session_time frame \<in> evicted_instants (cf_session_id frame) (cf_target_id frame) (ix_evicted ix))"

definition index_ok :: "metadata_index \<Rightarrow> bool" where
  "index_ok ix \<longleftrightarrow> catalog_ok ix \<and> frames_ok (ix_frames ix) \<and> evicted_ok (ix_evicted ix)"

definition same_evidence_tables :: "metadata_index \<Rightarrow> metadata_index \<Rightarrow> bool" where
  "same_evidence_tables ix ix' \<longleftrightarrow> ix_frames ix' = ix_frames ix \<and> ix_evicted ix' = ix_evicted ix \<and>
     (catalog_ok ix \<longrightarrow> catalog_ok ix')"

lemma same_tables_trans [trans]:
  "same_evidence_tables a b \<Longrightarrow> same_evidence_tables b c \<Longrightarrow> same_evidence_tables a c"
  by (simp add: same_evidence_tables_def)

lemma same_tables_refl [simp]: "same_evidence_tables ix ix"
  by (simp add: same_evidence_tables_def)

lemma same_tables_keep:
  "same_evidence_tables ix ix' \<Longrightarrow> index_ok ix \<Longrightarrow> index_ok ix'"
  "same_evidence_tables ix ix' \<Longrightarrow> accounted captured ix \<Longrightarrow> accounted captured ix'"
  by (simp_all add: same_evidence_tables_def index_ok_def accounted_def)

end
