(* ===== verification/Index_Effects.thy ===== *)
theory Index_Effects
  imports Index_Steps
begin

text \<open>
  The transactions that leave the frame, eviction and catalog tables alone: segment registration, the
  timeline, gaps, interactions, pins, artifacts, the deletion journal, the catalog and browser events.
\<close>

section \<open>Transactions beside the evidence tables\<close>

lemma ensure_same: "same_evidence_tables ix (ensure_identity s t ix)"
  by (auto simp: same_evidence_tables_def ensure_identity_def ensure_session_def Let_def catalog_ok_def)

lemma upsert_same: "same_evidence_tables ix (upsert_segment now reg ix)"
  by (simp add: upsert_segment_def same_evidence_tables_def catalog_ok_def split: option.split)

lemma register_same:
  assumes "register_segment_tx now reg ix = (delta, ix')"
  shows "same_evidence_tables ix ix'"
proof -
  let ?ix = "upsert_segment now reg (ensure_identity (sr_session_id reg) (sr_target_id reg) ix)"
  obtain rows where ix': "ix' = ?ix\<lparr>ix_usage := rows\<rparr>"
    using assms unfolding register_segment_tx_def Let_def prod.inject by blast
  have "same_evidence_tables ix ?ix"
    using ensure_same upsert_same same_tables_trans by blast
  also have "same_evidence_tables ?ix ix'"
    unfolding ix' by (simp add: same_evidence_tables_def catalog_ok_def)
  finally show ?thesis .
qed

lemma append_observation_same:
  assumes "append_observation_tx observation ordinal ix = Inr ix'"
  shows "same_evidence_tables ix ix'"
proof -
  have "same_evidence_tables (ensure_identity (to_session_id observation) (to_target_id observation) ix) ix'"
    using assms by (auto simp: append_observation_tx_def Let_def and_then_Inr_iff same_evidence_tables_def
        catalog_ok_def split: option.splits if_splits)
  then show ?thesis
    using ensure_same same_tables_trans by blast
qed

lemma append_gap_same:
  assumes "append_gap gap ix = Inr ix'"
  shows "same_evidence_tables ix ix'"
proof -
  let ?ix = "ensure_identity (gap_session_id gap) (gap_target_id gap) ix"
  obtain observation where "append_observation_tx observation None (?ix\<lparr>ix_gaps := ix_gaps ?ix @ [gap]\<rparr>) = Inr ix'"
    using assms by (auto simp: append_gap_def Let_def and_then_Inr_iff split: if_splits)
  then have "same_evidence_tables (?ix\<lparr>ix_gaps := ix_gaps ?ix @ [gap]\<rparr>) ix'"
    by (rule append_observation_same)
  moreover have "same_evidence_tables ?ix (?ix\<lparr>ix_gaps := ix_gaps ?ix @ [gap]\<rparr>)"
    by (simp add: same_evidence_tables_def catalog_ok_def)
  ultimately show ?thesis
    using ensure_same same_tables_trans by blast
qed

lemma evidence_parts_same:
  "insert_interaction anchor ix = Inr ix' \<Longrightarrow> same_evidence_tables ix ix'"
  "append_boundary anchor at ix t = Inr ix' \<Longrightarrow> same_evidence_tables ix ix'"
  "append_navigation anchor at navigation ix = Inr ix' \<Longrightarrow> same_evidence_tables ix ix'"
  subgoal
    by (auto simp: insert_interaction_def and_then_Inr_iff same_evidence_tables_def catalog_ok_def
        split: option.splits if_splits)
  by (auto simp: append_boundary_def append_navigation_def and_then_Inr_iff split: option.splits
      intro: append_observation_same)

lemma append_evidence_same:
  assumes "append_operation_evidence anchor at navigation ix = Inr ix'"
  shows "same_evidence_tables ix ix'"
proof -
  let ?ix = "ensure_identity (ia_session_id anchor) (ia_target_id anchor) ix"
  obtain ix1 ix2 where parts: "insert_interaction anchor ?ix = Inr ix1"
    "fold_result (append_boundary anchor at) ix1 (boundary_times (ia_timing anchor)) = Inr ix2"
    "append_navigation anchor at navigation ix2 = Inr ix'"
    using assms by (auto simp: append_operation_evidence_def and_then_Inr_iff)
  have "same_evidence_tables ?ix ix1"
    by (rule evidence_parts_same(1) [OF parts(1)])
  also have "same_evidence_tables ix1 ix2"
    using parts(2) by (rule fold_result_invariant) (auto intro: same_tables_trans evidence_parts_same(2))
  also have "same_evidence_tables ix2 ix'"
    by (rule evidence_parts_same(3) [OF parts(3)])
  finally show ?thesis
    using ensure_same same_tables_trans by blast
qed

lemma insert_pin_same: "insert_pin request ix = Inr (b, ix') \<Longrightarrow> same_evidence_tables ix ix'"
  by (auto simp: insert_pin_def same_evidence_tables_def catalog_ok_def split: if_splits)

lemma link_pin_same: "same_evidence_tables ix (link_pin pin request ix)"
  by (simp add: link_pin_def Let_def same_evidence_tables_def catalog_ok_def)

lemma delete_pins_same: "same_evidence_tables ix (delete_pins P ix)"
  by (simp add: delete_pins_def same_evidence_tables_def catalog_ok_def)

lemma delete_artifacts_same: "same_evidence_tables ix (snd (delete_artifacts P ix))"
  by (simp add: delete_artifacts_def Let_def same_evidence_tables_def catalog_ok_def)

lemma pin_same:
  "pin_resolved_range request ix = Inr (b, ix') \<Longrightarrow> same_evidence_tables ix ix'"
  "pin_range scope ix = Inr (c, ix') \<Longrightarrow> same_evidence_tables ix ix'"
  "unpin_range scope ix = Inr (c, ix') \<Longrightarrow> same_evidence_tables ix ix'"
  by (auto simp: pin_resolved_range_def pin_range_def unpin_range_def Let_def and_then_Inr_iff delete_pins_same
      split: if_splits option.splits intro: same_tables_trans [OF insert_pin_same link_pin_same])

lemma artifact_same:
  "stage_artifact_parts now parts ix = Inr (a, ix') \<Longrightarrow> same_evidence_tables ix ix'"
  "finalize_artifact i key session target sources ix = Inr (b, ix') \<Longrightarrow> same_evidence_tables ix ix'"
  by (auto simp: stage_artifact_parts_def finalize_artifact_def Let_def and_then_Inr_iff
      same_evidence_tables_def catalog_ok_def split: if_splits option.splits)

lemma journal_same:
  "prepare_deletion i kind session objects ix = Inr (batch, ix') \<Longrightarrow> same_evidence_tables ix ix'"
  "same_evidence_tables ix (finalize_deletion batch ix)" "same_evidence_tables ix (mark_metadata_removed i ix)"
  by (auto simp: prepare_deletion_def finalize_deletion_def mark_metadata_removed_def Let_def
      same_evidence_tables_def catalog_ok_def split: if_splits)

lemma delete_segment_same: "delete_segment segment ix = Inr (n, ix') \<Longrightarrow> same_evidence_tables ix ix'"
  by (auto simp: delete_segment_def same_evidence_tables_def catalog_ok_def split: if_splits)

lemma delete_references_same: "same_evidence_tables ix (delete_frame_references ids ix)"
  by (simp add: delete_frame_references_def same_evidence_tables_def catalog_ok_def)

lemma purge_same: "same_evidence_tables ix (purge_artifacts_for_segment segment ix)"
  by (simp add: purge_artifacts_for_segment_def delete_artifacts_def Let_def same_evidence_tables_def catalog_ok_def)

lemma catalog_same:
  "same_evidence_tables ix (put_session session ix)" "same_evidence_tables ix (note_terminal_session session ix)"
  "same_evidence_tables ix (put_target s target ix)"
  by (auto simp: put_session_def note_terminal_session_def put_target_def ensure_session_def Let_def
      same_evidence_tables_def catalog_ok_def)

lemma timeline_append_same: "timeline_append observation ix = Inr ix' \<Longrightarrow> same_evidence_tables ix ix'"
  by (auto simp: timeline_append_def append_observation_same split: if_splits)

lemmas other_transactions = register_same append_gap_same append_evidence_same pin_same artifact_same
  journal_same catalog_same timeline_append_same delete_pins_same

section \<open>Browser events beside the evidence tables\<close>

lemma record_unavailable_evidence:
  assumes "record_unavailable_tx new ix = Inr ix'"
  shows "same_evidence_tables ix ix'"
proof -
  have "same_evidence_tables ix (ix\<lparr>ix_unavailable := rows\<rparr>)" for rows
    by (simp add: same_evidence_tables_def catalog_ok_def)
  then show ?thesis
    using record_unavailable_fields [OF assms] by metis
qed

lemma delete_event_evidence: "same_evidence_tables ix (delete_event i ix)"
  by (simp add: delete_event_def remove_event_dependents_tx_def same_evidence_tables_def catalog_ok_def)

lemma evict_event_evidence: "evict_event row ix = Inr ix' \<Longrightarrow> same_evidence_tables ix ix'"
  by (auto simp: evict_event_def and_then_Inr_iff
      intro: same_tables_trans [OF delete_event_evidence record_unavailable_evidence])

lemma evict_rows_evidence:
  "evict_rows max_bytes required removed rows ix = Inr (freed, ix') \<Longrightarrow> same_evidence_tables ix ix'"
  by (induction max_bytes required removed rows ix rule: evict_rows.induct)
    (auto simp: and_then_Inr_iff intro: same_tables_trans evict_event_evidence split: if_splits)

lemma evict_events_evidence:
  "evict_events_tx before max_rows max_bytes required ix = Inr (freed, ix') \<Longrightarrow> same_evidence_tables ix ix'"
  by (auto simp: evict_events_tx_def intro: evict_rows_evidence split: if_splits)

lemma ensure_dependents_evidence:
  assumes "ensure_event_dependents_tx event bytes ix = Inr ix'"
  shows "same_evidence_tables ix ix'"
proof -
  obtain ix1 where timeline: "ensure_timeline_tx event ix = Inr ix1" and usage: "ensure_usage_tx event bytes ix1 = Inr ix'"
    using assms by (auto simp: ensure_event_dependents_tx_def and_then_Inr_iff)
  have "same_evidence_tables ix ix1"
    using timeline by (auto simp: ensure_timeline_tx_def and_then_Inr_iff intro: append_observation_same split: if_splits)
  also have "same_evidence_tables ix1 ix'"
    using usage by (auto simp: ensure_usage_tx_def same_evidence_tables_def catalog_ok_def split: option.splits if_splits)
  finally show ?thesis .
qed

lemma insert_event_evidence:
  assumes "insert_event event ix = Inr (bytes, ix')"
  shows "same_evidence_tables ix ix'"
proof -
  obtain next_value rows where "ensure_event_dependents_tx event bytes
      (ix\<lparr>ix_next_sequence := next_value, ix_events := rows\<rparr>) = Inr ix'"
    using assms by (auto simp: insert_event_def Let_def and_then_Inr_iff split: if_splits)
  moreover have "same_evidence_tables ix (ix\<lparr>ix_next_sequence := next_value, ix_events := rows\<rparr>)"
    by (simp add: same_evidence_tables_def catalog_ok_def)
  ultimately show ?thesis
    using ensure_dependents_evidence same_tables_trans by blast
qed

lemma append_event_evidence:
  assumes "append_event_tx event ix = Inr (bytes, ix')"
  shows "same_evidence_tables ix ix'"
proof -
  let ?ix = "ensure_identity (be_session_id event) (be_target_id event) ix"
  have "same_evidence_tables ?ix ix'"
    using assms by (auto simp: append_event_tx_def Let_def and_then_Inr_iff
        intro: insert_event_evidence ensure_dependents_evidence split: list.splits if_splits)
  then show ?thesis
    using ensure_same same_tables_trans by blast
qed

lemma append_valid_evidence:
  "append_valid_event p event = Inr q \<Longrightarrow> same_evidence_tables (snd p) (snd q)"
  by (cases p) (auto simp: append_valid_event_def and_then_Inr_iff intro: append_event_evidence)

text \<open>A fold over steps that leave the tables alone leaves them alone.\<close>

lemma fold_evidence:
  assumes "fold_result f s xs = Inr t" and "\<And>a x b. f a x = Inr b \<Longrightarrow> same_evidence_tables (snd a) (snd b)"
  shows "same_evidence_tables (snd s) (snd t)"
  using assms(1) by (rule fold_result_invariant) (auto intro: same_tables_trans assms(2))

lemma append_batch_evidence:
  assumes "append_browser_event_batch bytes budget usage batch ix = Inr ix'"
  shows "same_evidence_tables ix ix'"
proof -
  obtain inserted ix1 where written: "fold_result append_valid_event (0, ix) (eb_events batch) = Inr (inserted, ix1)"
    and rest: "ix' = ix1 \<or> (\<exists>needed freed. evict_events_tx None max_event_eviction_rows max_event_eviction_bytes
      (Some needed) ix1 = Inr (freed, ix'))"
    using assms by (auto simp: append_browser_event_batch_def and_then_Inr_iff split: if_splits)
  have "same_evidence_tables (snd (0 :: u64, ix)) (snd (inserted, ix1))"
    using written append_valid_evidence by (rule fold_evidence)
  then show ?thesis
    using rest evict_events_evidence same_tables_trans by (metis snd_conv)
qed

lemma reconcile_evidence:
  assumes "reconcile_timeline_tx event ix = Inr (b, ix')"
  shows "same_evidence_tables ix ix'"
proof -
  have "same_evidence_tables ix (ix\<lparr>ix_timeline := rows\<rparr>)" for rows
    by (simp add: same_evidence_tables_def catalog_ok_def)
  then show ?thesis
    using assms by (auto simp: reconcile_timeline_tx_def Let_def and_then_Inr_iff
        intro: append_observation_same same_tables_trans split: if_splits)
qed

lemma recover_row_evidence:
  assumes "recover_row p row = Inr q"
  shows "same_evidence_tables (snd p) (snd q)"
proof -
  obtain report ix report' ix' where p: "p = (report, ix)" and q: "q = (report', ix')"
    by (cases p, cases q)
  from assms [unfolded p q] show ?thesis
    unfolding p q snd_conv
  proof (cases rule: recover_row_cases)
    case (decoded scope event repaired ix1)
    have "same_evidence_tables ix1 ix'"
      by (simp add: decoded(4) reconcile_usage_tx_def same_evidence_tables_def catalog_ok_def)
    then show "same_evidence_tables ix ix'"
      using reconcile_evidence [OF decoded(3)] same_tables_trans by blast
  next
    case corrupt
    then show "same_evidence_tables ix ix'"
      using delete_event_evidence record_unavailable_evidence same_tables_trans by blast
  qed
qed

lemma recover_chunks_evidence: "same_evidence_tables ix (snd (recover_chunks after report ix))"
proof (induction after report ix rule: recover_chunks.induct)
  case (1 after report ix)
  let ?rows = "raw_rows_after after recovery_chunk_rows ix"
  show ?case
  proof (cases "fold_result recover_row (report, ix) ?rows")
    case (Inr p)
    obtain report' ix' where p: "p = (report', ix')"
      by (cases p)
    then have step: "same_evidence_tables ix ix'"
      using fold_evidence [OF Inr recover_row_evidence] by simp
    show ?thesis
    proof (cases "?rows = [] \<or> length ?rows < recovery_chunk_rows")
      case False
      then have "same_evidence_tables ix' (snd (recover_chunks (Some (row_uuid (last ?rows))) report' ix'))"
        using "1.IH" [OF refl _ Inr p [symmetric]] by simp
      then show ?thesis
        using False Inr p same_tables_trans [OF step] by (simp add: recover_chunks.simps [of after report ix] Let_def)
    qed (use Inr p step in \<open>auto simp: recover_chunks.simps [of after report ix] Let_def\<close>)
  qed (simp add: recover_chunks.simps [of after report ix] Let_def)
qed

lemma discard_reference_evidence:
  assumes "discard_reference p row = Inr q"
  shows "same_evidence_tables (snd p) (snd q)"
proof -
  have "same_evidence_tables ix (ix\<lparr>ix_timeline := rows\<rparr>)" for ix rows
    by (simp add: same_evidence_tables_def catalog_ok_def)
  then show ?thesis
    using assms by (cases p) (auto simp: discard_reference_def Let_def and_then_Inr_iff
        intro: same_tables_trans [OF record_unavailable_evidence] split: if_splits)
qed

lemma orphan_timeline_evidence: "same_evidence_tables ix (snd (recover_orphan_timeline report ix))"
proof (induction report ix rule: recover_orphan_timeline.induct)
  case (1 report ix)
  let ?rows = "orphan_references recovery_chunk_rows ix"
  show ?case
  proof (cases "fold_result discard_reference (report, ix) ?rows")
    case (Inr p)
    obtain report' ix' where p: "p = (report', ix')"
      by (cases p)
    then have step: "same_evidence_tables ix ix'"
      using fold_evidence [OF Inr discard_reference_evidence] by simp
    show ?thesis
    proof (cases "length ?rows < recovery_chunk_rows")
      case False
      then have "same_evidence_tables ix' (snd (recover_orphan_timeline report' ix'))"
        using "1.IH" [OF refl Inr p [symmetric]] by simp
      then show ?thesis
        using False Inr p same_tables_trans [OF step] by (simp add: recover_orphan_timeline.simps [of report ix] Let_def)
    qed (use Inr p step in \<open>simp add: recover_orphan_timeline.simps [of report ix] Let_def\<close>)
  qed (simp add: recover_orphan_timeline.simps [of report ix] Let_def)
qed

lemma orphan_usage_evidence: "same_evidence_tables ix (snd (recover_orphan_usage report ix))"
proof (induction report ix rule: recover_orphan_usage.induct)
  case (1 report ix)
  let ?keys = "orphan_usage recovery_chunk_rows ix"
  have step: "same_evidence_tables ix (discard_usage ?keys ix)"
    by (simp add: discard_usage_def same_evidence_tables_def catalog_ok_def)
  show ?case
  proof (cases "length ?keys < recovery_chunk_rows")
    case False
    then show ?thesis
      using same_tables_trans [OF step "1.IH" [OF refl refl refl]]
      by (simp add: recover_orphan_usage.simps [of report ix] Let_def)
  qed (simp add: recover_orphan_usage.simps [of report ix] Let_def step)
qed

lemma recover_events_evidence: "same_evidence_tables ix (snd (recover_browser_events ix))"
proof -
  obtain walked ix1 where walk: "recover_chunks None empty_recovery_report ix = (walked, ix1)"
    by (cases "recover_chunks None empty_recovery_report ix")
  have first: "same_evidence_tables ix ix1"
    using recover_chunks_evidence [of ix None empty_recovery_report] walk by simp
  show ?thesis
  proof (cases walked)
    case (Inr report)
    obtain orphans ix2 where timeline: "recover_orphan_timeline report ix1 = (orphans, ix2)"
      by (cases "recover_orphan_timeline report ix1")
    have "same_evidence_tables ix ix2"
      using orphan_timeline_evidence [of ix1 report] timeline first same_tables_trans by auto
    then show ?thesis
      using walk Inr timeline orphan_usage_evidence same_tables_trans
      by (cases orphans) (auto simp: recover_browser_events_def split_beta)
  qed (use walk first in \<open>simp add: recover_browser_events_def\<close>)
qed

end
