(* ===== verification/Index_Invariant.thy ===== *)
theory Index_Invariant
  imports Index_Effects
begin

text \<open>
  Every transaction keeps the invariant of the index, and no captured frame is lost without a record.
  The transactions that leave the frame and eviction tables alone are settled by
  \<open>same_evidence_tables\<close>; indexing a frame, removing the metadata of a batch and recovery's row removal
  follow one by one.
\<close>

section \<open>Indexing a frame\<close>

lemma register_commit_same:
  assumes "register_commit now commit ix = Inr (delta, ix')"
  shows "same_evidence_tables ix ix'"
proof (cases "fc_sealed_segment commit")
  case None
  then show ?thesis
    using assms by (auto simp: register_commit_def and_then_Inr_iff split: prod.splits intro: register_same)
next
  case (Some reg)
  obtain d1 ix1 d2 where "register_segment_tx now reg ix = (d1, ix1)"
    "register_segment_tx now (fc_active_segment commit) ix1 = (d2, ix')"
    using assms Some by (auto simp: register_commit_def and_then_Inr_iff split: prod.splits)
  then show ?thesis
    using register_same same_tables_trans by blast
qed

lemma index_frame_effect:
  assumes "index_frame_tx now frame commit ix = Inr (delta, ix')"
  defines "row \<equiv> new_frame_row (ef_metadata frame) (fc_address commit)"
  shows "ix_frames ix' = ix_frames ix @ [row]" "ix_evicted ix' = ix_evicted ix"
    "catalog_ok ix \<Longrightarrow> catalog_ok ix'"
    "\<not> list_ex (frame_conflict (ef_metadata frame) (fc_address commit)) (ix_frames ix)"
proof -
  obtain d ix1 observation where reg: "register_commit now commit ix = Inr (d, ix1)"
    and clear: "\<not> list_ex (frame_conflict (ef_metadata frame) (fc_address commit)) (ix_frames ix1)"
    and append: "append_observation_tx observation (Some (cf_capture_ordinal (ef_metadata frame)))
      (ix1\<lparr>ix_frames := ix_frames ix1 @ [row]\<rparr>) = Inr ix'"
    using assms by (auto simp: index_frame_tx_def Let_def and_then_Inr_iff split: if_splits)
  note same = register_commit_same [OF reg] append_observation_same [OF append]
  show "ix_frames ix' = ix_frames ix @ [row]" "ix_evicted ix' = ix_evicted ix"
    "\<not> list_ex (frame_conflict (ef_metadata frame) (fc_address commit)) (ix_frames ix)"
    using same clear by (simp_all add: same_evidence_tables_def)
  have "catalog_ok (ix1\<lparr>ix_frames := ix_frames ix1 @ [row]\<rparr>) \<longleftrightarrow> catalog_ok ix1"
    by (simp add: catalog_ok_def)
  then show "catalog_ok ix \<Longrightarrow> catalog_ok ix'"
    using same by (simp add: same_evidence_tables_def)
qed

lemma frames_ok_snoc:
  assumes "frames_ok rows" and "wf_captured_frame (fw_metadata row)"
    and "\<not> list_ex (frame_conflict (fw_metadata row) address) rows"
    and "\<forall>r \<in> set rows. fw_segment_id r = fw_segment_id row \<longrightarrow>
      of_scope (cf_session_id (fw_metadata row)) (cf_target_id (fw_metadata row)) r"
  shows "frames_ok (rows @ [row])"
proof -
  have "\<forall>r \<in> set rows. cf_id (fw_metadata r) \<noteq> cf_id (fw_metadata row) \<and>
    (cf_session_id (fw_metadata r), cf_target_id (fw_metadata r), cf_capture_ordinal (fw_metadata r)) \<noteq>
    (cf_session_id (fw_metadata row), cf_target_id (fw_metadata row), cf_capture_ordinal (fw_metadata row))"
    using assms(3) by (auto simp: list_ex_iff frame_conflict_def)
  moreover have "one_scope (rows @ [row])"
    unfolding one_scope_def
  proof (intro ballI impI)
    fix a b
    assume "a \<in> set (rows @ [row])" "b \<in> set (rows @ [row])" and segment: "fw_segment_id a = fw_segment_id b"
    then consider "a \<in> set rows" "b \<in> set rows" | "a \<in> set rows" "b = row" | "a = row" "b \<in> set rows"
      | "a = row" "b = row"
      by auto
    then show "of_scope (cf_session_id (fw_metadata a)) (cf_target_id (fw_metadata a)) b"
    proof cases
      case 1
      then show ?thesis
        using assms(1) segment unfolding frames_ok_def one_scope_def by blast
    next
      case 2
      then have "of_scope (cf_session_id (fw_metadata row)) (cf_target_id (fw_metadata row)) a"
        using assms(4) segment by simp
      then show ?thesis
        using 2 by (simp add: of_scope_def)
    qed (use assms(4) segment in \<open>simp_all add: of_scope_def\<close>)
  qed
  ultimately show ?thesis
    using assms(1,2) by (auto simp: frames_ok_def)
qed

lemma index_frame_ok:
  assumes run: "index_frame_tx now frame commit ix = Inr (delta, ix')" and commit: "commit_ok frame commit ix"
    and ok: "index_ok ix" and acc: "accounted captured ix"
  shows "index_ok ix'" "accounted (captured @ [ef_metadata frame]) ix'"
proof -
  let ?row = "new_frame_row (ef_metadata frame) (fc_address commit)"
  note effect = index_frame_effect [OF run]
  have "frames_ok (ix_frames ix @ [?row])"
    using ok commit effect(4)
    by (intro frames_ok_snoc [where address = "fc_address commit"])
      (auto simp: index_ok_def commit_ok_def new_frame_row_def wf_encoded_frame_def list_all_iff)
  then show "index_ok ix'"
    using ok effect by (simp add: index_ok_def)
  have "fw_metadata ?row = ef_metadata frame"
    by (simp add: new_frame_row_def)
  then show "accounted (captured @ [ef_metadata frame]) ix'"
    using acc unfolding accounted_def effect(1,2) by auto
qed

section \<open>Removing the metadata of a batch\<close>

lemma evicted_ok_filter:
  assumes "evicted_ok rows"
  shows "evicted_ok (filter P rows)"
proof -
  have ids: "distinct (map ev_eviction_id rows)" "distinct (map ev_eviction_id (filter P rows))"
    using assms by (simp_all add: evicted_ok_def distinct_map_filter)
  have "scope_separated s t (filter P rows)" for s t
  proof -
    have "scope_separated s t rows"
      using assms by (simp add: evicted_ok_def)
    then show ?thesis
      unfolding scope_separated_iff [OF ids(1)] scope_separated_iff [OF ids(2)] by auto
  qed
  then show ?thesis
    using ids(2) by (simp add: evicted_ok_def)
qed

lemma frames_ok_filter: "frames_ok rows \<Longrightarrow> frames_ok (filter P rows)"
  by (simp add: frames_ok_def distinct_map_filter) (simp add: one_scope_def)

text \<open>The range an evicted segment leaves covers each of its frames.\<close>

lemma removed_range_covers:
  assumes "frames_ok (ix_frames ix)" and rows: "frames_of_segment segment ix = rows" "rows \<noteq> []"
  obtains session target interval where "removed_range segment ix = Some (session, target, interval)" "wf_range interval"
    "\<forall>row \<in> set rows. of_scope session target row \<and> cf_session_time (fw_metadata row) \<in> instants interval"
proof -
  obtain first where first: "first \<in> set rows"
    and chosen: "first_by (\<lambda>row. (session_uuid (cf_session_id (fw_metadata row)),
      target_uuid (cf_target_id (fw_metadata row)))) rows = Some first"
    using first_by_Some [OF rows(2)] by blast
  let ?s = "cf_session_id (fw_metadata first)" and ?t = "cf_target_id (fw_metadata first)"
  have scope: "of_scope ?s ?t row" if "row \<in> set rows" for row
    using assms(1) first that rows(1)
    by (auto simp: frames_ok_def one_scope_def frames_of_segment_def)
  let ?times = "set (map frame_time rows)"
  let ?r = "\<lparr>range_start = SessionTime (Min ?times), range_end = SessionTime (Max ?times)\<rparr>"
  have "removed_range segment ix = Some (?s, ?t, ?r)"
  proof -
    have "filter (of_scope ?s ?t) rows = rows"
      using scope by (simp add: filter_id_conv)
    then show ?thesis
      by (simp add: removed_range_def rows(1) chosen Let_def del: set_map set_filter)
  qed
  moreover have "\<forall>row \<in> set rows. cf_session_time (fw_metadata row) \<in> instants ?r"
    by (auto simp: instants_def range_contains_def frame_time_def)
  moreover have "wf_range ?r"
    using rows(2) by (auto simp: wf_range_def less_eq_session_time_def intro: Min_le_iff [THEN iffD2])
  ultimately show thesis
    using that scope by blast
qed

text \<open>Rows go away only where the frame is off the list or its instant is recorded.\<close>

definition keeps_account :: "captured_frame list \<Rightarrow> metadata_index \<Rightarrow> metadata_index \<Rightarrow> bool" where
  "keeps_account captured ix ix' \<longleftrightarrow>
     (index_ok ix \<longrightarrow> index_ok ix') \<and> (accounted captured ix \<longrightarrow> accounted captured ix') \<and>
     set (ix_frames ix') \<subseteq> set (ix_frames ix)"

lemma keeps_account_refl [simp]: "keeps_account captured ix ix"
  by (simp add: keeps_account_def)

lemma keeps_account_trans [trans]:
  "keeps_account captured a b \<Longrightarrow> keeps_account captured b c \<Longrightarrow> keeps_account captured a c"
  by (auto simp: keeps_account_def)

lemma same_tables_keeps: "same_evidence_tables ix ix' \<Longrightarrow> keeps_account captured ix ix'"
  using same_tables_keep [of ix ix'] by (auto simp: keeps_account_def same_evidence_tables_def)

lemma delete_frames_effect:
  assumes "delete_frames P ix = Inr ix'"
  shows "ix' = ix\<lparr>ix_frames := filter (\<lambda>row. \<not> P row) (ix_frames ix)\<rparr>"
  using assms by (auto simp: delete_frames_def split: if_splits)

lemma delete_frames_keeps:
  assumes "delete_frames P ix = Inr ix'"
    and gone: "\<And>row. row \<in> set (ix_frames ix) \<Longrightarrow> P row \<Longrightarrow> fw_metadata row \<in> set captured \<Longrightarrow>
      cf_session_time (fw_metadata row) \<in> evicted_instants (cf_session_id (fw_metadata row))
        (cf_target_id (fw_metadata row)) (ix_evicted ix)"
  shows "keeps_account captured ix ix'"
proof -
  note ix' = delete_frames_effect [OF assms(1)]
  have "index_ok ix \<longrightarrow> index_ok ix'"
    by (simp add: index_ok_def ix' frames_ok_filter catalog_ok_def)
  moreover have "accounted captured ix \<longrightarrow> accounted captured ix'"
    using gone by (fastforce simp: accounted_def ix')
  ultimately show ?thesis
    by (auto simp: keeps_account_def ix')
qed

lemma record_evicted_keeps:
  assumes "record_evicted_frame_range session target interval ix = Inr ix'" and "wf_range interval" and "index_ok ix"
  shows "keeps_account captured ix ix'" "ix_frames ix' = ix_frames ix"
    "instants interval \<subseteq> evicted_instants session target (ix_evicted ix')"
proof -
  have "evicted_ok (ix_evicted ix)"
    using assms(3) by (simp add: index_ok_def)
  note effect = record_evicted_effect [OF this assms(2,1)]
  obtain rows where ix': "ix' = ix\<lparr>ix_evicted := rows\<rparr>"
    using effect(2) by blast
  have more: "evicted_instants s t (ix_evicted ix) \<subseteq> evicted_instants s t (ix_evicted ix')" for s t
    using effect(3) effect(4) [of s t] by (cases "(s, t) = (session, target)") auto
  have "index_ok ix'"
    using assms(3) effect(1) by (simp add: index_ok_def ix' catalog_ok_def)
  moreover have "accounted captured ix \<longrightarrow> accounted captured ix'"
    using more unfolding accounted_def ix' by simp blast
  ultimately show "keeps_account captured ix ix'" "ix_frames ix' = ix_frames ix"
    by (auto simp: keeps_account_def ix')
  show "instants interval \<subseteq> evicted_instants session target (ix_evicted ix')"
    using effect(3) by simp
qed

text \<open>An evicted segment's frames are recorded; a deleted session's are off the list.\<close>

lemma remove_segment_object_keeps:
  assumes run: "remove_segment_object kind segment (counts, ix) = Inr (counts', ix')" and ok: "index_ok ix"
    and session: "kind = SessionDeletion \<Longrightarrow>
      \<forall>row \<in> set (frames_of_segment segment ix). fw_metadata row \<notin> set captured"
  shows "keeps_account captured ix ix'"
proof -
  obtain ix1 ix2 ix3 n where
    first: "(if kind = Eviction then
         (case removed_range segment ix of
            None \<Rightarrow> Inr ix
          | Some (session, target, interval) \<Rightarrow> record_evicted_frame_range session target interval ix)
       else Inr ix) = Inr ix1"
    and frames: "delete_frames (\<lambda>row. fw_segment_id row = segment) ix2 = Inr ix3"
    and ix2: "ix2 = delete_frame_references (map (\<lambda>row. cf_id (fw_metadata row)) (frames_of_segment segment ix1)) ix1"
    and seg: "delete_segment segment ix3 = Inr (n, ix')"
    using run by (auto simp: remove_segment_object_def and_then_Inr_iff Let_def)
  have recorded: "keeps_account captured ix ix1 \<and> ix_frames ix1 = ix_frames ix \<and>
      (\<forall>row \<in> set (frames_of_segment segment ix). fw_metadata row \<in> set captured \<longrightarrow>
        cf_session_time (fw_metadata row) \<in> evicted_instants (cf_session_id (fw_metadata row))
          (cf_target_id (fw_metadata row)) (ix_evicted ix1))"
  proof (cases "kind = Eviction \<and> frames_of_segment segment ix \<noteq> []")
    case True
    have rows: "frames_ok (ix_frames ix)" "frames_of_segment segment ix \<noteq> []"
      using ok True by (simp_all add: index_ok_def)
    then obtain s t interval where "removed_range segment ix = Some (s, t, interval)" and wf: "wf_range interval"
      and covers: "\<forall>row \<in> set (frames_of_segment segment ix). of_scope s t row \<and>
        cf_session_time (fw_metadata row) \<in> instants interval"
      using removed_range_covers [OF rows(1) refl rows(2)] by metis
    then have "record_evicted_frame_range s t interval ix = Inr ix1"
      using first True by simp
    from record_evicted_keeps [OF this wf ok] show ?thesis
      using covers by (auto simp: of_scope_def)
  next
    case False
    then have "ix1 = ix"
      using first by (auto simp: removed_range_def first_by_def Let_def split: if_splits)
    moreover have "\<forall>row \<in> set (frames_of_segment segment ix). fw_metadata row \<notin> set captured"
      using False session by (cases kind) auto
    ultimately show ?thesis
      by auto
  qed
  have same: "same_evidence_tables ix1 ix2"
    by (simp add: ix2 delete_references_same)
  have "keeps_account captured ix ix1"
    using recorded by blast
  also have "keeps_account captured ix1 ix2"
    using same by (rule same_tables_keeps)
  also have "keeps_account captured ix2 ix3"
    using frames by (rule delete_frames_keeps)
      (use recorded same in \<open>auto simp: same_evidence_tables_def frames_of_segment_def\<close>)
  also have "keeps_account captured ix3 ix'"
    using delete_segment_same [OF seg] by (rule same_tables_keeps)
  finally show ?thesis .
qed

lemma remove_objects_keep:
  assumes run: "fold_result (remove_object kind) (counts, ix) objects = Inr (counts', ix')" and ok: "index_ok ix"
    and session: "\<And>segment row. kind = SessionDeletion \<Longrightarrow> SegmentObject segment \<in> do_kind ` set objects \<Longrightarrow>
      row \<in> set (frames_of_segment segment ix) \<Longrightarrow> fw_metadata row \<notin> set captured"
  shows "keeps_account captured ix ix'"
proof -
  have "keeps_account captured ix (snd (counts', ix')) \<and> index_ok (snd (counts', ix'))"
    using run
  proof (rule fold_result_invariant)
    fix s object s'
    assume object: "object \<in> set objects" and inv: "keeps_account captured ix (snd s) \<and> index_ok (snd s)"
      and step: "remove_object kind s object = Inr s'"
    have "keeps_account captured (snd s) (snd s')"
    proof (cases "do_kind object")
      case (SegmentObject segment)
      have sub: "set (ix_frames (snd s)) \<subseteq> set (ix_frames ix)"
        using inv by (simp add: keeps_account_def)
      have "SegmentObject segment \<in> do_kind ` set objects"
        using object SegmentObject by (metis image_eqI)
      then have "kind = SessionDeletion \<Longrightarrow>
          \<forall>row \<in> set (frames_of_segment segment (snd s)). fw_metadata row \<notin> set captured"
        using session [of segment] sub by (auto simp: frames_of_segment_def)
      moreover have "remove_segment_object kind segment (fst s, snd s) = Inr (fst s', snd s')"
        using step SegmentObject by (simp add: remove_object_def split_beta)
      ultimately show ?thesis
        using remove_segment_object_keeps inv by blast
    next
      case (ArtifactObject artifact)
      then have "snd s' = snd (delete_artifacts (\<lambda>row. at_artifact_id row = artifact) (snd s))"
        using step by (auto simp: remove_object_def split_beta)
      then show ?thesis
        using same_tables_keeps [OF delete_artifacts_same] by simp
    qed
    then show "keeps_account captured ix (snd s') \<and> index_ok (snd s')"
      using inv keeps_account_trans [of captured ix "snd s" "snd s'"] by (simp add: keeps_account_def)
  qed (simp add: ok)
  then show ?thesis
    by simp
qed

lemma drop_evidence_same: "same_evidence_tables ix (drop_session_evidence session ix)"
  by (simp add: drop_session_evidence_def same_evidence_tables_def catalog_ok_def)

lemma drop_session_identity_fields:
  "ix_frames (drop_session_identity session ix) = ix_frames ix"
  "ix_evicted (drop_session_identity session ix) = filter (\<lambda>row. ev_session_id row \<noteq> session) (ix_evicted ix)"
  by (simp_all add: drop_session_identity_def)

lemma drop_identity_catalog:
  assumes "catalog_ok ix"
  shows "catalog_ok (drop_session_identity session ix)"
  using assms by (simp add: drop_session_identity_def catalog_ok_def)

lemma delete_session_rows_keep:
  assumes run: "delete_session_rows session ix = Inr ix'"
    and gone: "\<forall>frame \<in> set captured. cf_session_id frame \<noteq> session"
  shows "keeps_account captured ix ix'"
proof -
  let ?ix = "drop_session_evidence session (snd (delete_artifacts (\<lambda>row. at_session_id row = session) ix))"
  have same: "same_evidence_tables ix ?ix"
    using delete_artifacts_same drop_evidence_same by (rule same_tables_trans)
  have ix': "ix' = drop_session_identity session ?ix"
    using run by (simp add: delete_session_rows_def Let_def split: if_split_asm)
  have frames: "ix_frames ix' = ix_frames ix"
    and evicted: "ix_evicted ix' = filter (\<lambda>row. ev_session_id row \<noteq> session) (ix_evicted ix)"
    and catalog: "catalog_ok ix \<longrightarrow> catalog_ok ix'"
    using same drop_identity_catalog
    by (simp_all add: same_evidence_tables_def ix' drop_session_identity_fields)
  have "index_ok ix \<longrightarrow> index_ok ix'"
    using catalog evicted_ok_filter by (simp add: index_ok_def frames evicted)
  moreover have "evicted_instants (cf_session_id frame) t (ix_evicted ix') = evicted_instants (cf_session_id frame) t (ix_evicted ix)"
    if "frame \<in> set captured" for frame t
  proof -
    have "{row \<in> set (ix_evicted ix'). in_scope (cf_session_id frame) t row} =
        {row \<in> set (ix_evicted ix). in_scope (cf_session_id frame) t row}"
      using gone that by (auto simp: evicted in_scope_def)
    then show ?thesis
      by (simp add: evicted_instants_def)
  qed
  then have "accounted captured ix \<longrightarrow> accounted captured ix'"
    by (simp add: accounted_def frames)
  ultimately show ?thesis
    by (simp add: keeps_account_def frames)
qed

lemma accounted_subset: "accounted captured ix \<Longrightarrow> set captured' \<subseteq> set captured \<Longrightarrow> accounted captured' ix"
  by (auto simp: accounted_def)

lemma remove_metadata_ok:
  assumes run: "remove_deletion_metadata batch ix = Inr (counts, ix')" and batch: "batch_ok batch ix"
    and ok: "index_ok ix" and acc: "accounted captured ix"
  shows "index_ok ix' \<and> accounted (captured_after (RemoveDeletionMetadata batch) ix captured) ix'"
proof (cases "db_state batch = MetadataRemoved")
  case True
  then show ?thesis
    using run ok acc by (auto simp: remove_deletion_metadata_def captured_after_def split: option.split)
next
  case False
  let ?left = "captured_after (RemoveDeletionMetadata batch) ix captured"
  let ?none = "\<lparr>rc_segments = 0, rc_frames = 0, rc_artifacts = 0\<rparr>"
  obtain ix1 ix2 where objects: "fold_result (remove_object (db_kind batch)) (?none, ix) (db_objects batch) = Inr (counts, ix1)"
    and session: "(case db_session_id batch of None \<Rightarrow> Inr ix1 | Some session \<Rightarrow> delete_session_rows session ix1) = Inr ix2"
    and ix': "ix' = mark_metadata_removed (db_batch_id batch) ix2"
    using run False by (auto simp: remove_deletion_metadata_def Let_def and_then_Inr_iff)
  have "set ?left \<subseteq> set captured"
    by (auto simp: captured_after_def split: option.split)
  then have left: "accounted ?left ix"
    by (rule accounted_subset [OF acc])
  have "keeps_account ?left ix ix1"
  proof (rule remove_objects_keep [OF objects ok])
    fix segment row
    assume kind: "db_kind batch = SessionDeletion" and segment: "SegmentObject segment \<in> do_kind ` set (db_objects batch)"
      and row: "row \<in> set (frames_of_segment segment ix)"
    obtain s where s: "db_session_id batch = Some s"
      using batch kind by (auto simp: batch_ok_def split: option.splits)
    obtain object where "object \<in> set (db_objects batch)" "do_kind object = SegmentObject segment"
      using segment by auto
    moreover have "list_all (\<lambda>object. case do_kind object of
           ArtifactObject _ \<Rightarrow> True
         | SegmentObject segment \<Rightarrow> list_all (\<lambda>row. cf_session_id (fw_metadata row) = s)
             (frames_of_segment segment ix)) (db_objects batch)"
      using batch s by (simp add: batch_ok_def)
    ultimately have "cf_session_id (fw_metadata row) = s"
      using row by (auto simp: list_all_iff)
    then show "fw_metadata row \<notin> set ?left"
      using False s by (simp add: captured_after_def)
  qed
  also have "keeps_account ?left ix1 ix2"
  proof (cases "db_session_id batch")
    case (Some s)
    then show ?thesis
      using session False by (auto simp: captured_after_def intro!: delete_session_rows_keep)
  qed (use session in simp)
  also have "keeps_account ?left ix2 ix'"
    unfolding ix' by (rule same_tables_keeps [OF journal_same(3)])
  finally show ?thesis
    using ok left by (simp add: keeps_account_def)
qed

section \<open>Recovery's row removal\<close>

lemma remove_frame_rows_ok:
  assumes run: "remove_frame_rows segment at ix = Inr (ids, ix')" and ok: "index_ok ix" and acc: "accounted captured ix"
  shows "index_ok ix' \<and> accounted (filter (\<lambda>frame. cf_id frame \<notin> set ids) captured) ix'"
proof -
  let ?left = "filter (\<lambda>frame. cf_id frame \<notin> set ids) captured"
  let ?ix1 = "delete_frame_references ids (purge_artifacts_for_segment segment ix)"
  have same: "same_evidence_tables ix ?ix1"
    using purge_same delete_references_same by (rule same_tables_trans)
  have frames: "delete_frames (\<lambda>row. cf_id (fw_metadata row) \<in> set ids) ?ix1 = Inr ix'"
    using run unfolding remove_frame_rows_def Let_def and_then_Inr_iff sum.inject prod.inject by blast
  have "accounted ?left ix"
    by (rule accounted_subset [OF acc]) auto
  moreover have "keeps_account ?left ix ?ix1"
    using same by (rule same_tables_keeps)
  moreover have "keeps_account ?left ?ix1 ix'"
    using frames by (rule delete_frames_keeps) auto
  ultimately show ?thesis
    using ok by (simp add: keeps_account_def)
qed

section \<open>Every history\<close>

definition evidence_op :: "index_op \<Rightarrow> bool" where
  "evidence_op op = (case op of IndexFrame _ _ _ \<Rightarrow> True | RemoveDeletionMetadata _ \<Rightarrow> True
     | RemoveFrameRows _ _ \<Rightarrow> True | _ \<Rightarrow> False)"

lemma map_sum_snd: "map_sum id snd r = Inr y \<longleftrightarrow> (\<exists>x. r = Inr (x, y))"
  by (cases r) auto

lemma other_op_same:
  assumes "apply_op op ix = Inr ix'" and "\<not> evidence_op op"
  shows "same_evidence_tables ix ix'" "captured_after op ix captured = captured"
proof -
  show "captured_after op ix captured = captured"
    using assms(2) by (cases op) (simp_all add: captured_after_def evidence_op_def)
  show "same_evidence_tables ix ix'"
  proof (cases op)
    case (RemoveSegment segment)
    then show ?thesis
      using assms(1) by (auto simp: apply_op_def remove_segment_def and_then_Inr_iff intro: delete_segment_same)
  qed (use assms in \<open>auto simp: apply_op_def unpin_resolved_range_def evidence_op_def map_sum_snd evict_oldest_browser_events_def
    intro: other_transactions register_same [OF surjective_pairing] append_batch_evidence evict_events_evidence
      recover_events_evidence\<close>)
qed

theorem index_invariant:
  "index_history ix captured \<Longrightarrow> index_ok ix \<and> accounted captured ix"
proof (induction rule: index_history.induct)
  case opened
  show ?case
    by (auto simp: empty_index_def index_ok_def catalog_ok_def frames_ok_def one_scope_def evicted_ok_def
        scope_separated_def separated_def evicted_rows_def accounted_def)
next
  case (applied ix captured op ix')
  consider (frame) now frame commit where "op = IndexFrame now frame commit"
    | (batch) batch where "op = RemoveDeletionMetadata batch"
    | (rows) segment at where "op = RemoveFrameRows segment at"
    | (other) "same_evidence_tables ix ix'" "captured_after op ix captured = captured"
    using other_op_same [OF applied.hyps(3)] by (cases op) (auto simp: evidence_op_def)
  then show ?case
  proof cases
    case frame
    then obtain delta where "index_frame_tx now frame commit ix = Inr (delta, ix')"
      using applied.hyps(3) by (auto simp: apply_op_def map_sum_snd)
    then show ?thesis
      using index_frame_ok applied.IH applied.hyps(2) frame by (auto simp: op_ok_def captured_after_def)
  next
    case batch
    then obtain counts where "remove_deletion_metadata batch ix = Inr (counts, ix')"
      using applied.hyps(3) by (auto simp: apply_op_def map_sum_snd)
    then show ?thesis
      using remove_metadata_ok applied.IH applied.hyps(2) batch by (auto simp: op_ok_def)
  next
    case rows
    then obtain ids where "remove_frame_rows segment at ix = Inr (ids, ix')"
      using applied.hyps(3) by (auto simp: apply_op_def map_sum_snd)
    then show ?thesis
      using remove_frame_rows_ok [of segment at ix ids ix' captured] applied.IH rows
      by (simp add: captured_after_def)
  next
    case other
    then show ?thesis
      using same_tables_keep applied.IH by auto
  qed
qed

end
