(* ===== verification/Event_History.thy ===== *)
theory Event_History
  imports Index_Invariant
begin

text \<open>
  Every transaction of the index keeps the browser-event tables consistent: those on events by
  \<open>Event_Consistency\<close>, the others because they leave the events and the references to them alone or, when a
  session goes, drop both together.
\<close>

section \<open>Transactions beside the event tables\<close>

lemma ensure_same_events [simp]: "same_event_tables ix (ensure_identity s t ix)" "same_event_tables ix (ensure_session s ix)"
  by (simp_all add: same_event_tables_def event_references_def ensure_identity_def ensure_session_def Let_def)

lemma register_same_events: "same_event_tables ix (snd (register_segment_tx now reg ix))"
proof -
  have "same_event_tables ix1 ((upsert_segment now reg ix1)\<lparr>ix_usage := rows\<rparr>)" for ix1 rows
    by (simp add: same_event_tables_def event_references_def upsert_segment_def split: option.split)
  then show ?thesis
    unfolding register_segment_tx_def Let_def snd_conv using ensure_same_events(1) same_event_tables_trans by blast
qed

lemma append_observation_same_events:
  assumes "append_observation_tx observation ordinal ix = Inr ix'" and "to_kind observation \<noteq> KindBrowserEvent"
  shows "same_event_tables ix ix'"
proof -
  have "event_references ix' = event_references ix"
    using assms by (auto simp: append_observation_tx_def Let_def and_then_Inr_iff event_references_def
        split: option.splits if_splits)
  then show ?thesis
    using append_observation_frame [OF assms(1)] by (simp add: same_event_tables_def)
qed

lemma gap_same_events:
  assumes "append_gap gap ix = Inr ix'"
  shows "same_event_tables ix ix'"
proof -
  let ?ix = "ensure_identity (gap_session_id gap) (gap_target_id gap) ix"
  have "append_observation_tx (gap_observation gap) None (?ix\<lparr>ix_gaps := ix_gaps ?ix @ [gap]\<rparr>) = Inr ix'"
    using assms by (auto simp: append_gap_def Let_def and_then_Inr_iff map_err_Inr_iff observation_new_def split: if_splits)
  then have "same_event_tables (?ix\<lparr>ix_gaps := ix_gaps ?ix @ [gap]\<rparr>) ix'"
    by (rule append_observation_same_events) (simp add: gap_observation_def)
  then show ?thesis
    by (simp add: same_event_tables_def event_references_def)
qed

lemma evidence_same_events:
  assumes "append_operation_evidence anchor at navigation ix = Inr ix'"
  shows "same_event_tables ix ix'"
proof -
  have boundary: "append_boundary anchor at ix1 t = Inr ix2 \<Longrightarrow> same_event_tables ix1 ix2" for ix1 ix2 t
    by (auto simp: append_boundary_def and_then_Inr_iff map_err_Inr_iff observation_new_def boundary_observation_def
        intro: append_observation_same_events)
  have navigation: "append_navigation anchor at navigation ix1 = Inr ix2 \<Longrightarrow> same_event_tables ix1 ix2" for ix1 ix2
    by (auto simp: append_navigation_def and_then_Inr_iff map_err_Inr_iff observation_new_def navigation_observation_def
        intro: append_observation_same_events split: option.splits)
  have insert: "insert_interaction anchor ix1 = Inr ix2 \<Longrightarrow> same_event_tables ix1 ix2" for ix1 ix2
    by (auto simp: insert_interaction_def and_then_Inr_iff same_event_tables_def event_references_def
        split: option.splits if_splits)
  let ?ix = "ensure_identity (ia_session_id anchor) (ia_target_id anchor) ix"
  obtain ix1 ix2 where parts: "insert_interaction anchor ?ix = Inr ix1"
    "fold_result (append_boundary anchor at) ix1 (boundary_times (ia_timing anchor)) = Inr ix2"
    "append_navigation anchor at navigation ix2 = Inr ix'"
    using assms by (auto simp: append_operation_evidence_def and_then_Inr_iff)
  have "same_event_tables ix ?ix"
    by simp
  also have "same_event_tables ?ix ix1"
    by (rule insert [OF parts(1)])
  also have "same_event_tables ix1 ix2"
    using parts(2) by (rule fold_result_invariant) (auto intro: same_event_tables_trans boundary)
  also have "same_event_tables ix2 ix'"
    by (rule navigation [OF parts(3)])
  finally show ?thesis .
qed

lemma pin_same_events:
  "pin_resolved_range request ix = Inr (b, ix') \<Longrightarrow> same_event_tables ix ix'"
  "pin_range scope ix = Inr (c, ix') \<Longrightarrow> same_event_tables ix ix'"
  "unpin_range scope ix = Inr (c, ix') \<Longrightarrow> same_event_tables ix ix'"
  "same_event_tables ix (delete_pins P ix)"
  by (auto simp: pin_resolved_range_def pin_range_def unpin_range_def insert_pin_def link_pin_def delete_pins_def
      Let_def and_then_Inr_iff same_event_tables_def event_references_def split: if_splits option.splits)

lemma artifact_same_events:
  "stage_artifact_parts now parts ix = Inr (a, ix') \<Longrightarrow> same_event_tables ix ix'"
  "finalize_artifact i key session target sources ix = Inr (b, ix') \<Longrightarrow> same_event_tables ix ix'"
  by (auto simp: stage_artifact_parts_def finalize_artifact_def Let_def and_then_Inr_iff
      same_event_tables_def event_references_def split: if_splits option.splits)

lemma journal_same_events:
  "prepare_deletion i kind session objects ix = Inr (batch, ix') \<Longrightarrow> same_event_tables ix ix'"
  "same_event_tables ix (finalize_deletion batch ix)" "same_event_tables ix (mark_metadata_removed i ix)"
  by (auto simp: prepare_deletion_def finalize_deletion_def mark_metadata_removed_def Let_def
      same_event_tables_def event_references_def split: if_splits)

lemma catalog_same_events:
  "same_event_tables ix (put_session session ix)" "same_event_tables ix (note_terminal_session session ix)"
  "same_event_tables ix (put_target s target ix)"
  by (simp_all add: put_session_def note_terminal_session_def put_target_def ensure_session_def Let_def
      same_event_tables_def event_references_def)

lemma timeline_same_events: "timeline_append observation ix = Inr ix' \<Longrightarrow> same_event_tables ix ix'"
  by (auto simp: timeline_append_def intro: append_observation_same_events split: if_splits)

lemma frame_same_events:
  assumes "index_frame_tx now frame commit ix = Inr (delta, ix')"
  shows "same_event_tables ix ix'"
proof -
  obtain usage ix1 where reg: "register_commit now commit ix = Inr (usage, ix1)"
    and append: "append_observation_tx (frame_observation (ef_metadata frame)) (Some (cf_capture_ordinal (ef_metadata frame)))
      (ix1\<lparr>ix_frames := ix_frames ix1 @ [new_frame_row (ef_metadata frame) (fc_address commit)]\<rparr>) = Inr ix'"
    using assms by (auto simp: index_frame_tx_def Let_def and_then_Inr_iff map_err_Inr_iff observation_new_def
        split: if_splits)
  have "same_event_tables ix ix1"
    using reg by (auto simp: register_commit_def Let_def and_then_Inr_iff split_beta register_same_events
        intro: same_event_tables_trans [OF register_same_events register_same_events] split: option.splits)
  moreover have "same_event_tables (ix1\<lparr>ix_frames := ix_frames ix1 @ [new_frame_row (ef_metadata frame) (fc_address commit)]\<rparr>) ix'"
    using append by (rule append_observation_same_events) (simp add: frame_observation_def)
  ultimately show ?thesis
    by (simp add: same_event_tables_def event_references_def)
qed

section \<open>Deletions\<close>

lemma delete_references_same_events [simp]: "same_event_tables ix (delete_frame_references ids ix)"
proof -
  have "filter (\<lambda>x. to_kind x = KindBrowserEvent) (map tl_observation (filter (\<lambda>row.
      \<not> (to_kind (tl_observation row) = KindFrame \<and> P row)) rows)) =
      filter (\<lambda>x. to_kind x = KindBrowserEvent) (map tl_observation rows)" for P rows
    by (induction rows) auto
  then show ?thesis
    by (simp add: same_event_tables_def event_references_def delete_frame_references_def)
qed

lemma delete_parts_same_events:
  "same_event_tables ix (snd (delete_artifacts P ix))"
  "delete_frames Q ix = Inr ix' \<Longrightarrow> same_event_tables ix ix'"
  "delete_segment segment ix = Inr (n, ix') \<Longrightarrow> same_event_tables ix ix'"
  "record_evicted_frame_range s t interval ix = Inr ix' \<Longrightarrow> same_event_tables ix ix'"
  by (auto simp: delete_artifacts_def delete_frames_def delete_segment_def record_evicted_frame_range_def insert_evicted_def
      Let_def and_then_Inr_iff split_beta same_event_tables_def event_references_def split: if_splits)

lemma remove_segment_object_same_events:
  assumes "remove_segment_object kind segment (counts, ix) = Inr (counts', ix')"
  shows "same_event_tables ix ix'"
proof -
  obtain ix1 ix2 ix3 n where
    first: "(if kind = Eviction then
         (case removed_range segment ix of
            None \<Rightarrow> Inr ix
          | Some (session, target, interval) \<Rightarrow> record_evicted_frame_range session target interval ix)
       else Inr ix) = Inr ix1"
    and frames: "delete_frames (\<lambda>row. fw_segment_id row = segment) ix2 = Inr ix3"
    and ix2: "ix2 = delete_frame_references (map (\<lambda>row. cf_id (fw_metadata row)) (frames_of_segment segment ix1)) ix1"
    and seg: "delete_segment segment ix3 = Inr (n, ix')"
    using assms by (auto simp: remove_segment_object_def and_then_Inr_iff Let_def)
  have "same_event_tables ix ix1"
    using first by (auto intro: delete_parts_same_events(4) split: if_splits option.splits)
  also have "same_event_tables ix1 ix2"
    by (simp add: ix2)
  also have "same_event_tables ix2 ix3"
    by (rule delete_parts_same_events(2) [OF frames])
  also have "same_event_tables ix3 ix'"
    by (rule delete_parts_same_events(3) [OF seg])
  finally show ?thesis .
qed

lemma remove_object_same_events:
  "remove_object kind p object = Inr q \<Longrightarrow> same_event_tables (snd p) (snd q)"
  using delete_parts_same_events(1) [of "snd p"]
  by (cases p; cases q) (auto simp: remove_object_def split_beta split: deletion_object_kind.splits
      intro: remove_segment_object_same_events)

lemma drop_session_events_ok:
  assumes ok: "events_ok ix"
  shows "events_ok (drop_session_identity session (drop_session_evidence session ix))"
proof (rule events_ok_filter [OF ok])
  let ?ix = "drop_session_identity session (drop_session_evidence session ix)"
  show "ix_events ?ix = filter (\<lambda>row. be_session_id (er_event row) \<noteq> session) (ix_events ix)"
    by (simp add: drop_session_identity_def drop_session_evidence_def)
  have "filter (\<lambda>x. to_kind x = KindBrowserEvent) (map tl_observation
      (filter (\<lambda>row. to_session_id (tl_observation row) \<noteq> session) rows)) =
      filter (\<lambda>x. to_session_id x \<noteq> session) (filter (\<lambda>x. to_kind x = KindBrowserEvent) (map tl_observation rows))" for rows
    by (induction rows) auto
  then show "event_references ?ix = filter (\<lambda>x. to_session_id x \<noteq> session) (event_references ix)"
    by (simp add: event_references_def drop_session_identity_def drop_session_evidence_def)
  show "0 < ix_next_sequence ?ix" "distinct (map un_id (ix_unavailable ?ix))"
    using ok by (simp_all add: drop_session_identity_def drop_session_evidence_def events_ok_def distinct_map_filter)
qed (simp add: observation_of_row_def)

lemma delete_session_events_ok:
  assumes "delete_session_rows session ix = Inr ix'" and "events_ok ix"
  shows "events_ok ix'"
proof -
  let ?ix = "snd (delete_artifacts (\<lambda>row. at_session_id row = session) ix)"
  have "ix' = drop_session_identity session (drop_session_evidence session ?ix)"
    using assms(1) by (simp add: delete_session_rows_def Let_def split: if_split_asm)
  moreover have "events_ok ?ix"
    by (rule same_event_tables_ok [OF delete_parts_same_events(1) assms(2)])
  ultimately show ?thesis
    using drop_session_events_ok by simp
qed

lemma remove_metadata_events_ok:
  assumes run: "remove_deletion_metadata batch ix = Inr (counts, ix')" and ok: "events_ok ix"
  shows "events_ok ix'"
proof (cases "db_state batch = MetadataRemoved")
  case True
  then show ?thesis
    using run ok by (simp add: remove_deletion_metadata_def)
next
  case False
  let ?none = "\<lparr>rc_segments = 0, rc_frames = 0, rc_artifacts = 0\<rparr>"
  obtain ix1 ix2 where objects: "fold_result (remove_object (db_kind batch)) (?none, ix) (db_objects batch) = Inr (counts, ix1)"
    and session: "(case db_session_id batch of None \<Rightarrow> Inr ix1 | Some session \<Rightarrow> delete_session_rows session ix1) = Inr ix2"
    and ix': "ix' = mark_metadata_removed (db_batch_id batch) ix2"
    using run False by (auto simp: remove_deletion_metadata_def Let_def and_then_Inr_iff)
  have "same_event_tables (snd (?none, ix)) (snd (counts, ix1))"
    using objects by (rule fold_result_invariant) (auto intro: same_event_tables_trans remove_object_same_events)
  then have "events_ok ix1"
    using same_event_tables_ok ok by simp
  then have "events_ok ix2"
    using session delete_session_events_ok by (auto split: option.splits)
  then show ?thesis
    unfolding ix' by (rule same_event_tables_ok [OF journal_same_events(3)])
qed

lemma recovery_rows_same_events:
  "remove_frame_rows segment at ix = Inr (ids, ix') \<Longrightarrow> same_event_tables ix ix'"
  "remove_segment segment ix = Inr ix' \<Longrightarrow> same_event_tables ix ix'"
proof -
  have purge: "same_event_tables ix (purge_artifacts_for_segment segment ix)"
    by (simp add: purge_artifacts_for_segment_def delete_artifacts_def Let_def same_event_tables_def event_references_def)
  show "remove_frame_rows segment at ix = Inr (ids, ix') \<Longrightarrow> same_event_tables ix ix'"
    by (auto simp: remove_frame_rows_def Let_def and_then_Inr_iff
        intro: same_event_tables_trans [OF purge same_event_tables_trans [OF delete_references_same_events delete_parts_same_events(2)]])
  show "remove_segment segment ix = Inr ix' \<Longrightarrow> same_event_tables ix ix'"
    by (auto simp: remove_segment_def and_then_Inr_iff intro: delete_parts_same_events(3))
qed

section \<open>Startup repair of consistent tables\<close>

lemma reconcile_usage_same_events [simp]: "same_event_tables ix (snd (reconcile_usage_tx event bytes ix))"
  by (simp add: reconcile_usage_tx_def same_event_tables_def event_references_def)

lemma reconcile_timeline_noop:
  assumes "events_ok ix" and "row \<in> set (ix_events ix)"
  shows "reconcile_timeline_tx (er_event row) ix = Inr (False, ix)"
proof -
  have "list_ex (references_event (be_id (er_event row))) (ix_timeline ix)"
    using reference_iff [OF assms(1)] assms(2) by (auto simp: event_id_of_def)
  then show ?thesis
    using reference_valid [OF assms] by (simp add: reconcile_timeline_tx_def)
qed

lemma recover_row_same_events:
  assumes run: "recover_row (report, ix) row = Inr (report', ix')" and ok: "events_ok ix" and row: "row \<in> set (ix_events ix)"
  shows "same_event_tables ix ix'"
proof -
  have decode: "decode_event row = Inr (er_event row)"
    using ok row by (intro decode_event_ok) (simp add: events_ok_def)
  show ?thesis
    using run reconcile_timeline_noop [OF ok row] by (cases rule: recover_row_cases) (auto simp: decode)
qed

lemma recover_rows_same_events:
  assumes "fold_result recover_row (report, ix) rows = Inr (report', ix')" and ok: "events_ok ix"
    and rows: "set rows \<subseteq> set (ix_events ix)"
  shows "same_event_tables ix ix'"
proof -
  have "same_event_tables ix (snd (report', ix'))"
    using assms(1)
  proof (rule fold_result_invariant)
    fix p row q
    assume "row \<in> set rows" and inv: "same_event_tables ix (snd p)" and step: "recover_row p row = Inr q"
    moreover from this have "row \<in> set (ix_events (snd p))"
      using rows by (auto simp: same_event_tables_def)
    ultimately have "same_event_tables (snd p) (snd q)"
      using recover_row_same_events [of "fst p" "snd p" row "fst q" "snd q"] same_event_tables_ok [OF inv ok] by simp
    then show "same_event_tables ix (snd q)"
      by (rule same_event_tables_trans [OF inv])
  qed simp
  then show ?thesis
    by simp
qed

lemma recover_chunks_same_events:
  "events_ok ix \<Longrightarrow> same_event_tables ix (snd (recover_chunks after report ix))"
proof (induction after report ix rule: recover_chunks.induct)
  case (1 after report ix)
  let ?rows = "raw_rows_after after recovery_chunk_rows ix"
  show ?case
  proof (cases "fold_result recover_row (report, ix) ?rows")
    case (Inr p)
    obtain report' ix' where p: "p = (report', ix')"
      by (cases p)
    have step: "same_event_tables ix ix'"
      using Inr [unfolded p] "1.prems" by (rule recover_rows_same_events) (use raw_rows_in in blast)
    show ?thesis
    proof (cases "?rows = [] \<or> length ?rows < recovery_chunk_rows")
      case False
      then have "same_event_tables ix' (snd (recover_chunks (Some (row_uuid (last ?rows))) report' ix'))"
        using "1.IH" [OF refl _ Inr p [symmetric]] same_event_tables_ok [OF step "1.prems"] by simp
      then show ?thesis
        using False Inr p same_event_tables_trans [OF step] by (simp add: recover_chunks.simps [of after report ix] Let_def)
    qed (use Inr p step in \<open>auto simp: recover_chunks.simps [of after report ix] Let_def\<close>)
  qed (simp add: recover_chunks.simps [of after report ix] Let_def)
qed

lemma no_orphan_references:
  assumes "events_ok ix"
  shows "orphan_references limit ix = []"
proof -
  have "\<exists>row \<in> set (ix_events ix). event_key (be_id (er_event row)) = payload_sort_key (to_payload (tl_observation reference))"
    if "reference \<in> set (ix_timeline ix)" "to_kind (tl_observation reference) = KindBrowserEvent" for reference
  proof -
    have "tl_observation reference \<in> set (event_references ix)"
      using that by (simp add: event_references_def)
    also have "set (event_references ix) = observation_of_row ` set (ix_events ix)"
      using assms by (metis events_ok_def list.set_map set_mset_mset)
    finally show ?thesis
      by (auto simp: observation_of_row_def)
  qed
  then have "filter (\<lambda>row. to_kind (tl_observation row) = KindBrowserEvent \<and>
     \<not> list_ex (\<lambda>event. event_key (be_id (er_event event)) = payload_sort_key (to_payload (tl_observation row)))
       (ix_events ix)) (ix_timeline ix) = []"
    by (auto simp: filter_empty_conv list_ex_iff)
  then show ?thesis
    by (simp add: orphan_references_def)
qed

lemma orphan_usage_same_events: "same_event_tables ix (snd (recover_orphan_usage report ix))"
proof (induction report ix rule: recover_orphan_usage.induct)
  case (1 report ix)
  let ?keys = "orphan_usage recovery_chunk_rows ix"
  have step: "same_event_tables ix (discard_usage ?keys ix)"
    by (simp add: discard_usage_def same_event_tables_def event_references_def)
  show ?case
  proof (cases "length ?keys < recovery_chunk_rows")
    case False
    then show ?thesis
      using same_event_tables_trans [OF step "1.IH" [OF refl refl refl]]
      by (simp add: recover_orphan_usage.simps [of report ix] Let_def)
  qed (simp add: recover_orphan_usage.simps [of report ix] Let_def step)
qed

lemma recover_events_same_events:
  assumes "events_ok ix"
  shows "same_event_tables ix (snd (recover_browser_events ix))"
proof -
  obtain walked ix1 where walk: "recover_chunks None empty_recovery_report ix = (walked, ix1)"
    by (cases "recover_chunks None empty_recovery_report ix")
  have first: "same_event_tables ix ix1"
    using recover_chunks_same_events [OF assms, of None empty_recovery_report] walk by simp
  show ?thesis
  proof (cases walked)
    case (Inr report)
    have "recover_orphan_timeline report ix1 = (Inr report, ix1)"
      using no_orphan_references [OF same_event_tables_ok [OF first assms]]
      by (simp add: recover_orphan_timeline.simps Let_def recovery_chunk_rows_def)
    then show ?thesis
      using walk Inr same_event_tables_trans [OF first orphan_usage_same_events [of ix1 report]]
      by (simp add: recover_browser_events_def split_beta)
  qed (use walk first in \<open>simp add: recover_browser_events_def\<close>)
qed

section \<open>Every history\<close>

lemmas same_events_transactions = gap_same_events evidence_same_events pin_same_events artifact_same_events
  journal_same_events catalog_same_events timeline_same_events frame_same_events recovery_rows_same_events
  register_same_events

theorem event_tables_invariant: "index_history ix captured \<Longrightarrow> events_ok ix"
proof (induction rule: index_history.induct)
  case opened
  show ?case
    by (simp add: empty_index_def events_ok_def event_references_def)
next
  case (applied ix captured op ix')
  consider (batch) batch where "op = RemoveDeletionMetadata batch"
    | (written) bytes budget usage batch where "op = AppendEvents bytes budget usage batch"
    | (evicted) before where "op = EvictEvents before"
    | (recovered) "op = RecoverEvents"
    | (other) "same_event_tables ix ix'"
    using applied.hyps(3) by (cases op)
      (auto simp: apply_op_def map_sum_snd unpin_resolved_range_def intro: same_events_transactions)
  then show ?case
  proof cases
    case batch
    then show ?thesis
      using applied.hyps(3) applied.IH by (auto simp: apply_op_def map_sum_snd intro: remove_metadata_events_ok)
  next
    case written
    then show ?thesis
      using applied.hyps(2,3) applied.IH by (auto simp: apply_op_def op_ok_def intro: append_batch_ok)
  next
    case evicted
    then show ?thesis
      using applied.hyps(3) applied.IH
      by (auto simp: apply_op_def map_sum_snd evict_oldest_browser_events_def intro: evict_events_ok)
  next
    case recovered
    then show ?thesis
      using applied.hyps(3) same_event_tables_ok [OF recover_events_same_events [OF applied.IH] applied.IH]
      by (simp add: apply_op_def)
  next
    case other
    then show ?thesis
      using same_event_tables_ok applied.IH by blast
  qed
qed

end
