(* ===== verification/Event_Retention.thy ===== *)
theory Event_Retention
  imports Event_History
begin

text \<open>
  No browser event goes without a record: eviction takes the oldest events, one record of their scope covers
  each of them and the counts of the records grow by their number. A batch that is accepted leaves the managed
  bytes within the budget, and what it displaced is recorded.
\<close>

section \<open>Records\<close>

definition ordinal_within :: "event_ordinal \<Rightarrow> (event_ordinal \<times> event_ordinal) option \<Rightarrow> bool" where
  "ordinal_within ordinal bounds \<longleftrightarrow> (case bounds of None \<Rightarrow> False
     | Some (lowest, highest) \<Rightarrow> event_ordinal_value lowest \<le> event_ordinal_value ordinal \<and>
         event_ordinal_value ordinal \<le> event_ordinal_value highest)"

definition covers_event :: "unavailable_reason \<Rightarrow> browser_event \<Rightarrow> unavailable_row \<Rightarrow> bool" where
  "covers_event reason event row \<longleftrightarrow>
     unavailable_of (be_session_id event) (be_target_id event) reason row \<and>
     range_contains (ur_range (un_range row)) (be_session_time event) \<and>
     ordinal_within (be_ordinal event) (ur_ordinals (un_range row))"

definition recorded_gone :: "unavailable_reason \<Rightarrow> browser_event \<Rightarrow> metadata_index \<Rightarrow> bool" where
  "recorded_gone reason event ix \<longleftrightarrow> (\<exists>row \<in> set (ix_unavailable ix). covers_event reason event row)"

definition unavailable_count :: "session_id \<Rightarrow> target_id \<Rightarrow> unavailable_reason \<Rightarrow> metadata_index \<Rightarrow> nat" where
  "unavailable_count session target reason ix = sum_list (map (\<lambda>row. unat (ur_event_count (un_range row)))
     (filter (unavailable_of session target reason) (ix_unavailable ix)))"

lemma tail_in:
  assumes "unavailable_tail session target reason rows = Some tail"
  shows "tail \<in> set rows \<and> unavailable_of session target reason tail"
proof -
  let ?rows = "filter (unavailable_of session target reason) rows"
  have "?rows \<noteq> []"
    using assms by (auto simp: unavailable_tail_def last_by_def)
  then show ?thesis
    using assms last_by_Some [of ?rows "\<lambda>row. (session_nanos (range_end (ur_range (un_range row))), un_id row)"]
    by (auto simp: unavailable_tail_def)
qed

lemma merge_scope [simp]: "unavailable_of session target reason (row\<lparr>un_range := merge_unavailable (un_range row) new n\<rparr>) \<longleftrightarrow>
    unavailable_of session target reason row"
  by (simp add: unavailable_of_def merge_unavailable_def)

lemma min_max_simps: "range_start (ur_range (merge_unavailable kept new n)) = min (range_start (ur_range kept)) (range_start (ur_range new))"
  "range_end (ur_range (merge_unavailable kept new n)) = max (range_end (ur_range kept)) (range_end (ur_range new))"
  "ur_event_count (merge_unavailable kept new n) = n"
  by (simp_all add: merge_unavailable_def)

text \<open>A merged record covers what the old one covered, and the new event.\<close>

lemma merge_covers:
  assumes "continues_range (un_range row) new" and "covers_event reason event row"
  shows "covers_event reason event (row\<lparr>un_range := merge_unavailable (un_range row) new n\<rparr>)"
proof -
  have "ordinal_within (be_ordinal event) (ur_ordinals (merge_unavailable (un_range row) new n))"
    using assms by (auto simp: covers_event_def continues_range_def ordinal_within_def merge_unavailable_def
        min_le_iff_disj le_max_iff_disj split: option.splits)
  then show ?thesis
    using assms(2) by (simp add: covers_event_def range_contains_iff min_max_simps min_le_iff_disj le_max_iff_disj)
qed

definition scope_of_event :: "browser_event \<Rightarrow> event_scope" where
  "scope_of_event event = \<lparr>sc_event_id = be_id event, sc_session_id = be_session_id event,
     sc_target_id = be_target_id event, sc_ordinal = be_ordinal event, sc_session_time = be_session_time event\<rparr>"

lemma new_covers:
  assumes "continues_range (un_range row) (unavailable_event (scope_of_event event) reason)"
    and "unavailable_of (be_session_id event) (be_target_id event) reason row"
  shows "covers_event reason event
    (row\<lparr>un_range := merge_unavailable (un_range row) (unavailable_event (scope_of_event event) reason) n\<rparr>)"
proof -
  have "ordinal_within (be_ordinal event)
      (ur_ordinals (merge_unavailable (un_range row) (unavailable_event (scope_of_event event) reason) n))"
    using assms(1) by (auto simp: continues_range_def ordinal_within_def merge_unavailable_def unavailable_event_def
        scope_of_event_def split: option.splits)
  then show ?thesis
    using assms(2) by (simp add: covers_event_def range_contains_iff min_max_simps unavailable_event_def scope_of_event_def)
qed

lemma fresh_covers: "covers_event reason event \<lparr>un_id = i, un_range = unavailable_event (scope_of_event event) reason\<rparr>"
  by (simp add: covers_event_def unavailable_of_def unavailable_event_def scope_of_event_def range_contains_iff
      ordinal_within_def)

lemma sum_update_one:
  fixes c :: "unavailable_row \<Rightarrow> nat"
  assumes "distinct (map un_id rows)" and "tail \<in> set rows" and "P (f tail) = P tail"
    and "P tail \<Longrightarrow> c (f tail) = c tail + d"
  shows "sum_list (map c (filter P (map (\<lambda>row. if un_id row = un_id tail then f row else row) rows))) =
    sum_list (map c (filter P rows)) + (if P tail then d else 0)"
  using assms(1,2)
proof (induction rows)
  case (Cons row rows)
  show ?case
  proof (cases "row = tail")
    case True
    then have "map (\<lambda>r. if un_id r = un_id tail then f r else r) rows = rows"
      using Cons.prems by (intro map_idI) (auto simp: rev_image_eqI)
    then show ?thesis
      using True assms(3,4) by simp
  next
    case False
    then have "un_id row \<noteq> un_id tail" "tail \<in> set rows"
      using Cons.prems by (auto simp: rev_image_eqI)
    then show ?thesis
      using Cons by simp
  qed
qed simp

lemma record_event_gone:
  assumes run: "record_unavailable_tx (unavailable_event (scope_of_event event) reason) ix = Inr ix'"
    and ids: "distinct (map un_id (ix_unavailable ix))"
  shows "recorded_gone reason event ix'"
    and "recorded_gone r other ix \<Longrightarrow> recorded_gone r other ix'"
    and "unavailable_count s t r ix' = unavailable_count s t r ix +
      (if be_session_id event = s \<and> be_target_id event = t \<and> reason = r then 1 else 0)"
proof -
  let ?new = "unavailable_event (scope_of_event event) reason"
  have scope: "unavailable_of s t r \<lparr>un_id = i, un_range = ?new\<rparr> \<longleftrightarrow>
      be_session_id event = s \<and> be_target_id event = t \<and> reason = r" for i
    by (auto simp: unavailable_of_def unavailable_event_def scope_of_event_def)
  show "recorded_gone reason event ix'"
    using run
  proof (cases rule: record_unavailable_cases)
    case fresh
    then show ?thesis
      using fresh_covers by (auto simp: recorded_gone_def)
  next
    case (merged tail total)
    have tail: "tail \<in> set (ix_unavailable ix)" "unavailable_of (be_session_id event) (be_target_id event) reason tail"
      using tail_in [OF merged(1)] by (simp_all add: unavailable_event_def scope_of_event_def)
    then show ?thesis
      using new_covers [OF merged(2)] by (auto simp: recorded_gone_def merged(4))
  qed
  show "recorded_gone r other ix'" if gone: "recorded_gone r other ix"
    using run
  proof (cases rule: record_unavailable_cases)
    case fresh
    then show ?thesis
      using gone by (auto simp: recorded_gone_def)
  next
    case (merged tail total)
    obtain row where row: "row \<in> set (ix_unavailable ix)" "covers_event r other row"
      using gone by (auto simp: recorded_gone_def)
    have "row = tail" if "un_id row = un_id tail"
      using that row tail_in [OF merged(1)] ids by (auto simp: distinct_map inj_on_def)
    then show ?thesis
      using row merge_covers [OF merged(2)] by (force simp: recorded_gone_def merged(4))
  qed
  show "unavailable_count s t r ix' = unavailable_count s t r ix +
      (if be_session_id event = s \<and> be_target_id event = t \<and> reason = r then 1 else 0)"
    using run
  proof (cases rule: record_unavailable_cases)
    case fresh
    then show ?thesis
      using scope by (auto simp: unavailable_count_def unavailable_event_def)
  next
    case (merged tail total)
    have tail: "tail \<in> set (ix_unavailable ix)" and tail_scope: "unavailable_of (be_session_id event) (be_target_id event) reason tail"
      using tail_in [OF merged(1)] by (simp_all add: unavailable_event_def scope_of_event_def)
    have P: "unavailable_of s t r tail \<longleftrightarrow> be_session_id event = s \<and> be_target_id event = t \<and> reason = r"
      using tail_scope by (auto simp: unavailable_of_def)
    have "unavailable_count s t r ix' = unavailable_count s t r ix + (if unavailable_of s t r tail then 1 else 0)"
      unfolding unavailable_count_def merged(4) using merged(3) tail_scope
      by (intro sum_update_one ids tail) (auto simp: unavailable_of_def merge_unavailable_def unavailable_event_def scope_of_event_def)
    then show ?thesis
      by (simp only: P)
  qed
qed

section \<open>Eviction\<close>

definition accounted_total :: "event_row list \<Rightarrow> nat" where
  "accounted_total rows = sum_list (map (\<lambda>row. unat (er_accounted_bytes row)) rows)"

definition in_event_scope :: "session_id \<Rightarrow> target_id \<Rightarrow> event_row \<Rightarrow> bool" where
  "in_event_scope session target row \<longleftrightarrow> be_session_id (er_event row) = session \<and> be_target_id (er_event row) = target"

text \<open>What taking the rows \<open>gone\<close> out of an index leaves.\<close>

definition evicted_from :: "metadata_index \<Rightarrow> event_row list \<Rightarrow> metadata_index \<Rightarrow> bool" where
  "evicted_from ix gone ix' \<longleftrightarrow>
     ix_events ix' = filter (\<lambda>row. event_id_of row \<notin> event_id_of ` set gone) (ix_events ix) \<and>
     (\<forall>row \<in> set gone. recorded_gone RetentionEvicted (er_event row) ix') \<and>
     (\<forall>r event. recorded_gone r event ix \<longrightarrow> recorded_gone r event ix') \<and>
     (\<forall>s t. unavailable_count s t RetentionEvicted ix' =
       unavailable_count s t RetentionEvicted ix + length (filter (in_event_scope s t) gone))"

lemma evicted_from_refl: "evicted_from ix [] ix"
  by (simp add: evicted_from_def)

lemma evicted_from_trans:
  assumes "evicted_from ix gone ix'" and "evicted_from ix' later ix''"
  shows "evicted_from ix (gone @ later) ix''"
  using assms by (auto simp: evicted_from_def image_Un filter_filter conj_commute)

lemma evict_event_from:
  assumes run: "evict_event row ix = Inr ix'" and ok: "events_ok ix" and row: "row \<in> set (ix_events ix)"
  shows "evicted_from ix [row] ix'"
proof -
  have "event_row_ok row"
    using ok row by (simp add: events_ok_def)
  then have "decode_scope row = Inr (scope_of_event (er_event row))"
    by (simp add: decode_scope_ok scope_of_event_def)
  then have noted: "record_unavailable_tx (unavailable_event (scope_of_event (er_event row)) RetentionEvicted)
      (delete_event (be_id (er_event row)) ix) = Inr ix'"
    using run by (simp add: evict_event_def scope_of_event_def)
  have ids: "distinct (map un_id (ix_unavailable (delete_event (be_id (er_event row)) ix)))"
    using ok by (simp add: events_ok_def)
  have events: "ix_events ix' = filter (\<lambda>r. event_id_of r \<noteq> event_id_of row) (ix_events ix)"
    using noted by (simp add: event_id_of_def)
  have "recorded_gone r e (delete_event (be_id (er_event row)) ix) = recorded_gone r e ix"
    "unavailable_count s t r (delete_event (be_id (er_event row)) ix) = unavailable_count s t r ix" for r e s t
    by (simp_all add: recorded_gone_def unavailable_count_def)
  then show ?thesis
    using record_event_gone [OF noted ids] by (auto simp: evicted_from_def events in_event_scope_def)
qed

lemma row_bytes_positive: "event_row_ok row \<Longrightarrow> 0 < er_accounted_bytes row"
proof -
  assume "event_row_ok row"
  let ?n = "length (ep_json (be_payload (er_event row))) + projection_bytes (er_event row) + event_row_allowance_bytes"
  have "?n < 2 ^ 64" "er_accounted_bytes row = word_of_nat ?n"
    using \<open>event_row_ok row\<close> by (simp_all add: event_row_ok_def accounted_bytes_def ok_or_Inr_iff split: if_split_asm)
  then have "unat (er_accounted_bytes row) = ?n"
    by (simp only: unat_of_nat) simp
  then show ?thesis
    by (simp add: word_less_nat_alt event_row_allowance_bytes_def)
qed

lemma evict_rows_from:
  assumes "evict_rows max_bytes required removed rows ix = Inr (freed, ix')" and "events_ok ix"
    and "set rows \<subseteq> set (ix_events ix)" and "distinct rows"
  shows "\<exists>k \<le> length rows. evicted_from ix (take k rows) ix' \<and>
    unat freed = unat removed + accounted_total (take k rows) \<and> (rows \<noteq> [] \<longrightarrow> removed = 0 \<longrightarrow> 0 < k) \<and>
    (freed \<le> max_bytes \<or> k = 0 \<or> removed = 0 \<and> k \<le> 1)"
  using assms
proof (induction max_bytes required removed rows ix arbitrary: freed ix' rule: evict_rows.induct)
  case (1 max_bytes required removed ix)
  then show ?case
    by (simp add: evicted_from_refl accounted_total_def)
next
  case (2 max_bytes required removed row rows ix)
  show ?case
  proof (cases "removed > 0 \<and> saturating_add removed (er_accounted_bytes row) > max_bytes")
    case True
    then show ?thesis
      using "2.prems" by (intro exI [of _ 0]) (auto simp: evicted_from_refl accounted_total_def)
  next
    case False
    obtain ix1 total where evict: "evict_event row ix = Inr ix1"
      and sum: "checked_add removed (er_accounted_bytes row) = Some total"
      and rest: "(if (case required of None \<Rightarrow> False | Some needed \<Rightarrow> total \<ge> needed) then Inr (total, ix1)
        else evict_rows max_bytes required total rows ix1) = Inr (freed, ix')"
      using "2.prems"(1) False by (auto simp: and_then_Inr_iff ok_or_Inr_iff)
    have row: "row \<in> set (ix_events ix)" "event_row_ok row"
      using "2.prems" by (auto simp: events_ok_def)
    have first: "evicted_from ix [row] ix1"
      by (rule evict_event_from [OF evict "2.prems"(2) row(1)])
    have total: "unat total = unat removed + unat (er_accounted_bytes row)"
      using sum by (simp add: checked_add_Some_iff)
    have pos: "total \<noteq> 0"
      using row_bytes_positive [OF row(2)] total by (auto simp: word_less_nat_alt unat_eq_zero)
    have fits: "total \<le> max_bytes \<or> removed = 0"
    proof -
      have "saturating_add removed (er_accounted_bytes row) = total"
        using sum by (simp add: checked_add_def saturating_add_def split: if_splits)
      then show ?thesis
        using False by (auto simp: not_less word_gt_0)
    qed
    show ?thesis
    proof (cases "case required of None \<Rightarrow> False | Some needed \<Rightarrow> total \<ge> needed")
      case True
      then have "freed = total" "ix' = ix1"
        using rest by simp_all
      then show ?thesis
        using first total fits by (intro exI [of _ 1]) (simp add: accounted_total_def)
    next
      case more: False
      have ids: "event_id_of r \<noteq> event_id_of row" if "r \<in> set rows" for r
        using that "2.prems" row by (auto simp: events_ok_def distinct_map inj_on_def)
      then have "set rows \<subseteq> set (ix_events ix1)"
        using "2.prems"(3) first by (auto simp: evicted_from_def)
      then obtain k where k: "k \<le> length rows" "evicted_from ix1 (take k rows) ix'"
        "unat freed = unat total + accounted_total (take k rows)" "freed \<le> max_bytes \<or> k = 0"
        using "2.IH" [OF False evict _ more] rest sum more evict_event_ok [OF evict "2.prems"(2)]
          "2.prems"(4) pos by auto
      have "freed = total" if "k = 0"
        using k(3) that by (simp add: accounted_total_def word_unat_eq_iff)
      then have "freed \<le> max_bytes \<or> removed = 0 \<and> Suc k \<le> 1"
        using k(4) fits by auto
      then show ?thesis
        using k evicted_from_trans [OF first k(2)] total
        by (intro exI [of _ "Suc k"]) (simp add: accounted_total_def)
    qed
  qed
qed

lemma candidates_of_index:
  assumes "events_ok ix"
  shows "set (eviction_candidates before n ix) \<subseteq> set (ix_events ix)" "distinct (eviction_candidates before n ix)"
proof -
  show "set (eviction_candidates before n ix) \<subseteq> set (ix_events ix)"
    by (auto simp: eviction_candidates_def dest!: in_set_takeD)
  have "distinct (ix_events ix)"
    using assms by (auto simp: events_ok_def distinct_map)
  then show "distinct (eviction_candidates before n ix)"
    by (simp add: eviction_candidates_def)
qed

section \<open>Batches\<close>

definition stored_events :: "metadata_index \<Rightarrow> browser_event set" where
  "stored_events ix = er_event ` set (ix_events ix)"

lemma append_events_fold:
  assumes "fold_result append_valid_event (start, ix) events = Inr (inserted, ix1)" and "events_ok ix"
    and "\<forall>event \<in> set events. event_typed event"
  shows "events_ok ix1 \<and> ix_unavailable ix1 = ix_unavailable ix \<and> set events \<subseteq> stored_events ix1 \<and>
    (\<exists>new. ix_events ix1 = ix_events ix @ new \<and> unat inserted = unat start + accounted_total new)"
  using assms
proof (induction events arbitrary: start ix)
  case Nil
  then show ?case
    by (simp add: accounted_total_def)
next
  case (Cons event events)
  then obtain bytes ix2 total where valid: "event_validate event = Inr ()" and step: "append_event_tx event ix = Inr (bytes, ix2)"
    and sum: "checked_add start bytes = Some total"
    and rest: "fold_result append_valid_event (total, ix2) events = Inr (inserted, ix1)"
    by (auto simp: append_valid_event_def and_then_Inr_iff map_err_Inr_iff ok_or_Inr_iff)
  have ok: "events_ok ix2"
    using append_event_ok [OF step Cons.prems(2)] valid Cons.prems(3) by simp
  have total: "unat total = unat start + unat bytes"
    using sum by (simp add: checked_add_Some_iff)
  have one: "ix_unavailable ix2 = ix_unavailable ix \<and> event \<in> stored_events ix2 \<and>
      (\<exists>new. ix_events ix2 = ix_events ix @ new \<and> unat bytes = accounted_total new)"
    using step Cons.prems(2)
  proof (cases rule: append_event_cases)
    case (replayed row)
    then show ?thesis
      by (auto simp: stored_events_def accounted_total_def)
  next
    case inserted
    then show ?thesis
      by (simp add: stored_events_def accounted_total_def)
  qed
  have "events_ok ix1 \<and> ix_unavailable ix1 = ix_unavailable ix2 \<and> set events \<subseteq> stored_events ix1 \<and>
      (\<exists>new. ix_events ix1 = ix_events ix2 @ new \<and> unat inserted = unat total + accounted_total new)"
    using Cons.prems(3) by (intro Cons.IH [OF rest ok]) simp
  then show ?case
    using one total by (auto simp: accounted_total_def stored_events_def)
qed

lemma evicted_accounts:
  assumes from_ix: "evicted_from ix gone ix'" and ok: "events_ok ix" and gone: "set gone \<subseteq> set (ix_events ix)" "distinct gone"
  shows "accounted_total (ix_events ix) = accounted_total (ix_events ix') + accounted_total gone"
    and "event \<in> stored_events ix \<Longrightarrow> event \<in> stored_events ix' \<or> recorded_gone RetentionEvicted event ix'"
proof -
  have inj: "inj_on event_id_of (set (ix_events ix))" and dist: "distinct (ix_events ix)"
    using ok by (auto simp: events_ok_def distinct_map)
  have mem: "event_id_of row \<in> event_id_of ` set gone \<longleftrightarrow> row \<in> set gone" if "row \<in> set (ix_events ix)" for row
    using inj gone(1) that by (meson image_eqI inj_on_image_mem_iff)
  then have left: "ix_events ix' = filter (\<lambda>row. row \<notin> set gone) (ix_events ix)"
    using from_ix by (auto simp: evicted_from_def intro: filter_cong)
  have "accounted_total rows = accounted_total (filter (\<lambda>row. row \<notin> S) rows) + accounted_total (filter (\<lambda>row. row \<in> S) rows)" for rows S
    by (induction rows) (simp_all add: accounted_total_def)
  moreover have "accounted_total (filter (\<lambda>row. row \<in> set gone) (ix_events ix)) = accounted_total gone"
  proof -
    have "mset (filter (\<lambda>row. row \<in> set gone) (ix_events ix)) = mset gone"
    proof (rule set_eq_iff_mset_eq_distinct [THEN iffD1])
      show "set (filter (\<lambda>row. row \<in> set gone) (ix_events ix)) = set gone"
        using gone(1) by (simp add: set_eq_iff subset_iff) blast
    qed (use dist gone(2) in simp_all)
    moreover have "accounted_total rows = sum_mset (image_mset (\<lambda>row. unat (er_accounted_bytes row)) (mset rows))" for rows
      by (simp add: accounted_total_def flip: sum_mset_sum_list)
    ultimately show ?thesis
      by simp
  qed
  ultimately show "accounted_total (ix_events ix) = accounted_total (ix_events ix') + accounted_total gone"
    unfolding left by metis
  show "event \<in> stored_events ix' \<or> recorded_gone RetentionEvicted event ix'" if stored: "event \<in> stored_events ix"
  proof -
    obtain row where row: "row \<in> set (ix_events ix)" "event = er_event row"
      using stored by (auto simp: stored_events_def)
    show ?thesis
    proof (cases "row \<in> set gone")
      case True
      then show ?thesis
        using from_ix row by (simp add: evicted_from_def)
    next
      case False
      then show ?thesis
        using row by (simp add: stored_events_def left)
    qed
  qed
qed

lemma evict_events_from:
  assumes "evict_events_tx before max_rows max_bytes required ix = Inr (freed, ix')" and ok: "events_ok ix"
  shows "\<exists>k. evicted_from ix (take k (eviction_candidates before max_rows ix)) ix' \<and>
    unat freed = accounted_total (take k (eviction_candidates before max_rows ix)) \<and>
    (eviction_candidates before max_rows ix \<noteq> [] \<longrightarrow> 0 < k) \<and> (freed \<le> max_bytes \<or> k \<le> 1)"
proof -
  have "evict_rows max_bytes required 0 (eviction_candidates before max_rows ix) ix = Inr (freed, ix')"
    using assms(1) by (auto simp: evict_events_tx_def split: if_splits)
  from evict_rows_from [OF this ok candidates_of_index [OF ok]] show ?thesis
    by auto
qed

lemma batch_accounts:
  assumes run: "append_browser_event_batch bytes budget usage batch ix = Inr ix'" and ok: "events_ok ix"
    and typed: "\<forall>event \<in> set (eb_events batch). event_typed event"
  shows "unat usage + accounted_total (ix_events ix') \<le> unat budget + accounted_total (ix_events ix)"
    and "event \<in> set (eb_events batch) \<or> event \<in> stored_events ix \<Longrightarrow>
      event \<in> stored_events ix' \<or> recorded_gone RetentionEvicted event ix'"
proof -
  obtain inserted ix1 total where written: "fold_result append_valid_event (0, ix) (eb_events batch) = Inr (inserted, ix1)"
    and sum: "checked_add usage inserted = Some total"
    and fits: "total \<le> budget \<and> ix' = ix1 \<or> (\<exists>freed. evict_events_tx None max_event_eviction_rows max_event_eviction_bytes
      (Some (total - budget)) ix1 = Inr (freed, ix') \<and> saturating_sub total freed \<le> budget)"
    using run by (auto simp: append_browser_event_batch_def and_then_Inr_iff ok_or_Inr_iff not_less split: if_splits)
  obtain new where ok1: "events_ok ix1" and batch: "set (eb_events batch) \<subseteq> stored_events ix1"
    and new: "ix_events ix1 = ix_events ix @ new" "unat inserted = accounted_total new"
    using append_events_fold [OF written ok typed] by auto
  have total: "unat total = unat usage + accounted_total new"
    using sum new(2) by (simp add: checked_add_Some_iff)
  have grown: "accounted_total (ix_events ix1) = accounted_total (ix_events ix) + accounted_total new"
    by (simp add: new(1) accounted_total_def)
  have stored_before: "event \<in> stored_events ix1" if "event \<in> set (eb_events batch) \<or> event \<in> stored_events ix"
    using that batch by (auto simp: stored_events_def new(1))
  from fits show "unat usage + accounted_total (ix_events ix') \<le> unat budget + accounted_total (ix_events ix)"
    and "event \<in> set (eb_events batch) \<or> event \<in> stored_events ix \<Longrightarrow>
      event \<in> stored_events ix' \<or> recorded_gone RetentionEvicted event ix'"
  proof (atomize (full), elim disjE exE conjE)
    assume "total \<le> budget" and "ix' = ix1"
    then show "unat usage + accounted_total (ix_events ix') \<le> unat budget + accounted_total (ix_events ix) \<and>
        (event \<in> set (eb_events batch) \<or> event \<in> stored_events ix \<longrightarrow>
          event \<in> stored_events ix' \<or> recorded_gone RetentionEvicted event ix')"
      using total grown stored_before by (simp add: word_le_nat_alt)
  next
    fix freed
    assume evict: "evict_events_tx None max_event_eviction_rows max_event_eviction_bytes (Some (total - budget)) ix1 = Inr (freed, ix')"
      and budget: "saturating_sub total freed \<le> budget"
    let ?rows = "eviction_candidates None max_event_eviction_rows ix1"
    obtain k where k: "evicted_from ix1 (take k ?rows) ix'" "unat freed = accounted_total (take k ?rows)"
      using evict_events_from [OF evict ok1] by auto
    have gone: "set (take k ?rows) \<subseteq> set (ix_events ix1)" "distinct (take k ?rows)"
      using candidates_of_index [OF ok1, of None max_event_eviction_rows] by (auto dest!: in_set_takeD)
    note accounts = evicted_accounts [OF k(1) ok1 gone]
    have "unat total - unat freed \<le> unat budget"
      using budget by (simp add: word_le_nat_alt unat_saturating_sub)
    then show "unat usage + accounted_total (ix_events ix') \<le> unat budget + accounted_total (ix_events ix) \<and>
        (event \<in> set (eb_events batch) \<or> event \<in> stored_events ix \<longrightarrow>
          event \<in> stored_events ix' \<or> recorded_gone RetentionEvicted event ix')"
      using total grown accounts k(2) stored_before by auto
  qed
qed

end
