(* ===== verification/Temporal_Context.thy ===== *)
theory Temporal_Context
  imports Index_Event_Queries
begin

text \<open>
  The temporal context of a resolved range (\<open>crates/krometrail-core/src/timeline/context.rs\<close>): the quality
  of the capture (cadence, warnings, gaps, visual epochs, status of the capture) and the browser events
  beside it, compact or page by page. The service reads through two ports, the frames and the browser events;
  the record \<open>context_ports\<close> holds them, \<open>index_context_ports\<close> fills it from a metadata index.
\<close>

section \<open>Errors\<close>

definition context_error :: "error_code \<Rightarrow> string \<Rightarrow> resolved_range \<Rightarrow> string option \<Rightarrow> krometrail_error" where
  "context_error code message resolved recovery = \<lparr>re_code = code, re_message = PortMessage message,
     re_context = no_context\<lparr>ec_session_id := Some (rr_session_id resolved), ec_target_id := Some (rr_target_id resolved),
       ec_range := Some (rr_resolved_range resolved)\<rparr>,
     re_retry = (if recovery = None then RetryNever else RetryAfterRecovery),
     re_recovery = map_option RecoveryText recovery\<rparr>"

definition map_source_error :: "string \<Rightarrow> resolved_range \<Rightarrow> krometrail_error \<Rightarrow> krometrail_error" where
  "map_source_error message resolved error = context_error (re_code error) message resolved
     (case re_code error of
        CodeNotFound \<Rightarrow> Some ''resolve the temporal range again before requesting context''
      | CodePersistenceFailed \<Rightarrow> Some ''inspect recording storage before retrying the context query''
      | _ \<Rightarrow> None)"

definition invalid_error :: "string \<Rightarrow> krometrail_error" where
  "invalid_error message = krometrail_error_new CodeInvalidInput (PortMessage message)"

section \<open>Requests\<close>

definition max_capture_quality_frames :: nat where "max_capture_quality_frames = 20000"
definition max_focus_times :: nat where "max_focus_times = 16"
definition max_compact_event_limit :: nat where "max_compact_event_limit = 64"
definition operational_event_scan_limit :: nat where "operational_event_scan_limit = max_event_page_rows"

record event_filter =
  bf_classes :: "event_class list"
  bf_minimum_severity :: event_severity

definition event_filter_new :: "event_class list \<Rightarrow> event_severity \<Rightarrow> krometrail_error + event_filter" where
  "event_filter_new classes severity =
     (if \<not> distinct classes then Inl (invalid_error ''browser event filter classes must be unique'')
      else Inr \<lparr>bf_classes = sort classes, bf_minimum_severity = severity\<rparr>)"

definition filter_selector :: "event_filter \<Rightarrow> resolved_range \<Rightarrow> session_range \<Rightarrow> krometrail_error + event_selector" where
  "filter_selector event_filter resolved effective =
     event_selector_new (rr_session_id resolved) (rr_target_id resolved) effective (bf_classes event_filter)
       (bf_minimum_severity event_filter)"

definition event_compact_limit_new :: "nat \<Rightarrow> krometrail_error + nat" where
  "event_compact_limit_new value =
     (if value = 0 \<or> value > max_compact_event_limit
      then Inl (invalid_error ''compact browser event limit is out of range'') else Inr value)"

datatype event_selection = SelectCompact nat | SelectChronological nat "event_cursor option"

definition selection_compact :: "nat \<Rightarrow> krometrail_error + event_selection" where
  "selection_compact limit = and_then (event_compact_limit_new limit) (\<lambda>limit. Inr (SelectCompact limit))"

definition selection_chronological :: "nat \<Rightarrow> event_cursor option \<Rightarrow> krometrail_error + event_selection" where
  "selection_chronological limit cursor =
     and_then (event_page_limit_new limit) (\<lambda>limit. Inr (SelectChronological limit cursor))"

record context_request =
  cq_range :: resolved_range
  cq_clip :: "session_range option"
  cq_filter :: event_filter
  cq_selection :: event_selection
  cq_focus_times :: "session_time list"

definition range_intersection :: "session_range \<Rightarrow> session_range \<Rightarrow> session_range option" where
  "range_intersection left right =
     (let start = max (range_start left) (range_start right); finish = min (range_end left) (range_end right) in
      if start \<le> finish then Some \<lparr>range_start = start, range_end = finish\<rparr> else None)"

definition validate_resolved_range :: "resolved_range \<Rightarrow> krometrail_error + unit" where
  "validate_resolved_range resolved =
     (if session_uuid (rr_session_id resolved) = 0 \<or> target_uuid (rr_target_id resolved) = 0 \<or>
         list_ex (\<lambda>i. frame_uuid i = 0) (rr_frame_ids resolved)
      then Inl (context_error CodeInvalidInput ''temporal context resolved scope contains a nil identity'' resolved None)
      else and_then (map_err (\<lambda>_. context_error CodeInvalidInput ''temporal context resolved range is invalid'' resolved None)
        (resolved_range_validate resolved)) (\<lambda>_.
      if list_ex (\<lambda>gap. gap_session_id gap \<noteq> rr_session_id resolved \<or> gap_target_id gap \<noteq> rr_target_id resolved \<or>
           range_intersection (gap_range gap) (rr_requested_range resolved) = None) (rr_gaps resolved)
      then Inl (context_error CodeInvalidInput ''temporal context gap scope is inconsistent'' resolved None)
      else Inr ()))"

definition effective_clip :: "resolved_range \<Rightarrow> session_range option \<Rightarrow> krometrail_error + session_range" where
  "effective_clip resolved clip = (case clip of
     Some clip \<Rightarrow>
       if range_start clip \<ge> range_start (rr_resolved_range resolved) \<and> range_end clip \<le> range_end (rr_resolved_range resolved)
       then Inr clip
       else Inl (context_error CodeInvalidInput ''temporal context clip must be contained in the resolved range'' resolved None)
   | None \<Rightarrow> Inr (rr_resolved_range resolved))"

definition context_request_new :: "context_request \<Rightarrow> krometrail_error + context_request" where
  "context_request_new request =
     (let resolved = cq_range request in
      and_then (validate_resolved_range resolved) (\<lambda>_.
      if length (rr_frame_ids resolved) > max_capture_quality_frames
      then Inl (context_error CodeResourceLimitExceeded ''temporal context frame count exceeds its limit'' resolved None)
      else and_then (effective_clip resolved (cq_clip request)) (\<lambda>effective.
      if length (cq_focus_times request) > max_focus_times \<or>
         list_ex (\<lambda>time. \<not> range_contains effective time) (cq_focus_times request)
      then Inl (context_error CodeInvalidInput ''temporal context focus times are outside their bounded range'' resolved None)
      else and_then (filter_selector (cq_filter request) resolved effective) (\<lambda>selector.
      if (case cq_selection request of
            SelectChronological _ (Some cursor) \<Rightarrow> cu_selector cursor \<noteq> selector | _ \<Rightarrow> False)
      then Inl (context_error CodeInvalidInput ''browser event cursor does not match the temporal context request'' resolved None)
      else Inr request))))"

definition effective_range :: "context_request \<Rightarrow> session_range" where
  "effective_range request = (case cq_clip request of Some clip \<Rightarrow> clip | None \<Rightarrow> rr_resolved_range (cq_range request))"

section \<open>Capture quality\<close>

fun frames_follow :: "resolved_range \<Rightarrow> captured_frame option \<Rightarrow> (frame_id \<times> captured_frame) list \<Rightarrow> bool" where
  "frames_follow resolved preceding [] \<longleftrightarrow> True"
| "frames_follow resolved preceding ((expected, frame) # rest) \<longleftrightarrow>
     \<not> (cf_id frame \<noteq> expected \<or> cf_session_id frame \<noteq> rr_session_id resolved \<or> cf_target_id frame \<noteq> rr_target_id resolved \<or>
        \<not> range_contains (rr_resolved_range resolved) (cf_session_time frame) \<or>
        (case preceding of None \<Rightarrow> False | Some previous \<Rightarrow>
           ordinal_value (cf_capture_ordinal frame) \<le> ordinal_value (cf_capture_ordinal previous) \<or>
           cf_session_time frame < cf_session_time previous)) \<and>
     frames_follow resolved (Some frame) rest"

definition validate_context_frames :: "resolved_range \<Rightarrow> captured_frame list \<Rightarrow> krometrail_error + unit" where
  "validate_context_frames resolved metadata =
     (if length metadata \<noteq> length (rr_frame_ids resolved)
      then Inl (context_error CodeNotFound ''resolved source frame metadata is no longer complete'' resolved
        (Some ''resolve the temporal range again before requesting context''))
      else if \<not> frames_follow resolved None (zip (rr_frame_ids resolved) metadata)
      then Inl (context_error CodePersistenceFailed ''resolved source frame metadata is inconsistent'' resolved
        (Some ''resolve the temporal range again; if this repeats, inspect recording storage''))
      else Inr ())"

record frame_point =
  fp_frame_id :: frame_id
  fp_capture_ordinal :: capture_ordinal
  fp_session_time :: session_time

definition frame_point_of :: "captured_frame \<Rightarrow> frame_point" where
  "frame_point_of frame = \<lparr>fp_frame_id = cf_id frame, fp_capture_ordinal = cf_capture_ordinal frame,
     fp_session_time = cf_session_time frame\<rparr>"

record cadence_summary =
  cd_interval_count :: nat
  cd_min_nanos :: u64
  cd_median_nanos :: u64
  cd_p95_nanos :: u64
  cd_max_nanos :: u64

definition frame_deltas :: "captured_frame list \<Rightarrow> u64 list" where
  "frame_deltas metadata = map (\<lambda>(a, b). saturating_sub (session_nanos (cf_session_time b)) (session_nanos (cf_session_time a)))
     (zip metadata (tl metadata))"

definition nearest_rank :: "u64 list \<Rightarrow> nat \<Rightarrow> u64" where
  "nearest_rank sorted_values percentile =
     (let rank = max 1 (min (length sorted_values) ((percentile * length sorted_values + 99) div 100)) in
      sorted_values ! (rank - 1))"

definition cadence :: "captured_frame list \<Rightarrow> cadence_summary option" where
  "cadence metadata =
     (let deltas = sort (frame_deltas metadata) in
      if deltas = [] then None
      else Some \<lparr>cd_interval_count = length deltas, cd_min_nanos = hd deltas,
        cd_median_nanos = nearest_rank deltas 50, cd_p95_nanos = nearest_rank deltas 95,
        cd_max_nanos = last deltas\<rparr>)"

definition warning_summary :: "captured_frame list \<Rightarrow> (capture_warning \<times> nat) list" where
  "warning_summary metadata = filter (\<lambda>(_, frames). frames > 0)
     (map (\<lambda>warning. (warning, length (filter (\<lambda>frame. warning \<in> set (cf_warnings frame)) metadata)))
       [MissingSourceTime, SourceTimestampRounded, ViewportMetadataIncomplete])"

record capture_gap_summary =
  gs_gap_count :: nat
  gs_covered_duration_nanos :: u64
  gs_known_missing_frames :: u64
  gs_has_unknown_missing_estimate :: bool

definition clipped_gaps :: "capture_gap list \<Rightarrow> session_range \<Rightarrow> session_range list" where
  "clipped_gaps gaps resolved = List.map_filter (\<lambda>gap. range_intersection (gap_range gap) resolved) gaps"

definition known_missing :: "capture_gap list \<Rightarrow> session_range \<Rightarrow> u64" where
  "known_missing gaps resolved = foldl (\<lambda>known gap. case gap_estimated_missing_frames gap of
       Some missing \<Rightarrow> saturating_add known missing | None \<Rightarrow> known) 0
     (filter (\<lambda>gap. range_intersection (gap_range gap) resolved \<noteq> None) gaps)"

definition merge_gap :: "session_range list \<Rightarrow> session_range \<Rightarrow> session_range list" where
  "merge_gap merged current =
     (if merged \<noteq> [] \<and> range_start current \<le> range_end (last merged)
      then butlast merged @ [\<lparr>range_start = range_start (last merged),
        range_end = max (range_end (last merged)) (range_end current)\<rparr>]
      else merged @ [current])"

definition merged_gaps :: "session_range list \<Rightarrow> session_range list" where
  "merged_gaps clipped = foldl merge_gap []
     (sort_key (\<lambda>r. (session_nanos (range_start r), session_nanos (range_end r))) clipped)"

definition covered_duration :: "session_range list \<Rightarrow> u64" where
  "covered_duration merged = foldl (\<lambda>covered r. saturating_add covered
     (saturating_sub (session_nanos (range_end r)) (session_nanos (range_start r)))) 0 merged"

definition gap_summary :: "capture_gap list \<Rightarrow> session_range \<Rightarrow> capture_gap_summary" where
  "gap_summary gaps resolved = \<lparr>
     gs_gap_count = length (filter (\<lambda>gap. range_intersection (gap_range gap) resolved \<noteq> None) gaps),
     gs_covered_duration_nanos = covered_duration (merged_gaps (clipped_gaps gaps resolved)),
     gs_known_missing_frames = known_missing gaps resolved,
     gs_has_unknown_missing_estimate = list_ex (\<lambda>gap. range_intersection (gap_range gap) resolved \<noteq> None \<and>
       gap_estimated_missing_frames gap = None) gaps\<rparr>"

record epoch_summary =
  eu_epoch_index :: u32
  eu_range :: session_range
  eu_frame_count :: u64
  eu_first_frame :: frame_point
  eu_last_frame :: frame_point
  eu_image :: pixel_dimensions
  eu_viewport :: pixel_dimensions
  eu_device_scale_factor :: device_scale_factor

definition new_epoch :: "u32 \<Rightarrow> captured_frame \<Rightarrow> epoch_summary" where
  "new_epoch index frame = \<lparr>eu_epoch_index = index,
     eu_range = \<lparr>range_start = cf_session_time frame, range_end = cf_session_time frame\<rparr>, eu_frame_count = 1,
     eu_first_frame = frame_point_of frame, eu_last_frame = frame_point_of frame, eu_image = cf_image frame,
     eu_viewport = cf_viewport frame, eu_device_scale_factor = cf_device_scale_factor frame\<rparr>"

definition extend_epoch :: "epoch_summary \<Rightarrow> captured_frame \<Rightarrow> krometrail_error + epoch_summary" where
  "extend_epoch epoch frame =
     and_then (map_err (\<lambda>_. persistence_error ''epoch frame metadata is not in session-time order'')
       (session_range_new (range_start (eu_range epoch)) (cf_session_time frame))) (\<lambda>interval.
     Inr (epoch\<lparr>eu_frame_count := saturating_add (eu_frame_count epoch) 1,
       eu_last_frame := frame_point_of frame, eu_range := interval\<rparr>))"

definition epoch_step :: "epoch_summary list \<times> captured_frame option \<Rightarrow> captured_frame \<Rightarrow>
    krometrail_error + epoch_summary list \<times> captured_frame option" where
  "epoch_step = (\<lambda>(epochs, previous) frame.
     if (case previous of None \<Rightarrow> False | Some previous \<Rightarrow> same_visual_epoch frame previous) \<and> epochs \<noteq> []
     then and_then (extend_epoch (last epochs) frame) (\<lambda>epoch. Inr (butlast epochs @ [epoch], Some frame))
     else if length epochs \<ge> 2 ^ 32
     then Inl (krometrail_error_new CodeResourceLimitExceeded (PortMessage ''epoch count exceeds the summary format''))
     else Inr (epochs @ [new_epoch (word_of_nat (length epochs)) frame], Some frame))"

definition epoch_summaries :: "captured_frame list \<Rightarrow> krometrail_error + epoch_summary list" where
  "epoch_summaries metadata = and_then (fold_result epoch_step ([], None) metadata) (\<lambda>(epochs, _). Inr epochs)"

section \<open>Status of the capture\<close>

record capture_status_point =
  sp_session_time :: session_time
  sp_attachment_generation :: u64
  sp_state :: capture_stream_state
  sp_status :: target_capture_status

record capture_status_bound =
  sb_state :: capture_stream_state
  sb_established_at :: session_time
  sb_attachment_generation :: u64

record capture_status_evidence =
  se_at_range_start :: "capture_status_bound option"
  se_at_range_end :: "capture_status_bound option"
  se_transitions :: "capture_status_point list"

datatype capture_quality_warning = CaptureStatusMissing | CaptureStatusUnavailable | CaptureStatusTruncated

definition capture_status_bound_of :: "capture_status_point \<Rightarrow> capture_status_bound" where
  "capture_status_bound_of point = \<lparr>sb_state = sp_state point, sb_established_at = sp_session_time point,
     sb_attachment_generation = sp_attachment_generation point\<rparr>"

definition capture_status_point_of :: "resolved_range \<Rightarrow> browser_event \<Rightarrow> krometrail_error + capture_status_point" where
  "capture_status_point_of resolved event =
     (let recovery = Some ''inspect recording storage before retrying the context query'' in
      case ep_capture_status (be_payload event) of
        None \<Rightarrow> Inl (context_error CodePersistenceFailed ''capture status source returned a non-status event'' resolved recovery)
      | Some status \<Rightarrow>
          if be_session_id event \<noteq> rr_session_id resolved \<or> be_target_id event \<noteq> rr_target_id resolved
          then Inl (context_error CodePersistenceFailed ''capture status scope is inconsistent'' resolved recovery)
          else Inr \<lparr>sp_session_time = be_session_time event,
            sp_attachment_generation = be_attachment_generation event, sp_state = ts_state status, sp_status = status\<rparr>)"

definition status_order_broken :: "session_range \<Rightarrow> capture_status_samples \<Rightarrow> bool" where
  "status_order_broken effective samples \<longleftrightarrow>
     (case cs_at_or_before samples of None \<Rightarrow> False | Some event \<Rightarrow> be_session_time event > range_start effective) \<or>
     list_ex (\<lambda>event. \<not> range_contains effective (be_session_time event)) (cs_in_range samples) \<or>
     list_ex (\<lambda>(a, b). event_order a > event_order b) (zip (cs_in_range samples) (tl (cs_in_range samples)))"

definition status_warnings :: "unavailable_range list \<Rightarrow> capture_status_bound option \<Rightarrow> nat \<Rightarrow>
    capture_quality_warning list" where
  "status_warnings unavailable at_start samples =
     (if unavailable \<noteq> [] then [CaptureStatusUnavailable] else if at_start = None then [CaptureStatusMissing] else []) @
     (if samples = max_capture_status_samples then [CaptureStatusTruncated] else [])"

definition capture_status_evidence_of :: "resolved_range \<Rightarrow> session_range \<Rightarrow> capture_status_samples \<Rightarrow>
    unavailable_range list \<Rightarrow> krometrail_error + capture_status_evidence \<times> capture_quality_warning list" where
  "capture_status_evidence_of resolved effective samples unavailable =
     (if status_order_broken effective samples
      then Inl (context_error CodePersistenceFailed ''capture status ordering is inconsistent'' resolved
        (Some ''inspect recording storage before retrying the context query''))
      else and_then (case cs_at_or_before samples of None \<Rightarrow> Inr None
        | Some event \<Rightarrow> and_then (capture_status_point_of resolved event) (\<lambda>point.
            Inr (Some (capture_status_bound_of point)))) (\<lambda>at_start.
      and_then (collect_results (capture_status_point_of resolved) (cs_in_range samples)) (\<lambda>transitions.
      Inr (\<lparr>se_at_range_start = at_start,
          se_at_range_end = (if transitions = [] then at_start else Some (capture_status_bound_of (last transitions))),
          se_transitions = transitions\<rparr>,
        status_warnings unavailable at_start (length (cs_in_range samples))))))"

record capture_quality =
  qu_requested_range :: session_range
  qu_retained_range :: session_range
  qu_frame_count :: nat
  qu_first_frame :: frame_point
  qu_last_frame :: frame_point
  qu_cadence :: "cadence_summary option"
  qu_frame_warnings :: "(capture_warning \<times> nat) list"
  qu_gaps :: "capture_gap list"
  qu_gap_summary :: capture_gap_summary
  qu_retention_warnings :: "retention_warning list"
  qu_epochs :: "epoch_summary list"
  qu_capture_status :: capture_status_evidence
  qu_warnings :: "capture_quality_warning list"

definition capture_quality_of :: "resolved_range \<Rightarrow> captured_frame list \<Rightarrow> capture_status_evidence \<Rightarrow>
    capture_quality_warning list \<Rightarrow> krometrail_error + capture_quality" where
  "capture_quality_of resolved metadata status warnings =
     (if metadata = []
      then Inl (context_error CodeNotFound ''resolved source frame metadata is empty'' resolved
        (Some ''resolve the temporal range again before requesting context''))
      else and_then (epoch_summaries metadata) (\<lambda>epochs.
      Inr \<lparr>qu_requested_range = rr_requested_range resolved, qu_retained_range = rr_resolved_range resolved,
        qu_frame_count = length metadata, qu_first_frame = frame_point_of (hd metadata),
        qu_last_frame = frame_point_of (last metadata), qu_cadence = cadence metadata,
        qu_frame_warnings = warning_summary metadata, qu_gaps = rr_gaps resolved,
        qu_gap_summary = gap_summary (rr_gaps resolved) (rr_resolved_range resolved),
        qu_retention_warnings = rr_retention_warnings resolved, qu_epochs = epochs,
        qu_capture_status = status, qu_warnings = warnings\<rparr>))"

section \<open>The ports\<close>

record context_ports =
  cx_frame_metadata_by_id :: "frame_id list \<Rightarrow> krometrail_error + captured_frame list"
  cx_unavailable_ranges :: "session_id \<Rightarrow> target_id \<Rightarrow> session_range \<Rightarrow> nat \<Rightarrow> krometrail_error + unavailable_range list"
  cx_capture_status :: "session_id \<Rightarrow> target_id \<Rightarrow> session_range \<Rightarrow> nat \<Rightarrow> krometrail_error + capture_status_samples"
  cx_count_events :: "event_selector \<Rightarrow> krometrail_error + nat"
  cx_chronological_events :: "event_selector \<Rightarrow> event_cursor option \<Rightarrow> nat \<Rightarrow> krometrail_error + browser_event list"
  cx_priority_candidates :: "event_selector \<Rightarrow> nat \<Rightarrow> krometrail_error + browser_event list"
  cx_nearest_candidates :: "event_selector \<Rightarrow> session_time list \<Rightarrow> nat \<Rightarrow> krometrail_error + browser_event list"

definition index_context_ports :: "metadata_index \<Rightarrow> context_ports" where
  "index_context_ports ix = \<lparr>
     cx_frame_metadata_by_id = (\<lambda>ids. frame_metadata_by_id ids ix),
     cx_unavailable_ranges = (\<lambda>session target resolved limit. unavailable_ranges session target resolved limit ix),
     cx_capture_status = (\<lambda>session target resolved limit. index_capture_status session target resolved limit ix),
     cx_count_events = (\<lambda>selector. Inr (count_events selector ix)),
     cx_chronological_events = (\<lambda>selector cursor limit. chronological_events selector cursor limit ix),
     cx_priority_candidates = (\<lambda>selector limit. priority_candidates selector limit ix),
     cx_nearest_candidates = (\<lambda>selector times each_side. nearest_candidates selector times each_side ix)\<rparr>"

section \<open>Browser events\<close>

datatype selection_reason = CompactCorrelation nat "u64 option" | Chronological

record selected_event =
  sv_event :: browser_event
  sv_reason :: selection_reason

datatype event_query_warning =
    Truncated nat nat
  | CollectionGapsPresent nat
  | CollectionEvidenceTruncated nat nat
  | UnavailableRangesPresent nat
  | UnavailableRangesTruncated

record event_context =
  bc_effective_range :: session_range
  bc_matched_count :: nat
  bc_returned_count :: nat
  bc_events :: "selected_event list"
  bc_next_cursor :: "event_cursor option"
  bc_collection_gaps :: "collection_gap list"
  bc_unavailable_ranges :: "unavailable_range list"
  bc_warnings :: "event_query_warning list"

definition nearest_distance :: "session_time \<Rightarrow> session_time list \<Rightarrow> u64 option" where
  "nearest_distance time focus_times =
     (if focus_times = [] then None
      else Some (Min (set (map (\<lambda>focus. max (session_nanos time) (session_nanos focus) -
        min (session_nanos time) (session_nanos focus)) focus_times))))"

definition is_collection_gap :: "browser_event \<Rightarrow> bool" where
  "is_collection_gap event \<longleftrightarrow> ep_gap (be_payload event) \<noteq> None"

definition insert_first :: "browser_event list \<Rightarrow> browser_event \<Rightarrow> browser_event list" where
  "insert_first events event =
     (if is_collection_gap event \<or> list_ex (\<lambda>e. be_id e = be_id event) events then events else events @ [event])"

type_synonym compact_key = "nat \<times> u64 \<times> event_order_key"

definition compact_order :: "session_time list \<Rightarrow> browser_event \<Rightarrow> compact_key" where
  "compact_order focus_times event = (ep_priority (be_payload event),
     (case nearest_distance (be_session_time event) focus_times of None \<Rightarrow> - 1 | Some distance \<Rightarrow> distance),
     event_order event)"

definition select_compact :: "session_time list \<Rightarrow> nat \<Rightarrow> browser_event list \<Rightarrow> selected_event list" where
  "select_compact focus_times limit candidates =
     map (\<lambda>event. \<lparr>sv_event = event, sv_reason = CompactCorrelation (ep_priority (be_payload event))
         (nearest_distance (be_session_time event) focus_times)\<rparr>)
       (sort_key event_order (take limit (sort_key (compact_order focus_times) (foldl insert_first [] candidates))))"

definition compact_events :: "context_ports \<Rightarrow> context_request \<Rightarrow> event_selector \<Rightarrow> nat \<Rightarrow>
    krometrail_error + selected_event list" where
  "compact_events ports request selector limit =
     and_then (event_candidate_limit_new (limit * 4)) (\<lambda>candidates.
     and_then (map_err (map_source_error ''priority browser events could not be read'' (cq_range request))
       (cx_priority_candidates ports selector candidates)) (\<lambda>priority.
     and_then (if cq_focus_times request = [] then Inr []
       else map_err (map_source_error ''nearby browser events could not be read'' (cq_range request))
         (cx_nearest_candidates ports selector (cq_focus_times request) 2)) (\<lambda>nearest.
     Inr (select_compact (cq_focus_times request) limit (priority @ nearest)))))"

definition cursor_of :: "event_selector \<Rightarrow> browser_event \<Rightarrow> krometrail_error + event_cursor" where
  "cursor_of selector event = event_cursor_new selector (be_session_time event) (be_ordinal event) (be_id event)"

text \<open>A page, and a cursor to go on from when something follows its last event.\<close>

definition chronological_page :: "context_ports \<Rightarrow> resolved_range \<Rightarrow> event_selector \<Rightarrow> event_cursor option \<Rightarrow> nat \<Rightarrow>
    krometrail_error + selected_event list \<times> event_cursor option" where
  "chronological_page ports resolved selector cursor limit =
     and_then (map_err (map_source_error ''chronological browser events could not be read'' resolved)
       (cx_chronological_events ports selector cursor limit)) (\<lambda>page.
     and_then (if page = [] then Inr None
       else and_then (cursor_of selector (last page)) (\<lambda>page_cursor.
         and_then (event_page_limit_new 1) (\<lambda>one.
         and_then (map_err (map_source_error ''browser event page continuation could not be read'' resolved)
           (cx_chronological_events ports selector (Some page_cursor) one)) (\<lambda>following.
         Inr (if following = [] then None else Some page_cursor))))) (\<lambda>next_cursor.
     Inr (map (\<lambda>event. \<lparr>sv_event = event, sv_reason = Chronological\<rparr>)
         (filter (\<lambda>event. \<not> is_collection_gap event) page), next_cursor)))"

definition event_warnings :: "nat \<Rightarrow> nat \<Rightarrow> nat \<Rightarrow> nat \<Rightarrow> nat \<Rightarrow> nat \<Rightarrow> event_query_warning list" where
  "event_warnings matched returned gaps operational scanned unavailable =
     (if matched > returned then [Truncated matched returned] else []) @
     (if gaps \<noteq> 0 then [CollectionGapsPresent gaps] else []) @
     (if operational > scanned then [CollectionEvidenceTruncated operational scanned] else []) @
     (if unavailable \<noteq> 0 then [UnavailableRangesPresent unavailable] else []) @
     (if unavailable = max_event_unavailable_ranges then [UnavailableRangesTruncated] else [])"

definition operational_selector :: "context_request \<Rightarrow> session_range \<Rightarrow> krometrail_error + event_selector" where
  "operational_selector request effective =
     event_selector_new (rr_session_id (cq_range request)) (rr_target_id (cq_range request)) effective
       [OperationalClass] SeverityDebug"

definition browser_event_context :: "context_ports \<Rightarrow> context_request \<Rightarrow> session_range \<Rightarrow> unavailable_range list \<Rightarrow>
    krometrail_error + event_context" where
  "browser_event_context ports request effective unavailable =
     (let resolved = cq_range request in
      and_then (filter_selector (cq_filter request) resolved effective) (\<lambda>selector.
      and_then (map_err (map_source_error ''browser event count could not be read'' resolved)
        (cx_count_events ports selector)) (\<lambda>matched.
      and_then (case cq_selection request of
          SelectCompact limit \<Rightarrow> and_then (compact_events ports request selector limit) (\<lambda>events. Inr (events, None))
        | SelectChronological limit cursor \<Rightarrow> chronological_page ports resolved selector cursor limit) (\<lambda>(events, next_cursor).
      and_then (operational_selector request effective) (\<lambda>operational.
      and_then (map_err (map_source_error ''collection evidence count could not be read'' resolved)
        (cx_count_events ports operational)) (\<lambda>operational_count.
      and_then (event_page_limit_new operational_event_scan_limit) (\<lambda>scan.
      and_then (map_err (map_source_error ''collection evidence could not be read'' resolved)
        (cx_chronological_events ports operational None scan)) (\<lambda>scanned.
      let gaps = List.map_filter (\<lambda>event. ep_gap (be_payload event)) scanned in
      Inr \<lparr>bc_effective_range = effective, bc_matched_count = matched, bc_returned_count = length events,
        bc_events = events, bc_next_cursor = next_cursor, bc_collection_gaps = gaps,
        bc_unavailable_ranges = unavailable,
        bc_warnings = event_warnings matched (length events) (length gaps) operational_count (length scanned)
          (length unavailable)\<rparr>))))))))"

section \<open>The service\<close>

record temporal_context =
  tc_range :: resolved_range
  tc_capture_quality :: capture_quality
  tc_browser_events :: event_context

definition context_frames :: "context_ports \<Rightarrow> resolved_range \<Rightarrow> krometrail_error + captured_frame list" where
  "context_frames ports resolved =
     and_then (map_err (map_source_error ''resolved frame metadata could not be read'' resolved)
       (cx_frame_metadata_by_id ports (rr_frame_ids resolved))) (\<lambda>metadata.
     and_then (validate_context_frames resolved metadata) (\<lambda>_. Inr metadata))"

definition temporal_context_of :: "context_ports \<Rightarrow> context_request \<Rightarrow> krometrail_error + temporal_context" where
  "temporal_context_of ports request =
     (let resolved = cq_range request; effective = effective_range request in
      and_then (context_frames ports resolved) (\<lambda>metadata.
      and_then (map_err (map_source_error ''browser event availability could not be read'' resolved)
        (cx_unavailable_ranges ports (rr_session_id resolved) (rr_target_id resolved) effective
          max_event_unavailable_ranges)) (\<lambda>unavailable.
      and_then (map_err (map_source_error ''capture status evidence could not be read'' resolved)
        (cx_capture_status ports (rr_session_id resolved) (rr_target_id resolved) effective max_capture_status_samples)) (\<lambda>samples.
      and_then (capture_status_evidence_of resolved effective samples unavailable) (\<lambda>(status, warnings).
      and_then (capture_quality_of resolved metadata status warnings) (\<lambda>quality.
      and_then (browser_event_context ports request effective unavailable) (\<lambda>events.
      Inr \<lparr>tc_range = resolved, tc_capture_quality = quality, tc_browser_events = events\<rparr>)))))))"

definition capture_quality_only :: "context_ports \<Rightarrow> resolved_range \<Rightarrow> krometrail_error + capture_quality" where
  "capture_quality_only ports resolved =
     and_then (context_frames ports resolved) (\<lambda>metadata.
     and_then (map_err (map_source_error ''capture quality availability could not be read'' resolved)
       (cx_unavailable_ranges ports (rr_session_id resolved) (rr_target_id resolved) (rr_resolved_range resolved)
         max_event_unavailable_ranges)) (\<lambda>unavailable.
     and_then (map_err (map_source_error ''capture status evidence could not be read'' resolved)
       (cx_capture_status ports (rr_session_id resolved) (rr_target_id resolved) (rr_resolved_range resolved)
         max_capture_status_samples)) (\<lambda>samples.
     and_then (capture_status_evidence_of resolved (rr_resolved_range resolved) samples unavailable) (\<lambda>(status, warnings).
     capture_quality_of resolved metadata status warnings))))"

end
