(* ===== verification/Event_Paging.thy ===== *)
theory Event_Paging
  imports Temporal_Context Event_History
begin

text \<open>
  Reading browser events page by page. The locale states what the service asks of the port: a listing of the
  selected events of which the port returns the first part, or the part after a cursor. Under it a client that
  follows the cursors sees every event once and in order; the metadata index keeps the contract.
\<close>

section \<open>The walk of a client\<close>

text \<open>Follow the next cursor until there is none; \<open>None\<close> when the fuel runs out.\<close>

fun page_walk :: "nat \<Rightarrow> context_ports \<Rightarrow> resolved_range \<Rightarrow> event_selector \<Rightarrow> event_cursor option \<Rightarrow> nat \<Rightarrow>
    (krometrail_error + selected_event list) option" where
  "page_walk 0 ports resolved selector cursor limit = None"
| "page_walk (Suc fuel) ports resolved selector cursor limit =
     (case chronological_page ports resolved selector cursor limit of
        Inl e \<Rightarrow> Some (Inl e)
      | Inr (events, None) \<Rightarrow> Some (Inr events)
      | Inr (events, Some following) \<Rightarrow>
          (case page_walk fuel ports resolved selector (Some following) limit of
             Some (Inr rest) \<Rightarrow> Some (Inr (events @ rest))
           | other \<Rightarrow> other))"

definition shown_events :: "browser_event list \<Rightarrow> selected_event list" where
  "shown_events events = map (\<lambda>event. \<lparr>sv_event = event, sv_reason = Chronological\<rparr>)
     (filter (\<lambda>event. \<not> is_collection_gap event) events)"

lemma shown_events_append: "shown_events (xs @ ys) = shown_events xs @ shown_events ys"
  by (simp add: shown_events_def)

lemma last_take_drop:
  assumes "take n (drop k xs) \<noteq> []"
  shows "last (take n (drop k xs)) = xs ! (min (k + n) (length xs) - 1)"
proof -
  have bounds: "0 < n" "k < length xs"
    using assms by auto
  have "last (take n (drop k xs)) = take n (drop k xs) ! (min n (length xs - k) - 1)"
    using assms by (simp add: last_conv_nth min.commute)
  also have "\<dots> = xs ! (k + (min n (length xs - k) - 1))"
    using bounds by simp
  also have "k + (min n (length xs - k) - 1) = min (k + n) (length xs) - 1"
    using bounds by (auto simp: min_def)
  finally show ?thesis .
qed

locale event_source =
  fixes ports :: "'store \<Rightarrow> context_ports"
    and listing :: "'store \<Rightarrow> event_selector \<Rightarrow> browser_event list"
    and readable :: "'store \<Rightarrow> bool"
  assumes first_page: "readable st \<Longrightarrow>
      cx_chronological_events (ports st) selector None n = Inr (take n (listing st selector))"
    and later_page: "readable st \<Longrightarrow> k < length (listing st selector) \<Longrightarrow>
      cursor_of selector (listing st selector ! k) = Inr cursor \<Longrightarrow>
      cx_chronological_events (ports st) selector (Some cursor) n = Inr (take n (drop (Suc k) (listing st selector)))"
    and cursor_made: "readable st \<Longrightarrow> event \<in> set (listing st selector) \<Longrightarrow> \<exists>cursor. cursor_of selector event = Inr cursor"
begin

text \<open>The cursor of the event before position \<open>k\<close>, none at the start.\<close>

definition position :: "'store \<Rightarrow> event_selector \<Rightarrow> nat \<Rightarrow> event_cursor option \<Rightarrow> bool" where
  "position st selector k cursor \<longleftrightarrow> (case k of
     0 \<Rightarrow> cursor = None
   | Suc i \<Rightarrow> i < length (listing st selector) \<and>
       (\<exists>c. cursor = Some c \<and> cursor_of selector (listing st selector ! i) = Inr c))"

lemma read_at:
  assumes "readable st" and "position st selector k cursor"
  shows "cx_chronological_events (ports st) selector cursor n = Inr (take n (drop k (listing st selector)))"
  using assms first_page later_page by (auto simp: position_def split: nat.splits)

lemma page_at:
  assumes st: "readable st" and at: "position st selector k cursor" and limit: "0 < limit"
  obtains following where
    "chronological_page (ports st) resolved selector cursor limit =
      Inr (shown_events (take limit (drop k (listing st selector))), following)"
    "following = None \<and> length (listing st selector) \<le> k + limit \<or>
      k + limit < length (listing st selector) \<and> position st selector (k + limit) following"
proof -
  let ?all = "listing st selector"
  let ?page = "take limit (drop k ?all)"
  note read = read_at [OF st at]
  show thesis
  proof (cases "?page = []")
    case True
    then have "chronological_page (ports st) resolved selector cursor limit = Inr (shown_events ?page, None)"
      by (simp add: chronological_page_def read shown_events_def)
    moreover have "length ?all \<le> k + limit"
      using True limit by auto
    ultimately show thesis
      using that by blast
  next
    case False
    let ?i = "min (k + limit) (length ?all) - 1"
    have i: "?i < length ?all" "Suc ?i = min (k + limit) (length ?all)"
      using False limit by auto
    have last: "last ?page = ?all ! ?i"
      using False by (rule last_take_drop)
    obtain c where c: "cursor_of selector (?all ! ?i) = Inr c"
      using cursor_made [OF st nth_mem [OF i(1)]] by blast
    have following: "cx_chronological_events (ports st) selector (Some c) n = Inr (take n (drop (Suc ?i) ?all))" for n
      by (rule later_page [OF st i(1) c])
    define page where "page = ?page"
    have "cursor_of selector (last page) = Inr c" "page \<noteq> []"
      using c last False by (simp_all add: page_def)
    then have page: "chronological_page (ports st) resolved selector cursor limit =
        Inr (shown_events ?page, if take 1 (drop (Suc ?i) ?all) = [] then None else Some c)"
      unfolding page_def [symmetric]
      by (simp add: chronological_page_def read [of limit, folded page_def] following shown_events_def
          event_page_limit_new_def max_event_page_rows_def del: take_eq_Nil)
    show thesis
    proof (cases "k + limit < length ?all")
      case True
      then have "position st selector (k + limit) (Some c)"
        using limit c by (cases "k + limit") (auto simp: position_def)
      then show thesis
        using that [of "Some c"] page True i(2) by simp
    next
      case beyond: False
      then show thesis
        using that [of None] page i(2) by simp
    qed
  qed
qed

lemma walk_at:
  assumes st: "readable st" and limit: "0 < limit"
  shows "position st selector k cursor \<Longrightarrow> length (listing st selector) < k + fuel \<Longrightarrow>
    page_walk fuel (ports st) resolved selector cursor limit = Some (Inr (shown_events (drop k (listing st selector))))"
proof (induction fuel arbitrary: k cursor)
  case 0
  then show ?case
    by (auto simp: position_def split: nat.splits)
next
  case (Suc fuel)
  let ?all = "listing st selector"
  obtain following where page: "chronological_page (ports st) resolved selector cursor limit =
      Inr (shown_events (take limit (drop k ?all)), following)"
    and "next": "following = None \<and> length ?all \<le> k + limit \<or>
      k + limit < length ?all \<and> position st selector (k + limit) following"
    using page_at [OF st Suc.prems(1) limit] by blast
  from "next" show ?case
  proof
    assume all: "following = None \<and> length ?all \<le> k + limit"
    then have "take limit (drop k ?all) = drop k ?all"
      by (simp add: le_diff_conv add.commute)
    then show ?thesis
      using page all by simp
  next
    assume more: "k + limit < length ?all \<and> position st selector (k + limit) following"
    then obtain c where c: "following = Some c"
      using limit by (cases "k + limit") (auto simp: position_def)
    have "page_walk fuel (ports st) resolved selector following limit = Some (Inr (shown_events (drop (k + limit) ?all)))"
      using more Suc.prems(2) limit by (intro Suc.IH) auto
    moreover have "shown_events (take limit (drop k ?all)) @ shown_events (drop (k + limit) ?all) = shown_events (drop k ?all)"
      unfolding shown_events_append [symmetric] by (metis append_take_drop_id drop_drop add.commute)
    ultimately show ?thesis
      using page c by simp
  qed
qed

lemma walk_complete:
  assumes "readable st" and "0 < limit" and "length (listing st selector) < fuel"
  shows "page_walk fuel (ports st) resolved selector None limit = Some (Inr (shown_events (listing st selector)))"
  using walk_at [of st limit selector 0 None fuel resolved] assms by (simp add: position_def)

end

section \<open>The index as a source\<close>

definition events_listed :: "metadata_index \<Rightarrow> event_selector \<Rightarrow> browser_event list" where
  "events_listed ix selector = sort_key event_order (filter (selector_matches selector) (map er_event (ix_events ix)))"

lemma map_sort_rows: "map er_event (sort_key row_order rows) = sort_key event_order (map er_event rows)"
proof -
  have "map er_event (insort_key row_order row rows) = insort_key event_order (er_event row) (map er_event rows)" for row rows
    by (induction rows) (simp_all add: row_order_def)
  then show ?thesis
    by (induction rows) simp_all
qed

lemma listed_rows: "events_listed ix selector = map er_event (sort_key row_order (matching_rows selector ix))"
  by (simp add: events_listed_def map_sort_rows matching_rows_def filter_map o_def)

lemma event_order_inject: "event_order a = event_order b \<Longrightarrow> be_id a = be_id b"
  by (simp add: event_order_def browser_event_id.expand)

lemma listed_distinct:
  assumes "events_ok ix"
  shows "distinct (map event_order (events_listed ix selector))"
proof -
  have "distinct (map be_id (filter (selector_matches selector) (map er_event (ix_events ix))))"
    using assms by (simp add: events_ok_def event_id_of_def [abs_def] distinct_map_filter o_def)
  then have "distinct (map event_order (filter (selector_matches selector) (map er_event (ix_events ix))))"
    unfolding distinct_map inj_on_def using event_order_inject by blast
  then show ?thesis
    by (simp add: events_listed_def distinct_map)
qed

text \<open>In a strictly sorted list the elements above an element are those after it.\<close>

lemma filter_above:
  assumes "sorted (map f xs)" and "distinct (map f xs)" and "k < length xs"
  shows "filter (\<lambda>x. f (xs ! k) < (f x :: 'k::linorder)) xs = drop (Suc k) xs"
proof -
  have strict: "sorted_wrt (<) (map f xs)"
    using assms(1,2) by (simp add: strict_sorted_iff)
  have "filter (\<lambda>x. f (xs ! k) < f x) xs =
      filter (\<lambda>x. f (xs ! k) < f x) (take (Suc k) xs) @ filter (\<lambda>x. f (xs ! k) < f x) (drop (Suc k) xs)"
    by (metis append_take_drop_id filter_append)
  moreover have "filter (\<lambda>x. f (xs ! k) < f x) (take (Suc k) xs) = []"
  proof -
    have "f (xs ! i) \<le> f (xs ! k)" if "i \<le> k" for i
      using assms(1,3) that sorted_nth_mono [of "map f xs" i k] by simp
    then show ?thesis
      by (auto simp: filter_empty_conv in_set_conv_nth not_less)
  qed
  moreover have "filter (\<lambda>x. f (xs ! k) < f x) (drop (Suc k) xs) = drop (Suc k) xs"
  proof -
    have "f (xs ! k) < f (xs ! i)" if "k < i" "i < length xs" for i
      using strict that sorted_wrt_nth_less [of "(<)" "map f xs" k i] by simp
    then show ?thesis
      by (auto simp: filter_id_conv in_set_conv_nth)
  qed
  ultimately show ?thesis
    by simp
qed

lemma after_cursor_order: "after_cursor cursor row \<longleftrightarrow> cursor_order cursor < row_order row"
proof -
  have "session_nanos a = session_nanos b \<longleftrightarrow> a = b" for a b
    using session_time.expand by blast
  then show ?thesis
    by (auto simp: after_cursor_def cursor_order_def row_order_def event_order_def Let_def less_prod_def')
qed

lemma cursor_of_Inr:
  "cursor_of selector event = Inr cursor \<Longrightarrow> cu_selector cursor = selector \<and> cursor_order cursor = event_order event"
  by (auto simp: cursor_of_def event_cursor_new_def cursor_order_def event_order_def split: if_splits)

lemma matching_subset: "set (matching_rows selector ix) \<subseteq> set (ix_events ix)"
  by (auto simp: matching_rows_def)

lemma read_page:
  assumes "events_ok ix" and "set rows \<subseteq> set (matching_rows selector ix)"
  shows "query_events ix (take n (sort_key row_order rows)) = Inr (take n (map er_event (sort_key row_order rows)))"
proof -
  have "set (take n (sort_key row_order rows)) \<subseteq> set (ix_events ix)"
    using assms(2) matching_subset [of selector ix] by (auto dest!: in_set_takeD)
  then show ?thesis
    using query_events_ok [OF assms(1)] by (simp add: take_map)
qed

interpretation index: event_source index_context_ports events_listed events_ok
proof
  fix ix selector n
  assume "events_ok ix"
  then show "cx_chronological_events (index_context_ports ix) selector None n = Inr (take n (events_listed ix selector))"
    by (simp add: index_context_ports_def chronological_events_def read_page [OF _ subset_refl] listed_rows)
next
  fix ix selector k cursor n
  assume ok: "events_ok ix" and k: "k < length (events_listed ix selector)"
    and cursor: "cursor_of selector (events_listed ix selector ! k) = Inr cursor"
  have "map er_event (sort_key row_order (filter (after_cursor cursor) (matching_rows selector ix))) =
      filter (\<lambda>event. event_order (events_listed ix selector ! k) < event_order event) (events_listed ix selector)"
    using cursor_of_Inr [OF cursor]
    by (simp add: listed_rows filter_map o_def after_cursor_order [abs_def] row_order_def flip: filter_sort)
  also have "\<dots> = drop (Suc k) (events_listed ix selector)"
    using k listed_distinct [OF ok] by (intro filter_above) (simp_all add: events_listed_def)
  finally show "cx_chronological_events (index_context_ports ix) selector (Some cursor) n =
      Inr (take n (drop (Suc k) (events_listed ix selector)))"
    using cursor_of_Inr [OF cursor] read_page [OF ok, of "filter (after_cursor cursor) (matching_rows selector ix)" selector]
    by (simp add: index_context_ports_def chronological_events_def)
next
  fix ix event selector
  assume ok: "events_ok ix" and "event \<in> set (events_listed ix selector)"
  then obtain row where row: "row \<in> set (ix_events ix)" "event = er_event row" "selector_matches selector event"
    by (auto simp: events_listed_def)
  then have "event_validate event = Inr ()"
    using ok by (simp add: events_ok_def event_row_ok_def)
  then show "\<exists>cursor. cursor_of selector event = Inr cursor"
    using row(3) event_validate_facts(1) [of event]
    by (simp add: cursor_of_def event_cursor_new_def selector_matches_def range_contains_iff)
qed

end
