(* ===== verification/Range_Contract.thy ===== *)
theory Range_Contract
  imports Range_Correct
begin

text \<open>
  What range resolution asks of the store, as a locale: a lookup over a part of an interval is the part of
  the lookup, and a frame once captured is found again or reported as evicted. Under it a resolved range
  lists every frame captured in its interval, and resolves to itself.
\<close>

section \<open>A complete interval\<close>

lemma adjacent_sorted: "\<not> adjacent (\<lambda>x y. f x \<ge> f y) xs \<longleftrightarrow> sorted_wrt (\<lambda>x y. f x < (f y :: 'a::linorder)) xs"
proof (induction "\<lambda>x y. f x \<ge> f y" xs rule: adjacent.induct)
  case (1 x y xs)
  then show ?case
    by (auto simp: not_le dest: less_trans)
qed auto

lemma validate_filter:
  assumes "validate_frame_metadata seed frames evicted = Inr ()"
    and "sd_session_id seed' = sd_session_id seed" "sd_target_id seed' = sd_target_id seed"
    and "\<And>frame. P frame \<Longrightarrow> range_contains (sd_requested_range seed') (cf_session_time frame)"
  shows "validate_frame_metadata seed' (filter P frames) evicted = Inr ()"
  using assms
  by (auto simp: validate_frames_Inr adjacent_sorted sorted_wrt_filter distinct_map_filter)

lemma classify_complete:
  assumes "fa_retained_bounds availability = Some retained" and "within (sd_requested_range seed) retained"
    and "wf_range (sd_requested_range seed)"
    and "\<forall>e \<in> set (fa_evicted_ranges availability). \<not> ranges_intersect e (sd_requested_range seed)"
  shows "classify_retention seed frames availability options now = Inr (sd_requested_range seed, [])"
proof -
  have "filter (\<lambda>e. ranges_intersect e (sd_requested_range seed)) (fa_evicted_ranges availability) = []"
    using assms(4) by (simp add: filter_empty_conv)
  moreover have "candidate_range seed frames [] retained = Inr (sd_requested_range seed)"
    using assms(3) by (simp add: candidate_range_def Let_def session_range_new_def wf_range_def)
  moreover have "fit_to_bounds seed (sd_requested_range seed) retained False options = Inr (sd_requested_range seed)"
    using assms(2) by (auto simp: fit_to_bounds_Inr not_less)
  ultimately show ?thesis
    using assms(1) by (simp add: classify_retention_def Let_def warnings_empty)
qed

lemma finalize_complete:
  assumes "rp_frame_availability ports (sd_session_id seed) (sd_target_id seed) = Inr availability"
    and "live_session_now ports (sd_session_id seed) availability = Inr now"
    and "frames_of_seed ports seed = Inr frames" and "frames \<noteq> []"
    and "validate_frame_metadata seed frames (fa_evicted_ranges availability) = Inr ()"
    and "fa_retained_bounds availability = Some retained" and "within (sd_requested_range seed) retained"
    and "wf_range (sd_requested_range seed)"
    and "\<forall>e \<in> set (fa_evicted_ranges availability). \<not> ranges_intersect e (sd_requested_range seed)"
  shows "finalize_range ports seed options =
    conclude_range ports seed options availability frames (sd_requested_range seed) []"
  using assms(1-5) classify_complete [OF assms(6-9)] by (simp add: finalize_range_def)

text \<open>An interval concludes when its gaps and observations are what the validation expects.\<close>

lemma conclude_interval:
  assumes "frames \<noteq> []" and "\<forall>frame \<in> set frames. range_contains q (cf_session_time frame)"
    and "rp_gaps ports session target q = Inr gaps" and "clip_capture_gaps gaps q = Inr clipped"
    and "ro_capture_gaps options = IncludeGaps \<or> clipped = []"
    and "rp_timeline_range ports session target q = Inr observations" and "wf_range q"
    and "session_uuid session \<noteq> 0" and "target_uuid target \<noteq> 0"
    and "r = \<lparr>rr_session_id = session, rr_target_id = target, rr_anchor_kind = SessionTimeKind,
       rr_resolved_anchor = \<lparr>ra_reference = IntervalReference, ra_requested_time = range_midpoint q,
         ra_effective_time = range_midpoint q\<rparr>, rr_requested_range = q, rr_resolved_range = q,
       rr_frame_ids = map cf_id frames, rr_interaction_ids = interactions_of observations,
       rr_navigation_ids = navigations_of observations, rr_marker_ids = markers_of observations,
       rr_gaps = clipped, rr_retention_warnings = [], rr_applied_window = None, rr_options = options\<rparr>"
    and "identifiers_ok r" and "gaps_ok r"
  shows "conclude_range ports (interval_seed session target q SessionTimeKind) options availability frames q [] = Inr r"
proof -
  have "filter (\<lambda>frame. range_contains q (cf_session_time frame)) frames = frames"
    using assms(2) by (simp add: filter_id_conv)
  moreover have "resolved_range_validate r = Inr ()"
    using assms(1,7-12)
    by (simp add: resolved_range_validate_def check_def reference_validate_def validate_anchor_kind_def
        kind_compatible_def window_validate_def endpoints_ok_def anchor_times_ok_def uses_midpoint_def)
  ultimately show ?thesis
    using assms(1,3-7,10)
    by (auto simp: conclude_range_def interval_seed_def resolved_anchor_new_def reference_validate_def
        resolved_range_new_with_anchor_def)
qed

section \<open>What a resolved range claims\<close>

lemma resolve_cases:
  assumes "resolve ports anchor options = Inr r"
  obtains seed where "seed_of ports anchor options = Inr seed" "finalize_range ports seed options = Inr r"
  using assms by (auto simp: resolve_def and_then_Inr_iff)

lemma seed_preloads:
  assumes "seed_of ports anchor options = Inr seed" and "sd_anchor_kind seed \<noteq> SourceFrameKind"
  shows "sd_preloaded_frames seed = None"
  using assms
  by (auto simp: seed_of_def seed_wall_clock_def seed_source_frames_def seed_interaction_def
      seed_latest_interaction_def seed_payload_def seed_from_interaction_def seed_from_observation_def
      interval_seed_def Let_def and_then_Inr_iff split: range_anchor.splits if_splits)

section \<open>The contract\<close>

locale evidence_store =
  fixes ports :: "'store \<Rightarrow> observed_time \<Rightarrow> range_ports"
    and evidence :: "'store \<Rightarrow> captured_frame list \<Rightarrow> bool"
  assumes narrower: "evidence st captured \<Longrightarrow>
      rp_frame_metadata_in_range (ports st now) s t q = Inr frames \<Longrightarrow> within q' q \<Longrightarrow>
      rp_frame_metadata_in_range (ports st now) s t q' =
        Inr (filter (\<lambda>frame. range_contains q' (cf_session_time frame)) frames)"
    and nothing_lost: "evidence st captured \<Longrightarrow>
      rp_frame_metadata_in_range (ports st now) s t q = Inr frames \<Longrightarrow>
      rp_frame_availability (ports st now) s t = Inr availability \<Longrightarrow>
      frame \<in> set captured \<Longrightarrow> cf_session_id frame = s \<Longrightarrow> cf_target_id frame = t \<Longrightarrow>
      range_contains q (cf_session_time frame) \<Longrightarrow>
      frame \<in> set frames \<or> (\<exists>e \<in> set (fa_evicted_ranges availability). range_contains e (cf_session_time frame))"
    and catalog: "evidence st captured \<Longrightarrow> validate_catalog_scope (ports st now) s t = Inr ()"
begin

lemma resolution_parts:
  assumes "resolve (ports st now) anchor options = Inr r" and "rr_anchor_kind r \<noteq> SourceFrameKind"
  obtains seed availability live frames where
    "sd_session_id seed = rr_session_id r" "sd_target_id seed = rr_target_id r"
    "sd_requested_range seed = rr_requested_range r"
    "rp_frame_availability (ports st now) (rr_session_id r) (rr_target_id r) = Inr availability"
    "live_session_now (ports st now) (rr_session_id r) availability = Inr live"
    "rp_frame_metadata_in_range (ports st now) (rr_session_id r) (rr_target_id r) (rr_requested_range r) = Inr frames"
    "frames \<noteq> []" "validate_frame_metadata seed frames (fa_evicted_ranges availability) = Inr ()"
    "classify_retention seed frames availability options live =
      Inr (rr_resolved_range r, rr_retention_warnings r)"
    "conclude_range (ports st now) seed options availability frames (rr_resolved_range r)
      (rr_retention_warnings r) = Inr r"
proof -
  obtain seed where seed: "seed_of (ports st now) anchor options = Inr seed"
    and "finalize_range (ports st now) seed options = Inr r"
    using resolve_cases [OF assms(1)] .
  from this(2) show thesis
  proof (rule finalize_cases)
    fix availability live frames
    assume parts: "rp_frame_availability (ports st now) (sd_session_id seed) (sd_target_id seed) = Inr availability"
      "live_session_now (ports st now) (sd_session_id seed) availability = Inr live"
      "frames_of_seed (ports st now) seed = Inr frames" "frames \<noteq> []"
      "validate_frame_metadata seed frames (fa_evicted_ranges availability) = Inr ()"
      "classify_retention seed frames availability options live = Inr (rr_resolved_range r, rr_retention_warnings r)"
      and concluded: "conclude_range (ports st now) seed options availability frames (rr_resolved_range r)
        (rr_retention_warnings r) = Inr r"
    note r = conclude_Inr(4-7) [OF concluded]
    have "sd_preloaded_frames seed = None"
      using seed_preloads [OF seed] r(4) assms(2) by simp
    then show thesis
      using that [of seed availability live frames] parts concluded r by (simp add: frames_of_seed_def)
  qed
qed

lemma complete:
  assumes ev: "evidence st captured" and "resolve (ports st now) anchor options = Inr r"
    and "rr_anchor_kind r \<noteq> SourceFrameKind"
    and frame: "frame \<in> set captured" "cf_session_id frame = rr_session_id r" "cf_target_id frame = rr_target_id r"
      "range_contains (rr_resolved_range r) (cf_session_time frame)"
  shows "cf_id frame \<in> set (rr_frame_ids r)"
proof -
  obtain seed availability live frames where
    av: "rp_frame_availability (ports st now) (rr_session_id r) (rr_target_id r) = Inr availability"
    and found: "rp_frame_metadata_in_range (ports st now) (rr_session_id r) (rr_target_id r)
      (rr_requested_range r) = Inr frames"
    and requested: "sd_requested_range seed = rr_requested_range r" and nonempty: "frames \<noteq> []"
    and valid: "validate_frame_metadata seed frames (fa_evicted_ranges availability) = Inr ()"
    and classified: "classify_retention seed frames availability options live =
      Inr (rr_resolved_range r, rr_retention_warnings r)"
    and concluded: "conclude_range (ports st now) seed options availability frames (rr_resolved_range r)
      (rr_retention_warnings r) = Inr r"
    by (rule resolution_parts [OF assms(2,3)])
  note effect = classify_effect [OF classified valid nonempty]
  have "range_contains (rr_requested_range r) (cf_session_time frame)"
    using frame(4) effect(1) requested by (auto simp: range_contains_iff)
  moreover have "\<not> range_contains e (cf_session_time frame)" if "e \<in> set (fa_evicted_ranges availability)" for e
    using effect(4) that frame(4) by (fastforce simp: range_contains_iff ranges_intersect_def)
  ultimately have "frame \<in> set frames"
    using nothing_lost [OF ev found av frame(1-3)] by blast
  then show ?thesis
    using conclude_Inr(8) [OF concluded] frame(4) by simp
qed

text \<open>A resolved range, asked for by its own interval, is resolved whole with the same evidence.\<close>

lemma stable:
  assumes ev: "evidence st captured" and run: "resolve (ports st now) anchor options = Inr r"
    and kind: "rr_anchor_kind r \<noteq> SourceFrameKind" and same_gaps: "ro_capture_gaps options' = ro_capture_gaps options"
  shows "\<exists>r'. resolve (ports st now) (SessionTimeAnchor \<lparr>is_session_id = rr_session_id r,
        is_target_id = rr_target_id r\<rparr> (rr_resolved_range r)) options' = Inr r' \<and>
      rr_resolved_range r' = rr_resolved_range r \<and> rr_retention_warnings r' = [] \<and>
      rr_frame_ids r' = rr_frame_ids r \<and> rr_gaps r' = rr_gaps r \<and>
      rr_interaction_ids r' = rr_interaction_ids r \<and> rr_navigation_ids r' = rr_navigation_ids r \<and>
      rr_marker_ids r' = rr_marker_ids r"
proof -
  let ?s = "rr_session_id r" and ?t = "rr_target_id r" and ?q = "rr_resolved_range r"
  let ?seed = "interval_seed ?s ?t ?q SessionTimeKind"
  obtain seed availability live frames where
    seed: "sd_session_id seed = ?s" "sd_target_id seed = ?t" "sd_requested_range seed = rr_requested_range r"
    and av: "rp_frame_availability (ports st now) ?s ?t = Inr availability"
    and live: "live_session_now (ports st now) ?s availability = Inr live"
    and found: "rp_frame_metadata_in_range (ports st now) ?s ?t (rr_requested_range r) = Inr frames"
    and nonempty: "frames \<noteq> []"
    and valid: "validate_frame_metadata seed frames (fa_evicted_ranges availability) = Inr ()"
    and classified: "classify_retention seed frames availability options live = Inr (?q, rr_retention_warnings r)"
    and concluded: "conclude_range (ports st now) seed options availability frames ?q (rr_retention_warnings r) = Inr r"
    by (rule resolution_parts [OF run kind])
  let ?frames = "filter (\<lambda>frame. range_contains ?q (cf_session_time frame)) frames"
  note effect = classify_effect [OF classified valid nonempty]
  note r = conclude_Inr [OF concluded]
  have again: "rp_frame_metadata_in_range (ports st now) ?s ?t ?q = Inr ?frames"
    using narrower [OF ev found] effect(1) seed(3) by simp
  have left: "?frames \<noteq> []"
    using r(8,11) by auto
  have valid': "validate_frame_metadata ?seed ?frames (fa_evicted_ranges availability) = Inr ()"
    using valid by (rule validate_filter) (simp_all add: interval_seed_def seed)
  obtain retained where retained: "fa_retained_bounds availability = Some retained" "within ?q retained"
    using effect(3) by blast
  have final: "finalize_range (ports st now) ?seed options' =
      conclude_range (ports st now) ?seed options' availability ?frames ?q []"
    using finalize_complete [of "ports st now" ?seed availability live ?frames retained options']
      av live again left valid' retained effect(2,4)
    by (simp add: interval_seed_def frames_of_seed_def)
  obtain gaps observations where gaps: "rp_gaps (ports st now) ?s ?t ?q = Inr gaps"
      "clip_capture_gaps gaps ?q = Inr (rr_gaps r)"
    and observations: "rp_timeline_range (ports st now) ?s ?t ?q = Inr observations"
      "rr_interaction_ids r = interactions_of observations" "rr_navigation_ids r = navigations_of observations"
      "rr_marker_ids r = markers_of observations"
    using r(1,13) seed by auto
  let ?r = "\<lparr>rr_session_id = ?s, rr_target_id = ?t, rr_anchor_kind = SessionTimeKind,
       rr_resolved_anchor = \<lparr>ra_reference = IntervalReference, ra_requested_time = range_midpoint ?q,
         ra_effective_time = range_midpoint ?q\<rparr>, rr_requested_range = ?q, rr_resolved_range = ?q,
       rr_frame_ids = map cf_id ?frames, rr_interaction_ids = interactions_of observations,
       rr_navigation_ids = navigations_of observations, rr_marker_ids = markers_of observations,
       rr_gaps = rr_gaps r, rr_retention_warnings = [], rr_applied_window = None, rr_options = options'\<rparr>"
  have ids: "session_uuid ?s \<noteq> 0" "target_uuid ?t \<noteq> 0" "identifiers_ok r" "gaps_ok r"
    using r(12) by (auto simp: resolved_range_validate_def check_def Let_def and_then_Inr_iff split: if_splits)
  have "identifiers_ok ?r" "gaps_ok ?r"
    using ids(3,4) r(8) observations by (simp_all add: identifiers_ok_def gaps_ok_def)
  moreover have "ro_capture_gaps options' = IncludeGaps \<or> rr_gaps r = []"
    using r(2) same_gaps by (cases "ro_capture_gaps options") simp_all
  ultimately have "conclude_range (ports st now) ?seed options' availability ?frames ?q [] = Inr ?r"
    using left gaps observations effect(2) ids(1,2) by (intro conclude_interval) auto
  then have "resolve (ports st now) (SessionTimeAnchor \<lparr>is_session_id = ?s, is_target_id = ?t\<rparr> ?q) options' = Inr ?r"
    using catalog [OF ev] final by (simp add: resolve_def anchor_validate_def seed_of_def)
  then show ?thesis
    using r(8) observations by simp
qed

end

end
