(* ===== verification/Index_Evidence.thy ===== *)
theory Index_Evidence
  imports Index_Invariant Range_Contract
begin

text \<open>
  The metadata index keeps the contract range resolution relies on: \<open>index_ports\<close> over any index its
  transactions can produce interprets \<open>evidence_store\<close>.
\<close>

section \<open>Lookups\<close>

lemma decode_all:
  "\<forall>row \<in> set rows. wf_captured_frame (fw_metadata row) \<Longrightarrow>
    collect_results decode_metadata rows = Inr (map fw_metadata rows)"
  by (induction rows)
    (auto simp: decode_metadata_def captured_frame_new_def captured_frame_validate_def wf_captured_frame_def not_less)

definition frame_order :: "frame_row \<Rightarrow> u64 \<times> u64" where
  "frame_order row = (session_nanos (cf_session_time (fw_metadata row)),
     ordinal_value (cf_capture_ordinal (fw_metadata row)))"

definition rows_in :: "session_id \<Rightarrow> target_id \<Rightarrow> session_range \<Rightarrow> frame_row list \<Rightarrow> frame_row list" where
  "rows_in session target interval rows = filter (\<lambda>row. of_scope session target row \<and>
     range_contains interval (cf_session_time (fw_metadata row))) rows"

lemma in_range_total:
  assumes "frames_ok (ix_frames ix)"
  shows "frame_metadata_in_range session target interval ix =
    Inr (map fw_metadata (sort_key frame_order (rows_in session target interval (ix_frames ix))))"
  using assms
  by (simp add: frame_metadata_in_range_def rows_in_def range_contains_iff frame_order_def [abs_def]
      decode_all frames_ok_def)

lemma rows_in_narrower:
  assumes "within q' q"
  shows "rows_in s t q' rows =
    filter (\<lambda>row. range_contains q' (cf_session_time (fw_metadata row))) (rows_in s t q rows)"
  using assms by (auto simp: rows_in_def range_contains_iff intro!: filter_cong)

lemma availability_evicted:
  assumes "index_ok ix" and "index_frame_availability session target ix = Inr availability"
  shows "fa_evicted_ranges availability = map ev_range (evicted_rows session target (ix_evicted ix))"
proof -
  have "evicted_ok (ix_evicted ix)"
    using assms(1) by (simp add: index_ok_def)
  then show ?thesis
    using assms(2) by (auto simp: index_frame_availability_def Let_def and_then_Inr_iff map_err_Inr_iff
        evicted_ranges_total frame_availability_new_def)
qed

lemma catalog_validates:
  assumes "catalog_ok ix"
  shows "validate_catalog_scope (index_ports ix now) session target = Inr ()"
proof -
  have session: "\<exists>found. index_session session ix = Inr found \<and> (\<forall>r. found = Some r \<longrightarrow> rs_id r = session)"
    using assms by (cases "ix_sessions ix session")
      (auto simp: index_session_def catalog_ok_def split: option.splits)
  have target: "\<exists>found. index_target session target ix = Inr found \<and> (\<forall>r. found = Some r \<longrightarrow> pt_id r = target)"
    using assms by (cases "ix_targets ix (session, target)")
      (auto simp: index_target_def catalog_ok_def split: option.splits)
  show ?thesis
    using session target by (auto simp: validate_catalog_scope_def index_ports_def split: option.split)
qed

section \<open>The contract holds\<close>

interpretation metadata: evidence_store index_ports index_history
proof
  fix ix captured now s t q q' frames
  assume "index_history ix captured"
    and found: "rp_frame_metadata_in_range (index_ports ix now) s t q = Inr frames" and "within q' q"
  then have ok: "frames_ok (ix_frames ix)"
    using index_invariant by (auto simp: index_ok_def)
  have "frames = map fw_metadata (sort_key frame_order (rows_in s t q (ix_frames ix)))"
    using found by (simp add: index_ports_def in_range_total [OF ok])
  then show "rp_frame_metadata_in_range (index_ports ix now) s t q' =
      Inr (filter (\<lambda>frame. range_contains q' (cf_session_time frame)) frames)"
    using rows_in_narrower [OF \<open>within q' q\<close>]
    by (simp add: index_ports_def in_range_total [OF ok] filter_map filter_sort comp_def)
next
  fix ix captured now s t q frames availability and frame :: captured_frame
  assume history: "index_history ix captured"
    and found: "rp_frame_metadata_in_range (index_ports ix now) s t q = Inr frames"
    and av: "rp_frame_availability (index_ports ix now) s t = Inr availability"
    and frame: "frame \<in> set captured" "cf_session_id frame = s" "cf_target_id frame = t"
    and "range_contains q (cf_session_time frame)"
  have ok: "index_ok ix" and acc: "accounted captured ix"
    using index_invariant [OF history] by simp_all
  have frames: "frames = map fw_metadata (sort_key frame_order (rows_in s t q (ix_frames ix)))"
    using found ok by (simp add: index_ports_def in_range_total index_ok_def)
  have evicted: "fa_evicted_ranges availability = map ev_range (evicted_rows s t (ix_evicted ix))"
    using av ok by (simp add: index_ports_def availability_evicted)
  from acc frame consider row where "row \<in> set (ix_frames ix)" "fw_metadata row = frame"
    | "cf_session_time frame \<in> evicted_instants s t (ix_evicted ix)"
    unfolding accounted_def by blast
  then show "frame \<in> set frames \<or> (\<exists>e \<in> set (fa_evicted_ranges availability). range_contains e (cf_session_time frame))"
  proof cases
    case 1
    then have "row \<in> set (rows_in s t q (ix_frames ix))"
      using frame \<open>range_contains q _\<close> by (auto simp: rows_in_def of_scope_def)
    then show ?thesis
      using 1 by (auto simp: frames)
  next
    case 2
    then show ?thesis
      by (auto simp: evicted evicted_instants_def instants_def)
  qed
next
  fix ix captured now s t
  assume "index_history ix captured"
  then show "validate_catalog_scope (index_ports ix now) s t = Inr ()"
    using index_invariant catalog_validates by (auto simp: index_ok_def)
qed

end
