(* ===== verification/Evidence_Sample.thy ===== *)
theory Evidence_Sample
  imports Index_Evidence Sample_Values
begin

text \<open>
  A concrete history of the metadata index for the witnesses: a live session whose target captured four
  frames into two segments, with a known gap, and whose older segment was evicted.
\<close>

section \<open>Running transactions\<close>

fun run_ops :: "index_op list \<Rightarrow> metadata_index \<times> captured_frame list \<Rightarrow>
    (metadata_index \<times> captured_frame list) option" where
  "run_ops [] state = Some state"
| "run_ops (op # ops) (ix, captured) =
     (if op_ok op ix then
        (case apply_op op ix of
           Inl _ \<Rightarrow> None
         | Inr ix' \<Rightarrow> run_ops ops (ix', captured_after op ix captured))
      else None)"

lemma run_ops_history:
  "run_ops ops (ix, captured) = Some (ix', captured') \<Longrightarrow> index_history ix captured \<Longrightarrow>
    index_history ix' captured'"
  by (induction ops arbitrary: ix captured)
    (auto split: if_splits sum.splits intro: index_history.applied)

section \<open>A session with an evicted segment\<close>

definition sample_session :: recording_session where
  "sample_session = \<lparr>rs_id = SessionId 1, rs_origin = ObservedTime 1000, rs_started_at = 5000,
     rs_ended_at = None, rs_lifecycle = SessionRecording\<rparr>"

definition sample_registration :: "uuid \<Rightarrow> segment_state \<Rightarrow> nat \<Rightarrow> nat \<Rightarrow> segment_registration" where
  "sample_registration segment state first newest =
     \<lparr>sr_segment_id = SegmentId segment, sr_session_id = SessionId 1, sr_target_id = TargetId 2,
      sr_state = state, sr_start_time = SessionTime (word_of_nat first),
      sr_end_time = (if state = Open then None else Some (SessionTime (word_of_nat newest))),
      sr_file_bytes = 100, sr_payload_bytes = 6, sr_record_count = 2\<rparr>"

definition sample_address :: "uuid \<Rightarrow> nat \<Rightarrow> frame_address" where
  "sample_address segment at = \<lparr>addr_segment = SegmentId segment, addr_offset = ByteOffset (word_of_nat at)\<rparr>"

definition sample_commit :: "uuid \<Rightarrow> nat \<Rightarrow> nat \<Rightarrow> segment_registration option \<Rightarrow> frame_write_commit" where
  "sample_commit segment at first sealed =
     \<lparr>fc_address = sample_address segment at,
      fc_active_segment = sample_registration segment Open first 0, fc_sealed_segment = sealed\<rparr>"

definition sample_timeline :: "nat \<Rightarrow> nat \<Rightarrow> timeline_row" where
  "sample_timeline i n = \<lparr>tl_observation_id = i, tl_observation = frame_observation (sample_metadata n),
     tl_capture_ordinal = Some (CaptureOrdinal (word_of_nat n + 1))\<rparr>"

definition sample_usage :: "uuid \<Rightarrow> usage_row" where
  "sample_usage segment = \<lparr>us_class = UsageSegment, us_object_key = codec_id segment,
     us_session_id = Some (SessionId 1), us_byte_len = 100\<rparr>"

definition sample_segment :: "segment_registration \<Rightarrow> nat \<Rightarrow> int \<Rightarrow> segment_row" where
  "sample_segment reg sequence created =
     \<lparr>sg_registration = reg, sg_retention_sequence = sequence, sg_created_unix_ms = created\<rparr>"

lemmas sample_defs = sample_registration_def sample_address_def sample_commit_def sample_segment_def

lemma sample_metadata_simps [simp]:
  "cf_id (sample_metadata n) = FrameId (word_of_nat n)" "cf_session_id (sample_metadata n) = SessionId 1"
  "cf_target_id (sample_metadata n) = TargetId 2"
  "cf_capture_ordinal (sample_metadata n) = CaptureOrdinal (word_of_nat n + 1)"
  "cf_session_time (sample_metadata n) = SessionTime (word_of_nat n)"
  "cf_observed_time (sample_metadata n) = ObservedTime (1000 + word_of_nat n)"
  "cf_source_time (sample_metadata n) = None"
  "ef_metadata (sample_frame n) = sample_metadata n"
  by (simp_all add: sample_metadata_def sample_frame_def)

lemma codec_id_inject [simp]: "codec_id a = codec_id b \<longleftrightarrow> a = (b :: uuid)"
  by (metis codec_round_trip(2) sum.inject(2))

definition sample_gap :: capture_gap where
  "sample_gap = \<lparr>gap_id = GapId 9, gap_session_id = SessionId 1, gap_target_id = TargetId 2,
     gap_range = \<lparr>range_start = SessionTime 25, range_end = SessionTime 48\<rparr>, gap_observed_time = ObservedTime 1050,
     gap_reason = GapTargetHidden, gap_estimated_missing_frames = Some 3, gap_detail = None\<rparr>"

definition sample_objects :: "deletion_object list" where
  "sample_objects = [\<lparr>do_kind = SegmentObject (SegmentId 11), do_byte_len = 100, do_session_id = SessionId 1\<rparr>]"

definition sample_batch :: "deletion_state \<Rightarrow> deletion_batch" where
  "sample_batch state = \<lparr>db_batch_id = 77, db_kind = Eviction, db_session_id = None, db_state = state,
     db_objects = sample_objects\<rparr>"

definition sample_recorded_ops :: "index_op list" where
  "sample_recorded_ops =
     [PutSession sample_session,
      IndexFrame 7000 (sample_frame 10) (sample_commit 11 116 10 None),
      IndexFrame 7001 (sample_frame 20) (sample_commit 12 116 20 (Some (sample_registration 11 Sealed 10 10))),
      IndexFrame 7002 (sample_frame 30) (sample_commit 12 200 20 None),
      RegisterSegment 7003 (sample_registration 12 Sealed 20 30),
      AppendGap sample_gap]"

definition sample_evict_ops :: "index_op list" where
  "sample_evict_ops = [PrepareDeletion 77 Eviction None sample_objects,
     RemoveDeletionMetadata (sample_batch Prepared), FinalizeDeletion (sample_batch MetadataRemoved)]"

definition sample_captured :: "captured_frame list" where
  "sample_captured = map sample_metadata [10, 20, 30]"

section \<open>The tables\<close>

definition sample_opened :: metadata_index where
  "sample_opened = empty_index\<lparr>ix_sessions := [SessionId 1 \<mapsto> Some sample_session]\<rparr>"

definition sample_first :: metadata_index where
  "sample_first = sample_opened\<lparr>ix_targets := [(SessionId 1, TargetId 2) \<mapsto> None],
     ix_segments := [sample_segment (sample_registration 11 Open 10 0) 1 7000], ix_next_sequence := 2,
     ix_frames := [new_frame_row (sample_metadata 10) (sample_address 11 116)],
     ix_timeline := [sample_timeline 1 10], ix_usage := [sample_usage 11]\<rparr>"

definition sample_second :: metadata_index where
  "sample_second = sample_first\<lparr>ix_segments := [sample_segment (sample_registration 11 Sealed 10 10) 1 7000,
       sample_segment (sample_registration 12 Open 20 0) 2 7001], ix_next_sequence := 3,
     ix_frames := [new_frame_row (sample_metadata 10) (sample_address 11 116),
       new_frame_row (sample_metadata 20) (sample_address 12 116)],
     ix_timeline := [sample_timeline 1 10, sample_timeline 2 20], ix_usage := [sample_usage 11, sample_usage 12]\<rparr>"

definition sample_third :: metadata_index where
  "sample_third = sample_second\<lparr>
     ix_frames := [new_frame_row (sample_metadata 10) (sample_address 11 116),
       new_frame_row (sample_metadata 20) (sample_address 12 116),
       new_frame_row (sample_metadata 30) (sample_address 12 200)],
     ix_timeline := [sample_timeline 1 10, sample_timeline 2 20, sample_timeline 3 30]\<rparr>"

definition sample_gap_row :: timeline_row where
  "sample_gap_row = \<lparr>tl_observation_id = 4, tl_observation = gap_observation sample_gap, tl_capture_ordinal = None\<rparr>"

definition sample_recorded :: metadata_index where
  "sample_recorded = sample_third\<lparr>
     ix_segments := [sample_segment (sample_registration 11 Sealed 10 10) 1 7000,
       sample_segment (sample_registration 12 Sealed 20 30) 2 7001],
     ix_timeline := [sample_timeline 1 10, sample_timeline 2 20, sample_timeline 3 30, sample_gap_row],
     ix_gaps := [sample_gap]\<rparr>"

definition sample_store :: metadata_index where
  "sample_store = sample_recorded\<lparr>
     ix_segments := [sample_segment (sample_registration 12 Sealed 20 30) 2 7001],
     ix_frames := [new_frame_row (sample_metadata 20) (sample_address 12 116),
       new_frame_row (sample_metadata 30) (sample_address 12 200)],
     ix_timeline := [sample_timeline 2 20, sample_timeline 3 30, sample_gap_row],
     ix_usage := [sample_usage 12],
     ix_evicted := [\<lparr>ev_eviction_id = 1, ev_session_id = SessionId 1, ev_target_id = TargetId 2,
       ev_range = \<lparr>range_start = SessionTime 10, range_end = SessionTime 10\<rparr>\<rparr>]\<rparr>"

lemmas sample_stores = sample_opened_def sample_first_def sample_second_def sample_third_def sample_recorded_def
  sample_store_def empty_index_def sample_timeline_def sample_usage_def sample_gap_row_def

section \<open>The steps\<close>

lemmas index_write_defs = apply_op_def index_frame_tx_def register_commit_def register_segment_tx_def
  ensure_identity_def ensure_session_def find_usage_def upsert_segment_def find_segment_def upsert_usage_def
  combine_def from_transition_def observation_new_def frame_observation_def observation_validate_def
  append_observation_tx_def violates_reference_def next_rowid_def segment_key_def checked_add_def
  frame_conflict_def new_frame_row_def update_segment_def matches_payload_def

lemma sample_writes:
  "apply_op (PutSession sample_session) empty_index = Inr sample_opened"
  "apply_op (IndexFrame 7000 (sample_frame 10) (sample_commit 11 116 10 None)) sample_opened = Inr sample_first"
  "apply_op (IndexFrame 7001 (sample_frame 20)
     (sample_commit 12 116 20 (Some (sample_registration 11 Sealed 10 10)))) sample_first = Inr sample_second"
  "apply_op (IndexFrame 7002 (sample_frame 30) (sample_commit 12 200 20 None)) sample_second = Inr sample_third"
  subgoal by (simp add: apply_op_def put_session_def sample_session_def sample_stores)
  subgoal by (simp add: index_write_defs sample_defs sample_stores)
  subgoal by (simp add: index_write_defs sample_defs sample_stores)
  subgoal by (simp add: index_write_defs sample_defs sample_stores)
  done

lemma sample_gap_step:
  "and_then (apply_op (RegisterSegment 7003 (sample_registration 12 Sealed 20 30)) sample_third)
     (apply_op (AppendGap sample_gap)) = Inr sample_recorded"
  by (simp add: append_gap_def gap_observation_def sample_gap_def index_write_defs sample_defs sample_stores)

lemma sample_evict_step:
  "and_then (apply_op (PrepareDeletion 77 Eviction None sample_objects) sample_recorded) (\<lambda>ix.
   and_then (apply_op (RemoveDeletionMetadata (sample_batch Prepared)) ix)
     (apply_op (FinalizeDeletion (sample_batch MetadataRemoved)))) = Inr sample_store"
  by (simp add: Let_def apply_op_def prepare_deletion_def remove_deletion_metadata_def finalize_deletion_def
      sample_batch_def sample_objects_def remove_object_def remove_segment_object_def removed_range_def
      frames_of_segment_def first_by_def of_scope_def frame_time_def record_evicted_frame_range_def evicted_rows_def
      insert_evicted_def
      delete_frame_references_def delete_frames_def referenced_frames_def delete_segment_def
      mark_metadata_removed_def object_usage_def payload_sort_key_def
      gap_observation_def sample_gap_def index_write_defs sample_defs sample_stores)

section \<open>The history\<close>

lemma sample_wf [simp]: "n < 1000 \<Longrightarrow> wf_encoded_frame (sample_frame n)"
  using sample_frame_acceptable by (simp add: acceptable_frame_def)

lemma sample_commits_ok:
  "commit_ok (sample_frame 10) (sample_commit 11 116 10 None) sample_opened"
  "commit_ok (sample_frame 20) (sample_commit 12 116 20 (Some (sample_registration 11 Sealed 10 10))) sample_first"
  "commit_ok (sample_frame 30) (sample_commit 12 200 20 None) sample_second"
  by (simp_all add: commit_ok_def sample_stores sample_defs new_frame_row_def of_scope_def)

lemma sample_recorded_run:
  "run_ops (sample_recorded_ops @ ops) (empty_index, []) = run_ops ops (sample_recorded, sample_captured)"
proof -
  obtain ix where "apply_op (RegisterSegment 7003 (sample_registration 12 Sealed 20 30)) sample_third = Inr ix"
      "apply_op (AppendGap sample_gap) ix = Inr sample_recorded"
    using sample_gap_step by (auto simp: and_then_Inr_iff)
  then show ?thesis
    using sample_writes sample_commits_ok
    by (simp add: sample_recorded_ops_def op_ok_def captured_after_def sample_captured_def)
qed

lemma sample_recorded_history: "index_history sample_recorded sample_captured"
  using run_ops_history [OF sample_recorded_run [of "[]", simplified]] index_history.opened by blast

lemma sample_history: "index_history sample_store sample_captured"
proof -
  have "run_ops sample_evict_ops (sample_recorded, sample_captured) = Some (sample_store, sample_captured)"
    using sample_evict_step
    by (auto simp: sample_evict_ops_def and_then_Inr_iff op_ok_def captured_after_def batch_ok_def sample_batch_def)
  then show ?thesis
    using run_ops_history sample_recorded_history by blast
qed

section \<open>A resolved range\<close>

definition sample_scope :: interval_scope where
  "sample_scope = \<lparr>is_session_id = SessionId 1, is_target_id = TargetId 2\<rparr>"

definition sample_interval :: "u64 \<Rightarrow> u64 \<Rightarrow> session_range" where
  "sample_interval s e = \<lparr>range_start = SessionTime s, range_end = SessionTime e\<rparr>"

definition sample_options :: range_options where
  "sample_options = default_options\<lparr>ro_retention := AllowPartial\<rparr>"

definition sample_range :: resolved_range where
  "sample_range = \<lparr>rr_session_id = SessionId 1, rr_target_id = TargetId 2, rr_anchor_kind = SessionTimeKind,
     rr_resolved_anchor = \<lparr>ra_reference = IntervalReference, ra_requested_time = SessionTime 29,
       ra_effective_time = SessionTime 29\<rparr>,
     rr_requested_range = sample_interval 10 48, rr_resolved_range = sample_interval 20 30,
     rr_frame_ids = [FrameId 20, FrameId 30], rr_interaction_ids = [], rr_navigation_ids = [], rr_marker_ids = [],
     rr_gaps = [sample_gap\<lparr>gap_range := sample_interval 25 30\<rparr>],
     rr_retention_warnings =
       [RequestedStartBeforeOldestRetained (SessionTime 10) (SessionTime 20),
        RequestedEndAfterNewestRetained (SessionTime 48) (SessionTime 30),
        RequestedEndNotYetElapsed (SessionTime 48) (SessionTime 30) (SessionTime 45),
        PartiallyEvicted (sample_interval 10 48) (sample_interval 20 30),
        PartiallyCaptured (sample_interval 10 48) (sample_interval 20 30),
        EvictedRanges [sample_interval 10 10]],
     rr_applied_window = None, rr_options = sample_options\<rparr>"

lemma session_time_order [simp]:
  "SessionTime a \<le> SessionTime b \<longleftrightarrow> a \<le> b" "SessionTime a < SessionTime b \<longleftrightarrow> a < b"
  by (simp_all add: less_eq_session_time_def less_session_time_def)

lemma sample_lookups:
  "index_session (SessionId 1) sample_store = Inr (Some sample_session)"
  "index_target (SessionId 1) (TargetId 2) sample_store = Inr None"
  "index_frame_availability (SessionId 1) (TargetId 2) sample_store =
     Inr \<lparr>fa_retained_bounds = Some (sample_interval 20 30), fa_evicted_ranges = [sample_interval 10 10]\<rparr>"
  "index_gaps (SessionId 1) (TargetId 2) (sample_interval 20 30) sample_store = Inr [sample_gap]"
  subgoal by (simp add: index_session_def sample_session_def sample_stores)
  subgoal by (simp add: index_target_def sample_stores)
  subgoal by (simp add: index_frame_availability_def of_scope_def new_frame_row_def first_by_def last_by_def
      frame_time_def session_range_new_def evicted_ranges_def evicted_rows_def in_scope_def frame_availability_new_def
      sample_interval_def sample_stores)
  subgoal by (simp add: index_gaps_def sample_gap_def sample_interval_def decode_gap_def session_range_new_def
      capture_gap_new_def capture_gap_validate_def sample_stores)
  done

lemma sample_timeline_lookup:
  "timeline_range (SessionId 1) (TargetId 2) (sample_interval 20 30) sample_store =
     Inr (map tl_observation [sample_timeline 2 20, sample_gap_row, sample_timeline 3 30])"
  by (simp add: timeline_range_def in_timeline_range_def timeline_key_def sample_interval_def frame_observation_def
      gap_observation_def sample_gap_def decode_observation_def observation_new_def observation_validate_def
      matches_payload_def sample_stores)

lemma sample_frames_lookup:
  "frame_metadata_in_range (SessionId 1) (TargetId 2) (sample_interval 10 48) sample_store =
     Inr [sample_metadata 20, sample_metadata 30]"
proof -
  have "captured_frame_new (sample_metadata n) = Inr (sample_metadata n)" if "n \<in> {20, 30}" for n
    using that sample_wf [of n] by (auto simp: captured_frame_new_def captured_frame_validate_def wf_encoded_frame_def wf_captured_frame_def)
  then show ?thesis
  by (simp add: frame_metadata_in_range_def decode_metadata_def of_scope_def new_frame_row_def sample_interval_def
      sample_stores)
qed

lemma sample_finalized:
  assumes "frames = [sample_metadata 20, sample_metadata 30]" "requested = sample_interval 10 48"
    "seed = interval_seed (SessionId 1) (TargetId 2) requested SessionTimeKind" 
    "availability = \<lparr>fa_retained_bounds = Some (sample_interval 20 30), fa_evicted_ranges = [sample_interval 10 10]\<rparr>"
  shows "live_session_now (index_ports sample_store (ObservedTime 1045)) (SessionId 1) availability = Inr (Some (SessionTime 45))"
    "validate_frame_metadata seed frames [sample_interval 10 10] = Inr ()"
    "classify_retention seed frames availability sample_options (Some (SessionTime 45)) =
      Inr (sample_interval 20 30, rr_retention_warnings sample_range)"
    "clip_capture_gaps [sample_gap] (sample_interval 20 30) = Inr (rr_gaps sample_range)"
    "resolved_range_validate sample_range = Inr ()"
  subgoal by (simp add: live_session_now_def index_ports_def sample_lookups normalize_time_def
      checked_sub_def assms sample_session_def sample_interval_def)
  subgoal by (simp add: validate_frame_metadata_def assms interval_seed_def range_contains_iff sample_interval_def)
  subgoal by (simp add: Let_def classify_retention_def assms interval_seed_def range_contains_iff sample_interval_def ranges_intersect_def
     intersection_def session_range_new_def candidate_range_def fit_to_bounds_def clamp_partial_range_def sample_options_def sample_range_def
     retention_warnings_def)
  subgoal by (simp add: clip_capture_gaps_def clip_gap_def sample_gap_def sample_interval_def ranges_intersect_def session_range_new_def
     capture_gap_new_def capture_gap_validate_def sample_range_def)
  subgoal by (simp add: resolved_range_validate_def sample_range_def check_def reference_validate_def identifiers_ok_def anchor_times_ok_def
     gaps_ok_def validate_anchor_kind_def kind_compatible_def window_validate_def endpoints_ok_def uses_midpoint_def sample_interval_def
     range_contains_iff clamp_time_def sample_gap_def ranges_intersect_def range_midpoint_def sample_options_def)
  done

lemma sample_resolution:
  "resolve (index_ports sample_store (ObservedTime 1045)) (SessionTimeAnchor sample_scope (sample_interval 10 48))
     sample_options = Inr sample_range"
proof -
  let ?ports = "index_ports sample_store (ObservedTime 1045)"
  let ?seed = "interval_seed (SessionId 1) (TargetId 2) (sample_interval 10 48) SessionTimeKind"
  let ?frames = "[sample_metadata 20, sample_metadata 30]"
  let ?availability = "\<lparr>fa_retained_bounds = Some (sample_interval 20 30), fa_evicted_ranges = [sample_interval 10 10]\<rparr>"
  note parts = sample_finalized [of ?frames "sample_interval 10 48" ?seed ?availability]
  have ports: "rp_frame_availability ?ports (SessionId 1) (TargetId 2) = Inr ?availability"
    "rp_frame_metadata_in_range ?ports (SessionId 1) (TargetId 2) (sample_interval 10 48) = Inr ?frames"
    "rp_gaps ?ports (SessionId 1) (TargetId 2) (sample_interval 20 30) = Inr [sample_gap]"
    "rp_timeline_range ?ports (SessionId 1) (TargetId 2) (sample_interval 20 30) =
       Inr (map tl_observation [sample_timeline 2 20, sample_gap_row, sample_timeline 3 30])"
    by (simp_all add: index_ports_def sample_lookups sample_frames_lookup sample_timeline_lookup)
  have seed: "seed_of ?ports (SessionTimeAnchor sample_scope (sample_interval 10 48)) sample_options = Inr ?seed"
    using catalog_validates index_invariant [OF sample_history]
    by (simp add: seed_of_def sample_scope_def index_ok_def)
  have range: "\<lparr>rr_session_id = SessionId 1, rr_target_id = TargetId 2, rr_anchor_kind = SessionTimeKind,
      rr_resolved_anchor = \<lparr>ra_reference = IntervalReference, ra_requested_time = SessionTime 29,
        ra_effective_time = SessionTime 29\<rparr>, rr_requested_range = sample_interval 10 48,
      rr_resolved_range = sample_interval 20 30, rr_frame_ids = [FrameId 20, FrameId 30], rr_interaction_ids = [],
      rr_navigation_ids = [], rr_marker_ids = [], rr_gaps = rr_gaps sample_range,
      rr_retention_warnings = rr_retention_warnings sample_range, rr_applied_window = None,
      rr_options = sample_options\<rparr> = sample_range"
    by (simp add: sample_range_def)
  have options: "ro_capture_gaps sample_options = IncludeGaps"
    by (simp add: sample_options_def default_options_def)
  have times: "range_contains (sample_interval 20 30) (SessionTime 20)" "range_contains (sample_interval 20 30) (SessionTime 30)"
    "clamp_time (SessionTime 29) (sample_interval 20 30) = SessionTime 29"
    "range_midpoint (sample_interval 10 48) = SessionTime 29"
    by (simp_all add: sample_interval_def range_contains_iff clamp_time_def range_midpoint_def)
  have none: "interactions_of (map tl_observation [sample_timeline 2 20, sample_gap_row, sample_timeline 3 30]) = []"
    "navigations_of (map tl_observation [sample_timeline 2 20, sample_gap_row, sample_timeline 3 30]) = []"
    "markers_of (map tl_observation [sample_timeline 2 20, sample_gap_row, sample_timeline 3 30]) = []"
    by (simp_all add: interactions_of_def navigations_of_def markers_of_def sample_timeline_def sample_gap_row_def
        frame_observation_def gap_observation_def)
  have "conclude_range ?ports ?seed sample_options ?availability ?frames (sample_interval 20 30)
      (rr_retention_warnings sample_range) = Inr sample_range"
    using parts(4,5) ports none
    by (simp add: Let_def conclude_range_def interval_seed_def resolved_anchor_new_def reference_validate_def
      times options resolved_range_new_with_anchor_def range)
  then show ?thesis
    using seed ports parts(1-3)
    by (simp add: resolve_def anchor_validate_def finalize_range_def frames_of_seed_def interval_seed_def)
qed

end
