(* ===== verification/Event_Sample.thy ===== *)
theory Event_Sample
  imports Event_Retention Event_Paging Evidence_Sample
begin

text \<open>
  A concrete index of browser events for the witnesses: two console messages around a collection gap, written
  in one batch, and the same index after the oldest event was evicted.
\<close>

section \<open>Events\<close>

definition sample_cgap :: collection_gap where
  "sample_cgap = \<lparr>cg_reason = GapQueueSaturated, cg_affected_class = None,
     cg_range = \<lparr>range_start = SessionTime 20, range_end = SessionTime 20\<rparr>, cg_first_ordinal = EventOrdinal 2,
     cg_last_ordinal = EventOrdinal 2, cg_count = 1, cg_ledger_merged = False\<rparr>"

definition sample_payload :: "event_kind \<Rightarrow> collection_gap option \<Rightarrow> event_payload" where
  "sample_payload kind gap = \<lparr>ep_kind = kind, ep_contract = Inr (), ep_severity = SeverityInfo, ep_priority = 96,
     ep_json = ''{}'', ep_gap = gap, ep_capture_status = None\<rparr>"

definition sample_event :: "nat \<Rightarrow> event_kind \<Rightarrow> collection_gap option \<Rightarrow> browser_event" where
  "sample_event n kind gap = \<lparr>be_id = BrowserEventId (word_of_nat n), be_session_id = SessionId 1, be_target_id = TargetId 2,
     be_attachment_generation = 1, be_ordinal = EventOrdinal (word_of_nat n), be_session_time = SessionTime (word_of_nat (10 * n)),
     be_source_time = None, be_observed_time = ObservedTime (word_of_nat (10 * n)), be_severity = SeverityInfo,
     be_payload = sample_payload kind gap\<rparr>"

lemma sample_event_fields [simp]:
  "be_id (sample_event n kind gap) = BrowserEventId (word_of_nat n)"
  "be_session_id (sample_event n kind gap) = SessionId 1"
  "be_target_id (sample_event n kind gap) = TargetId 2"
  "be_attachment_generation (sample_event n kind gap) = 1"
  "be_ordinal (sample_event n kind gap) = EventOrdinal (word_of_nat n)"
  "be_session_time (sample_event n kind gap) = SessionTime (word_of_nat (10 * n))"
  "be_source_time (sample_event n kind gap) = None"
  "be_observed_time (sample_event n kind gap) = ObservedTime (word_of_nat (10 * n))"
  "be_severity (sample_event n kind gap) = SeverityInfo"
  "ep_kind (be_payload (sample_event n kind gap)) = kind"
  "ep_contract (be_payload (sample_event n kind gap)) = Inr ()"
  "ep_severity (be_payload (sample_event n kind gap)) = SeverityInfo"
  "ep_priority (be_payload (sample_event n kind gap)) = 96"
  "ep_json (be_payload (sample_event n kind gap)) = ''{}''"
  "ep_gap (be_payload (sample_event n kind gap)) = gap"
  "ep_capture_status (be_payload (sample_event n kind gap)) = None"
  by (simp_all add: sample_event_def sample_payload_def)

definition first_message :: browser_event where "first_message = sample_event 1 ConsoleMessageEvent None"
definition lost_messages :: browser_event where "lost_messages = sample_event 2 CollectionGapEvent (Some sample_cgap)"
definition last_message :: browser_event where "last_message = sample_event 3 ConsoleMessageEvent None"

lemmas sample_event_defs = first_message_def lost_messages_def last_message_def

definition sample_event_batch :: event_batch where
  "sample_event_batch = \<lparr>eb_session_id = SessionId 1, eb_events = [first_message, lost_messages, last_message]\<rparr>"

lemma sample_events_valid:
  "event \<in> {first_message, lost_messages, last_message} \<Longrightarrow> event_validate event = Inr ()"
  "event \<in> {first_message, lost_messages, last_message} \<Longrightarrow> event_typed event"
  by (auto simp: sample_event_defs event_validate_def event_typed_def max_event_payload_bytes_def affected_range_def
      wf_range_def sample_cgap_def range_contains_iff)

lemma sample_events_accounted:
  "accounted_bytes first_message (length (ep_json (be_payload first_message))) = Inr 416"
  "accounted_bytes lost_messages (length (ep_json (be_payload lost_messages))) = Inr 419"
  "accounted_bytes last_message (length (ep_json (be_payload last_message))) = Inr 416"
  by (simp_all add: sample_event_defs accounted_bytes_def projection_bytes_def event_class_of_def event_kind_class_def
      event_kind_name_def class_name_def event_row_allowance_bytes_def)

section \<open>The tables\<close>

definition sample_event_row :: "browser_event \<Rightarrow> u64 \<Rightarrow> nat \<Rightarrow> event_row" where
  "sample_event_row event bytes sequence =
     \<lparr>er_event = event, er_accounted_bytes = bytes, er_retention_sequence = sequence\<rparr>"

definition sample_event_timeline :: "nat \<Rightarrow> browser_event \<Rightarrow> timeline_row" where
  "sample_event_timeline i event =
     \<lparr>tl_observation_id = i, tl_observation = event_observation event, tl_capture_ordinal = None\<rparr>"

definition event_index_opened :: metadata_index where
  "event_index_opened = empty_index\<lparr>ix_sessions := [SessionId 1 \<mapsto> None], ix_targets := [(SessionId 1, TargetId 2) \<mapsto> None]\<rparr>"

definition event_index :: "(browser_event \<times> u64) list \<Rightarrow> metadata_index" where
  "event_index events = event_index_opened\<lparr>
     ix_events := map (\<lambda>(i, event, bytes). sample_event_row event bytes (Suc i)) (enumerate 0 events),
     ix_timeline := map (\<lambda>(i, event, bytes). sample_event_timeline (Suc i) event) (enumerate 0 events),
     ix_usage := map (\<lambda>(event, bytes). event_usage event bytes) events,
     ix_next_sequence := Suc (length events)\<rparr>"

definition sample_event_index :: metadata_index where
  "sample_event_index = event_index [(first_message, 416), (lost_messages, 419), (last_message, 416)]"

lemmas event_index_defs = event_index_def event_index_opened_def empty_index_def sample_event_row_def
  sample_event_timeline_def event_usage_def


lemma sample_write_facts:
  "be_id first_message = BrowserEventId 1" "be_id lost_messages = BrowserEventId 2" "be_id last_message = BrowserEventId 3"
  "be_ordinal first_message = EventOrdinal 1" "be_ordinal lost_messages = EventOrdinal 2" "be_ordinal last_message = EventOrdinal 3"
  "be_session_id first_message = SessionId 1" "be_session_id lost_messages = SessionId 1" "be_session_id last_message = SessionId 1"
  "be_target_id first_message = TargetId 2" "be_target_id lost_messages = TargetId 2" "be_target_id last_message = TargetId 2"
  "affected_range first_message = sample_interval 10 10" "affected_range lost_messages = sample_interval 20 20"
  "affected_range last_message = sample_interval 30 30"
  "ep_json (be_payload first_message) = ''{}''" "ep_json (be_payload lost_messages) = ''{}''"
  "ep_json (be_payload last_message) = ''{}''" "ep_priority (be_payload first_message) = 96"
  "ep_priority (be_payload lost_messages) = 96" "ep_priority (be_payload last_message) = 96"
  by (simp_all add: sample_event_defs affected_range_def sample_interval_def sample_cgap_def)

lemma sample_observation:
  "event \<in> {first_message, lost_messages, last_message} \<Longrightarrow> observation_new (event_observation event) = Inr (event_observation event)"
  by (auto simp: sample_event_defs observation_new_def observation_validate_def event_observation_def matches_payload_def)

lemma sample_observation_fields:
  "to_kind (event_observation event) = KindBrowserEvent" "to_payload (event_observation event) = BrowserEventPayload (be_id event)"
  "to_session_id (event_observation event) = be_session_id event" "to_target_id (event_observation event) = be_target_id event"
  by (simp_all add: event_observation_def)

lemmas sample_append_defs = append_event_tx_def insert_event_def conflicting_rows_def event_conflict_def
  event_row_refused_def ensure_event_dependents_tx_def ensure_timeline_tx_def ensure_usage_tx_def
  timeline_observation_of_def references_event_def append_observation_tx_def violates_reference_def next_rowid_def
  find_usage_def event_key_def payload_sort_key_def same_evidence_def ensure_identity_def ensure_session_def

lemma sample_event_writes:
  "append_event_tx first_message empty_index = Inr (416, event_index [(first_message, 416)])"
  "append_event_tx lost_messages (event_index [(first_message, 416)]) =
    Inr (419, event_index [(first_message, 416), (lost_messages, 419)])"
  "append_event_tx last_message (event_index [(first_message, 416), (lost_messages, 419)]) =
    Inr (416, sample_event_index)"
  using sample_events_accounted sample_observation
  by (simp_all add: sample_append_defs event_index_defs sample_event_index_def sample_write_facts
      sample_observation_fields Let_def sample_interval_def)

lemma sample_batch_written:
  "fold_result append_valid_event (0, empty_index) (eb_events sample_event_batch) = Inr (1251, sample_event_index)"
  using sample_event_writes sample_events_valid
  by (simp add: sample_event_batch_def append_valid_event_def checked_add_def)

lemma sample_batch_kept:
  "append_browser_event_batch 600 2000 0 sample_event_batch empty_index = Inr sample_event_index"
  using sample_batch_written
  by (simp add: append_browser_event_batch_def sample_event_batch_def max_event_batch_rows_def max_event_batch_bytes_def
      checked_add_def)

lemma sample_event_history: "index_history sample_event_index []"
proof -
  have "op_ok (AppendEvents 600 2000 0 sample_event_batch) empty_index"
    using sample_events_valid(2) by (simp add: op_ok_def sample_event_batch_def)
  from index_history.applied [OF index_history.opened this, of sample_event_index] show ?thesis
    by (simp add: apply_op_def sample_batch_kept captured_after_def)
qed

section \<open>After an eviction\<close>

definition sample_unavailable :: unavailable_row where
  "sample_unavailable = \<lparr>un_id = 1, un_range = \<lparr>ur_session_id = SessionId 1, ur_target_id = TargetId 2,
     ur_range = sample_interval 10 10, ur_ordinals = Some (EventOrdinal 1, EventOrdinal 1), ur_event_count = 1,
     ur_reason = RetentionEvicted\<rparr>\<rparr>"

definition sample_event_index_later :: metadata_index where
  "sample_event_index_later = (delete_event (BrowserEventId 1) sample_event_index)\<lparr>ix_unavailable := [sample_unavailable]\<rparr>"

lemma sample_rows: "ix_events sample_event_index = [sample_event_row first_message 416 (Suc 0),
    sample_event_row lost_messages 419 (Suc (Suc 0)), sample_event_row last_message 416 (Suc (Suc (Suc 0)))]"
  by (simp add: sample_event_index_def event_index_def)

lemma sample_scope: "decode_scope (sample_event_row first_message 416 (Suc 0)) = Inr \<lparr>sc_event_id = BrowserEventId 1,
    sc_session_id = SessionId 1, sc_target_id = TargetId 2, sc_ordinal = EventOrdinal 1, sc_session_time = SessionTime 10\<rparr>"
  by (simp add: decode_scope_def sample_event_row_def sample_write_facts Let_def event_ordinal_new_def sample_interval_def)
    (simp add: sample_event_defs)

lemma sample_first_evicted: "evict_event (sample_event_row first_message 416 (Suc 0)) sample_event_index = Inr sample_event_index_later"
proof -
  have "ix_unavailable sample_event_index = []" "ix_targets sample_event_index = [(SessionId 1, TargetId 2) \<mapsto> None]"
    by (simp_all add: sample_event_index_def event_index_defs)
  then show ?thesis
    by (simp add: evict_event_def sample_scope record_unavailable_tx_def unavailable_event_def unavailable_tail_def last_by_def
        unavailable_range_new_def next_rowid_def sample_event_index_later_def sample_unavailable_def sample_interval_def
        delete_event_def remove_event_dependents_tx_def Let_def)
qed

lemma sample_evicted: "evict_oldest_browser_events (Some 2) sample_event_index = Inr (416, sample_event_index_later)"
proof -
  have "eviction_candidates (Some 2) max_event_eviction_rows sample_event_index = [sample_event_row first_message 416 (Suc 0)]"
    by (simp add: eviction_candidates_def sample_rows sample_event_row_def max_event_eviction_rows_def)
  moreover have "er_accounted_bytes (sample_event_row first_message 416 (Suc 0)) = 416"
    by (simp add: sample_event_row_def)
  ultimately show ?thesis
    by (simp add: evict_oldest_browser_events_def evict_events_tx_def sample_first_evicted checked_add_def)
qed

text \<open>The budget holds two of the three events: the batch is accepted and the oldest event makes room.\<close>

lemma sample_batch_displaces:
  "append_browser_event_batch 600 1000 0 sample_event_batch empty_index = Inr sample_event_index_later"
proof -
  have "eviction_candidates None max_event_eviction_rows sample_event_index = ix_events sample_event_index"
    by (simp add: eviction_candidates_def sample_rows sample_event_row_def max_event_eviction_rows_def retention_order_def)
  moreover have "er_accounted_bytes (sample_event_row first_message 416 (Suc 0)) = 416"
    by (simp add: sample_event_row_def)
  ultimately have "evict_events_tx None max_event_eviction_rows max_event_eviction_bytes (Some 251) sample_event_index =
      Inr (416, sample_event_index_later)"
    by (simp add: evict_events_tx_def sample_rows sample_first_evicted checked_add_def)
  then show ?thesis
    using sample_batch_written
    by (simp add: append_browser_event_batch_def sample_event_batch_def max_event_batch_rows_def max_event_batch_bytes_def
      checked_add_def saturating_sub_def)
qed

section \<open>A page\<close>

definition sample_selector :: event_selector where
  "sample_selector = \<lparr>es_session_id = SessionId 1, es_target_id = TargetId 2, es_range = sample_interval 0 50,
     es_classes = [], es_minimum_severity = SeverityDebug\<rparr>"

lemma sample_listed: "events_listed sample_event_index sample_selector = [first_message, lost_messages, last_message]"
  by (simp add: events_listed_def sample_rows sample_event_row_def sample_selector_def selector_matches_def
      event_order_def sample_event_defs severity_rank_def sample_interval_def)

end
