(* ===== verification/Context_Quality.thy ===== *)
theory Context_Quality
  imports Temporal_Context
begin

text \<open>
  What the capture quality says is exact: the covered duration of the gaps is the number of nanoseconds the
  union of the clipped gaps spans, and the epochs are the maximal runs of frames with the same image
  size, viewport and scale.
\<close>

section \<open>Gaps\<close>

text \<open>The nanoseconds after an instant of the interval that are still inside it.\<close>

definition span :: "session_range \<Rightarrow> nat set" where
  "span r = {unat (session_nanos (range_start r)) ..< unat (session_nanos (range_end r))}"

definition spans :: "session_range list \<Rightarrow> nat set" where
  "spans rs = (\<Union>r \<in> set rs. span r)"

lemma spans_simps [simp]: "spans [] = {}" "spans (rs @ [r]) = spans rs \<union> span r"
  by (auto simp: spans_def)

definition apart :: "session_range list \<Rightarrow> bool" where
  "apart rs \<longleftrightarrow> sorted_wrt (\<lambda>a b. range_end a < range_start b) rs \<and> (\<forall>r \<in> set rs. wf_range r)"

lemma session_time_nat: "s \<le> t \<longleftrightarrow> unat (session_nanos s) \<le> unat (session_nanos t)"
  "s < t \<longleftrightarrow> unat (session_nanos s) < unat (session_nanos t)"
  by (simp_all add: less_eq_session_time_def less_session_time_def word_le_nat_alt word_less_nat_alt)

lemma apart_snoc:
  "apart (rs @ [r]) \<longleftrightarrow> apart rs \<and> wf_range r \<and> (\<forall>a \<in> set rs. range_end a < range_start r)"
  by (auto simp: apart_def sorted_wrt_append)

lemma merge_gap_step:
  assumes merged: "apart merged" and wf: "wf_range current"
    and order: "\<forall>r \<in> set merged. range_start r \<le> range_start current"
  shows "apart (merge_gap merged current) \<and> spans (merge_gap merged current) = spans merged \<union> span current \<and>
    (\<forall>r \<in> set (merge_gap merged current). range_start r \<le> range_start current)"
proof (cases "merged \<noteq> [] \<and> range_start current \<le> range_end (last merged)")
  case True
  then obtain rs r where rs: "merged = rs @ [r]"
    by (metis append_butlast_last_id)
  let ?new = "\<lparr>range_start = range_start r, range_end = max (range_end r) (range_end current)\<rparr>"
  have touch: "range_start current \<le> range_end r" "range_start r \<le> range_start current" "wf_range r"
    using True order merged by (simp_all add: rs apart_snoc)
  have "merge_gap merged current = rs @ [?new]"
    using True by (simp add: merge_gap_def rs)
  moreover have "wf_range ?new"
    using touch by (auto simp: wf_range_def max_def)
  moreover have "span ?new = span r \<union> span current"
    using touch wf by (auto simp: span_def wf_range_def session_time_nat max_def)
  ultimately show ?thesis
    using merged order touch by (auto simp: rs apart_snoc)
next
  case False
  then have new: "merge_gap merged current = merged @ [current]"
    by (auto simp: merge_gap_def)
  have "range_end a < range_start current" if a: "a \<in> set merged" for a
  proof -
    obtain rs r where rs: "merged = rs @ [r]"
      using a by (cases merged rule: rev_cases) auto
    then have "range_end r < range_start current" "range_start r \<le> range_end r"
      using False merged by (auto simp: apart_snoc wf_range_def)
    then show ?thesis
      using a merged by (force simp: rs apart_snoc intro: less_trans less_le_trans)
  qed
  then show ?thesis
    using merged wf order by (auto simp: new apart_snoc)
qed

lemma merge_gaps_fold:
  assumes "apart merged" and "\<forall>r \<in> set rs. wf_range r"
    and "sorted (map range_start rs)" and "\<forall>r \<in> set merged. \<forall>q \<in> set rs. range_start r \<le> range_start q"
  shows "apart (foldl merge_gap merged rs) \<and> spans (foldl merge_gap merged rs) = spans merged \<union> spans rs"
  using assms
proof (induction rs arbitrary: merged)
  case (Cons r rs)
  have step: "apart (merge_gap merged r)" "spans (merge_gap merged r) = spans merged \<union> span r"
    "\<forall>q \<in> set (merge_gap merged r). range_start q \<le> range_start r"
    using merge_gap_step [of merged r] Cons.prems by auto
  then have "apart (foldl merge_gap (merge_gap merged r) rs) \<and>
      spans (foldl merge_gap (merge_gap merged r) rs) = spans (merge_gap merged r) \<union> spans rs"
    using Cons.prems by (intro Cons.IH) (auto intro: order_trans)
  then show ?case
    using step(2) by (auto simp: spans_def)
qed simp

lemma merged_gaps_exact:
  assumes "\<forall>r \<in> set clipped. wf_range r"
  shows "apart (merged_gaps clipped)" "spans (merged_gaps clipped) = spans clipped"
proof -
  let ?key = "\<lambda>r. (session_nanos (range_start r), session_nanos (range_end r))"
  have "sorted_wrt (\<lambda>a b. ?key a \<le> ?key b) (sort_key ?key clipped)"
    using sorted_sort_key [of ?key clipped] by (simp only: sorted_map)
  then have "sorted_wrt (\<lambda>a b. range_start a \<le> range_start b) (sort_key ?key clipped)"
    by (rule sorted_wrt_mono_rel [rotated]) (auto simp: less_eq_prod_def)
  then have "apart (foldl merge_gap [] (sort_key ?key clipped)) \<and>
      spans (foldl merge_gap [] (sort_key ?key clipped)) = spans [] \<union> spans (sort_key ?key clipped)"
    using assms by (intro merge_gaps_fold) (simp_all add: apart_def sorted_map)
  then show "apart (merged_gaps clipped)" "spans (merged_gaps clipped) = spans clipped"
    by (simp_all add: merged_gaps_def spans_def)
qed

lemma finite_span [simp]: "finite (span r)" "finite (spans rs)"
  by (simp_all add: span_def spans_def)

lemma covered_fold:
  assumes "apart rs" and "unat covered + card (spans rs) < 2 ^ 64"
  shows "unat (foldl (\<lambda>covered r. saturating_add covered
     (saturating_sub (session_nanos (range_end r)) (session_nanos (range_start r)))) covered rs) =
    unat covered + card (spans rs)"
  using assms
proof (induction rs arbitrary: covered)
  case (Cons r rs)
  let ?length = "saturating_sub (session_nanos (range_end r)) (session_nanos (range_start r))"
  have "span r \<inter> spans rs = {}"
    using Cons.prems(1) by (auto simp: apart_def spans_def span_def session_time_nat)
  moreover have "spans (r # rs) = span r \<union> spans rs"
    by (simp add: spans_def)
  ultimately have card: "card (spans (r # rs)) = card (span r) + card (spans rs)"
    by (simp add: card_Un_disjoint)
  have "unat ?length = card (span r)"
    by (simp add: span_def unat_saturating_sub)
  then have add: "unat (saturating_add covered ?length) = unat covered + card (span r)"
    using Cons.prems(2) card by (simp add: unat_saturating_add)
  have "apart rs"
    using Cons.prems(1) by (simp add: apart_def)
  then show ?case
    using Cons.IH [of "saturating_add covered ?length"] Cons.prems(2) add card by simp
qed (simp add: spans_def)

lemma covered_duration_exact:
  assumes "apart rs"
  shows "unat (covered_duration rs) = card (spans rs)"
proof -
  have "spans rs \<subseteq> {..< 2 ^ 64 - 1}"
  proof
    fix n
    assume "n \<in> spans rs"
    then obtain r where "n \<in> span r"
      by (auto simp: spans_def)
    then have "n < unat (session_nanos (range_end r))"
      by (simp add: span_def)
    moreover have "unat (session_nanos (range_end r)) < 2 ^ LENGTH(64)"
      by (rule unsigned_less)
    ultimately show "n \<in> {..< 2 ^ 64 - 1}"
      by simp
  qed
  then have "card (spans rs) \<le> 2 ^ 64 - 1"
    using card_mono [of "{..< 2 ^ 64 - 1 :: nat}" "spans rs"] by simp
  then show ?thesis
    unfolding covered_duration_def using covered_fold [OF assms, of 0] by simp
qed

lemma span_intersection:
  "span (gap_range gap) \<inter> span r = (case range_intersection (gap_range gap) r of None \<Rightarrow> {} | Some q \<Rightarrow> span q)"
  by (auto simp: range_intersection_def span_def Let_def max_def min_def session_time_nat)

lemma intersection_wf: "range_intersection a b = Some q \<Longrightarrow> wf_range q"
  by (auto simp: range_intersection_def wf_range_def Let_def split: if_splits)

lemma gap_cover: "unat (gs_covered_duration_nanos (gap_summary gaps r)) = card (\<Union>gap \<in> set gaps. span (gap_range gap) \<inter> span r)"
proof -
  let ?clipped = "clipped_gaps gaps r"
  have clipped: "set ?clipped = {q. \<exists>gap \<in> set gaps. range_intersection (gap_range gap) r = Some q}"
    by (force simp: clipped_gaps_def List.map_filter_def)
  have wf: "\<forall>q \<in> set ?clipped. wf_range q"
    using intersection_wf by (auto simp: clipped)
  have "spans ?clipped = (\<Union>gap \<in> set gaps. span (gap_range gap) \<inter> span r)"
    unfolding spans_def clipped by (force simp: span_intersection split: option.splits)
  then show ?thesis
    using covered_duration_exact merged_gaps_exact [OF wf] by (simp add: gap_summary_def)
qed

section \<open>Epochs\<close>

definition epoch_of :: "nat \<times> captured_frame list \<Rightarrow> epoch_summary" where
  "epoch_of = (\<lambda>(i, frames). \<lparr>eu_epoch_index = word_of_nat i,
     eu_range = \<lparr>range_start = cf_session_time (hd frames), range_end = cf_session_time (last frames)\<rparr>,
     eu_frame_count = word_of_nat (length frames), eu_first_frame = frame_point_of (hd frames),
     eu_last_frame = frame_point_of (last frames), eu_image = cf_image (hd frames),
     eu_viewport = cf_viewport (hd frames), eu_device_scale_factor = cf_device_scale_factor (hd frames)\<rparr>)"

text \<open>The frames cut into runs: nothing lost, nothing empty, one image size, viewport and scale in a run,
  another in the next.\<close>

definition epoch_runs :: "captured_frame list \<Rightarrow> captured_frame list list \<Rightarrow> bool" where
  "epoch_runs frames runs \<longleftrightarrow> concat runs = frames \<and> [] \<notin> set runs \<and>
     (\<forall>run \<in> set runs. \<forall>f \<in> set run. \<forall>g \<in> set run. same_visual_epoch f g) \<and>
     successively (\<lambda>run next_run. \<not> same_visual_epoch (last run) (hd next_run)) runs"

lemma same_epoch_refl [simp]: "same_visual_epoch f f"
  and same_epoch_sym: "same_visual_epoch f g \<Longrightarrow> same_visual_epoch g f"
  and same_epoch_trans: "same_visual_epoch f g \<Longrightarrow> same_visual_epoch g h \<Longrightarrow> same_visual_epoch f h"
  by (simp_all add: same_visual_epoch_def)

lemma runs_length: "[] \<notin> set runs \<Longrightarrow> length runs \<le> length (concat runs)"
proof (induction runs)
  case (Cons run runs)
  then have "1 \<le> length run"
    by (cases run) auto
  then show ?case
    using Cons by simp
qed simp

lemma runs_snoc:
  assumes runs: "epoch_runs frames runs"
  shows "frames \<noteq> [] \<and> same_visual_epoch frame (last frames) \<Longrightarrow>
      runs \<noteq> [] \<and> epoch_runs (frames @ [frame]) (butlast runs @ [last runs @ [frame]])"
    and "\<not> (frames \<noteq> [] \<and> same_visual_epoch frame (last frames)) \<Longrightarrow> epoch_runs (frames @ [frame]) (runs @ [[frame]])"
proof -
  have nonempty: "frames \<noteq> [] \<longleftrightarrow> runs \<noteq> []"
    using runs by (cases runs) (auto simp: epoch_runs_def)
  have last: "last frames = last (last runs)" if "runs \<noteq> []"
    using that runs by (cases runs rule: rev_cases) (auto simp: epoch_runs_def)
  show "runs \<noteq> [] \<and> epoch_runs (frames @ [frame]) (butlast runs @ [last runs @ [frame]])"
    if new: "frames \<noteq> [] \<and> same_visual_epoch frame (last frames)"
  proof -
    obtain init run where split: "runs = init @ [run]"
      using new nonempty by (cases runs rule: rev_cases) auto
    have run: "run \<noteq> []" "same_visual_epoch frame (last run)"
      using runs new last split by (auto simp: epoch_runs_def)
    have "same_visual_epoch frame f \<and> same_visual_epoch f frame" if "f \<in> set run" for f
    proof -
      have "same_visual_epoch (last run) f"
        using runs that last_in_set [OF run(1)] by (simp add: epoch_runs_def split)
      then show ?thesis
        using run(2) same_epoch_trans same_epoch_sym by blast
    qed
    then show ?thesis
      using runs run by (auto simp: split epoch_runs_def successively_append_iff)
  qed
  show "epoch_runs (frames @ [frame]) (runs @ [[frame]])"
    if "\<not> (frames \<noteq> [] \<and> same_visual_epoch frame (last frames))"
    using runs that nonempty last by (auto simp: epoch_runs_def successively_append_iff dest: same_epoch_sym)
qed

lemma extend_last_epoch:
  assumes "run \<noteq> []" and "cf_session_time (hd run) \<le> cf_session_time frame" and "length run < 2 ^ 64 - 1"
  shows "extend_epoch (epoch_of (i, run)) frame = Inr (epoch_of (i, run @ [frame]))"
proof -
  have "unat (word_of_nat (length run) :: u64) = length run"
    "unat (word_of_nat (Suc (length run)) :: u64) = Suc (length run)"
    using assms(3) by (simp_all only: unat_of_nat) simp_all
  then have "saturating_add (word_of_nat (length run) :: u64) 1 = word_of_nat (Suc (length run))"
    using assms(3) by (simp only: word_unat_eq_iff unat_saturating_add) simp
  then show ?thesis
    using assms(1,2) by (simp add: extend_epoch_def epoch_of_def session_range_new_def not_less)
qed

lemma epochs_fold:
  assumes "sorted_wrt (\<lambda>f g. cf_session_time f \<le> cf_session_time g) frames" and "length frames < 2 ^ 32"
  shows "\<exists>runs. epoch_runs frames runs \<and> fold_result epoch_step ([], None) frames =
    Inr (map epoch_of (enumerate 0 runs), if frames = [] then None else Some (last frames))"
  using assms
proof (induction frames rule: rev_induct)
  case Nil
  show ?case
    by (intro exI [of _ "[]"]) (simp add: epoch_runs_def)
next
  case (snoc frame frames)
  then obtain runs where runs: "epoch_runs frames runs" and fold: "fold_result epoch_step ([], None) frames =
      Inr (map epoch_of (enumerate 0 runs), if frames = [] then None else Some (last frames))"
    by (auto simp: sorted_wrt_append)
  have short: "length runs \<le> length frames"
    using runs runs_length by (auto simp: epoch_runs_def)
  show ?case
  proof (cases "frames \<noteq> [] \<and> same_visual_epoch frame (last frames)")
    case True
    note snoc_runs = runs_snoc(1) [OF runs True]
    then obtain init run where split: "runs = init @ [run]"
      by (cases runs rule: rev_cases) auto
    have run: "run \<noteq> []" "set run \<subseteq> set frames" "length run \<le> length frames"
      using runs by (auto simp: split epoch_runs_def)
    then have "hd run \<in> set frames"
      using hd_in_set by blast
    then have "extend_epoch (epoch_of (length init, run)) frame = Inr (epoch_of (length init, run @ [frame]))"
      using snoc.prems run by (intro extend_last_epoch) (auto simp: sorted_wrt_append)
    then have "epoch_step (map epoch_of (enumerate 0 runs), Some (last frames)) frame =
        Inr (map epoch_of (enumerate 0 (init @ [run @ [frame]])), Some frame)"
      using True by (simp add: epoch_step_def split enumerate_append_eq)
    then show ?thesis
      using snoc_runs True fold by (intro exI [of _ "init @ [run @ [frame]]"]) (simp add: split fold_result_append)
  next
    case False
    have "length runs < 2 ^ 32"
      using short snoc.prems(2) by simp
    then have "epoch_step (map epoch_of (enumerate 0 runs), if frames = [] then None else Some (last frames)) frame =
        Inr (map epoch_of (enumerate 0 (runs @ [[frame]])), Some frame)"
      using False by (auto simp: epoch_step_def enumerate_append_eq epoch_of_def new_epoch_def)
    then show ?thesis
      using runs_snoc(2) [OF runs False] fold by (intro exI [of _ "runs @ [[frame]]"]) (simp add: fold_result_append)
  qed
qed

end
