(* ===== verification/Event_Properties.thy ===== *)
theory Event_Properties
  imports Event_Sample Context_Quality
begin

text \<open>
  The properties of browser events and of the temporal context over every history of the metadata index:
  complete pages, recorded evictions, the budget of a batch, and the exact counts of gaps and visual epochs.
\<close>

section \<open>Browser events\<close>

text \<open>C11: In every history of the index, an accepted batch of browser events leaves the managed
  bytes within the budget: the usage before it, with the accounted bytes of the event table exchanged for those
  after it, is at most the budget. No event goes without a record: every event of the batch and every event stored
  before is stored afterwards, or a record of retention covers its scope, its time and its ordinal.\<close>

theorem event_batch_within_budget:
  assumes "index_history ix captured" and "op_ok (AppendEvents bytes budget usage batch) ix"
    and "append_browser_event_batch bytes budget usage batch ix = Inr ix'"
  shows "unat usage + accounted_total (ix_events ix') \<le> unat budget + accounted_total (ix_events ix) \<and>
    (\<forall>event \<in> set (eb_events batch) \<union> stored_events ix.
      event \<in> stored_events ix' \<or> recorded_gone RetentionEvicted event ix')"
  using batch_accounts [OF assms(3) event_tables_invariant [OF assms(1)]] assms(2) by (auto simp: op_ok_def)

theorem event_batch_within_budget_witness:
  "accounted_total (ix_events sample_event_index_later) \<le> 1000 \<and>
    first_message \<in> set (eb_events sample_event_batch) \<and> first_message \<notin> stored_events sample_event_index_later \<and>
    recorded_gone RetentionEvicted first_message sample_event_index_later"
proof -
  have ok: "op_ok (AppendEvents 600 1000 0 sample_event_batch) empty_index"
    using sample_events_valid(2) by (simp add: op_ok_def sample_event_batch_def)
  have gone: "first_message \<notin> stored_events sample_event_index_later"
    by (auto simp: stored_events_def sample_event_index_later_def sample_rows sample_event_row_def sample_write_facts
        dest: arg_cong [of _ _ be_id])
  show ?thesis
    using event_batch_within_budget [OF index_history.opened ok sample_batch_displaces] gone
    by (simp add: sample_event_batch_def accounted_total_def empty_index_def)
qed

text \<open>C12: Evicting browser events takes the oldest first: what goes is an initial part of the
  candidates in retention order, at least one when there is any, more than one only while the bytes stay within
  the limit of one transaction. The bytes reported are those of the rows that went; the others stay, each event
  that went is covered by a record of its scope, earlier records keep what they covered, and the counts of the
  records of each scope grow by the number of its events.\<close>

theorem evicted_events_recorded:
  assumes "index_history ix captured" and "evict_oldest_browser_events before ix = Inr (freed, ix')"
  shows "\<exists>k. evicted_from ix (take k (eviction_candidates before max_event_eviction_rows ix)) ix' \<and>
    unat freed = accounted_total (take k (eviction_candidates before max_event_eviction_rows ix)) \<and>
    (eviction_candidates before max_event_eviction_rows ix = [] \<or> 0 < k) \<and>
    (freed \<le> max_event_eviction_bytes \<or> k \<le> 1)"
  using evict_events_from [OF assms(2) [unfolded evict_oldest_browser_events_def] event_tables_invariant [OF assms(1)]]
  by blast

theorem evicted_events_recorded_witness:
  "\<exists>k. evicted_from sample_event_index (take k [sample_event_row first_message 416 (Suc 0)]) sample_event_index_later \<and>
    0 < k"
proof -
  have "eviction_candidates (Some 2) max_event_eviction_rows sample_event_index = [sample_event_row first_message 416 (Suc 0)]"
    by (simp add: eviction_candidates_def sample_rows sample_event_row_def max_event_eviction_rows_def)
  then show ?thesis
    using evicted_events_recorded [OF sample_event_history sample_evicted] by auto
qed

text \<open>C13: In every history of the index, a client that reads the events of a selector page by page, following
  the cursors, sees every event of the selection that is no collection gap once, in the order of time, ordinal
  and identifier, whatever the page limit; the walk ends within one page more than there are events.\<close>

theorem event_pages_complete:
  assumes "index_history ix captured" and "0 < limit" and "length (events_listed ix selector) < fuel"
  shows "page_walk fuel (index_context_ports ix) resolved selector None limit =
    Some (Inr (shown_events (events_listed ix selector)))"
  by (rule index.walk_complete [OF event_tables_invariant [OF assms(1)] assms(2,3)])

theorem event_pages_complete_witness:
  "page_walk 4 (index_context_ports sample_event_index) sample_range sample_selector None 1 =
    Some (Inr [\<lparr>sv_event = first_message, sv_reason = Chronological\<rparr>, \<lparr>sv_event = last_message, sv_reason = Chronological\<rparr>])"
  using event_pages_complete [OF sample_event_history, of 1 sample_selector 4 sample_range]
  by (simp add: sample_listed shown_events_def is_collection_gap_def sample_event_defs)

section \<open>The temporal context\<close>

text \<open>C14: The duration that the gap summary reports as covered is the number of unit steps of the range, from
  its start up to its end, that lie in at least one of the gaps: overlapping, touching and nested gaps are counted
  once, whatever their order, and nothing wraps or saturates.\<close>

theorem gap_cover_exact: "unat (gs_covered_duration_nanos (gap_summary gaps r)) =
    card (\<Union>gap \<in> set gaps. span (gap_range gap) \<inter> span r)"
  by (rule gap_cover)

text \<open>C15: Over frames in time order the visual epochs are the maximal runs of frames with the same image
  size, viewport and scale: the runs concatenate to the frames, each is uniform, neighbours differ, and each
  summary counts its run and carries its first and last time.\<close>

theorem epoch_runs_exact:
  assumes "sorted_wrt (\<lambda>f g. cf_session_time f \<le> cf_session_time g) frames" and "length frames < 2 ^ 32"
  shows "\<exists>runs. epoch_runs frames runs \<and> epoch_summaries frames = Inr (map epoch_of (enumerate 0 runs))"
  using epochs_fold [OF assms] by (auto simp: epoch_summaries_def)

theorem epoch_runs_exact_witness:
  "\<exists>runs. epoch_runs [sample_metadata 10, sample_metadata 20] runs \<and>
    epoch_summaries [sample_metadata 10, sample_metadata 20] = Inr (map epoch_of (enumerate 0 runs))"
  by (rule epoch_runs_exact) simp_all

end
