(* ===== verification/Range_Evidence.thy ===== *)
theory Range_Evidence
  imports Range_Contract
begin

text \<open>
  What a resolved range is compared with: the frames its resolution read from storage, what eviction
  leaves of a requested range, and, from the two, the exact retention warnings of a resolution.
\<close>

section \<open>The frames a resolution reads\<close>

text \<open>A selection of source frames is read by the ordinals of its end points, every other range by its
  requested interval.\<close>

definition frames_read :: "range_ports \<Rightarrow> range_anchor \<Rightarrow> resolved_range \<Rightarrow> krometrail_error + captured_frame list" where
  "frames_read ports anchor r = (case anchor of
     SourceFrameAnchor scope start_frame end_frame \<Rightarrow>
       and_then (rp_frame_metadata_by_id ports [start_frame, end_frame]) (\<lambda>endpoints.
       rp_frame_metadata_in_ordinal_range ports (rr_session_id r) (rr_target_id r)
         (cf_capture_ordinal (endpoints ! 0)) (cf_capture_ordinal (endpoints ! 1)))
   | _ \<Rightarrow> rp_frame_metadata_in_range ports (rr_session_id r) (rr_target_id r) (rr_requested_range r))"

lemma seed_reads:
  assumes "seed_of ports anchor options = Inr seed" and "frames_of_seed ports seed = Inr rows"
    and "rr_session_id r = sd_session_id seed" and "rr_target_id r = sd_target_id seed"
    and "rr_requested_range r = sd_requested_range seed"
  shows "frames_read ports anchor r = Inr rows"
proof (cases anchor)
  case (SourceFrameAnchor scope start_frame end_frame)
  then show ?thesis
    using assms
    by (auto simp: frames_read_def frames_of_seed_def seed_of_def seed_source_frames_def interval_seed_def Let_def
        and_then_Inr_iff split: if_splits)
qed (use assms in \<open>auto simp: frames_read_def frames_of_seed_def seed_of_def seed_wall_clock_def
      seed_interaction_def seed_latest_interaction_def seed_payload_def seed_from_interaction_def
      seed_from_observation_def interval_seed_def and_then_Inr_iff split: if_splits\<close>)

section \<open>What eviction leaves of a request\<close>

definition clip_to :: "session_range \<Rightarrow> session_range \<Rightarrow> session_range" where
  "clip_to outer e = \<lparr>range_start = max (range_start e) (range_start outer),
     range_end = min (range_end e) (range_end outer)\<rparr>"

text \<open>An end of the request that lies in an evicted range moves to the outermost frame that was found.\<close>

definition left_by_eviction :: "session_range \<Rightarrow> session_range list \<Rightarrow> captured_frame list \<Rightarrow> session_range" where
  "left_by_eviction requested evicted rows =
     \<lparr>range_start = (if list_ex (\<lambda>e. range_contains e (range_start requested)) evicted
        then cf_session_time (hd rows) else range_start requested),
      range_end = (if list_ex (\<lambda>e. range_contains e (range_end requested)) evicted
        then cf_session_time (last rows) else range_end requested)\<rparr>"

lemma intersections:
  assumes "list_all2 (\<lambda>e i. intersection e requested = Inr i) xs ys"
  shows "ys = map (clip_to requested) xs"
  using assms by (induction rule: list_all2_induct) (auto simp: intersection_Inr_iff clip_to_def)

lemma evicted_end:
  assumes "wf_range requested" and "t \<in> {range_start requested, range_end requested}"
  shows "list_ex (\<lambda>i. range_contains i t) (map (clip_to requested) (filter (\<lambda>e. ranges_intersect e requested) es)) =
    list_ex (\<lambda>e. range_contains e t) es"
  using assms by (auto simp: list_ex_iff clip_to_def range_contains_iff ranges_intersect_def wf_range_def)

text \<open>The resolved range and its warnings, in terms of the request, the evicted ranges, the frames read and
  the retained bounds.\<close>

lemma classify_exact:
  assumes "classify_retention seed rows availability options now = Inr (resolved, warnings)"
    and "wf_range (sd_requested_range seed)"
  obtains retained where "fa_retained_bounds availability = Some retained"
    "resolved = clip_to retained (left_by_eviction (sd_requested_range seed) (fa_evicted_ranges availability) rows)"
    "warnings = retention_warnings (sd_requested_range seed)
       (left_by_eviction (sd_requested_range seed) (fa_evicted_ranges availability) rows) resolved
       (map (clip_to (sd_requested_range seed))
         (filter (\<lambda>e. ranges_intersect e (sd_requested_range seed)) (fa_evicted_ranges availability))) now"
proof -
  let ?requested = "sd_requested_range seed" and ?evicted = "fa_evicted_ranges availability"
  obtain retained intersecting candidate where bounds: "fa_retained_bounds availability = Some retained"
    and inter: "list_all2 (\<lambda>e i. intersection e ?requested = Inr i)
       (filter (\<lambda>e. ranges_intersect e ?requested) ?evicted) intersecting"
    and cand: "candidate_range seed rows intersecting retained = Inr candidate"
    and fit: "fit_to_bounds seed candidate retained (intersecting \<noteq> []) options = Inr resolved"
    and warn: "warnings = retention_warnings ?requested candidate resolved intersecting now"
    by (rule classify_cases [OF assms(1)])
  note clipped = intersections [OF inter]
  have "candidate = left_by_eviction ?requested ?evicted rows"
    using cand evicted_end [OF assms(2), of _ ?evicted]
    by (simp add: candidate_range_def left_by_eviction_def Let_def result_simps flip: clipped)
  moreover have "resolved = clip_to retained candidate"
    using fit by (auto simp: fit_to_bounds_Inr intersection_Inr_iff clip_to_def not_less max_def min_def split: if_splits)
  ultimately show thesis
    using that bounds warn clipped by simp
qed

text \<open>Each warning, and when it is given.\<close>

lemma retention_warnings_member:
  "RequestedStartBeforeOldestRetained a b \<in> set (retention_warnings requested candidate resolved evicted live) \<longleftrightarrow>
     a = range_start requested \<and> b = range_start resolved \<and> a < b"
  "RequestedEndAfterNewestRetained a b \<in> set (retention_warnings requested candidate resolved evicted live) \<longleftrightarrow>
     a = range_end requested \<and> b = range_end resolved \<and> b < a"
  "RequestedEndNotYetElapsed a b now \<in> set (retention_warnings requested candidate resolved evicted live) \<longleftrightarrow>
     live = Some now \<and> a = range_end requested \<and> b = range_end resolved \<and> b \<le> now \<and> now < a"
  "PartiallyEvicted q q' \<in> set (retention_warnings requested candidate resolved evicted live) \<longleftrightarrow>
     q = requested \<and> q' = resolved \<and> evicted \<noteq> []"
  "EvictedRanges es \<in> set (retention_warnings requested candidate resolved evicted live) \<longleftrightarrow>
     es = evicted \<and> evicted \<noteq> []"
  "PartiallyCaptured q q' \<in> set (retention_warnings requested candidate resolved evicted live) \<longleftrightarrow>
     q = requested \<and> q' = resolved \<and> resolved \<noteq> candidate"
  "InSessionTrimmingActive t \<notin> set (retention_warnings requested candidate resolved evicted live)"
  "ArtifactGraceOverridden t \<notin> set (retention_warnings requested candidate resolved evicted live)"
  by (auto simp: retention_warnings_def split: option.splits)

section \<open>A resolution\<close>

lemma resolution_exact:
  assumes "resolve ports anchor options = Inr r"
  obtains availability now retained rows where
    "rp_frame_availability ports (rr_session_id r) (rr_target_id r) = Inr availability"
    "live_session_now ports (rr_session_id r) availability = Inr now"
    "frames_read ports anchor r = Inr rows" "rows \<noteq> []"
    "\<forall>frame \<in> set rows. cf_session_id frame = rr_session_id r \<and> cf_target_id frame = rr_target_id r \<and>
       range_contains (rr_requested_range r) (cf_session_time frame)"
    "distinct (map cf_id rows)"
    "rr_frame_ids r = map cf_id (filter (\<lambda>frame. range_contains (rr_resolved_range r) (cf_session_time frame)) rows)"
    "rr_frame_ids r \<noteq> []"
    "within (rr_resolved_range r) (rr_requested_range r)" "wf_range (rr_resolved_range r)"
    "\<forall>e \<in> set (fa_evicted_ranges availability). \<not> ranges_intersect e (rr_resolved_range r)"
    "fa_retained_bounds availability = Some retained" "within (rr_resolved_range r) retained"
    "rr_resolved_range r =
       clip_to retained (left_by_eviction (rr_requested_range r) (fa_evicted_ranges availability) rows)"
    "rr_retention_warnings r = retention_warnings (rr_requested_range r)
       (left_by_eviction (rr_requested_range r) (fa_evicted_ranges availability) rows) (rr_resolved_range r)
       (map (clip_to (rr_requested_range r))
         (filter (\<lambda>e. ranges_intersect e (rr_requested_range r)) (fa_evicted_ranges availability))) now"
    "rr_retention_warnings r = [] \<longleftrightarrow> rr_resolved_range r = rr_requested_range r"
    "ro_retention options = RequireComplete \<Longrightarrow> rr_resolved_range r = rr_requested_range r"
proof -
  obtain seed where seed: "seed_of ports anchor options = Inr seed"
    and final: "finalize_range ports seed options = Inr r"
    using resolve_cases [OF assms] .
  obtain availability now rows where
    av: "rp_frame_availability ports (sd_session_id seed) (sd_target_id seed) = Inr availability"
      "live_session_now ports (sd_session_id seed) availability = Inr now"
    and read: "frames_of_seed ports seed = Inr rows" and nonempty: "rows \<noteq> []"
    and valid: "validate_frame_metadata seed rows (fa_evicted_ranges availability) = Inr ()"
    and classified: "classify_retention seed rows availability options now =
      Inr (rr_resolved_range r, rr_retention_warnings r)"
    and concluded: "conclude_range ports seed options availability rows (rr_resolved_range r)
      (rr_retention_warnings r) = Inr r"
    by (rule finalize_cases [OF final])
  note r = conclude_Inr [OF concluded]
  note effect = classify_effect [OF classified valid nonempty]
  have "wf_range (sd_requested_range seed)"
    using effect(1,2) by (auto simp: wf_range_def)
  then obtain retained where exact: "fa_retained_bounds availability = Some retained"
      "rr_resolved_range r =
        clip_to retained (left_by_eviction (sd_requested_range seed) (fa_evicted_ranges availability) rows)"
      "rr_retention_warnings r = retention_warnings (sd_requested_range seed)
         (left_by_eviction (sd_requested_range seed) (fa_evicted_ranges availability) rows) (rr_resolved_range r)
         (map (clip_to (sd_requested_range seed))
           (filter (\<lambda>e. ranges_intersect e (sd_requested_range seed)) (fa_evicted_ranges availability))) now"
    by (rule classify_exact [OF classified])
  show thesis
    by (rule that [of availability now rows retained])
      (use seed_reads [OF seed read, of r] av nonempty valid effect exact r(4-6,8,11)
       in \<open>auto simp: validate_frames_Inr simp del: filter_empty_conv\<close>)
qed

end
