(* ===== verification/Evidence_Properties.thy ===== *)
theory Evidence_Properties
  imports Evidence_Sample Range_Evidence
begin

text \<open>
  What a client may rely on when it asks for a range of a recorded session: the properties of the range
  resolver over any storage, and over the metadata index after any history of its transactions.
\<close>

section \<open>Over any storage\<close>

lemma live_session_cases:
  assumes "live_session_now ports session_id availability = Inr (Some now)"
  shows "\<exists>session. rp_session ports session_id = Inr (Some session) \<and> rs_ended_at session = None \<and>
    rs_lifecycle session \<in> {SessionStarting, SessionRecording, SessionReconnecting} \<and>
    normalize_time \<lparr>origin_observed = rs_origin session\<rparr> (rp_now ports) = Inr now"
proof -
  obtain session where found: "rp_session ports session_id = Inr (Some session)"
      "rs_ended_at session = None \<and> rs_lifecycle session \<in> {SessionStarting, SessionRecording, SessionReconnecting}"
    using assms by (auto simp: live_session_now_def and_then_Inr_iff split: option.splits if_split_asm)
  then have "normalize_time \<lparr>origin_observed = rs_origin session\<rparr> (rp_now ports) = Inr now"
    using assms by (auto simp: live_session_now_def split: option.splits if_split_asm sum.splits)
  then show ?thesis
    using found by blast
qed

text \<open>C6: A resolved range is true of what storage reported, whatever storage
  reports. Its interval is ordered, inside the requested one and inside the retained bounds, and meets
  no evicted range. Its frames are exactly those of the frames storage returned for the request (for a
  selection of source frames, for the ordinals of its end points) whose instant is inside the interval, in
  the order of storage, each once and at least one; all are of the range's session and target.\<close>

theorem resolved_evidence_true:
  assumes "resolve ports anchor options = Inr r"
  shows "wf_range (rr_resolved_range r) \<and> within (rr_resolved_range r) (rr_requested_range r) \<and>
    (\<exists>availability retained rows.
       rp_frame_availability ports (rr_session_id r) (rr_target_id r) = Inr availability \<and>
       fa_retained_bounds availability = Some retained \<and> within (rr_resolved_range r) retained \<and>
       (\<forall>e \<in> set (fa_evicted_ranges availability). \<not> ranges_intersect e (rr_resolved_range r)) \<and>
       frames_read ports anchor r = Inr rows \<and>
       rr_frame_ids r =
         map cf_id (filter (\<lambda>frame. range_contains (rr_resolved_range r) (cf_session_time frame)) rows) \<and>
       rr_frame_ids r \<noteq> [] \<and> distinct (rr_frame_ids r) \<and>
       (\<forall>frame \<in> set rows. cf_session_id frame = rr_session_id r \<and> cf_target_id frame = rr_target_id r))"
  by (rule resolution_exact [OF assms]) (auto simp: distinct_map_filter)

theorem resolved_evidence_true_witness:
  "wf_range (rr_resolved_range sample_range) \<and> rr_frame_ids sample_range = [FrameId 20, FrameId 30]"
  using resolved_evidence_true [OF sample_resolution] by (simp add: sample_range_def)

text \<open>C8: Nothing is dropped silently. The resolved range is the requested one, an end
  that was evicted moved to the outermost frame found, cut to the retained bounds; and its warnings say
  so exactly. The start (the end) is reported as moved with both instants if and only if it moved, the
  evicted ranges that meet the request are reported, cut to it and in order, if and only if there is one,
  the cut by the retained bounds is reported if and only if there was one, and the end is reported as
  not yet elapsed if and only if the live session's clock has not reached it; no other warning is given.
  The warnings are empty exactly when the whole request was resolved, as it is under the policy that
  requires complete retention.\<close>

theorem partial_is_declared:
  assumes "resolve ports anchor options = Inr r"
  shows "\<exists>availability live retained rows.
    rp_frame_availability ports (rr_session_id r) (rr_target_id r) = Inr availability \<and>
    live_session_now ports (rr_session_id r) availability = Inr live \<and>
    fa_retained_bounds availability = Some retained \<and> frames_read ports anchor r = Inr rows \<and>
    (let requested = rr_requested_range r; resolved = rr_resolved_range r; warnings = set (rr_retention_warnings r);
         left = left_by_eviction requested (fa_evicted_ranges availability) rows;
         evicted = filter (\<lambda>e. ranges_intersect e requested) (fa_evicted_ranges availability) in
     resolved = clip_to retained left \<and>
     (\<forall>a b. RequestedStartBeforeOldestRetained a b \<in> warnings \<longleftrightarrow>
        a = range_start requested \<and> b = range_start resolved \<and> a < b) \<and>
     (\<forall>a b. RequestedEndAfterNewestRetained a b \<in> warnings \<longleftrightarrow>
        a = range_end requested \<and> b = range_end resolved \<and> b < a) \<and>
     (\<forall>a b now. RequestedEndNotYetElapsed a b now \<in> warnings \<longleftrightarrow>
        live = Some now \<and> a = range_end requested \<and> b = range_end resolved \<and> b \<le> now \<and> now < a) \<and>
     (\<forall>a b. PartiallyEvicted a b \<in> warnings \<longleftrightarrow> a = requested \<and> b = resolved \<and> evicted \<noteq> []) \<and>
     (\<forall>es. EvictedRanges es \<in> warnings \<longleftrightarrow> es = map (clip_to requested) evicted \<and> evicted \<noteq> []) \<and>
     (\<forall>a b. PartiallyCaptured a b \<in> warnings \<longleftrightarrow> a = requested \<and> b = resolved \<and> resolved \<noteq> left) \<and>
     (\<forall>t. InSessionTrimmingActive t \<notin> warnings \<and> ArtifactGraceOverridden t \<notin> warnings) \<and>
     (rr_retention_warnings r = [] \<longleftrightarrow> resolved = requested) \<and>
     (ro_retention options = RequireComplete \<longrightarrow> resolved = requested))"
proof (rule resolution_exact [OF assms])
  fix availability live retained rows
  assume exact: "rp_frame_availability ports (rr_session_id r) (rr_target_id r) = Inr availability"
      "live_session_now ports (rr_session_id r) availability = Inr live"
      "fa_retained_bounds availability = Some retained" "frames_read ports anchor r = Inr rows"
    and rest: "rr_resolved_range r =
        clip_to retained (left_by_eviction (rr_requested_range r) (fa_evicted_ranges availability) rows)"
      "rr_retention_warnings r = [] \<longleftrightarrow> rr_resolved_range r = rr_requested_range r"
      "ro_retention options = RequireComplete \<Longrightarrow> rr_resolved_range r = rr_requested_range r"
    and warnings: "rr_retention_warnings r = retention_warnings (rr_requested_range r)
        (left_by_eviction (rr_requested_range r) (fa_evicted_ranges availability) rows) (rr_resolved_range r)
        (map (clip_to (rr_requested_range r))
          (filter (\<lambda>e. ranges_intersect e (rr_requested_range r)) (fa_evicted_ranges availability))) live"
  show ?thesis
    by (rule exI [of _ availability], rule exI [of _ live], rule exI [of _ retained], rule exI [of _ rows])
      (use exact rest in \<open>auto simp: Let_def warnings retention_warnings_member\<close>)
qed

theorem partial_is_declared_witness:
  "RequestedStartBeforeOldestRetained (SessionTime 10) (SessionTime 20) \<in> set (rr_retention_warnings sample_range) \<and>
    PartiallyEvicted (sample_interval 10 48) (sample_interval 20 30) \<in> set (rr_retention_warnings sample_range) \<and>
    rr_resolved_range sample_range \<noteq> rr_requested_range sample_range"
  using partial_is_declared [OF sample_resolution]
  by (auto simp: index_ports_def sample_lookups sample_range_def sample_interval_def)

text \<open>C10: A resolved range says that the end of the request has not elapsed only of a
  session that is still recording, and then truly: the reported instant is the session's clock, which has
  reached the end of the resolved range and not the end of the request.\<close>

theorem not_yet_elapsed_true:
  assumes "resolve ports anchor options = Inr r"
    and "RequestedEndNotYetElapsed requested_end newest now \<in> set (rr_retention_warnings r)"
  shows "requested_end = range_end (rr_requested_range r) \<and> newest = range_end (rr_resolved_range r) \<and>
    newest \<le> now \<and> now < requested_end \<and>
    (\<exists>session. rp_session ports (rr_session_id r) = Inr (Some session) \<and> rs_ended_at session = None \<and>
       rs_lifecycle session \<in> {SessionStarting, SessionRecording, SessionReconnecting} \<and>
       normalize_time \<lparr>origin_observed = rs_origin session\<rparr> (rp_now ports) = Inr now)"
proof -
  obtain seed where "finalize_range ports seed options = Inr r"
    using resolve_cases [OF assms(1)] .
  then obtain availability live frames where
    live: "live_session_now ports (sd_session_id seed) availability = Inr live"
    and classified: "classify_retention seed frames availability options live =
      Inr (rr_resolved_range r, rr_retention_warnings r)"
    and concluded: "conclude_range ports seed options availability frames (rr_resolved_range r)
      (rr_retention_warnings r) = Inr r"
    by (rule finalize_cases)
  note r = conclude_Inr(4,6) [OF concluded]
  obtain candidate intersecting where
    "rr_retention_warnings r = retention_warnings (sd_requested_range seed) candidate (rr_resolved_range r) intersecting live"
    by (rule classify_cases [OF classified])
  then have warned: "live = Some now" "requested_end = range_end (rr_requested_range r)"
      "newest = range_end (rr_resolved_range r)" "newest \<le> now" "now < requested_end"
    using assms(2) r(2) by (auto simp: retention_warnings_def split: if_splits option.splits)
  then show ?thesis
    using live_session_cases [of ports "sd_session_id seed" availability now] live r(1) by auto
qed

theorem not_yet_elapsed_true_witness:
  "rp_session (index_ports sample_store (ObservedTime 1045)) (SessionId 1) = Inr (Some sample_session) \<and>
    range_end (rr_resolved_range sample_range) \<le> SessionTime 45 \<and>
    SessionTime 45 < range_end (rr_requested_range sample_range)"
  using not_yet_elapsed_true [OF sample_resolution, of "SessionTime 48" "SessionTime 30" "SessionTime 45"]
  by (simp add: sample_range_def sample_interval_def index_ports_def sample_lookups)

section \<open>Over the metadata index\<close>

text \<open>C5: Whatever transactions the index has run, it keeps its invariant, and every
  frame ever captured for a session that was not deleted, and not withdrawn by recovery, is still indexed
  or its instant is recorded as evicted.\<close>

theorem nothing_lost_silently:
  assumes "index_history ix captured"
  shows "index_ok ix \<and> accounted captured ix"
  by (rule index_invariant [OF assms])

theorem nothing_lost_silently_witness:
  "accounted sample_captured sample_store \<and> length (ix_frames sample_store) < length sample_captured"
  using nothing_lost_silently [OF sample_history] by (simp add: sample_captured_def sample_stores)



text \<open>C9: A resolved range can be asked for again. Unless it came from a selection of source frames,
  its own interval, requested under any retention policy and the same policy for capture gaps, resolves
  whole, without a warning, to the same frames, gaps, interactions, navigations and markers.\<close>

theorem resolution_is_stable:
  assumes "index_history ix captured" and "resolve (index_ports ix now) anchor options = Inr r"
    and "rr_anchor_kind r \<noteq> SourceFrameKind" and "ro_capture_gaps options' = ro_capture_gaps options"
  shows "\<exists>r'. resolve (index_ports ix now) (SessionTimeAnchor \<lparr>is_session_id = rr_session_id r,
        is_target_id = rr_target_id r\<rparr> (rr_resolved_range r)) options' = Inr r' \<and>
      rr_resolved_range r' = rr_resolved_range r \<and> rr_retention_warnings r' = [] \<and>
      rr_frame_ids r' = rr_frame_ids r \<and> rr_gaps r' = rr_gaps r \<and>
      rr_interaction_ids r' = rr_interaction_ids r \<and> rr_navigation_ids r' = rr_navigation_ids r \<and>
      rr_marker_ids r' = rr_marker_ids r"
  by (rule metadata.stable [OF assms])

theorem resolution_is_stable_witness:
  "\<exists>r'. resolve (index_ports sample_store (ObservedTime 1045))
      (SessionTimeAnchor sample_scope (sample_interval 20 30)) default_options = Inr r' \<and>
    rr_retention_warnings r' = [] \<and> rr_frame_ids r' = [FrameId 20, FrameId 30]"
  using resolution_is_stable [OF sample_history sample_resolution, of default_options]
  by (auto simp: sample_range_def sample_scope_def sample_options_def)

text \<open>C7: The eviction record is a set of instants. Recording an evicted range adds its
  instants to those of its session and target and to no other, changes no other table, and what the index
  then reports for any session and target is that set as ranges in order, none adjacent to the next.\<close>

theorem eviction_refines_set:
  assumes "index_history ix captured" and "wf_range interval"
    and "record_evicted_frame_range session target interval ix = Inr ix'"
  shows "ix' = ix\<lparr>ix_evicted := ix_evicted ix'\<rparr> \<and>
    evicted_instants s t (ix_evicted ix') = evicted_instants s t (ix_evicted ix) \<union>
      (if s = session \<and> t = target then instants interval else {}) \<and>
    (\<exists>ranges. evicted_ranges s t ix' = Inr ranges \<and> \<Union> (instants ` set ranges) = evicted_instants s t (ix_evicted ix') \<and>
       \<not> adjacent not_coalesced ranges)"
proof -
  have "evicted_ok (ix_evicted ix)"
    using index_invariant [OF assms(1)] by (simp add: index_ok_def)
  note effect = record_evicted_effect [OF this assms(2,3)]
  have "evicted_instants s t (ix_evicted ix') = evicted_instants s t (ix_evicted ix) \<union>
      (if s = session \<and> t = target then instants interval else {})"
    using effect(3,4) by auto
  moreover note effect(2) evicted_ranges_total [OF effect(1), of s t]
  ultimately show ?thesis
    by (auto simp: evicted_instants_def evicted_rows_def)
qed

lemma sample_eviction:
  "\<exists>ix'. record_evicted_frame_range (SessionId 1) (TargetId 2) (sample_interval 11 12) sample_store = Inr ix'"
  by (cases "coalesce_rows (evicted_rows (SessionId 1) (TargetId 2) (ix_evicted sample_store)) (sample_interval 11 12) []")
    (simp add: record_evicted_frame_range_def, simp add: sample_stores)

theorem eviction_refines_set_witness:
  "\<exists>ix'. record_evicted_frame_range (SessionId 1) (TargetId 2) (sample_interval 11 12) sample_store = Inr ix' \<and>
    evicted_instants (SessionId 1) (TargetId 2) (ix_evicted ix') =
      instants (sample_interval 10 10) \<union> instants (sample_interval 11 12)"
proof -
  obtain ix' where run: "record_evicted_frame_range (SessionId 1) (TargetId 2) (sample_interval 11 12) sample_store = Inr ix'"
    using sample_eviction by blast
  have "evicted_instants (SessionId 1) (TargetId 2) (ix_evicted sample_store) = instants (sample_interval 10 10)"
    by (simp add: evicted_instants_def in_scope_def sample_stores sample_interval_def Collect_conv_if)
  then show ?thesis
    using eviction_refines_set [OF sample_history _ run, of "SessionId 1" "TargetId 2"] run
    by (auto simp: wf_range_def sample_interval_def)
qed

end
