(* ===== verification/Spec2Isabelle.thy ===== *)
theory Spec2Isabelle
  imports Segment_Properties Writer_Properties Recovery_Properties Target_Failures Event_Properties Evidence_Properties
begin

text \<open>
  Krometrail records what a browser shows as sequences of encoded frames, keeps them within a disk budget and
  lets a client ask for ranges of them later, with the browser events around them. This library models the
  parts that decide what is kept, what is read back and what is said about it; the constructors, constants and
  functions carry the names of the Rust sources. Paths below are under \<open>src/crates/\<close>.

  \<^bold>\<open>Parts and how they meet.\<close> A capture belongs to a page target; the target supervisor decides when one starts and
  ends. Each captured frame goes to the segment writer, which appends it to the open segment of its session and
  target and answers with a commit: the address, the active segment and any segment it sealed. The commit
  becomes one transaction of the metadata index, beside transactions for gaps, interactions, browser events,
  pins, artifacts and deletions. After a crash, recovery normalises the segment files. A client gives an anchor;
  the range resolver turns it into a resolved range by asking the index, and the temporal context describes that
  range by asking the index again.

  \<^bold>\<open>Shared.\<close> \<open>Prelude\<close>: machine integers as words with the checked and saturating operations of Rust, fallible
  results as sums with \<open>and_then\<close> for the question mark operator, folds that stop at an error. \<open>Hash_Map\<close>:
  hash maps as association lists with distinct keys whose order stands for the unspecified iteration order.
  \<open>Command_Machine\<close>: a locale for a component that takes commands one at a time, with invariants along runs;
  the writer and the supervisor are instances.

  \<^bold>\<open>Values.\<close> \<open>Core_Values\<close> (\<open>krometrail-core/src\<close>: \<open>time.rs\<close>, \<open>ids.rs\<close>, \<open>error.rs\<close>,
  \<open>recording/frame.rs\<close>, \<open>recording/address.rs\<close>), \<open>Browser_Values\<close> (\<open>lifecycle.rs\<close>, \<open>browser/\<close>),
  \<open>Timeline_Values\<close> (\<open>timeline/observation.rs\<close>, \<open>recording/gap.rs\<close>, \<open>recording/session.rs\<close>,
  \<open>progressive.rs\<close>), \<open>Browser_Events\<close> (\<open>browser/events.rs\<close>, \<open>ports/browser_events.rs\<close>).

  \<^bold>\<open>Segment store\<close> (\<open>krometrail-store/src/segments\<close>, \<open>recovery.rs\<close>). \<open>Wire\<close>, \<open>Segment_Format\<close> and
  \<open>Frame_Record\<close> are the encoders and decoders byte for byte; \<open>Segment_Scanner\<close> the scan and random access;
  \<open>Storage_Env\<close> the file system: the files with their contents and a script that gives the outcome of each
  system call; \<open>Segment_Writer\<close> the worker's commands; \<open>Segment_Recovery\<close> the analysis, normalisation and
  quarantine of files. \<open>Writer_Durability\<close> has the worker's invariant and its preservation whatever call fails;
  \<open>Recovery_Correct\<close> and \<open>Recovery_Pass\<close> what recovery establishes of a file and of the directory. The
  properties are in \<open>Segment_Properties\<close>, \<open>Writer_Properties\<close>, \<open>Recovery_Properties\<close> and at the end of
  this theory.

  \<^bold>\<open>Target supervisor\<close> (\<open>krometrail-cdp/src/targets\<close>, \<open>session/runtime.rs\<close>, \<open>session/operations.rs\<close>).
  \<open>Target_Model\<close> and \<open>Target_Reducer\<close> are its state, inputs, effects and the whole reducer;
  \<open>Target_Invariant\<close> and \<open>Target_Steps\<close> show that every operation keeps the invariant and changes the state
  only as allowed, \<open>Target_Supervision\<close> lifts it to the event loop, \<open>Target_Captures\<close> follows the captures
  through it; the properties are in \<open>Target_Properties\<close> and \<open>Target_Failures\<close>. A run is a sequence of inputs
  of the event loop, which keeps its state when one fails; \<open>commit_supervisor_input\<close> is how the page operations
  and \<open>apply_effects\<close> reduce an input, which loses the state when it fails, and is not part of a run.

  \<^bold>\<open>Metadata index\<close> (\<open>krometrail-store/src/index\<close>). \<open>Index_Tables\<close> holds the tables as lists of rows in a
  record \<open>metadata_index\<close>; \<open>Index_Evictions\<close>, \<open>Index_Frames\<close>, \<open>Index_Catalog\<close>, \<open>Index_Deletion\<close>,
  \<open>Index_Retention\<close>, \<open>Index_Events\<close>, \<open>Index_Event_Queries\<close> and \<open>Index_Event_Recovery\<close> its transactions and
  queries. \<open>Index_Steps\<close> collects the transactions in a datatype and defines \<open>index_history\<close>: the index after
  any sequence of them, with the frames captured and not deleted on request. \<open>Index_Effects\<close> and
  \<open>Index_Invariant\<close> prove the invariant of the evidence tables over histories, \<open>Event_Consistency\<close> and
  \<open>Event_History\<close> that of the event tables, \<open>Event_Retention\<close> that no event goes without a record.

  \<^bold>\<open>Range resolution\<close> (\<open>krometrail-core/src/timeline/range.rs\<close>, \<open>query.rs\<close>). \<open>Range_Model\<close> and
  \<open>Range_Resolver\<close> are the anchors, options, warnings and every step; \<open>Range_Correct\<close> says what each step
  establishes, \<open>Range_Evidence\<close> the exact frames and warnings of a resolution; \<open>Range_Contract\<close> is the locale
  of the ports' promises, \<open>Index_Evidence\<close> its interpretation by the index; the properties are in \<open>Evidence_Properties\<close> with the history of \<open>Evidence_Sample\<close>.

  \<^bold>\<open>Temporal context\<close> (\<open>krometrail-core/src/timeline/context.rs\<close>). \<open>Temporal_Context\<close> is the request, the
  capture quality and both selections of events; \<open>Context_Quality\<close> shows that the counts are exact,
  \<open>Event_Paging\<close> has the locale of an event source that is read by cursors and its interpretation by the
  index; the properties are in \<open>Event_Properties\<close> with the index of \<open>Event_Sample\<close>.
\<close>

text \<open>
  \<^bold>\<open>Abstract specifications.\<close> The disk of the writer is specified by \<open>stored\<close> (an address at which a file holds
  the record of a frame) and \<open>readable\<close>; sealing by \<open>published\<close>; the eviction table by the set of
  instants it stands for; eviction of events by \<open>evicted_from\<close>; paging by the sorted list \<open>events_listed\<close>;
  gaps by the union of intervals of numbers; epochs by \<open>epoch_runs\<close>; a resolved range by
  \<open>left_by_eviction\<close> and \<open>clip_to\<close>.

  \<^bold>\<open>Parameters and assumptions.\<close> The checksum is a parameter \<open>crc\<close> about which nothing is assumed. New
  identifiers come from a function \<open>new_v4\<close>; where a property needs it, \<open>ids_fresh\<close> says that the first
  drawn ones are distinct and not in use. Failing system calls are chosen by the script of the disk, any script.
  A failing statement of SQLite is the rollback of its transaction. Columns hold decoded values, compared in the
  order of their blobs (\<open>u64_blob_order\<close>). The payload of a browser event is known by the results of its
  methods and the length of its JSON. The promises of callers are the predicates \<open>commit_ok\<close>, \<open>batch_ok\<close> and
  \<open>event_typed\<close> in \<open>op_ok\<close>. A segment file stays below \<open>2 ^ 61\<close> bytes where offsets are added
  (\<open>all_fit\<close>), below \<open>2 ^ 63\<close> for a scan to be total.

  \<^bold>\<open>Termination and fuel.\<close> The scan ends because every record takes bytes off the rest of the file;
  the recovery loops over events end because every round takes rows away or moves the key on;
  \<open>page_walk\<close> follows cursors with fuel, and one more than the number of events suffices.

  \<^bold>\<open>Not modelled.\<close> JSON by serde and the message texts that format values; the threads and channels around the
  writer; applying the supervisor's effects to a browser; SQLite itself, its connections, WAL and busy handling;
  reconciliation of the index with segment files and the usage snapshots; the recording facade's asynchronous
  composition; browser traffic, the MCP server, image processing and child processes.
\<close>

section \<open>Properties that span components\<close>

text \<open>C1: A frame the writer has acknowledged survives a crash of the
  process and the recovery that follows it. Take any run of the writer, failing calls included;
  stop it anywhere; run the filesystem phases of recovery on the files as they are, with failing
  calls again: the committed address still reads the frame.\<close>

theorem acknowledged_survive_recovery:
  assumes "ids_fresh new_v4 (disk_uuids d + 4 * length cs) d" and "list_all acceptable_command cs"
    and "segment_writer_open config d = Inr ws" and "run_commands crc new_v4 cs ws = (replies, ws')"
    and "i < length cs" and "cs ! i = AppendFrame frame" and "replies ! i = AppendReply (Inr commit)"
    and "all_fit crc (ws_disk ws')" and "listed listing (ws_disk ws')"
    and "recover_files crc listing \<lparr>sd_disk = (ws_disk ws')\<lparr>disk_script := script\<rparr>, sd_corrupt = corrupt\<rparr> = (r, sd')"
  shows "readable crc (sd_disk sd') (fc_address commit) frame"
proof -
  let ?sd = "\<lparr>sd_disk = (ws_disk ws')\<lparr>disk_script := script\<rparr>, sd_corrupt = corrupt\<rparr>"
  have "stored crc (sd_disk ?sd) (fc_address commit) frame"
    using run_commands_stored [OF assms(1-7)] by (simp add: stored_def)
  moreover have "all_fit crc (sd_disk ?sd)" "listed listing (sd_disk ?sd)"
    using assms(8,9) by (simp_all add: all_fit_def listed_def)
  ultimately show ?thesis
    using recover_files_effect [OF assms(10)] stored_readable by blast
qed

lemma acknowledged_survive_recovery_witness:
  "\<exists>commit :: frame_write_commit. readable sample_crc (sd_disk (snd (recover_files sample_crc [SegmentId 0]
     \<lparr>sd_disk = (ws_disk one_frame_worker)\<lparr>disk_script := [IoOk, IoOk, IoError IoStorageFull 7]\<rparr>,
      sd_corrupt = (\<lambda>_. None)\<rparr>))) (fc_address commit) (sample_frame 0)"
proof -
  let ?cs = "[AppendFrame (sample_frame 0)]"
  obtain commit where "run_command sample_crc sample_v4 (AppendFrame (sample_frame 0)) (sample_worker []) =
      (AppendReply (Inr commit), one_frame_worker)"
    using one_frame_reply by blast
  then have run: "run_commands sample_crc sample_v4 ?cs (sample_worker []) = ([AppendReply (Inr commit)], one_frame_worker)"
    by (simp add: run_commands_def del: run_command.simps)
  have fresh: "ids_fresh sample_v4 (disk_uuids (sample_disk []) + 4 * length ?cs) (sample_disk [])"
    by (simp add: sample_ids_fresh)
  have ok: "list_all acceptable_command ?cs"
    by (simp add: acceptable_command_def sample_frame_acceptable)
  have fit: "all_fit sample_crc (ws_disk one_frame_worker)"
    using one_frame_files unfolding all_fit_def fits_def by fastforce
  have listed: "listed [SegmentId 0] (ws_disk one_frame_worker)"
    using one_frame_files by (auto simp: listed_def)
  have "readable sample_crc (sd_disk sd') (fc_address commit) (sample_frame 0)"
    if "recover_files sample_crc [SegmentId 0] \<lparr>sd_disk = (ws_disk one_frame_worker)\<lparr>disk_script := [IoOk, IoOk, IoError IoStorageFull 7]\<rparr>,
      sd_corrupt = (\<lambda>_. None)\<rparr> = (r, sd')" for r sd'
    by (rule acknowledged_survive_recovery [where i = 0, OF fresh ok sample_open run _ _ _ fit listed that]) simp_all
  from this [OF prod.collapse [symmetric]] show ?thesis
    by (rule exI)
qed

end
